(* ===== verification/Prelude.thy ===== *)
theory Prelude
  imports Main "HOL-Library.Word" "HOL-Library.Signed_Division" "HOL-Library.Monad_Syntax"
begin

text \<open>
  Shared vocabulary of the development: the machine integer types of the source, the
  slice accesses of Rust's standard library (\<open>get(off..)\<close>, \<open>get(..n)\<close>,
  \<open>copy_from_slice\<close>, \<open>resize\<close>), checked and saturating arithmetic, little-endian bytes,
  the split of a 64-bit value into two 32-bit words, and the lemma collections that the
  component theories extend:
  \<^item> \<open>slice_simps\<close>: facts on slices and overwrites;
  \<^item> \<open>stack_simps\<close>: the stack primitives on live words;
  \<^item> \<open>exec_simps\<close>: the symbolic evaluation rules of straight-line code;
  \<^item> \<open>word_split_simps\<close>: the bits of split and joined words.
\<close>

unbundle bit_operations_syntax

named_theorems slice_simps "slices and overwrites of vectors"
named_theorems stack_simps "stack primitives on the live words"
named_theorems exec_simps "symbolic evaluation of straight-line code"
named_theorems word_split_simps "bits of split and joined words"

section \<open>Machine integers\<close>

type_synonym u8 = "8 word"
type_synonym u16 = "16 word"
type_synonym u32 = "32 word"
type_synonym u64 = "64 word"

text \<open>\<open>u32::checked_add\<close>, \<open>u32::checked_sub\<close>, \<open>u32::saturating_add\<close>,
  \<open>u64::saturating_add\<close> and \<open>u64::saturating_sub\<close> of the standard library.\<close>

definition checked_add :: "'a::len word \<Rightarrow> 'a word \<Rightarrow> 'a word option" where
  "checked_add a b = (if unat a + unat b < 2 ^ LENGTH('a) then Some (a + b) else None)"

definition checked_sub :: "'a::len word \<Rightarrow> 'a word \<Rightarrow> 'a word option" where
  "checked_sub a b = (if b \<le> a then Some (a - b) else None)"

definition saturating_add :: "'a::len word \<Rightarrow> 'a word \<Rightarrow> 'a word" where
  "saturating_add a b = (if unat a + unat b < 2 ^ LENGTH('a) then a + b else - 1)"

definition saturating_sub :: "'a::len word \<Rightarrow> 'a word \<Rightarrow> 'a word" where
  "saturating_sub a b = (if b \<le> a then a - b else 0)"

lemma unat_less: "unat w < 2 ^ LENGTH('a)" for w :: "'a::len word"
  by (rule unsigned_less)

lemma checked_add_Some_iff:
  "checked_add a b = Some c \<longleftrightarrow> unat a + unat b = unat c"
proof
  assume "checked_add a b = Some c"
  then show "unat a + unat b = unat c"
    by (auto simp: checked_add_def unat_word_ariths split: if_splits)
next
  assume eq: "unat a + unat b = unat c"
  then have "unat (a + b) = unat c"
    by (simp add: unat_word_ariths)
  moreover have "unat a + unat b < 2 ^ LENGTH('a)"
    using eq by simp
  ultimately show "checked_add a b = Some c"
    by (simp add: checked_add_def word_unat_eq_iff)
qed

lemma unat_saturating_add:
  "unat (saturating_add a b) = min (unat a + unat b) (2 ^ LENGTH('a) - 1)"
  for a b :: "'a::len word"
  by (auto simp: saturating_add_def unat_word_ariths unsigned_minus_1_eq_mask mask_eq_exp_minus_1)

lemma unat_saturating_sub: "unat (saturating_sub a b) = unat a - unat b"
  for a b :: "'a::len word"
  by (auto simp: saturating_sub_def unat_sub word_le_nat_alt)

section \<open>Slices of vectors\<close>

text \<open>\<open>xs.get(off..).and_then(|s| s.get(..n))\<close>: the \<open>n\<close> elements at \<open>off\<close>, or nothing
  when the range leaves the vector.\<close>

definition slice_get :: "'a list \<Rightarrow> nat \<Rightarrow> nat \<Rightarrow> 'a list option" where
  "slice_get xs off n =
     (if off \<le> length xs \<and> n \<le> length xs - off then Some (take n (drop off xs)) else None)"

text \<open>\<open>copy_from_slice\<close> into the range that starts at \<open>off\<close>.\<close>

definition overwrite :: "'a list \<Rightarrow> nat \<Rightarrow> 'a list \<Rightarrow> 'a list" where
  "overwrite xs off ys = take off xs @ ys @ drop (off + length ys) xs"

text \<open>\<open>Vec::resize\<close>: truncates, or pads with the value.\<close>

definition vec_resize :: "nat \<Rightarrow> 'a \<Rightarrow> 'a list \<Rightarrow> 'a list" where
  "vec_resize n v xs = take n xs @ replicate (n - length xs) v"

lemma slice_get_Some_iff [slice_simps]:
  "slice_get xs off n = Some ys \<longleftrightarrow> off + n \<le> length xs \<and> ys = take n (drop off xs)"
  by (auto simp: slice_get_def split: if_splits)

lemma slice_get_None_iff [slice_simps]:
  "slice_get xs off n = None \<longleftrightarrow> length xs < off + n"
  by (auto simp: slice_get_def)

lemma length_overwrite [simp, slice_simps]:
  "off + length ys \<le> length xs \<Longrightarrow> length (overwrite xs off ys) = length xs"
  by (simp add: overwrite_def)

lemma overwrite_Nil [simp, slice_simps]: "overwrite xs off [] = xs"
  by (simp add: overwrite_def)

lemma nth_overwrite:
  "off + length ys \<le> length xs \<Longrightarrow> i < length xs \<Longrightarrow>
   overwrite xs off ys ! i = (if off \<le> i \<and> i < off + length ys then ys ! (i - off) else xs ! i)"
  by (auto simp: overwrite_def nth_append min_def)

lemma slice_get_overwrite_same [slice_simps]:
  "off + length ys \<le> length xs \<Longrightarrow> slice_get (overwrite xs off ys) off (length ys) = Some ys"
  by (simp add: slice_get_Some_iff) (simp add: overwrite_def)

lemma slice_get_overwrite_disjoint:
  assumes "off + length ys \<le> length xs" and "off' + n \<le> off \<or> off + length ys \<le> off'"
  shows "slice_get (overwrite xs off ys) off' n = slice_get xs off' n"
proof (cases "off' + n \<le> length xs")
  case True
  have "take n (drop off' (overwrite xs off ys)) = take n (drop off' xs)"
    using True assms by (intro nth_equalityI) (auto simp: nth_overwrite)
  with True assms show ?thesis by (simp add: slice_get_def)
next
  case False
  then have "slice_get (overwrite xs off ys) off' n = None" and "slice_get xs off' n = None"
    using assms by (simp_all add: slice_get_None_iff)
  then show ?thesis by simp
qed

lemma length_vec_resize [simp]: "length (vec_resize n v xs) = n"
  by (simp add: vec_resize_def)

lemma nth_vec_resize:
  "i < n \<Longrightarrow> vec_resize n v xs ! i = (if i < length xs then xs ! i else v)"
  by (auto simp: vec_resize_def nth_append)

section \<open>Little-endian bytes\<close>

fun le_nat :: "u8 list \<Rightarrow> nat" where
  "le_nat [] = 0"
| "le_nat (b # bs) = unat b + 256 * le_nat bs"

definition from_le_bytes :: "u8 list \<Rightarrow> 'a::len word" where
  "from_le_bytes bs = word_of_nat (le_nat bs)"

fun nat_le :: "nat \<Rightarrow> nat \<Rightarrow> u8 list" where
  "nat_le 0 n = []"
| "nat_le (Suc k) n = word_of_nat n # nat_le k (n div 256)"

text \<open>\<open>w.to_le_bytes()\<close> of an integer of \<open>k\<close> bytes.\<close>

definition to_le_bytes :: "nat \<Rightarrow> 'a::len word \<Rightarrow> u8 list" where
  "to_le_bytes k w = nat_le k (unat w)"

lemma length_nat_le [simp]: "length (nat_le k n) = k"
  by (induction k arbitrary: n) auto

lemma length_to_le_bytes [simp]: "length (to_le_bytes k w) = k"
  by (simp add: to_le_bytes_def)

lemma le_nat_nat_le: "le_nat (nat_le k n) = n mod 256 ^ k"
proof (induction k arbitrary: n)
  case (Suc k)
  have "le_nat (nat_le (Suc k) n) = n mod 256 + 256 * (n div 256 mod 256 ^ k)"
    by (simp add: Suc.IH unat_of_nat)
  also have "\<dots> = n mod 256 ^ Suc k"
    by (metis mod_mult2_eq power_Suc add.commute)
  finally show ?case .
qed simp

lemma from_le_to_le_bytes:
  "LENGTH('a) = 8 * k \<Longrightarrow> from_le_bytes (to_le_bytes k (w :: 'a::len word)) = w"
  using unat_less [of w]
  by (simp add: from_le_bytes_def to_le_bytes_def le_nat_nat_le power_mult)

section \<open>A 64-bit value as two 32-bit words\<close>

definition lo32 :: "u64 \<Rightarrow> u32" where
  "lo32 w = ucast (w AND 0xFFFFFFFF)"

definition hi32 :: "u64 \<Rightarrow> u32" where
  "hi32 w = ucast (drop_bit 32 w)"

definition join64 :: "u32 \<Rightarrow> u32 \<Rightarrow> u64" where
  "join64 hi lo = push_bit 32 (ucast hi) OR ucast lo"

lemma mask32_eq: "(0xFFFFFFFF :: 'a::len word) = mask 32"
  by (simp add: mask_eq_exp_minus_1)

lemma bit_lo32 [word_split_simps, bit_simps]: "bit (lo32 w) n \<longleftrightarrow> n < 32 \<and> bit w n"
  by (auto simp: lo32_def mask32_eq bit_simps)

lemma bit_hi32 [word_split_simps, bit_simps]: "bit (hi32 w) n \<longleftrightarrow> n < 32 \<and> bit w (n + 32)"
  by (auto simp: hi32_def bit_simps add.commute)

lemma bit_join64 [word_split_simps, bit_simps]:
  "bit (join64 h l) n \<longleftrightarrow> n < 64 \<and> (if n < 32 then bit l n else bit h (n - 32))"
  by (auto simp: join64_def bit_simps dest: bit_imp_le_length)

lemma lo32_join64 [simp]: "lo32 (join64 h l) = l"
  by (rule bit_word_eqI) (simp add: bit_simps)

lemma hi32_join64 [simp]: "hi32 (join64 h l) = h"
  by (rule bit_word_eqI) (simp add: bit_simps)

lemma join64_hi32_lo32 [simp]: "join64 (hi32 w) (lo32 w) = w"
  by (rule bit_word_eqI) (auto simp: bit_simps)

lemma join64_eq_iff: "join64 h l = join64 h' l' \<longleftrightarrow> h = h' \<and> l = l'"
  by (metis lo32_join64 hi32_join64)

lemma u64_eq_iff: "w = v \<longleftrightarrow> hi32 w = hi32 v \<and> lo32 w = lo32 v"
  by (metis join64_hi32_lo32)

lemma unat_join64: "unat (join64 h l) = 2 ^ 32 * unat h + unat l"
proof -
  have "push_bit 32 (ucast h :: u64) OR ucast l = push_bit 32 (ucast h) + ucast l"
    by (rule disjunctive_add [symmetric]) (auto simp: bit_simps dest: bit_imp_le_length)
  moreover have "unat (push_bit 32 (ucast h :: u64)) = 2 ^ 32 * unat h"
    using unat_less [of h]
    by (simp add: push_bit_eq_mult unat_word_ariths unsigned_ucast_eq take_bit_nat_eq_self)
  moreover have "2 ^ 32 * unat h + unat l < 2 ^ 64"
    using unat_less [of h] unat_less [of l] by simp
  ultimately show ?thesis
    by (simp add: join64_def unat_word_ariths unsigned_ucast_eq take_bit_nat_eq_self)
qed

lemma unat_hi32: "unat (hi32 w) = unat w div 2 ^ 32"
  using unat_join64 [of "hi32 w" "lo32 w"] unat_less [of "lo32 w"] by simp

lemma unat_lo32: "unat (lo32 w) = unat w mod 2 ^ 32"
  using unat_join64 [of "hi32 w" "lo32 w"] unat_less [of "lo32 w"] by simp

end
