(* ===== verification/Opcode.thy ===== *)
theory Opcode
  imports Prelude
begin

text \<open>
  The instruction set (\<open>src/types/opcode.rs\<close>), the trap codes
  (\<open>src/types/trap_code.rs\<close>) and the branch offsets (\<open>src/types/branch_offset.rs\<close>).
  The floating-point opcodes, which the source marks \<open>@fpu\<close>, are a datatype of their own
  below the constructor \<open>Fpu\<close>: with the default features of the crate the executor knows
  them only as illegal opcodes. A \<open>BranchOffset\<close> is the 32-bit word that holds the
  \<open>i32\<close>; it is read with \<open>sint\<close>.
\<close>

section \<open>Trap codes\<close>

datatype trap_code =
    UnreachableCodeReached
  | MemoryOutOfBounds
  | TableOutOfBounds
  | IndirectCallToNull
  | IntegerDivisionByZero
  | IntegerOverflow
  | BadConversionToInteger
  | StackOverflow
  | BadSignature
  | OutOfFuel
  | UnknownExternalFunction
  | IllegalOpcode
  | InterruptionCalled
  | ExecutionHalted

text \<open>The discriminants (\<open>#[repr(u8)]\<close>) of the trap codes.\<close>

definition trap_discriminant :: "trap_code \<Rightarrow> u32" where
  "trap_discriminant t = (case t of
     UnreachableCodeReached \<Rightarrow> 0x00
   | MemoryOutOfBounds \<Rightarrow> 0x01
   | TableOutOfBounds \<Rightarrow> 0x02
   | IndirectCallToNull \<Rightarrow> 0x03
   | IntegerDivisionByZero \<Rightarrow> 0x04
   | IntegerOverflow \<Rightarrow> 0x05
   | BadConversionToInteger \<Rightarrow> 0x06
   | StackOverflow \<Rightarrow> 0x07
   | BadSignature \<Rightarrow> 0x08
   | OutOfFuel \<Rightarrow> 0x09
   | UnknownExternalFunction \<Rightarrow> 0x0a
   | IllegalOpcode \<Rightarrow> 0x0b
   | InterruptionCalled \<Rightarrow> 0x0c
   | ExecutionHalted \<Rightarrow> 0xff)"

section \<open>Branch offsets\<close>

type_synonym branch_offset = u32

text \<open>\<open>BranchOffset::from_src_to_dst\<close>: the difference, when it fits an \<open>i32\<close>.\<close>

definition from_src_to_dst :: "u32 \<Rightarrow> u32 \<Rightarrow> branch_offset option" where
  "from_src_to_dst src dst =
     (let offset = int (unat dst) - int (unat src)
      in if - (2 ^ 31) \<le> offset \<and> offset < 2 ^ 31 then Some (word_of_int offset) else None)"

section \<open>Opcodes\<close>

datatype (plugins only: code size) fpu_opcode =
    F32Load u32
  | F64Load u32
  | F32Store u32
  | F64Store u32
  | F32Eq
  | F32Ne
  | F32Lt
  | F32Gt
  | F32Le
  | F32Ge
  | F64Eq
  | F64Ne
  | F64Lt
  | F64Gt
  | F64Le
  | F64Ge
  | F32Abs
  | F32Neg
  | F32Ceil
  | F32Floor
  | F32Trunc
  | F32Nearest
  | F32Sqrt
  | F32Add
  | F32Sub
  | F32Mul
  | F32Div
  | F32Min
  | F32Max
  | F32Copysign
  | F64Abs
  | F64Neg
  | F64Ceil
  | F64Floor
  | F64Trunc
  | F64Nearest
  | F64Sqrt
  | F64Add
  | F64Sub
  | F64Mul
  | F64Div
  | F64Min
  | F64Max
  | F64Copysign
  | I32TruncF32S
  | I32TruncF32U
  | I32TruncF64S
  | I32TruncF64U
  | I64TruncF32S
  | I64TruncF32U
  | I64TruncF64S
  | I64TruncF64U
  | F32ConvertI32S
  | F32ConvertI32U
  | F32ConvertI64S
  | F32ConvertI64U
  | F32DemoteF64
  | F64ConvertI32S
  | F64ConvertI32U
  | F64ConvertI64S
  | F64ConvertI64U
  | F64PromoteF32
  | I32TruncSatF32S
  | I32TruncSatF32U
  | I32TruncSatF64S
  | I32TruncSatF64U
  | I64TruncSatF32S
  | I64TruncSatF32U
  | I64TruncSatF64S
  | I64TruncSatF64U

datatype (plugins only: code size) opcode =
    Unreachable
  | Trap trap_code
  | LocalGet u32
  | LocalSet u32
  | LocalTee u32
  | Br u32
  | BrIfEqz u32
  | BrIfNez u32
  | BrTable u32
  | ConsumeFuel u32
  | ConsumeFuelStack
  | Return
  | ReturnCallInternal u32
  | ReturnCall u32
  | ReturnCallIndirect u32
  | CallInternal u32
  | Call u32
  | CallIndirect u32
  | SignatureCheck u32
  | StackCheck u32
  | RefFunc u32
  | I32Const u32
  | Drop
  | Select
  | GlobalGet u32
  | GlobalSet u32
  | I32Load u32
  | I32Load8S u32
  | I32Load8U u32
  | I32Load16S u32
  | I32Load16U u32
  | I32Store u32
  | I32Store8 u32
  | I32Store16 u32
  | MemorySize
  | MemoryGrow
  | MemoryFill
  | MemoryCopy
  | MemoryInit u32
  | DataDrop u32
  | TableSize u16
  | TableGrow u16
  | TableFill u16
  | TableGet u16
  | TableSet u16
  | TableCopy u16 u16
  | TableInit u32
  | ElemDrop u32
  | I32Eqz
  | I32Eq
  | I32Ne
  | I32LtS
  | I32LtU
  | I32GtS
  | I32GtU
  | I32LeS
  | I32LeU
  | I32GeS
  | I32GeU
  | I32Clz
  | I32Ctz
  | I32Popcnt
  | I32Add
  | I32Sub
  | I32Mul
  | I32DivS
  | I32DivU
  | I32RemS
  | I32RemU
  | I32And
  | I32Or
  | I32Xor
  | I32Shl
  | I32ShrS
  | I32ShrU
  | I32Rotl
  | I32Rotr
  | I32WrapI64
  | I32Extend8S
  | I32Extend16S
  | I32Mul64
  | I32Add64
  | BulkConst u32
  | BulkDrop u32
  | Fpu fpu_opcode

section \<open>Numeric codes\<close>

definition FPU_OPCODE_OFFSET :: u32 where
  "FPU_OPCODE_OFFSET = 1000"

definition fpu_code :: "fpu_opcode \<Rightarrow> u32" where
  "fpu_code op = (case op of
     F32Load _ \<Rightarrow> FPU_OPCODE_OFFSET + 0
     | F64Load _ \<Rightarrow> FPU_OPCODE_OFFSET + 1
     | F32Store _ \<Rightarrow> FPU_OPCODE_OFFSET + 2
     | F64Store _ \<Rightarrow> FPU_OPCODE_OFFSET + 3
     | F32Eq \<Rightarrow> FPU_OPCODE_OFFSET + 4
     | F32Ne \<Rightarrow> FPU_OPCODE_OFFSET + 5
     | F32Lt \<Rightarrow> FPU_OPCODE_OFFSET + 6
     | F32Gt \<Rightarrow> FPU_OPCODE_OFFSET + 7
     | F32Le \<Rightarrow> FPU_OPCODE_OFFSET + 8
     | F32Ge \<Rightarrow> FPU_OPCODE_OFFSET + 9
     | F64Eq \<Rightarrow> FPU_OPCODE_OFFSET + 10
     | F64Ne \<Rightarrow> FPU_OPCODE_OFFSET + 11
     | F64Lt \<Rightarrow> FPU_OPCODE_OFFSET + 12
     | F64Gt \<Rightarrow> FPU_OPCODE_OFFSET + 13
     | F64Le \<Rightarrow> FPU_OPCODE_OFFSET + 14
     | F64Ge \<Rightarrow> FPU_OPCODE_OFFSET + 15
     | F32Abs \<Rightarrow> FPU_OPCODE_OFFSET + 16
     | F32Neg \<Rightarrow> FPU_OPCODE_OFFSET + 17
     | F32Ceil \<Rightarrow> FPU_OPCODE_OFFSET + 18
     | F32Floor \<Rightarrow> FPU_OPCODE_OFFSET + 19
     | F32Trunc \<Rightarrow> FPU_OPCODE_OFFSET + 20
     | F32Nearest \<Rightarrow> FPU_OPCODE_OFFSET + 21
     | F32Sqrt \<Rightarrow> FPU_OPCODE_OFFSET + 22
     | F32Add \<Rightarrow> FPU_OPCODE_OFFSET + 23
     | F32Sub \<Rightarrow> FPU_OPCODE_OFFSET + 24
     | F32Mul \<Rightarrow> FPU_OPCODE_OFFSET + 25
     | F32Div \<Rightarrow> FPU_OPCODE_OFFSET + 26
     | F32Min \<Rightarrow> FPU_OPCODE_OFFSET + 27
     | F32Max \<Rightarrow> FPU_OPCODE_OFFSET + 28
     | F32Copysign \<Rightarrow> FPU_OPCODE_OFFSET + 29
     | F64Abs \<Rightarrow> FPU_OPCODE_OFFSET + 30
     | F64Neg \<Rightarrow> FPU_OPCODE_OFFSET + 31
     | F64Ceil \<Rightarrow> FPU_OPCODE_OFFSET + 32
     | F64Floor \<Rightarrow> FPU_OPCODE_OFFSET + 33
     | F64Trunc \<Rightarrow> FPU_OPCODE_OFFSET + 34
     | F64Nearest \<Rightarrow> FPU_OPCODE_OFFSET + 35
     | F64Sqrt \<Rightarrow> FPU_OPCODE_OFFSET + 36
     | F64Add \<Rightarrow> FPU_OPCODE_OFFSET + 37
     | F64Sub \<Rightarrow> FPU_OPCODE_OFFSET + 38
     | F64Mul \<Rightarrow> FPU_OPCODE_OFFSET + 39
     | F64Div \<Rightarrow> FPU_OPCODE_OFFSET + 40
     | F64Min \<Rightarrow> FPU_OPCODE_OFFSET + 41
     | F64Max \<Rightarrow> FPU_OPCODE_OFFSET + 42
     | F64Copysign \<Rightarrow> FPU_OPCODE_OFFSET + 43
     | I32TruncF32S \<Rightarrow> FPU_OPCODE_OFFSET + 44
     | I32TruncF32U \<Rightarrow> FPU_OPCODE_OFFSET + 45
     | I32TruncF64S \<Rightarrow> FPU_OPCODE_OFFSET + 46
     | I32TruncF64U \<Rightarrow> FPU_OPCODE_OFFSET + 47
     | I64TruncF32S \<Rightarrow> FPU_OPCODE_OFFSET + 48
     | I64TruncF32U \<Rightarrow> FPU_OPCODE_OFFSET + 49
     | I64TruncF64S \<Rightarrow> FPU_OPCODE_OFFSET + 50
     | I64TruncF64U \<Rightarrow> FPU_OPCODE_OFFSET + 51
     | F32ConvertI32S \<Rightarrow> FPU_OPCODE_OFFSET + 52
     | F32ConvertI32U \<Rightarrow> FPU_OPCODE_OFFSET + 53
     | F32ConvertI64S \<Rightarrow> FPU_OPCODE_OFFSET + 54
     | F32ConvertI64U \<Rightarrow> FPU_OPCODE_OFFSET + 55
     | F32DemoteF64 \<Rightarrow> FPU_OPCODE_OFFSET + 56
     | F64ConvertI32S \<Rightarrow> FPU_OPCODE_OFFSET + 57
     | F64ConvertI32U \<Rightarrow> FPU_OPCODE_OFFSET + 58
     | F64ConvertI64S \<Rightarrow> FPU_OPCODE_OFFSET + 59
     | F64ConvertI64U \<Rightarrow> FPU_OPCODE_OFFSET + 60
     | F64PromoteF32 \<Rightarrow> FPU_OPCODE_OFFSET + 61
     | I32TruncSatF32S \<Rightarrow> FPU_OPCODE_OFFSET + 62
     | I32TruncSatF32U \<Rightarrow> FPU_OPCODE_OFFSET + 63
     | I32TruncSatF64S \<Rightarrow> FPU_OPCODE_OFFSET + 64
     | I32TruncSatF64U \<Rightarrow> FPU_OPCODE_OFFSET + 65
     | I64TruncSatF32S \<Rightarrow> FPU_OPCODE_OFFSET + 66
     | I64TruncSatF32U \<Rightarrow> FPU_OPCODE_OFFSET + 67
     | I64TruncSatF64S \<Rightarrow> FPU_OPCODE_OFFSET + 68
     | I64TruncSatF64U \<Rightarrow> FPU_OPCODE_OFFSET + 69)"

definition opcode_code :: "opcode \<Rightarrow> u32" where
  "opcode_code op = (case op of
     Unreachable \<Rightarrow> 0
     | Trap _ \<Rightarrow> 1
     | LocalGet _ \<Rightarrow> 2
     | LocalSet _ \<Rightarrow> 3
     | LocalTee _ \<Rightarrow> 4
     | Br _ \<Rightarrow> 5
     | BrIfEqz _ \<Rightarrow> 6
     | BrIfNez _ \<Rightarrow> 7
     | BrTable _ \<Rightarrow> 8
     | ConsumeFuel _ \<Rightarrow> 9
     | ConsumeFuelStack \<Rightarrow> 10
     | Return \<Rightarrow> 11
     | ReturnCallInternal _ \<Rightarrow> 12
     | ReturnCall _ \<Rightarrow> 13
     | ReturnCallIndirect _ \<Rightarrow> 14
     | CallInternal _ \<Rightarrow> 15
     | Call _ \<Rightarrow> 16
     | CallIndirect _ \<Rightarrow> 17
     | SignatureCheck _ \<Rightarrow> 18
     | StackCheck _ \<Rightarrow> 19
     | RefFunc _ \<Rightarrow> 20
     | I32Const _ \<Rightarrow> 21
     | Drop \<Rightarrow> 22
     | Select \<Rightarrow> 23
     | GlobalGet _ \<Rightarrow> 24
     | GlobalSet _ \<Rightarrow> 25
     | I32Load _ \<Rightarrow> 26
     | I32Load8S _ \<Rightarrow> 27
     | I32Load8U _ \<Rightarrow> 28
     | I32Load16S _ \<Rightarrow> 29
     | I32Load16U _ \<Rightarrow> 30
     | I32Store _ \<Rightarrow> 31
     | I32Store8 _ \<Rightarrow> 32
     | I32Store16 _ \<Rightarrow> 33
     | MemorySize \<Rightarrow> 34
     | MemoryGrow \<Rightarrow> 35
     | MemoryFill \<Rightarrow> 36
     | MemoryCopy \<Rightarrow> 37
     | MemoryInit _ \<Rightarrow> 38
     | DataDrop _ \<Rightarrow> 39
     | TableSize _ \<Rightarrow> 40
     | TableGrow _ \<Rightarrow> 41
     | TableFill _ \<Rightarrow> 42
     | TableGet _ \<Rightarrow> 43
     | TableSet _ \<Rightarrow> 44
     | TableCopy _ _ \<Rightarrow> 45
     | TableInit _ \<Rightarrow> 46
     | ElemDrop _ \<Rightarrow> 47
     | I32Eqz \<Rightarrow> 48
     | I32Eq \<Rightarrow> 49
     | I32Ne \<Rightarrow> 50
     | I32LtS \<Rightarrow> 51
     | I32LtU \<Rightarrow> 52
     | I32GtS \<Rightarrow> 53
     | I32GtU \<Rightarrow> 54
     | I32LeS \<Rightarrow> 55
     | I32LeU \<Rightarrow> 56
     | I32GeS \<Rightarrow> 57
     | I32GeU \<Rightarrow> 58
     | I32Clz \<Rightarrow> 59
     | I32Ctz \<Rightarrow> 60
     | I32Popcnt \<Rightarrow> 61
     | I32Add \<Rightarrow> 62
     | I32Sub \<Rightarrow> 63
     | I32Mul \<Rightarrow> 64
     | I32DivS \<Rightarrow> 65
     | I32DivU \<Rightarrow> 66
     | I32RemS \<Rightarrow> 67
     | I32RemU \<Rightarrow> 68
     | I32And \<Rightarrow> 69
     | I32Or \<Rightarrow> 70
     | I32Xor \<Rightarrow> 71
     | I32Shl \<Rightarrow> 72
     | I32ShrS \<Rightarrow> 73
     | I32ShrU \<Rightarrow> 74
     | I32Rotl \<Rightarrow> 75
     | I32Rotr \<Rightarrow> 76
     | I32WrapI64 \<Rightarrow> 77
     | I32Extend8S \<Rightarrow> 78
     | I32Extend16S \<Rightarrow> 79
     | I32Mul64 \<Rightarrow> 80
     | I32Add64 \<Rightarrow> 81
     | BulkConst _ \<Rightarrow> 82
     | BulkDrop _ \<Rightarrow> 83
     | Fpu f \<Rightarrow> fpu_code f)"

section \<open>Classes of opcodes\<close>

definition is_alu_instruction :: "opcode \<Rightarrow> bool" where
  "is_alu_instruction op = (case op of
     I32Eq \<Rightarrow> True
     | I32Eqz \<Rightarrow> True
     | I32Ne \<Rightarrow> True
     | I32LtS \<Rightarrow> True
     | I32LtU \<Rightarrow> True
     | I32GtU \<Rightarrow> True
     | I32GtS \<Rightarrow> True
     | I32LeS \<Rightarrow> True
     | I32LeU \<Rightarrow> True
     | I32GeS \<Rightarrow> True
     | I32GeU \<Rightarrow> True
     | I32Clz \<Rightarrow> True
     | I32Ctz \<Rightarrow> True
     | I32Popcnt \<Rightarrow> True
     | I32Add \<Rightarrow> True
     | I32Sub \<Rightarrow> True
     | I32Mul \<Rightarrow> True
     | I32DivS \<Rightarrow> True
     | I32DivU \<Rightarrow> True
     | I32RemS \<Rightarrow> True
     | I32RemU \<Rightarrow> True
     | I32And \<Rightarrow> True
     | I32Or \<Rightarrow> True
     | I32Xor \<Rightarrow> True
     | I32Shl \<Rightarrow> True
     | I32ShrS \<Rightarrow> True
     | I32ShrU \<Rightarrow> True
     | I32Rotl \<Rightarrow> True
     | I32Rotr \<Rightarrow> True
     | _ \<Rightarrow> False)"

definition is_memory_instruction :: "opcode \<Rightarrow> bool" where
  "is_memory_instruction op = (case op of
     I32Load8S _ \<Rightarrow> True
     | I32Load8U _ \<Rightarrow> True
     | I32Load16S _ \<Rightarrow> True
     | I32Load16U _ \<Rightarrow> True
     | I32Load _ \<Rightarrow> True
     | I32Store8 _ \<Rightarrow> True
     | I32Store16 _ \<Rightarrow> True
     | I32Store _ \<Rightarrow> True
     | _ \<Rightarrow> False)"

definition is_memory_load_instruction :: "opcode \<Rightarrow> bool" where
  "is_memory_load_instruction op = (case op of
     I32Load8S _ \<Rightarrow> True
     | I32Load8U _ \<Rightarrow> True
     | I32Load16S _ \<Rightarrow> True
     | I32Load16U _ \<Rightarrow> True
     | I32Load _ \<Rightarrow> True
     | _ \<Rightarrow> False)"

definition is_memory_store_instruction :: "opcode \<Rightarrow> bool" where
  "is_memory_store_instruction op = (case op of
     I32Store8 _ \<Rightarrow> True
     | I32Store16 _ \<Rightarrow> True
     | I32Store _ \<Rightarrow> True
     | _ \<Rightarrow> False)"

definition is_ecall_instruction :: "opcode \<Rightarrow> bool" where
  "is_ecall_instruction op = (case op of
     Call _ \<Rightarrow> True
     | ReturnCall _ \<Rightarrow> True
     | _ \<Rightarrow> False)"

definition is_branch_instruction :: "opcode \<Rightarrow> bool" where
  "is_branch_instruction op = (case op of
     Br _ \<Rightarrow> True
     | BrIfEqz _ \<Rightarrow> True
     | BrIfNez _ \<Rightarrow> True
     | _ \<Rightarrow> False)"

definition is_unary_instruction :: "opcode \<Rightarrow> bool" where
  "is_unary_instruction op = (case op of
     I32Clz \<Rightarrow> True
     | I32Ctz \<Rightarrow> True
     | I32Popcnt \<Rightarrow> True
     | I32Eqz \<Rightarrow> True
     | _ \<Rightarrow> False)"

definition is_binary_instruction :: "opcode \<Rightarrow> bool" where
  "is_binary_instruction op = (case op of
     I32Eq \<Rightarrow> True
     | I32Ne \<Rightarrow> True
     | I32LtS \<Rightarrow> True
     | I32LtU \<Rightarrow> True
     | I32GtU \<Rightarrow> True
     | I32GtS \<Rightarrow> True
     | I32LeS \<Rightarrow> True
     | I32LeU \<Rightarrow> True
     | I32GeS \<Rightarrow> True
     | I32GeU \<Rightarrow> True
     | I32Add \<Rightarrow> True
     | I32Sub \<Rightarrow> True
     | I32Mul \<Rightarrow> True
     | I32DivS \<Rightarrow> True
     | I32DivU \<Rightarrow> True
     | I32RemS \<Rightarrow> True
     | I32RemU \<Rightarrow> True
     | I32And \<Rightarrow> True
     | I32Or \<Rightarrow> True
     | I32Xor \<Rightarrow> True
     | I32Shl \<Rightarrow> True
     | I32ShrS \<Rightarrow> True
     | I32ShrU \<Rightarrow> True
     | I32Rotl \<Rightarrow> True
     | I32Rotr \<Rightarrow> True
     | _ \<Rightarrow> False)"

definition is_nullary :: "opcode \<Rightarrow> bool" where
  "is_nullary op = (case op of
     Br _ \<Rightarrow> True
     | I32Const _ \<Rightarrow> True
     | _ \<Rightarrow> False)"

definition is_call_instruction :: "opcode \<Rightarrow> bool" where
  "is_call_instruction op = (case op of
     CallIndirect _ \<Rightarrow> True
     | CallInternal _ \<Rightarrow> True
     | ReturnCallIndirect _ \<Rightarrow> True
     | ReturnCallInternal _ \<Rightarrow> True
     | Return \<Rightarrow> True
     | _ \<Rightarrow> False)"

definition is_const_instruction :: "opcode \<Rightarrow> bool" where
  "is_const_instruction op = (case op of
     I32Const _ \<Rightarrow> True
     | RefFunc _ \<Rightarrow> True
     | _ \<Rightarrow> False)"

definition is_local_instruction :: "opcode \<Rightarrow> bool" where
  "is_local_instruction op = (case op of
     LocalGet _ \<Rightarrow> True
     | LocalSet _ \<Rightarrow> True
     | LocalTee _ \<Rightarrow> True
     | _ \<Rightarrow> False)"

text \<open>\<open>update_branch_offset\<close> patches the offset of a branch; it is \<open>unreachable!()\<close> on any
  other opcode (the result \<open>None\<close>).\<close>

definition update_branch_offset :: "opcode \<Rightarrow> branch_offset \<Rightarrow> opcode option" where
  "update_branch_offset op new_offset = (case op of
     Br _ \<Rightarrow> Some (Br new_offset)
   | BrIfEqz _ \<Rightarrow> Some (BrIfEqz new_offset)
   | BrIfNez _ \<Rightarrow> Some (BrIfNez new_offset)
   | _ \<Rightarrow> None)"

text \<open>The immediate of an opcode as one word (\<open>aux_value\<close>).\<close>

definition aux_value :: "opcode \<Rightarrow> u32" where
  "aux_value op = (case op of
     Trap t \<Rightarrow> trap_discriminant t
     | LocalGet imm \<Rightarrow> imm
     | LocalSet imm \<Rightarrow> imm
     | LocalTee imm \<Rightarrow> imm
     | Br imm \<Rightarrow> imm
     | BrIfEqz imm \<Rightarrow> imm
     | BrIfNez imm \<Rightarrow> imm
     | BrTable imm \<Rightarrow> imm
     | ConsumeFuel imm \<Rightarrow> imm
     | ReturnCallInternal imm \<Rightarrow> imm
     | ReturnCall imm \<Rightarrow> imm
     | ReturnCallIndirect imm \<Rightarrow> imm
     | CallInternal imm \<Rightarrow> imm
     | Call imm \<Rightarrow> imm
     | CallIndirect imm \<Rightarrow> imm
     | SignatureCheck imm \<Rightarrow> imm
     | StackCheck imm \<Rightarrow> imm
     | RefFunc imm \<Rightarrow> imm
     | I32Const imm \<Rightarrow> imm
     | GlobalGet imm \<Rightarrow> imm
     | GlobalSet imm \<Rightarrow> imm
     | I32Load imm \<Rightarrow> imm
     | I32Load8S imm \<Rightarrow> imm
     | I32Load8U imm \<Rightarrow> imm
     | I32Load16S imm \<Rightarrow> imm
     | I32Load16U imm \<Rightarrow> imm
     | I32Store imm \<Rightarrow> imm
     | I32Store8 imm \<Rightarrow> imm
     | I32Store16 imm \<Rightarrow> imm
     | MemoryInit imm \<Rightarrow> imm
     | DataDrop imm \<Rightarrow> imm
     | TableSize table_id \<Rightarrow> ucast table_id
     | TableGrow table_id \<Rightarrow> ucast table_id
     | TableFill table_id \<Rightarrow> ucast table_id
     | TableGet table_id \<Rightarrow> ucast table_id
     | TableSet table_id \<Rightarrow> ucast table_id
     | TableCopy dst src \<Rightarrow> push_bit 16 (ucast dst) OR ucast src
     | TableInit imm \<Rightarrow> imm
     | ElemDrop imm \<Rightarrow> imm
     | _ \<Rightarrow> 0)"

section \<open>Facts\<close>

lemma trap_discriminant_inj: "trap_discriminant a = trap_discriminant b \<longleftrightarrow> a = b"
  by (cases a; cases b) (simp_all add: trap_discriminant_def)

lemma sint_word_of_int_small:
  "- (2 ^ 31) \<le> d \<Longrightarrow> d < 2 ^ 31 \<Longrightarrow> sint (word_of_int d :: u32) = d"
  by (simp only: signed_of_int) (simp add: signed_take_bit_int_eq_self)

lemma from_src_to_dst_sint:
  assumes "from_src_to_dst src dst = Some off"
  shows "int (unat src) + sint off = int (unat dst)"
proof -
  let ?d = "int (unat dst) - int (unat src)"
  from assms have "- (2 ^ 31) \<le> ?d" and "?d < 2 ^ 31" and off: "off = word_of_int ?d"
    unfolding from_src_to_dst_def Let_def by (metis option.distinct(1) option.inject)+
  then have "sint (word_of_int ?d :: u32) = ?d"
    by (intro sint_word_of_int_small)
  then show ?thesis
    by (simp only: off)
qed

end
