(* ===== verification/Untyped_Value.thy ===== *)
theory Untyped_Value
  imports Opcode
begin

text \<open>
  The untyped 32-bit stack cell and the integer operations of Wasm on it
  (\<open>src/types/untyped_value.rs\<close> over the primitive operations of
  \<open>src/types/value.rs\<close>). An \<open>UntypedValue\<close> is its 32 bits, so the conversions
  \<open>i32::from\<close>, \<open>u32::from\<close> are the two readings \<open>sint\<close> and \<open>uint\<close> of one word.
  A fallible operation returns \<open>trap_code + u32\<close>. The counting operations are
  polymorphic in the width, as the source's macro instantiates them at each integer type.
\<close>

section \<open>Bit counting\<close>

definition bits_from_top :: "'a::len word \<Rightarrow> bool list" where
  "bits_from_top w = map (bit w) (rev [0..<LENGTH('a)])"

definition leading_zeros :: "'a::len word \<Rightarrow> nat" where
  "leading_zeros w = length (takeWhile Not (bits_from_top w))"

definition trailing_zeros :: "'a::len word \<Rightarrow> nat" where
  "trailing_zeros w = length (takeWhile Not (rev (bits_from_top w)))"

definition count_ones :: "'a::len word \<Rightarrow> nat" where
  "count_ones w = length (filter id (bits_from_top w))"

section \<open>Integer division and remainder\<close>

text \<open>\<open>overflowing_div\<close> and \<open>wrapping_rem\<close> of the standard library, with the source's
  checks around them: the signed division truncates towards zero and overflows only for
  the least value divided by minus one.\<close>

definition int_div_s :: "'a::len word \<Rightarrow> 'a word \<Rightarrow> trap_code + 'a word" where
  "int_div_s a b =
     (if b = 0 then Inl IntegerDivisionByZero
      else if sint a sdiv sint b = 2 ^ (LENGTH('a) - 1) then Inl IntegerOverflow
      else Inr (word_of_int (sint a sdiv sint b)))"

definition int_div_u :: "'a::len word \<Rightarrow> 'a word \<Rightarrow> trap_code + 'a word" where
  "int_div_u a b = (if b = 0 then Inl IntegerDivisionByZero else Inr (a div b))"

definition int_rem_s :: "'a::len word \<Rightarrow> 'a word \<Rightarrow> trap_code + 'a word" where
  "int_rem_s a b =
     (if b = 0 then Inl IntegerDivisionByZero else Inr (word_of_int (sint a smod sint b)))"

definition int_rem_u :: "'a::len word \<Rightarrow> 'a word \<Rightarrow> trap_code + 'a word" where
  "int_rem_u a b = (if b = 0 then Inl IntegerDivisionByZero else Inr (a mod b))"

section \<open>The i32 operations\<close>

definition i32_add :: "u32 \<Rightarrow> u32 \<Rightarrow> u32" where "i32_add a b = a + b"
definition i32_sub :: "u32 \<Rightarrow> u32 \<Rightarrow> u32" where "i32_sub a b = a - b"
definition i32_mul :: "u32 \<Rightarrow> u32 \<Rightarrow> u32" where "i32_mul a b = a * b"
definition i32_div_s :: "u32 \<Rightarrow> u32 \<Rightarrow> trap_code + u32" where "i32_div_s a b = int_div_s a b"
definition i32_div_u :: "u32 \<Rightarrow> u32 \<Rightarrow> trap_code + u32" where "i32_div_u a b = int_div_u a b"
definition i32_rem_s :: "u32 \<Rightarrow> u32 \<Rightarrow> trap_code + u32" where "i32_rem_s a b = int_rem_s a b"
definition i32_rem_u :: "u32 \<Rightarrow> u32 \<Rightarrow> trap_code + u32" where "i32_rem_u a b = int_rem_u a b"
definition i32_and :: "u32 \<Rightarrow> u32 \<Rightarrow> u32" where "i32_and a b = a AND b"
definition i32_or :: "u32 \<Rightarrow> u32 \<Rightarrow> u32" where "i32_or a b = a OR b"
definition i32_xor :: "u32 \<Rightarrow> u32 \<Rightarrow> u32" where "i32_xor a b = a XOR b"

definition i32_shl :: "u32 \<Rightarrow> u32 \<Rightarrow> u32" where
  "i32_shl a b = push_bit (unat (b AND 0x1F)) a"

definition i32_shr_s :: "u32 \<Rightarrow> u32 \<Rightarrow> u32" where
  "i32_shr_s a b = signed_drop_bit (unat (b AND 0x1F)) a"

definition i32_shr_u :: "u32 \<Rightarrow> u32 \<Rightarrow> u32" where
  "i32_shr_u a b = drop_bit (unat (b AND 0x1F)) a"

definition i32_rotl :: "u32 \<Rightarrow> u32 \<Rightarrow> u32" where
  "i32_rotl a b = word_rotl (unat b) a"

definition i32_rotr :: "u32 \<Rightarrow> u32 \<Rightarrow> u32" where
  "i32_rotr a b = word_rotr (unat b) a"

definition i32_clz :: "u32 \<Rightarrow> u32" where "i32_clz a = word_of_nat (leading_zeros a)"
definition i32_ctz :: "u32 \<Rightarrow> u32" where "i32_ctz a = word_of_nat (trailing_zeros a)"
definition i32_popcnt :: "u32 \<Rightarrow> u32" where "i32_popcnt a = word_of_nat (count_ones a)"

definition i32_eqz :: "u32 \<Rightarrow> u32" where "i32_eqz a = of_bool (a = 0)"
definition i32_eq :: "u32 \<Rightarrow> u32 \<Rightarrow> u32" where "i32_eq a b = of_bool (a = b)"
definition i32_ne :: "u32 \<Rightarrow> u32 \<Rightarrow> u32" where "i32_ne a b = of_bool (a \<noteq> b)"
definition i32_lt_s :: "u32 \<Rightarrow> u32 \<Rightarrow> u32" where "i32_lt_s a b = of_bool (sint a < sint b)"
definition i32_lt_u :: "u32 \<Rightarrow> u32 \<Rightarrow> u32" where "i32_lt_u a b = of_bool (a < b)"
definition i32_gt_s :: "u32 \<Rightarrow> u32 \<Rightarrow> u32" where "i32_gt_s a b = of_bool (sint a > sint b)"
definition i32_gt_u :: "u32 \<Rightarrow> u32 \<Rightarrow> u32" where "i32_gt_u a b = of_bool (a > b)"
definition i32_le_s :: "u32 \<Rightarrow> u32 \<Rightarrow> u32" where "i32_le_s a b = of_bool (sint a \<le> sint b)"
definition i32_le_u :: "u32 \<Rightarrow> u32 \<Rightarrow> u32" where "i32_le_u a b = of_bool (a \<le> b)"
definition i32_ge_s :: "u32 \<Rightarrow> u32 \<Rightarrow> u32" where "i32_ge_s a b = of_bool (sint a \<ge> sint b)"
definition i32_ge_u :: "u32 \<Rightarrow> u32 \<Rightarrow> u32" where "i32_ge_u a b = of_bool (a \<ge> b)"

text \<open>\<open>i32_wrap_i64\<close> on a 32-bit cell: widening to \<open>i64\<close> and wrapping back.\<close>

definition i32_wrap_i64 :: "u32 \<Rightarrow> u32" where
  "i32_wrap_i64 a = ucast (ucast a :: u64)"

definition i32_extend8_s :: "u32 \<Rightarrow> u32" where
  "i32_extend8_s a = scast (ucast a :: u8)"

definition i32_extend16_s :: "u32 \<Rightarrow> u32" where
  "i32_extend16_s a = scast (ucast a :: u16)"

section \<open>Linear memory accesses\<close>

text \<open>The effective address is \<open>offset + address\<close>, a trap when it leaves \<open>u32\<close>.\<close>

definition effective_address :: "u32 \<Rightarrow> u32 \<Rightarrow> trap_code + nat" where
  "effective_address address offset =
     (case checked_add offset address of
        Some a \<Rightarrow> Inr (unat a)
      | None \<Rightarrow> Inl MemoryOutOfBounds)"

text \<open>\<open>LoadInto\<close> and \<open>StoreFrom\<close> for a buffer of \<open>n\<close> bytes.\<close>

definition load_into :: "nat \<Rightarrow> u8 list \<Rightarrow> nat \<Rightarrow> trap_code + u8 list" where
  "load_into n memory address =
     (case slice_get memory address n of
        Some bs \<Rightarrow> Inr bs
      | None \<Rightarrow> Inl MemoryOutOfBounds)"

definition store_from :: "u8 list \<Rightarrow> u8 list \<Rightarrow> nat \<Rightarrow> trap_code + u8 list" where
  "store_from buffer memory address =
     (case slice_get memory address (length buffer) of
        Some _ \<Rightarrow> Inr (overwrite memory address buffer)
      | None \<Rightarrow> Inl MemoryOutOfBounds)"

text \<open>\<open>load_extend::<T, U>\<close> takes the size of \<open>U\<close> in bytes and the extension of the
  bytes to the 32-bit cell.\<close>

definition load_extend ::
  "nat \<Rightarrow> (u8 list \<Rightarrow> u32) \<Rightarrow> u8 list \<Rightarrow> u32 \<Rightarrow> u32 \<Rightarrow> trap_code + u32" where
  "load_extend n extend memory address offset =
     (case effective_address address offset of
        Inl t \<Rightarrow> Inl t
      | Inr a \<Rightarrow> (case load_into n memory a of
            Inl t \<Rightarrow> Inl t
          | Inr bs \<Rightarrow> Inr (extend bs)))"

definition i32_load :: "u8 list \<Rightarrow> u32 \<Rightarrow> u32 \<Rightarrow> trap_code + u32" where
  "i32_load = load_extend 4 from_le_bytes"

definition i32_load8_s :: "u8 list \<Rightarrow> u32 \<Rightarrow> u32 \<Rightarrow> trap_code + u32" where
  "i32_load8_s = load_extend 1 (\<lambda>bs. scast (from_le_bytes bs :: u8))"

definition i32_load8_u :: "u8 list \<Rightarrow> u32 \<Rightarrow> u32 \<Rightarrow> trap_code + u32" where
  "i32_load8_u = load_extend 1 (\<lambda>bs. ucast (from_le_bytes bs :: u8))"

definition i32_load16_s :: "u8 list \<Rightarrow> u32 \<Rightarrow> u32 \<Rightarrow> trap_code + u32" where
  "i32_load16_s = load_extend 2 (\<lambda>bs. scast (from_le_bytes bs :: u16))"

definition i32_load16_u :: "u8 list \<Rightarrow> u32 \<Rightarrow> u32 \<Rightarrow> trap_code + u32" where
  "i32_load16_u = load_extend 2 (\<lambda>bs. ucast (from_le_bytes bs :: u16))"

text \<open>\<open>store_wrap::<T, U>\<close> takes the wrapped value as little-endian bytes.\<close>

definition store_wrap ::
  "(u32 \<Rightarrow> u8 list) \<Rightarrow> u8 list \<Rightarrow> u32 \<Rightarrow> u32 \<Rightarrow> u32 \<Rightarrow> trap_code + u8 list" where
  "store_wrap wrap memory address offset val =
     (case effective_address address offset of
        Inl t \<Rightarrow> Inl t
      | Inr a \<Rightarrow> store_from (wrap val) memory a)"

definition i32_store :: "u8 list \<Rightarrow> u32 \<Rightarrow> u32 \<Rightarrow> u32 \<Rightarrow> trap_code + u8 list" where
  "i32_store = store_wrap (to_le_bytes 4)"

definition i32_store8 :: "u8 list \<Rightarrow> u32 \<Rightarrow> u32 \<Rightarrow> u32 \<Rightarrow> trap_code + u8 list" where
  "i32_store8 = store_wrap (\<lambda>v. to_le_bytes 1 (ucast v :: u8))"

definition i32_store16 :: "u8 list \<Rightarrow> u32 \<Rightarrow> u32 \<Rightarrow> u32 \<Rightarrow> trap_code + u8 list" where
  "i32_store16 = store_wrap (\<lambda>v. to_le_bytes 2 (ucast v :: u16))"

section \<open>Facts\<close>

lemmas i32_arith_defs =
  i32_add_def i32_sub_def i32_mul_def i32_and_def i32_or_def i32_xor_def
  i32_shl_def i32_shr_s_def i32_shr_u_def

lemmas i32_compare_defs =
  i32_eqz_def i32_eq_def i32_ne_def i32_lt_s_def i32_lt_u_def i32_gt_s_def i32_gt_u_def
  i32_le_s_def i32_le_u_def i32_ge_s_def i32_ge_u_def

lemma effective_address_Inr_iff:
  "effective_address address offset = Inr a \<longleftrightarrow>
     a = unat offset + unat address \<and> a < 2 ^ 32"
  by (auto simp: effective_address_def checked_add_def unat_word_ariths split: option.splits if_splits)

lemma load_extend_Inr_iff:
  "load_extend n ext mem address offset = Inr v \<longleftrightarrow>
     unat offset + unat address < 2 ^ 32 \<and> unat offset + unat address + n \<le> length mem \<and>
     v = ext (take n (drop (unat offset + unat address) mem))"
  by (auto simp: load_extend_def load_into_def effective_address_Inr_iff slice_simps
      split: sum.splits option.splits) (auto simp: effective_address_def checked_add_def split: option.splits)

lemma store_wrap_Inr_iff:
  "store_wrap wrap mem address offset v = Inr mem' \<longleftrightarrow>
     unat offset + unat address < 2 ^ 32 \<and>
     unat offset + unat address + length (wrap v) \<le> length mem \<and>
     mem' = overwrite mem (unat offset + unat address) (wrap v)"
  by (auto simp: store_wrap_def store_from_def effective_address_Inr_iff slice_simps
      split: sum.splits option.splits) (auto simp: effective_address_def checked_add_def split: option.splits)

end
