(* ===== verification/Value_Stack.thy ===== *)
theory Value_Stack
  imports Untyped_Value
begin

text \<open>
  The value stack (\<open>src/vm/value_stack.rs\<close>): the vector \<open>entries\<close> of allocated cells, the
  index \<open>stack_ptr\<close> of the first free cell and the limits. A \<open>ValueStackPtr\<close> is the index
  its pointer has relative to the first cell, so \<open>base_ptr\<close> is 0 and a reallocation does
  not change it. Its operations run on the pair of the allocated cells and the pointer
  (\<open>stack_mem\<close>). Rust performs no check there: a read or write outside the allocation, or a
  pointer moved below the first cell, is undefined behaviour, and the model returns \<open>None\<close>.
  The fields and updates that exist only under \<open>debug_assertions\<close> or \<open>test\<close> are left out:
  \<open>max_stack_height\<close> stays as the constructor sets it.
\<close>

section \<open>The vector of cells\<close>

definition N_DEFAULT_STACK_SIZE :: nat where "N_DEFAULT_STACK_SIZE = 32"
definition N_MAX_STACK_SIZE :: nat where "N_MAX_STACK_SIZE = 8192"

record value_stack =
  entries :: "u32 list"
  stack_ptr :: nat
  maximum_len :: nat
  max_stack_height :: nat

text \<open>\<open>ValueStack::new\<close> panics on a zero or too large initial length.\<close>

definition value_stack_new :: "nat \<Rightarrow> nat \<Rightarrow> value_stack option" where
  "value_stack_new initial_len maximum =
     (if 0 < initial_len \<and> initial_len \<le> maximum
      then Some \<lparr>entries = replicate initial_len 0, stack_ptr = 0, maximum_len = maximum,
                 max_stack_height = 0\<rparr>
      else None)"

definition value_stack_default :: value_stack where
  "value_stack_default =
     \<lparr>entries = replicate N_DEFAULT_STACK_SIZE 0, stack_ptr = 0,
      maximum_len = N_MAX_STACK_SIZE, max_stack_height = 0\<rparr>"

definition stack_capacity :: "value_stack \<Rightarrow> nat" where
  "stack_capacity vs = length (entries vs)"

definition sync_stack_ptr :: "nat \<Rightarrow> value_stack \<Rightarrow> value_stack" where
  "sync_stack_ptr new_sp vs = vs\<lparr>stack_ptr := new_sp\<rparr>"

text \<open>\<open>reserve\<close> traps above the maximal length; a growth appends \<open>new_len\<close> zero cells.\<close>

definition stack_reserve :: "nat \<Rightarrow> value_stack \<Rightarrow> trap_code + value_stack" where
  "stack_reserve additional vs =
     (let new_len = stack_ptr vs + additional
      in if new_len \<le> maximum_len vs
         then Inr (if new_len > stack_capacity vs
                   then vs\<lparr>entries := entries vs @ replicate new_len 0\<rparr> else vs)
         else Inl StackOverflow)"

definition stack_reset :: "value_stack \<Rightarrow> value_stack" where
  "stack_reset vs = vs\<lparr>stack_ptr := 0, max_stack_height := 0\<rparr>"

text \<open>The vector's own push, pop and drop, and the zero extension of \<open>extend_zeros\<close>.\<close>

definition stack_push :: "u32 \<Rightarrow> value_stack \<Rightarrow> value_stack option" where
  "stack_push v vs =
     (if stack_ptr vs < stack_capacity vs
      then Some (vs\<lparr>entries := (entries vs)[stack_ptr vs := v], stack_ptr := stack_ptr vs + 1\<rparr>)
      else None)"

definition stack_pop :: "value_stack \<Rightarrow> (u32 \<times> value_stack) option" where
  "stack_pop vs =
     (if 0 < stack_ptr vs \<and> stack_ptr vs \<le> stack_capacity vs
      then Some (entries vs ! (stack_ptr vs - 1), vs\<lparr>stack_ptr := stack_ptr vs - 1\<rparr>)
      else None)"

definition stack_drop :: "nat \<Rightarrow> value_stack \<Rightarrow> value_stack option" where
  "stack_drop depth vs =
     (if depth \<le> stack_ptr vs then Some (vs\<lparr>stack_ptr := stack_ptr vs - depth\<rparr>) else None)"

definition extend_zeros :: "nat \<Rightarrow> value_stack \<Rightarrow> value_stack option" where
  "extend_zeros additional vs =
     (case slice_get (entries vs) (stack_ptr vs) additional of
        None \<Rightarrow> None
      | Some _ \<Rightarrow> Some (vs\<lparr>entries := overwrite (entries vs) (stack_ptr vs) (replicate additional 0),
                         stack_ptr := stack_ptr vs + additional\<rparr>))"

definition stack_drain :: "value_stack \<Rightarrow> (u32 list \<times> value_stack) option" where
  "stack_drain vs =
     (if stack_ptr vs \<le> stack_capacity vs
      then Some (take (stack_ptr vs) (entries vs), vs\<lparr>stack_ptr := 0\<rparr>) else None)"

section \<open>The stack pointer\<close>

type_synonym stack_mem = "u32 list \<times> nat"

definition ptr_get :: "stack_mem \<Rightarrow> u32 option" where
  "ptr_get m = (case m of (es, p) \<Rightarrow> if p < length es then Some (es ! p) else None)"

definition ptr_set :: "u32 \<Rightarrow> stack_mem \<Rightarrow> stack_mem option" where
  "ptr_set v m = (case m of (es, p) \<Rightarrow> if p < length es then Some (es[p := v], p) else None)"

definition inc_by :: "nat \<Rightarrow> stack_mem \<Rightarrow> stack_mem option" where
  "inc_by delta m = (case m of (es, p) \<Rightarrow> if p + delta \<le> length es then Some (es, p + delta) else None)"

definition dec_by :: "nat \<Rightarrow> stack_mem \<Rightarrow> stack_mem option" where
  "dec_by delta m = (case m of (es, p) \<Rightarrow> if delta \<le> p then Some (es, p - delta) else None)"

definition nth_back :: "nat \<Rightarrow> stack_mem \<Rightarrow> u32 option" where
  "nth_back depth m = do { m' \<leftarrow> dec_by depth m; ptr_get m' }"

definition sp_last :: "stack_mem \<Rightarrow> u32 option" where
  "sp_last m = nth_back 1 m"

definition set_nth_back :: "nat \<Rightarrow> u32 \<Rightarrow> stack_mem \<Rightarrow> stack_mem option" where
  "set_nth_back depth v m =
     do { m' \<leftarrow> dec_by depth m; m'' \<leftarrow> ptr_set v m'; Some (fst m'', snd m) }"

definition sp_push :: "u32 \<Rightarrow> stack_mem \<Rightarrow> stack_mem option" where
  "sp_push v m = do { m' \<leftarrow> ptr_set v m; inc_by 1 m' }"

definition sp_drop :: "stack_mem \<Rightarrow> stack_mem option" where
  "sp_drop m = dec_by 1 m"

definition drop_n :: "nat \<Rightarrow> stack_mem \<Rightarrow> stack_mem option" where
  "drop_n n m = dec_by n m"

definition sp_pop :: "stack_mem \<Rightarrow> (u32 \<times> stack_mem) option" where
  "sp_pop m = do { m' \<leftarrow> dec_by 1 m; v \<leftarrow> ptr_get m'; Some (v, m') }"

definition pop2 :: "stack_mem \<Rightarrow> ((u32 \<times> u32) \<times> stack_mem) option" where
  "pop2 m = do { (rhs, m) \<leftarrow> sp_pop m; (lhs, m) \<leftarrow> sp_pop m; Some ((lhs, rhs), m) }"

definition pop3 :: "stack_mem \<Rightarrow> ((u32 \<times> u32 \<times> u32) \<times> stack_mem) option" where
  "pop3 m = do { ((snd, trd), m) \<leftarrow> pop2 m; (fst, m) \<leftarrow> sp_pop m; Some ((fst, snd, trd), m) }"

definition eval_top :: "(u32 \<Rightarrow> u32) \<Rightarrow> stack_mem \<Rightarrow> stack_mem option" where
  "eval_top f m = do { v \<leftarrow> nth_back 1 m; set_nth_back 1 (f v) m }"

definition eval_top2 :: "(u32 \<Rightarrow> u32 \<Rightarrow> u32) \<Rightarrow> stack_mem \<Rightarrow> stack_mem option" where
  "eval_top2 f m =
     do { (rhs, m) \<leftarrow> sp_pop m; lhs \<leftarrow> nth_back 1 m; set_nth_back 1 (f lhs rhs) m }"

definition eval_top3 :: "(u32 \<Rightarrow> u32 \<Rightarrow> u32 \<Rightarrow> u32) \<Rightarrow> stack_mem \<Rightarrow> stack_mem option" where
  "eval_top3 f m =
     do { ((e2, e3), m) \<leftarrow> pop2 m; e1 \<leftarrow> nth_back 1 m; set_nth_back 1 (f e1 e2 e3) m }"

text \<open>The fallible evaluations leave the popped pointer behind when the closure traps.\<close>

definition try_eval_top ::
  "(u32 \<Rightarrow> trap_code + u32) \<Rightarrow> stack_mem \<Rightarrow> (trap_code option \<times> stack_mem) option" where
  "try_eval_top f m =
     do { v \<leftarrow> nth_back 1 m;
          case f v of
            Inl t \<Rightarrow> Some (Some t, m)
          | Inr r \<Rightarrow> do { m \<leftarrow> set_nth_back 1 r m; Some (None, m) } }"

definition try_eval_top2 ::
  "(u32 \<Rightarrow> u32 \<Rightarrow> trap_code + u32) \<Rightarrow> stack_mem \<Rightarrow> (trap_code option \<times> stack_mem) option" where
  "try_eval_top2 f m =
     do { (rhs, m) \<leftarrow> sp_pop m; lhs \<leftarrow> nth_back 1 m;
          case f lhs rhs of
            Inl t \<Rightarrow> Some (Some t, m)
          | Inr r \<Rightarrow> do { m \<leftarrow> set_nth_back 1 r m; Some (None, m) } }"

definition push_i64 :: "u64 \<Rightarrow> stack_mem \<Rightarrow> stack_mem option" where
  "push_i64 v m = do { m \<leftarrow> sp_push (lo32 v) m; sp_push (hi32 v) m }"

definition pop_i64 :: "stack_mem \<Rightarrow> (u64 \<times> stack_mem) option" where
  "pop_i64 m = do { ((lo, hi), m) \<leftarrow> pop2 m; Some (join64 hi lo, m) }"

section \<open>Typed values\<close>

text \<open>
  The values that cross the host boundary (\<open>Value\<close> of \<open>src/types/value.rs\<close>) and their
  types (\<open>ValType\<close> of the parser crate, whose names the source matches on). A float is its
  bits: \<open>F32\<close> and \<open>F64\<close> are wrappers of the bits.
\<close>

datatype val_type = TI32 | TI64 | TF32 | TF64 | TV128 | TFuncRef | TExternRef

datatype val =
    I32 u32 | I64 u64 | F32 u32 | F64 u64 | FuncRef u32 | ExternRef u32

definition val_ty :: "val \<Rightarrow> val_type" where
  "val_ty v = (case v of
     I32 _ \<Rightarrow> TI32 | I64 _ \<Rightarrow> TI64 | F32 _ \<Rightarrow> TF32 | F64 _ \<Rightarrow> TF64
   | FuncRef _ \<Rightarrow> TFuncRef | ExternRef _ \<Rightarrow> TExternRef)"

text \<open>\<open>Value::default\<close>; it panics on a vector type.\<close>

definition val_default :: "val_type \<Rightarrow> val option" where
  "val_default t = (case t of
     TI32 \<Rightarrow> Some (I32 0) | TI64 \<Rightarrow> Some (I64 0) | TF32 \<Rightarrow> Some (F32 0) | TF64 \<Rightarrow> Some (F64 0)
   | TFuncRef \<Rightarrow> Some (FuncRef 0) | TExternRef \<Rightarrow> Some (ExternRef 0) | TV128 \<Rightarrow> None)"

definition push_value :: "val \<Rightarrow> stack_mem \<Rightarrow> stack_mem option" where
  "push_value v m = (case v of
     I32 b \<Rightarrow> sp_push b m
   | I64 b \<Rightarrow> push_i64 b m
   | F32 b \<Rightarrow> sp_push b m
   | F64 b \<Rightarrow> push_i64 b m
   | FuncRef b \<Rightarrow> sp_push b m
   | ExternRef b \<Rightarrow> sp_push b m)"

definition pop_value :: "val_type \<Rightarrow> stack_mem \<Rightarrow> (val \<times> stack_mem) option" where
  "pop_value t m = (case t of
     TI32 \<Rightarrow> do { (b, m) \<leftarrow> sp_pop m; Some (I32 b, m) }
   | TI64 \<Rightarrow> do { (b, m) \<leftarrow> pop_i64 m; Some (I64 b, m) }
   | TF32 \<Rightarrow> do { (b, m) \<leftarrow> sp_pop m; Some (F32 b, m) }
   | TF64 \<Rightarrow> do { (b, m) \<leftarrow> pop_i64 m; Some (F64 b, m) }
   | TV128 \<Rightarrow> None
   | TFuncRef \<Rightarrow> do { (b, m) \<leftarrow> sp_pop m; Some (FuncRef b, m) }
   | TExternRef \<Rightarrow> do { (b, m) \<leftarrow> sp_pop m; Some (ExternRef b, m) })"

fun push_values :: "val list \<Rightarrow> stack_mem \<Rightarrow> stack_mem option" where
  "push_values [] m = Some m"
| "push_values (v # vs) m = do { m \<leftarrow> push_value v m; push_values vs m }"

end
