(* ===== verification/Linear_Memory.thy ===== *)
theory Linear_Memory
  imports Untyped_Value
begin

text \<open>
  Pages and bytes (\<open>src/types/units.rs\<close>) and the linear memory
  (\<open>src/vm/memory.rs\<close>). A \<open>usize\<close> is a natural number: the target has 64-bit pointers, and
  every size here is far below \<open>2 ^ 64\<close>. Allocation (\<open>try_reserve_exact\<close>) is taken to
  succeed.
\<close>

section \<open>Pages and bytes\<close>

type_synonym pages = u32

definition pages_max :: pages where "pages_max = 65536"
definition bytes_per_page :: nat where "bytes_per_page = 65536"
definition N_DEFAULT_MAX_MEMORY_PAGES :: u32 where "N_DEFAULT_MAX_MEMORY_PAGES = 1024"
definition N_MAX_ALLOWED_MEMORY_PAGES :: u32 where "N_MAX_ALLOWED_MEMORY_PAGES = 32768"

definition pages_new :: "u32 \<Rightarrow> pages option" where
  "pages_new amount = (if amount > pages_max then None else Some amount)"

definition pages_checked_add :: "pages \<Rightarrow> u32 \<Rightarrow> pages option" where
  "pages_checked_add lhs rhs = do { s \<leftarrow> checked_add lhs rhs; pages_new s }"

definition pages_checked_sub :: "pages \<Rightarrow> u32 \<Rightarrow> pages option" where
  "pages_checked_sub lhs rhs = do { s \<leftarrow> checked_sub lhs rhs; pages_new s }"

text \<open>\<open>Bytes::new_impl\<close> with the maximum of the pointer width; \<open>new64\<close> is the target's.\<close>

definition bytes_max16 :: nat where "bytes_max16 = 2 ^ 15 - 1 + 1"
definition bytes_max32 :: nat where "bytes_max32 = 2 ^ 31 - 1 + 1"
definition bytes_max64 :: nat where "bytes_max64 = 2 ^ 32 - 1 + 1"

definition bytes_new_impl :: "pages \<Rightarrow> nat \<Rightarrow> nat option" where
  "bytes_new_impl p mx =
     (let amount = unat p * bytes_per_page in if amount \<le> mx then Some amount else None)"

definition bytes_new16 :: "pages \<Rightarrow> nat option" where "bytes_new16 p = bytes_new_impl p bytes_max16"
definition bytes_new32 :: "pages \<Rightarrow> nat option" where "bytes_new32 p = bytes_new_impl p bytes_max32"
definition bytes_new64 :: "pages \<Rightarrow> nat option" where "bytes_new64 p = bytes_new_impl p bytes_max64"

definition pages_to_bytes :: "pages \<Rightarrow> nat option" where
  "pages_to_bytes p = bytes_new64 p"

section \<open>The memory\<close>

record global_memory =
  shared_memory :: "u8 list"
  current_pages :: pages
  max_allowed_memory_pages :: pages

text \<open>\<open>GlobalMemory::new\<close>; \<open>None\<close> is one of its panics.\<close>

definition global_memory_new :: "pages \<Rightarrow> pages \<Rightarrow> global_memory option" where
  "global_memory_new initial_pages max_pages =
     do { initial_len \<leftarrow> pages_to_bytes initial_pages;
          max_len \<leftarrow> pages_to_bytes max_pages;
          if initial_len > max_len then None
          else Some \<lparr>shared_memory = replicate initial_len 0, current_pages = initial_pages,
                     max_allowed_memory_pages = max_pages\<rparr> }"

text \<open>\<open>grow\<close> gives the old number of pages, or \<open>None\<close> with the memory unchanged. The
  outer \<open>None\<close> is the panic of \<open>expect\<close>.\<close>

definition memory_grow :: "pages \<Rightarrow> global_memory \<Rightarrow> (pages option \<times> global_memory) option" where
  "memory_grow additional g =
     (if additional = 0 then Some (Some (current_pages g), g)
      else case pages_checked_add (current_pages g) additional of
        None \<Rightarrow> Some (None, g)
      | Some desired_pages \<Rightarrow>
          if desired_pages > max_allowed_memory_pages g then Some (None, g)
          else do { new_size \<leftarrow> pages_to_bytes desired_pages;
                    if new_size < length (shared_memory g) then Some (None, g)
                    else Some (Some (current_pages g),
                               g\<lparr>shared_memory := vec_resize new_size 0 (shared_memory g),
                                 current_pages := desired_pages\<rparr>) })"

text \<open>\<open>read\<close>, \<open>read_into_vec\<close> and \<open>write\<close>; the end of the range is a checked sum of
  \<open>usize\<close>, which no vector length reaches.\<close>

definition memory_read :: "nat \<Rightarrow> nat \<Rightarrow> global_memory \<Rightarrow> trap_code + u8 list" where
  "memory_read offset len g =
     (case slice_get (shared_memory g) offset len of
        Some bs \<Rightarrow> Inr bs
      | None \<Rightarrow> Inl MemoryOutOfBounds)"

definition memory_write :: "nat \<Rightarrow> u8 list \<Rightarrow> global_memory \<Rightarrow> trap_code + global_memory" where
  "memory_write offset buffer g =
     (case slice_get (shared_memory g) offset (length buffer) of
        Some _ \<Rightarrow> Inr (g\<lparr>shared_memory := overwrite (shared_memory g) offset buffer\<rparr>)
      | None \<Rightarrow> Inl MemoryOutOfBounds)"

section \<open>The memory invariant\<close>

text \<open>The vector holds exactly the current pages, within the allowed maximum.\<close>

definition memory_wf :: "global_memory \<Rightarrow> bool" where
  "memory_wf g \<longleftrightarrow>
     length (shared_memory g) = unat (current_pages g) * bytes_per_page \<and>
     current_pages g \<le> max_allowed_memory_pages g \<and>
     max_allowed_memory_pages g \<le> N_MAX_ALLOWED_MEMORY_PAGES"

lemma memory_wf_length: "memory_wf g \<Longrightarrow> length (shared_memory g) \<le> 2 ^ 31"
proof -
  assume wf: "memory_wf g"
  then have "unat (current_pages g) \<le> 32768"
    by (auto simp: memory_wf_def N_MAX_ALLOWED_MEMORY_PAGES_def word_le_nat_alt)
  with wf show ?thesis
    by (simp add: memory_wf_def bytes_per_page_def)
qed

lemma global_memory_new_wf:
  assumes "global_memory_new 0 mx = Some g" and "mx \<le> N_MAX_ALLOWED_MEMORY_PAGES"
  shows "memory_wf g"
  using assms
  by (auto simp: global_memory_new_def pages_to_bytes_def bytes_new64_def bytes_new_impl_def
      memory_wf_def bind_eq_Some_conv Let_def split: if_splits)

lemma memory_grow_wf:
  assumes wf: "memory_wf g" and grow: "memory_grow d g = Some (r, g')"
  shows "memory_wf g'"
  using grow wf
  by (auto simp: memory_grow_def memory_wf_def pages_to_bytes_def bytes_new64_def
      bytes_new_impl_def bind_eq_Some_conv Let_def split: if_splits option.splits)

lemma memory_write_wf:
  "memory_wf g \<Longrightarrow> memory_write off bs g = Inr g' \<Longrightarrow> memory_wf g'"
  by (auto simp: memory_write_def memory_wf_def slice_simps split: option.splits)

lemma memory_grow_total: "memory_wf g \<Longrightarrow> \<exists>r g'. memory_grow d g = Some (r, g')"
proof -
  assume wf: "memory_wf g"
  have "pages_to_bytes p = Some (unat p * bytes_per_page)"
    if "pages_checked_add (current_pages g) d = Some p" for p
  proof -
    from that have "p \<le> pages_max"
      by (auto simp: pages_checked_add_def pages_new_def bind_eq_Some_conv split: if_splits)
    then have "unat p \<le> 65536"
      by (simp add: pages_max_def word_le_nat_alt)
    then show ?thesis
      by (simp add: pages_to_bytes_def bytes_new64_def bytes_new_impl_def bytes_per_page_def
          bytes_max64_def)
  qed
  then show ?thesis
    by (auto simp: memory_grow_def split: option.splits if_splits)
qed

end
