(* ===== verification/Table_Entity.thy ===== *)
theory Table_Entity
  imports Untyped_Value
begin

text \<open>
  Tables of function references (\<open>src/vm/table_entity.rs\<close>): a vector of 32-bit words. The
  table functions return the changed vector, or the trap with the table unchanged.
  Allocation is taken to succeed.
\<close>

type_synonym table_entity = "u32 list"

definition N_MAX_TABLE_SIZE :: u32 where "N_MAX_TABLE_SIZE = 1024"

definition table_size :: "table_entity \<Rightarrow> u32" where
  "table_size t = word_of_nat (length t)"

definition grow_untyped :: "u32 \<Rightarrow> u32 \<Rightarrow> table_entity \<Rightarrow> u32 \<times> table_entity" where
  "grow_untyped delta init t =
     (let current = table_size t
      in case checked_add current delta of
        None \<Rightarrow> (- 1, t)
      | Some desired \<Rightarrow>
          if desired > N_MAX_TABLE_SIZE then (- 1, t)
          else (current, vec_resize (unat desired) init t))"

definition get_untyped :: "u32 \<Rightarrow> table_entity \<Rightarrow> u32 option" where
  "get_untyped index t = (if unat index < length t then Some (t ! unat index) else None)"

definition set_untyped :: "u32 \<Rightarrow> u32 \<Rightarrow> table_entity \<Rightarrow> trap_code + table_entity" where
  "set_untyped index v t =
     (if unat index < length t then Inr (t[unat index := v]) else Inl TableOutOfBounds)"

definition init_untyped ::
  "u32 \<Rightarrow> u32 list \<Rightarrow> u32 \<Rightarrow> u32 \<Rightarrow> table_entity \<Rightarrow> trap_code + table_entity" where
  "init_untyped dst_index element src_index len t =
     (case slice_get t (unat dst_index) (unat len) of
        None \<Rightarrow> Inl TableOutOfBounds
      | Some _ \<Rightarrow>
          (case slice_get element (unat src_index) (unat len) of
             None \<Rightarrow> Inl TableOutOfBounds
           | Some items \<Rightarrow> Inr (overwrite t (unat dst_index) items)))"

definition table_copy ::
  "u32 \<Rightarrow> table_entity \<Rightarrow> u32 \<Rightarrow> u32 \<Rightarrow> table_entity \<Rightarrow> trap_code + table_entity" where
  "table_copy dst_index src src_index len dst =
     (case slice_get dst (unat dst_index) (unat len) of
        None \<Rightarrow> Inl TableOutOfBounds
      | Some _ \<Rightarrow>
          (case slice_get src (unat src_index) (unat len) of
             None \<Rightarrow> Inl TableOutOfBounds
           | Some items \<Rightarrow> Inr (overwrite dst (unat dst_index) items)))"

definition copy_within :: "u32 \<Rightarrow> u32 \<Rightarrow> u32 \<Rightarrow> table_entity \<Rightarrow> trap_code + table_entity" where
  "copy_within dst_index src_index len t =
     (case checked_add (max dst_index src_index) len of
        None \<Rightarrow> Inl TableOutOfBounds
      | Some offset \<Rightarrow>
          if offset \<le> table_size t
          then Inr (overwrite t (unat dst_index) (take (unat len) (drop (unat src_index) t)))
          else Inl TableOutOfBounds)"

definition fill_untyped :: "u32 \<Rightarrow> u32 \<Rightarrow> u32 \<Rightarrow> table_entity \<Rightarrow> trap_code + table_entity" where
  "fill_untyped dst v len t =
     (case slice_get t (unat dst) (unat len) of
        None \<Rightarrow> Inl TableOutOfBounds
      | Some _ \<Rightarrow> Inr (overwrite t (unat dst) (replicate (unat len) v)))"

section \<open>The table invariant\<close>

definition table_wf :: "table_entity \<Rightarrow> bool" where
  "table_wf t \<longleftrightarrow> length t \<le> unat N_MAX_TABLE_SIZE"

lemma unat_table_size: "table_wf t \<Longrightarrow> unat (table_size t) = length t"
  by (simp add: table_wf_def table_size_def N_MAX_TABLE_SIZE_def unat_of_nat)

lemma grow_untyped_wf: "table_wf t \<Longrightarrow> grow_untyped delta init t = (r, t') \<Longrightarrow> table_wf t'"
  by (auto simp: grow_untyped_def table_wf_def Let_def word_le_nat_alt not_less
      split: option.splits if_splits)

lemma set_untyped_length: "set_untyped i v t = Inr t' \<Longrightarrow> length t' = length t"
  by (auto simp: set_untyped_def split: if_splits)

lemma init_untyped_length: "init_untyped d es s n t = Inr t' \<Longrightarrow> length t' = length t"
  by (auto simp: init_untyped_def slice_simps split: option.splits)

lemma table_copy_length: "table_copy d src s n t = Inr t' \<Longrightarrow> length t' = length t"
  by (auto simp: table_copy_def slice_simps split: option.splits)

lemma fill_untyped_length: "fill_untyped d v n t = Inr t' \<Longrightarrow> length t' = length t"
  by (auto simp: fill_untyped_def slice_simps split: option.splits)

lemma copy_within_bounds:
  assumes wf: "table_wf t" and res: "copy_within d s n t = Inr t'"
  shows "unat d + unat n \<le> length t \<and> unat s + unat n \<le> length t"
proof -
  from res obtain off where off: "checked_add (max d s) n = Some off" and le: "off \<le> table_size t"
    by (auto simp: copy_within_def split: option.splits if_splits)
  have "unat (max d s) + unat n \<le> length t"
    using off le wf by (simp add: checked_add_Some_iff word_le_nat_alt unat_table_size)
  moreover have "unat d \<le> unat (max d s)" and "unat s \<le> unat (max d s)"
    by (simp_all add: max_def word_le_nat_alt)
  ultimately show ?thesis by linarith
qed

lemma copy_within_length:
  assumes wf: "table_wf t" and res: "copy_within d s n t = Inr t'"
  shows "length t' = length t"
  using copy_within_bounds [OF assms] res
  by (auto simp: copy_within_def split: option.splits if_splits)

lemma grow_untyped_spec:
  assumes wf: "table_wf t"
  shows "grow_untyped delta init t =
    (if length t + unat delta \<le> unat N_MAX_TABLE_SIZE
     then (table_size t, t @ replicate (unat delta) init) else (- 1, t))"
proof (cases "checked_add (table_size t) delta")
  case None
  then have "2 ^ 32 \<le> length t + unat delta"
    using wf by (simp add: checked_add_def unat_table_size split: if_splits)
  with None show ?thesis
    by (simp add: grow_untyped_def N_MAX_TABLE_SIZE_def)
next
  case (Some desired)
  then have "unat desired = length t + unat delta"
    using wf by (simp add: checked_add_Some_iff unat_table_size)
  with Some show ?thesis
    by (simp add: grow_untyped_def vec_resize_def word_less_nat_alt not_less)
qed

end
