(* ===== verification/Store.thy ===== *)
theory Store
  imports Value_Stack Linear_Memory Table_Entity
begin

text \<open>
  The module that is executed (\<open>RwasmModuleInner\<close> of \<open>src/module/mod.rs\<close>) and the store of
  a running instance (\<open>src/vm/store.rs\<close>): memory, tables, globals, the dropped segments,
  the pending signature of an indirect call, the fuel account, the host's data of type
  \<open>'h\<close> and the context of an interrupted execution. An instruction pointer is the index
  of the instruction relative to the code section, an \<open>int\<close>. The \<open>HashMap\<close>s are maps, the
  two \<open>BitVec\<close>s lists of booleans. The syscall handler and the import linker, which the
  store only carries to the executor, are in the environment of theory \<open>Executor\<close>. The
  tracer is left out (feature \<open>tracing\<close>).
\<close>

section \<open>Modules\<close>

record rwasm_module =
  code_section :: "opcode list"
  data_section :: "u8 list"
  elem_section :: "u32 list"
  hint_section :: "u8 list"
  source_pc :: u32

section \<open>The store\<close>

type_synonym instruction_ptr = int

record reusable_context =
  ctx_module :: rwasm_module
  ctx_call_stack :: "instruction_ptr list"
  ctx_ip :: instruction_ptr
  ctx_value_stack :: value_stack

record 'h store =
  consumed_fuel :: u64
  global_memory :: global_memory
  host_data :: 'h
  last_signature :: "u32 option"
  tables :: "u16 \<rightharpoonup> table_entity"
  global_variables :: "u32 \<rightharpoonup> u32"
  empty_data_segments :: "bool list"
  empty_elem_segments :: "bool list"
  resumable_context :: "reusable_context option"
  fuel_limit :: "u64 option"

text \<open>\<open>RwasmStore::new\<close>; the inner \<open>None\<close> is the panic of \<open>GlobalMemory::new\<close>.\<close>

definition store_new :: "'h \<Rightarrow> u64 option \<Rightarrow> u32 option \<Rightarrow> 'h store option" where
  "store_new ctx limit max_pages =
     (let memory_pages = min (case max_pages of Some p \<Rightarrow> p | None \<Rightarrow> N_DEFAULT_MAX_MEMORY_PAGES)
                             N_MAX_ALLOWED_MEMORY_PAGES
      in do { g \<leftarrow> global_memory_new 0 memory_pages;
              Some \<lparr>consumed_fuel = 0, global_memory = g, host_data = ctx, last_signature = None,
                    tables = Map.empty, global_variables = Map.empty, empty_data_segments = [],
                    empty_elem_segments = [], resumable_context = None, fuel_limit = limit\<rparr> })"

text \<open>\<open>reset\<close> clears the dropped flags unless told to keep them: short bit vectors are filled
  with \<open>false\<close>, long ones replaced by the empty one (8 is the size of \<open>usize\<close>).\<close>

definition clear_flags :: "bool list \<Rightarrow> bool list" where
  "clear_flags bs = (if length bs \<le> 8 then replicate (length bs) False else [])"

definition store_reset :: "bool \<Rightarrow> 'h store \<Rightarrow> 'h store" where
  "store_reset keep_flags st =
     (let st = st\<lparr>consumed_fuel := 0\<rparr>;
          st = (if keep_flags then st
                else st\<lparr>empty_data_segments := clear_flags (empty_data_segments st),
                        empty_elem_segments := clear_flags (empty_elem_segments st)\<rparr>)
      in st\<lparr>last_signature := None\<rparr>)"

section \<open>Fuel and memory of the store (\<open>StoreTr\<close>)\<close>

definition try_consume_fuel :: "u64 \<Rightarrow> 'h store \<Rightarrow> trap_code + 'h store" where
  "try_consume_fuel delta st =
     (let consumed = saturating_add (consumed_fuel st) delta
      in case fuel_limit st of
           Some limit \<Rightarrow> if consumed > limit then Inl OutOfFuel
                         else Inr (st\<lparr>consumed_fuel := consumed\<rparr>)
         | None \<Rightarrow> Inr (st\<lparr>consumed_fuel := consumed\<rparr>))"

definition remaining_fuel :: "'h store \<Rightarrow> u64 option" where
  "remaining_fuel st = do { limit \<leftarrow> fuel_limit st; Some (saturating_sub limit (consumed_fuel st)) }"

definition reset_fuel :: "u64 \<Rightarrow> 'h store \<Rightarrow> 'h store" where
  "reset_fuel new_fuel_limit st = st\<lparr>fuel_limit := Some new_fuel_limit, consumed_fuel := 0\<rparr>"

definition store_memory_read :: "nat \<Rightarrow> nat \<Rightarrow> 'h store \<Rightarrow> trap_code + u8 list" where
  "store_memory_read offset len st = memory_read offset len (global_memory st)"

definition store_memory_write :: "nat \<Rightarrow> u8 list \<Rightarrow> 'h store \<Rightarrow> trap_code + 'h store" where
  "store_memory_write offset buffer st =
     (case memory_write offset buffer (global_memory st) of
        Inl t \<Rightarrow> Inl t
      | Inr g \<Rightarrow> Inr (st\<lparr>global_memory := g\<rparr>))"

section \<open>Snapshots\<close>

definition memory_size_bytes :: "'h store \<Rightarrow> nat" where
  "memory_size_bytes st = length (shared_memory (global_memory st))"

definition memory_snapshot_prefix :: "nat \<Rightarrow> 'h store \<Rightarrow> u8 list" where
  "memory_snapshot_prefix max_bytes st =
     (let mem = shared_memory (global_memory st) in take (min (length mem) max_bytes) mem)"

definition global_word_bits :: "u32 \<Rightarrow> 'h store \<Rightarrow> u32" where
  "global_word_bits idx st = (case global_variables st idx of Some v \<Rightarrow> v | None \<Rightarrow> 0)"

section \<open>The store invariant\<close>

text \<open>The memory and every table respect their limits, and the account never exceeds the
  limit.\<close>

definition fuel_wf :: "'h store \<Rightarrow> bool" where
  "fuel_wf st \<longleftrightarrow> (case fuel_limit st of Some limit \<Rightarrow> consumed_fuel st \<le> limit | None \<Rightarrow> True)"

definition store_wf :: "'h store \<Rightarrow> bool" where
  "store_wf st \<longleftrightarrow>
     memory_wf (global_memory st) \<and> (\<forall>i t. tables st i = Some t \<longrightarrow> table_wf t) \<and> fuel_wf st"

lemma store_new_wf: "store_new ctx limit mp = Some st \<Longrightarrow> store_wf st"
  by (auto simp: store_new_def store_wf_def fuel_wf_def Let_def bind_eq_Some_conv min_def
      intro!: global_memory_new_wf split: option.splits if_splits)

lemma try_consume_fuel_wf:
  "store_wf st \<Longrightarrow> try_consume_fuel d st = Inr st' \<Longrightarrow> store_wf st'"
  by (auto simp: try_consume_fuel_def store_wf_def fuel_wf_def Let_def
      split: option.splits if_splits)

section \<open>The fuel meter as an interface\<close>

text \<open>
  What a caller of \<open>StoreTr\<close> relies on when it charges fuel: a charge either traps with
  \<open>OutOfFuel\<close> or lowers the remaining fuel by exactly its amount, and it is refused only
  when it exceeds what remains. A list of charges then succeeds exactly when their sum
  fits, independently of how it is split. The limit \<open>u64::MAX\<close> is not such a meter: the
  saturating sum cannot exceed it, so no charge is ever refused.
\<close>

locale fuel_meter =
  fixes charge :: "u64 \<Rightarrow> 's \<Rightarrow> trap_code + 's"
    and left :: "'s \<Rightarrow> nat"
    and metered :: "'s \<Rightarrow> bool"
  assumes charge_ok: "metered s \<Longrightarrow> unat d \<le> left s \<Longrightarrow>
      \<exists>s'. charge d s = Inr s' \<and> metered s' \<and> left s' = left s - unat d"
    and charge_refused: "metered s \<Longrightarrow> left s < unat d \<Longrightarrow> charge d s = Inl OutOfFuel"
begin

fun charge_all :: "u64 list \<Rightarrow> 's \<Rightarrow> trap_code + 's" where
  "charge_all [] s = Inr s"
| "charge_all (d # ds) s = (case charge d s of Inl t \<Rightarrow> Inl t | Inr s' \<Rightarrow> charge_all ds s')"

lemma charge_all_ok:
  "metered s \<Longrightarrow> sum_list (map unat ds) \<le> left s \<Longrightarrow>
   \<exists>s'. charge_all ds s = Inr s' \<and> metered s' \<and> left s' = left s - sum_list (map unat ds)"
proof (induction ds arbitrary: s)
  case (Cons d ds)
  from Cons.prems have "unat d \<le> left s" by simp
  with Cons.prems obtain s' where s': "charge d s = Inr s'" "metered s'" "left s' = left s - unat d"
    using charge_ok by blast
  then have "sum_list (map unat ds) \<le> left s'" using Cons.prems by simp
  with s' Cons.IH [of s'] show ?case by auto
qed simp

lemma charge_all_refused:
  "metered s \<Longrightarrow> left s < sum_list (map unat ds) \<Longrightarrow> charge_all ds s = Inl OutOfFuel"
proof (induction ds arbitrary: s)
  case (Cons d ds)
  show ?case
  proof (cases "unat d \<le> left s")
    case True
    with Cons.prems obtain s' where s': "charge d s = Inr s'" "metered s'" "left s' = left s - unat d"
      using charge_ok by blast
    then have "left s' < sum_list (map unat ds)" using Cons.prems True by simp
    with s' Cons.IH [of s'] show ?thesis by simp
  next
    case False
    with Cons.prems show ?thesis by (simp add: charge_refused)
  qed
qed simp

end

text \<open>A store with a limit below \<open>u64::MAX\<close> is such a meter. The fuel left is that of \<open>remaining_fuel\<close>.\<close>

definition fuel_left :: "'h store \<Rightarrow> nat" where
  "fuel_left st = (case remaining_fuel st of Some r \<Rightarrow> unat r | None \<Rightarrow> 0)"

definition fuel_metered :: "'h store \<Rightarrow> bool" where
  "fuel_metered st \<longleftrightarrow> fuel_wf st \<and> (\<exists>l. fuel_limit st = Some l \<and> l < - 1)"

lemma fuel_left_limit: "fuel_limit st = Some l \<Longrightarrow> fuel_left st = unat l - unat (consumed_fuel st)"
  by (simp add: fuel_left_def remaining_fuel_def unat_saturating_sub)

interpretation store_fuel: fuel_meter try_consume_fuel fuel_left fuel_metered
proof
  fix st :: "'h store" and d :: u64
  assume m: "fuel_metered st" and le: "unat d \<le> fuel_left st"
  then obtain l where l: "fuel_limit st = Some l" "consumed_fuel st \<le> l" "l < - 1"
    by (auto simp: fuel_metered_def fuel_wf_def)
  then have sum: "unat (consumed_fuel st) + unat d \<le> unat l"
    using le by (simp add: fuel_left_limit word_le_nat_alt)
  then have sat: "unat (saturating_add (consumed_fuel st) d) = unat (consumed_fuel st) + unat d"
    using unat_less [of l] by (simp add: unat_saturating_add)
  let ?st = "st\<lparr>consumed_fuel := saturating_add (consumed_fuel st) d\<rparr>"
  have "try_consume_fuel d st = Inr ?st" and "fuel_metered ?st"
    using l sum sat
    by (simp_all add: try_consume_fuel_def fuel_metered_def fuel_wf_def word_le_nat_alt
        word_less_nat_alt)
  moreover have "fuel_left ?st = fuel_left st - unat d"
    using l sat by (simp add: fuel_left_limit)
  ultimately show "\<exists>s'. try_consume_fuel d st = Inr s' \<and> fuel_metered s' \<and>
      fuel_left s' = fuel_left st - unat d" by blast
next
  fix st :: "'h store" and d :: u64
  assume m: "fuel_metered st" and lt: "fuel_left st < unat d"
  then obtain l where l: "fuel_limit st = Some l" "consumed_fuel st \<le> l" "l < - 1"
    by (auto simp: fuel_metered_def fuel_wf_def)
  then have "unat l < 2 ^ 64 - 1"
    by (simp add: word_less_nat_alt unsigned_minus_1_eq_mask mask_eq_exp_minus_1)
  then have "unat l < unat (saturating_add (consumed_fuel st) d)"
    using lt l by (auto simp: fuel_left_limit unat_saturating_add word_le_nat_alt min_def)
  then show "try_consume_fuel d st = Inl OutOfFuel"
    using l by (simp add: try_consume_fuel_def word_less_nat_alt)
qed

end
