(* ===== verification/Executor.thy ===== *)
theory Executor
  imports Store
begin

text \<open>
  The interpreter (\<open>src/vm/executor.rs\<close> and its submodules \<open>alu\<close>, \<open>control_flow\<close>,
  \<open>stack\<close>, \<open>system\<close>, \<open>memory\<close>, \<open>table\<close>), one definition per \<open>visit_\<close> method and
  \<open>step\<close> that dispatches to them. A visit of the model is a function of the executor state
  that gives \<open>None\<close> for undefined behaviour or a panic, and otherwise one of three flows:
  go on with the next state, halt (the return of the outermost function), or a trap. The
  trap carries the state the code leaves behind, because \<open>?\<close> keeps every mutation made
  before it.

  The environment holds what a run does not change: the module, the import linker's
  \<open>resolve_by_func_idx\<close> (parameter and result types of a system function) and the host's
  syscall handler, a function of the store, the index, the parameters and the result buffer
  that gives the outcome, the new store and the filled results, or \<open>None\<close> when it panics. The method \<open>resize\<close> of the
  \<open>bitvec\<close> crate is a parameter too.
\<close>

section \<open>State\<close>

definition N_MAX_RECURSION_DEPTH :: nat where "N_MAX_RECURSION_DEPTH = 1024"
definition NULL_FUNC_IDX :: u32 where "NULL_FUNC_IDX = 0"

record 'h env =
  module :: rwasm_module
  linker_types :: "u32 \<Rightarrow> (val_type list \<times> val_type list) option"
  syscall_handler :: "'h store \<Rightarrow> u32 \<Rightarrow> val list \<Rightarrow> val list \<Rightarrow>
    (trap_code option \<times> 'h store \<times> val list) option"
  bitvec_resize :: "nat \<Rightarrow> bool \<Rightarrow> bool list \<Rightarrow> bool list"

record 'h exec =
  vstack :: value_stack
  sp :: nat
  call_stack :: "instruction_ptr list"
  ip :: instruction_ptr
  store :: "'h store"

datatype 's flow = Next 's | Halt 's | Trapped trap_code 's

definition fetch :: "opcode list \<Rightarrow> instruction_ptr \<Rightarrow> opcode option" where
  "fetch code p = (if 0 \<le> p \<and> p < int (length code) then Some (code ! nat p) else None)"

definition ip_offset :: "int \<Rightarrow> 'h exec \<Rightarrow> 'h exec" where
  "ip_offset by s = s\<lparr>ip := ip s + by\<rparr>"

definition ip_add :: "nat \<Rightarrow> 'h exec \<Rightarrow> 'h exec" where
  "ip_add delta s = s\<lparr>ip := ip s + int delta\<rparr>"

text \<open>Running a stack operation on the cells and the stack pointer of the executor.\<close>

definition stack_of :: "'h exec \<Rightarrow> stack_mem" where
  "stack_of s = (entries (vstack s), sp s)"

definition set_stack :: "stack_mem \<Rightarrow> 'h exec \<Rightarrow> 'h exec" where
  "set_stack m s = s\<lparr>vstack := (vstack s)\<lparr>entries := fst m\<rparr>, sp := snd m\<rparr>"

definition on_stack :: "(stack_mem \<Rightarrow> stack_mem option) \<Rightarrow> 'h exec \<Rightarrow> 'h exec option" where
  "on_stack f s = do { m \<leftarrow> f (stack_of s); Some (set_stack m s) }"

definition from_stack :: "(stack_mem \<Rightarrow> ('r \<times> stack_mem) option) \<Rightarrow> 'h exec \<Rightarrow> ('r \<times> 'h exec) option" where
  "from_stack f s = do { (r, m) \<leftarrow> f (stack_of s); Some (r, set_stack m s) }"

definition sync_sp :: "'h exec \<Rightarrow> 'h exec" where
  "sync_sp s = s\<lparr>vstack := sync_stack_ptr (sp s) (vstack s)\<rparr>"

definition reload_sp :: "'h exec \<Rightarrow> 'h exec" where
  "reload_sp s = s\<lparr>sp := stack_ptr (vstack s)\<rparr>"

definition next_instr :: "'h exec \<Rightarrow> 'h exec flow option" where
  "next_instr s = Some (Next (ip_add 1 s))"

text \<open>\<open>i32::from(v) as usize\<close>: the sign-extended value as an unsigned 64-bit integer.\<close>

definition i32_as_usize :: "u32 \<Rightarrow> nat" where
  "i32_as_usize v = unat (scast v :: u64)"

definition exec_memory :: "'h exec \<Rightarrow> u8 list" where
  "exec_memory s = shared_memory (global_memory (store s))"

definition set_exec_memory :: "u8 list \<Rightarrow> 'h exec \<Rightarrow> 'h exec" where
  "set_exec_memory mem s =
     s\<lparr>store := (store s)\<lparr>global_memory := (global_memory (store s))\<lparr>shared_memory := mem\<rparr>\<rparr>\<rparr>"

definition set_table :: "u16 \<Rightarrow> table_entity \<Rightarrow> 'h exec \<Rightarrow> 'h exec" where
  "set_table idx t s = s\<lparr>store := (store s)\<lparr>tables := (tables (store s))(idx \<mapsto> t)\<rparr>\<rparr>"

section \<open>Stack opcodes\<close>

definition visit_local_get :: "u32 \<Rightarrow> 'h exec \<Rightarrow> 'h exec flow option" where
  "visit_local_get local_depth s =
     do { v \<leftarrow> nth_back (unat local_depth) (stack_of s);
          s \<leftarrow> on_stack (sp_push v) s;
          next_instr s }"

definition visit_local_set :: "u32 \<Rightarrow> 'h exec \<Rightarrow> 'h exec flow option" where
  "visit_local_set local_depth s =
     do { (new_value, s) \<leftarrow> from_stack sp_pop s;
          s \<leftarrow> on_stack (set_nth_back (unat local_depth) new_value) s;
          next_instr s }"

definition visit_local_tee :: "u32 \<Rightarrow> 'h exec \<Rightarrow> 'h exec flow option" where
  "visit_local_tee local_depth s =
     do { new_value \<leftarrow> sp_last (stack_of s);
          s \<leftarrow> on_stack (set_nth_back (unat local_depth) new_value) s;
          next_instr s }"

definition visit_drop :: "'h exec \<Rightarrow> 'h exec flow option" where
  "visit_drop s = do { s \<leftarrow> on_stack sp_drop s; next_instr s }"

definition visit_select :: "'h exec \<Rightarrow> 'h exec flow option" where
  "visit_select s =
     do { s \<leftarrow> on_stack (eval_top3 (\<lambda>e1 e2 e3. if e3 \<noteq> 0 then e1 else e2)) s;
          next_instr s }"

definition visit_ref_func :: "u32 \<Rightarrow> 'h exec \<Rightarrow> 'h exec flow option" where
  "visit_ref_func compiled_func s = do { s \<leftarrow> on_stack (sp_push compiled_func) s; next_instr s }"

definition visit_i32_const :: "u32 \<Rightarrow> 'h exec \<Rightarrow> 'h exec flow option" where
  "visit_i32_const untyped_value s = do { s \<leftarrow> on_stack (sp_push untyped_value) s; next_instr s }"

fun push_zeros :: "nat \<Rightarrow> stack_mem \<Rightarrow> stack_mem option" where
  "push_zeros 0 m = Some m"
| "push_zeros (Suc n) m = do { m \<leftarrow> sp_push 0 m; push_zeros n m }"

definition visit_bulk_const :: "u32 \<Rightarrow> 'h exec \<Rightarrow> 'h exec flow option" where
  "visit_bulk_const imm s = do { s \<leftarrow> on_stack (push_zeros (unat imm)) s; next_instr s }"

definition visit_bulk_drop :: "u32 \<Rightarrow> 'h exec \<Rightarrow> 'h exec flow option" where
  "visit_bulk_drop imm s = do { s \<leftarrow> on_stack (drop_n (unat imm)) s; next_instr s }"

section \<open>Arithmetic opcodes\<close>

definition visit_unary :: "(u32 \<Rightarrow> u32) \<Rightarrow> 'h exec \<Rightarrow> 'h exec flow option" where
  "visit_unary f s = do { s \<leftarrow> on_stack (eval_top f) s; next_instr s }"

definition visit_binary :: "(u32 \<Rightarrow> u32 \<Rightarrow> u32) \<Rightarrow> 'h exec \<Rightarrow> 'h exec flow option" where
  "visit_binary f s = do { s \<leftarrow> on_stack (eval_top2 f) s; next_instr s }"

definition visit_fallible_binary ::
  "(u32 \<Rightarrow> u32 \<Rightarrow> trap_code + u32) \<Rightarrow> 'h exec \<Rightarrow> 'h exec flow option" where
  "visit_fallible_binary f s =
     do { (t, s) \<leftarrow> from_stack (try_eval_top2 f) s;
          case t of Some t \<Rightarrow> Some (Trapped t s) | None \<Rightarrow> next_instr s }"

definition visit_i32_mul64 :: "'h exec \<Rightarrow> 'h exec flow option" where
  "visit_i32_mul64 s =
     do { ((lhs, rhs), s) \<leftarrow> from_stack pop2 s;
          s \<leftarrow> on_stack (push_i64 (ucast lhs * ucast rhs)) s;
          next_instr s }"

definition visit_i32_add64 :: "'h exec \<Rightarrow> 'h exec flow option" where
  "visit_i32_add64 s =
     do { ((lhs, rhs), s) \<leftarrow> from_stack pop2 s;
          s \<leftarrow> on_stack (push_i64 (ucast lhs + ucast rhs)) s;
          next_instr s }"

section \<open>System opcodes\<close>

definition charge_fuel :: "u64 \<Rightarrow> 'h exec \<Rightarrow> 'h exec flow option" where
  "charge_fuel delta s =
     (case try_consume_fuel delta (store s) of
        Inl t \<Rightarrow> Some (Trapped t s)
      | Inr st \<Rightarrow> next_instr (s\<lparr>store := st\<rparr>))"

definition visit_consume_fuel :: "u32 \<Rightarrow> 'h exec \<Rightarrow> 'h exec flow option" where
  "visit_consume_fuel block_fuel s = charge_fuel (ucast block_fuel) s"

definition visit_consume_fuel_stack :: "'h exec \<Rightarrow> 'h exec flow option" where
  "visit_consume_fuel_stack s =
     do { (block_fuel, s) \<leftarrow> from_stack sp_pop s; charge_fuel (ucast block_fuel) s }"

text \<open>The pending signature is taken (\<open>take()\<close>) whether it matches or not.\<close>

definition visit_signature_check :: "u32 \<Rightarrow> 'h exec \<Rightarrow> 'h exec flow option" where
  "visit_signature_check signature_idx s =
     (let s' = s\<lparr>store := (store s)\<lparr>last_signature := None\<rparr>\<rparr>
      in case last_signature (store s) of
           Some actual_signature \<Rightarrow>
             if actual_signature \<noteq> signature_idx then Some (Trapped BadSignature s')
             else next_instr s'
         | None \<Rightarrow> next_instr s')"

definition visit_stack_check :: "u32 \<Rightarrow> 'h exec \<Rightarrow> 'h exec flow option" where
  "visit_stack_check max_height s =
     (let s = sync_sp s
      in case stack_reserve (unat max_height) (vstack s) of
           Inl t \<Rightarrow> Some (Trapped t s)
         | Inr vs \<Rightarrow> next_instr (reload_sp (s\<lparr>vstack := vs\<rparr>)))"

definition visit_global_get :: "u32 \<Rightarrow> 'h exec \<Rightarrow> 'h exec flow option" where
  "visit_global_get global_idx s =
     do { s \<leftarrow> on_stack (sp_push (global_word_bits global_idx (store s))) s; next_instr s }"

definition visit_global_set :: "u32 \<Rightarrow> 'h exec \<Rightarrow> 'h exec flow option" where
  "visit_global_set global_idx s =
     do { (new_value, s) \<leftarrow> from_stack sp_pop s;
          next_instr (s\<lparr>store := (store s)\<lparr>global_variables :=
                       (global_variables (store s))(global_idx \<mapsto> new_value)\<rparr>\<rparr>) }"

section \<open>Memory opcodes\<close>

definition execute_load_extend ::
  "(u8 list \<Rightarrow> u32 \<Rightarrow> u32 \<Rightarrow> trap_code + u32) \<Rightarrow> u32 \<Rightarrow> 'h exec \<Rightarrow> 'h exec flow option" where
  "execute_load_extend load offset s =
     do { (t, s) \<leftarrow> from_stack (try_eval_top (\<lambda>address. load (exec_memory s) address offset)) s;
          case t of Some t \<Rightarrow> Some (Trapped t s) | None \<Rightarrow> next_instr s }"

definition execute_store_wrap ::
  "(u8 list \<Rightarrow> u32 \<Rightarrow> u32 \<Rightarrow> u32 \<Rightarrow> trap_code + u8 list) \<Rightarrow> u32 \<Rightarrow> 'h exec \<Rightarrow> 'h exec flow option" where
  "execute_store_wrap st offset s =
     do { ((address, v), s) \<leftarrow> from_stack pop2 s;
          case st (exec_memory s) address offset v of
            Inl t \<Rightarrow> Some (Trapped t s)
          | Inr mem \<Rightarrow> next_instr (set_exec_memory mem s) }"

definition visit_memory_size :: "'h exec \<Rightarrow> 'h exec flow option" where
  "visit_memory_size s =
     do { s \<leftarrow> on_stack (sp_push (current_pages (global_memory (store s)))) s; next_instr s }"

definition visit_memory_grow :: "'h exec \<Rightarrow> 'h exec flow option" where
  "visit_memory_grow s =
     do { (delta, s) \<leftarrow> from_stack sp_pop s;
          case pages_new delta of
            None \<Rightarrow> do { s \<leftarrow> on_stack (sp_push (- 1)) s; next_instr s }
          | Some delta \<Rightarrow>
              do { (r, g) \<leftarrow> memory_grow delta (global_memory (store s));
                   s \<leftarrow> on_stack (sp_push (case r of Some p \<Rightarrow> p | None \<Rightarrow> - 1))
                          (s\<lparr>store := (store s)\<lparr>global_memory := g\<rparr>\<rparr>);
                   next_instr s } }"

definition visit_memory_fill :: "'h exec \<Rightarrow> 'h exec flow option" where
  "visit_memory_fill s =
     do { ((d, v, n), s) \<leftarrow> from_stack pop3 s;
          let n = i32_as_usize n; offset = i32_as_usize d; byte = ucast v in
          case slice_get (exec_memory s) offset n of
            None \<Rightarrow> Some (Trapped MemoryOutOfBounds s)
          | Some _ \<Rightarrow> next_instr (set_exec_memory (overwrite (exec_memory s) offset (replicate n byte)) s) }"

definition visit_memory_copy :: "'h exec \<Rightarrow> 'h exec flow option" where
  "visit_memory_copy s =
     do { ((d, src, n), s) \<leftarrow> from_stack pop3 s;
          let n = i32_as_usize n; src_offset = i32_as_usize src; dst_offset = i32_as_usize d in
          case slice_get (exec_memory s) src_offset n of
            None \<Rightarrow> Some (Trapped MemoryOutOfBounds s)
          | Some bytes \<Rightarrow>
              (case slice_get (exec_memory s) dst_offset n of
                 None \<Rightarrow> Some (Trapped MemoryOutOfBounds s)
               | Some _ \<Rightarrow> next_instr (set_exec_memory (overwrite (exec_memory s) dst_offset bytes) s)) }"

text \<open>\<open>get(i).copied().unwrap_or(false)\<close> on the flags of dropped segments.\<close>

definition flag_at :: "bool list \<Rightarrow> u32 \<Rightarrow> bool" where
  "flag_at bs i = (if unat i < length bs then bs ! unat i else False)"

definition visit_memory_init :: "'h env \<Rightarrow> u32 \<Rightarrow> 'h exec \<Rightarrow> 'h exec flow option" where
  "visit_memory_init env data_segment_idx s =
     (let is_empty_data_segment = flag_at (empty_data_segments (store s)) data_segment_idx in
      do { ((d, src, n), s) \<leftarrow> from_stack pop3 s;
           let n = i32_as_usize n; src_offset = i32_as_usize src; dst_offset = i32_as_usize d in
           case slice_get (exec_memory s) dst_offset n of
             None \<Rightarrow> Some (Trapped MemoryOutOfBounds s)
           | Some _ \<Rightarrow>
               (let memory_section = (if is_empty_data_segment then [] else data_section (module env))
                in case slice_get memory_section src_offset n of
                     None \<Rightarrow> Some (Trapped MemoryOutOfBounds s)
                   | Some bytes \<Rightarrow>
                       next_instr (set_exec_memory (overwrite (exec_memory s) dst_offset bytes) s)) })"

text \<open>\<open>resize(idx + 1, false)\<close> and \<open>set(idx, true)\<close>; setting outside the vector panics.\<close>

definition mark_dropped :: "'h env \<Rightarrow> u32 \<Rightarrow> bool list \<Rightarrow> bool list option" where
  "mark_dropped env idx flags =
     (let flags = bitvec_resize env (unat idx + 1) False flags
      in if unat idx < length flags then Some (flags[unat idx := True]) else None)"

definition visit_data_drop :: "'h env \<Rightarrow> u32 \<Rightarrow> 'h exec \<Rightarrow> 'h exec flow option" where
  "visit_data_drop env data_segment_idx s =
     do { flags \<leftarrow> mark_dropped env data_segment_idx (empty_data_segments (store s));
          next_instr (s\<lparr>store := (store s)\<lparr>empty_data_segments := flags\<rparr>\<rparr>) }"

section \<open>Table opcodes\<close>

text \<open>The table index of a two-word instruction is the \<open>TableGet\<close> that follows it.\<close>

definition fetch_table_index :: "'h env \<Rightarrow> nat \<Rightarrow> 'h exec \<Rightarrow> u16 option" where
  "fetch_table_index env offset s =
     (case fetch (code_section (module env)) (ip s + int offset) of
        Some (TableGet table_idx) \<Rightarrow> Some table_idx
      | _ \<Rightarrow> None)"

definition visit_table_size :: "u16 \<Rightarrow> 'h exec \<Rightarrow> 'h exec flow option" where
  "visit_table_size table_idx s =
     do { t \<leftarrow> tables (store s) table_idx;
          s \<leftarrow> on_stack (sp_push (table_size t)) s;
          next_instr s }"

text \<open>\<open>entry(table_idx).or_default()\<close>: a missing table is created empty.\<close>

definition visit_table_grow :: "u16 \<Rightarrow> 'h exec \<Rightarrow> 'h exec flow option" where
  "visit_table_grow table_idx s =
     do { ((init, delta), s) \<leftarrow> from_stack pop2 s;
          let (res, t) = grow_untyped delta init
                (case tables (store s) table_idx of Some t \<Rightarrow> t | None \<Rightarrow> []) in
          do { s \<leftarrow> on_stack (sp_push res) (set_table table_idx t s); next_instr s } }"

definition table_result ::
  "u16 \<Rightarrow> trap_code + table_entity \<Rightarrow> 'h exec \<Rightarrow> (trap_code option \<times> 'h exec) option" where
  "table_result table_idx r s =
     (case r of Inl t \<Rightarrow> Some (Some t, s) | Inr t \<Rightarrow> Some (None, set_table table_idx t s))"

definition visit_table_fill :: "u16 \<Rightarrow> 'h exec \<Rightarrow> 'h exec flow option" where
  "visit_table_fill table_idx s =
     do { ((i, v, n), s) \<leftarrow> from_stack pop3 s;
          t \<leftarrow> tables (store s) table_idx;
          (r, s) \<leftarrow> table_result table_idx (fill_untyped i v n t) s;
          case r of Some t \<Rightarrow> Some (Trapped t s) | None \<Rightarrow> next_instr s }"

definition visit_table_get :: "u16 \<Rightarrow> 'h exec \<Rightarrow> 'h exec flow option" where
  "visit_table_get table_idx s =
     do { (index, s) \<leftarrow> from_stack sp_pop s;
          t \<leftarrow> tables (store s) table_idx;
          case get_untyped index t of
            None \<Rightarrow> Some (Trapped TableOutOfBounds s)
          | Some v \<Rightarrow> do { s \<leftarrow> on_stack (sp_push v) s; next_instr s } }"

definition visit_table_set :: "u16 \<Rightarrow> 'h exec \<Rightarrow> 'h exec flow option" where
  "visit_table_set table_idx s =
     do { ((index, v), s) \<leftarrow> from_stack pop2 s;
          t \<leftarrow> tables (store s) table_idx;
          (r, s) \<leftarrow> table_result table_idx (set_untyped index v t) s;
          case r of Some _ \<Rightarrow> Some (Trapped TableOutOfBounds s) | None \<Rightarrow> next_instr s }"

definition visit_table_copy :: "u16 \<Rightarrow> u16 \<Rightarrow> 'h exec \<Rightarrow> 'h exec flow option" where
  "visit_table_copy dst_table_idx src_table_idx s =
     do { ((d, src_index, n), s) \<leftarrow> from_stack pop3 s;
          src \<leftarrow> tables (store s) src_table_idx;
          dst \<leftarrow> tables (store s) dst_table_idx;
          (r, s) \<leftarrow> table_result dst_table_idx
             (if src_table_idx \<noteq> dst_table_idx then table_copy d src src_index n dst
              else copy_within d src_index n src) s;
          case r of Some t \<Rightarrow> Some (Trapped t s) | None \<Rightarrow> next_instr s }"

definition visit_table_init :: "'h env \<Rightarrow> u32 \<Rightarrow> 'h exec \<Rightarrow> 'h exec flow option" where
  "visit_table_init env element_segment_idx s =
     do { table_idx \<leftarrow> fetch_table_index env 1 s;
          ((d, src, n), s) \<leftarrow> from_stack pop3 s;
          let is_empty_segment = flag_at (empty_elem_segments (store s)) element_segment_idx;
              elements = (if is_empty_segment then [] else elem_section (module env)) in
          do { t \<leftarrow> tables (store s) table_idx;
               (r, s) \<leftarrow> table_result table_idx (init_untyped d elements src n t) s;
               case r of Some t \<Rightarrow> Some (Trapped t s) | None \<Rightarrow> Some (Next (ip_add 2 s)) } }"

definition visit_element_drop :: "'h env \<Rightarrow> u32 \<Rightarrow> 'h exec \<Rightarrow> 'h exec flow option" where
  "visit_element_drop env element_segment_idx s =
     do { flags \<leftarrow> mark_dropped env element_segment_idx (empty_elem_segments (store s));
          next_instr (s\<lparr>store := (store s)\<lparr>empty_elem_segments := flags\<rparr>\<rparr>) }"

end
