(* ===== verification/Interpreter.thy ===== *)
theory Interpreter
  imports Executor
begin

text \<open>
  Control flow (\<open>src/vm/executor/control_flow.rs\<close>), host calls (\<open>invoke_syscall\<close>), the
  dispatch \<open>step\<close>, the execution loop and \<open>run\<close> (\<open>src/vm/executor.rs\<close>), and the engine
  that creates, interrupts and resumes executions (\<open>src/vm/engine.rs\<close>,
  \<open>src/vm/instance.rs\<close>). The call stack is a list with the innermost return address first.
\<close>

section \<open>Control flow\<close>

definition visit_unreachable :: "'h exec \<Rightarrow> 'h exec flow option" where
  "visit_unreachable s = Some (Trapped UnreachableCodeReached s)"

definition visit_trap_code :: "trap_code \<Rightarrow> 'h exec \<Rightarrow> 'h exec flow option" where
  "visit_trap_code t s = Some (Trapped t s)"

definition visit_br :: "branch_offset \<Rightarrow> 'h exec \<Rightarrow> 'h exec flow option" where
  "visit_br offset s = Some (Next (ip_offset (sint offset) s))"

definition visit_br_if :: "branch_offset \<Rightarrow> 'h exec \<Rightarrow> 'h exec flow option" where
  "visit_br_if offset s =
     do { (condition, s) \<leftarrow> from_stack sp_pop s;
          Some (Next (if condition \<noteq> 0 then ip_add 1 s else ip_offset (sint offset) s)) }"

definition visit_br_if_nez :: "branch_offset \<Rightarrow> 'h exec \<Rightarrow> 'h exec flow option" where
  "visit_br_if_nez offset s =
     do { (condition, s) \<leftarrow> from_stack sp_pop s;
          Some (Next (if condition \<noteq> 0 then ip_offset (sint offset) s else ip_add 1 s)) }"

text \<open>\<open>targets as usize - 1\<close> wraps when there is no target (overflow checks are off).\<close>

definition visit_br_table :: "u32 \<Rightarrow> 'h exec \<Rightarrow> 'h exec flow option" where
  "visit_br_table targets s =
     do { (index, s) \<leftarrow> from_stack sp_pop s;
          let max_index = (if targets = 0 then 2 ^ 64 - 1 else unat targets - 1);
              normalized_index = min (unat index) max_index in
          Some (Next (ip_add (2 * normalized_index + 1) s)) }"

definition visit_return :: "'h exec \<Rightarrow> 'h exec flow option" where
  "visit_return s =
     (let s = sync_sp s
      in case call_stack s of
           p # rest \<Rightarrow> Some (Next (s\<lparr>call_stack := rest, ip := p\<rparr>))
         | [] \<Rightarrow> Some (Halt s))"

definition visit_return_call_internal :: "u32 \<Rightarrow> 'h exec \<Rightarrow> 'h exec flow option" where
  "visit_return_call_internal compiled_func s =
     (let s = reload_sp (sync_sp (ip_add 1 s)) in Some (Next (s\<lparr>ip := int (unat compiled_func)\<rparr>)))"

text \<open>Pushing a return address, unless the recursion limit is reached.\<close>

definition enter_call :: "u32 \<Rightarrow> 'h exec \<Rightarrow> 'h exec flow option" where
  "enter_call target s =
     (let s = sync_sp s
      in if N_MAX_RECURSION_DEPTH \<le> length (call_stack s) then Some (Trapped StackOverflow s)
         else Some (Next (reload_sp (s\<lparr>call_stack := ip s # call_stack s\<rparr>)\<lparr>ip := int (unat target)\<rparr>)))"

definition visit_call_internal :: "u32 \<Rightarrow> 'h exec \<Rightarrow> 'h exec flow option" where
  "visit_call_internal compiled_func s = enter_call compiled_func (ip_add 1 s)"

text \<open>
  The callee of an indirect call. The expected signature is stored before the lookup, so it
  stays behind when the lookup traps.
\<close>

definition resolve_indirect ::
  "'h env \<Rightarrow> u32 \<Rightarrow> 'h exec \<Rightarrow> ((trap_code + u32) \<times> 'h exec) option" where
  "resolve_indirect env signature_idx s =
     do { table \<leftarrow> fetch_table_index env 1 s;
          (func_index, s) \<leftarrow> from_stack sp_pop s;
          let s = s\<lparr>store := (store s)\<lparr>last_signature := Some signature_idx\<rparr>\<rparr> in
          do { t \<leftarrow> tables (store s) table;
               Some (case get_untyped func_index t of
                       None \<Rightarrow> Inl TableOutOfBounds
                     | Some instr_ref \<Rightarrow>
                         if instr_ref = NULL_FUNC_IDX then Inl IndirectCallToNull else Inr instr_ref, s) } }"

definition visit_return_call_indirect :: "'h env \<Rightarrow> u32 \<Rightarrow> 'h exec \<Rightarrow> 'h exec flow option" where
  "visit_return_call_indirect env signature_idx s =
     do { (r, s) \<leftarrow> resolve_indirect env signature_idx s;
          case r of
            Inl t \<Rightarrow> Some (Trapped t s)
          | Inr instr_ref \<Rightarrow>
              (let s = reload_sp (sync_sp (ip_add 2 s))
               in Some (Next (s\<lparr>ip := int (unat instr_ref)\<rparr>))) }"

definition visit_call_indirect :: "'h env \<Rightarrow> u32 \<Rightarrow> 'h exec \<Rightarrow> 'h exec flow option" where
  "visit_call_indirect env signature_idx s =
     do { (r, s) \<leftarrow> resolve_indirect env signature_idx s;
          case r of
            Inl t \<Rightarrow> Some (Trapped t s)
          | Inr instr_ref \<Rightarrow> enter_call instr_ref (ip_add 2 s) }"

section \<open>Host calls\<close>

text \<open>
  The loop that fills the parameter buffer: it walks the parameter types from the first to
  the last while it pops from the top of the stack, and stores the popped values from the
  end of the buffer to its start.
\<close>

fun pop_params :: "val_type list \<Rightarrow> val list \<Rightarrow> stack_mem \<Rightarrow> (val list \<times> stack_mem) option" where
  "pop_params [] buffer m = Some (buffer, m)"
| "pop_params (t # ts) buffer m =
     do { (v, m) \<leftarrow> pop_value t m; pop_params ts (v # buffer) m }"

definition invoke_syscall :: "'h env \<Rightarrow> u32 \<Rightarrow> 'h exec \<Rightarrow> 'h exec flow option" where
  "invoke_syscall env sys_func_idx s =
     do { (params, result) \<leftarrow> linker_types env sys_func_idx;
          let max_in_out = max (length params) (length result); s = sync_sp s in
          case stack_reserve max_in_out (vstack s) of
            Inl t \<Rightarrow> Some (Trapped t s)
          | Inr vs \<Rightarrow>
              do { (args, s) \<leftarrow> from_stack (pop_params params []) (reload_sp (s\<lparr>vstack := vs\<rparr>));
                   defaults \<leftarrow> those (map val_default result);
                   (outcome, st, filled) \<leftarrow> syscall_handler env (store s) sys_func_idx args defaults;
                   let s = s\<lparr>store := st\<rparr> in
                   case outcome of
                     None \<Rightarrow> do { s \<leftarrow> on_stack (push_values filled) s; Some (Next s) }
                   | Some ExecutionHalted \<Rightarrow>
                       do { s \<leftarrow> on_stack (push_values filled) s; Some (Trapped ExecutionHalted s) }
                   | Some t \<Rightarrow> Some (Trapped t s) } }"

definition visit_call :: "'h env \<Rightarrow> u32 \<Rightarrow> 'h exec \<Rightarrow> 'h exec flow option" where
  "visit_call env sys_func_idx s = invoke_syscall env sys_func_idx (ip_add 1 (sync_sp s))"

definition visit_return_call :: "'h env \<Rightarrow> u32 \<Rightarrow> 'h exec \<Rightarrow> 'h exec flow option" where
  "visit_return_call env sys_func_idx s = invoke_syscall env sys_func_idx (ip_add 1 (sync_sp s))"

section \<open>Dispatch\<close>

definition step :: "'h env \<Rightarrow> opcode \<Rightarrow> 'h exec \<Rightarrow> 'h exec flow option" where
  "step env op s = (case op of
     Unreachable \<Rightarrow> visit_unreachable s
     | Trap imm \<Rightarrow> visit_trap_code imm s
     | LocalGet imm \<Rightarrow> visit_local_get imm s
     | LocalSet imm \<Rightarrow> visit_local_set imm s
     | LocalTee imm \<Rightarrow> visit_local_tee imm s
     | Br imm \<Rightarrow> visit_br imm s
     | BrIfEqz imm \<Rightarrow> visit_br_if imm s
     | BrIfNez imm \<Rightarrow> visit_br_if_nez imm s
     | BrTable imm \<Rightarrow> visit_br_table imm s
     | ConsumeFuel imm \<Rightarrow> visit_consume_fuel imm s
     | ConsumeFuelStack \<Rightarrow> visit_consume_fuel_stack s
     | Return \<Rightarrow> visit_return s
     | ReturnCallInternal imm \<Rightarrow> visit_return_call_internal imm s
     | ReturnCall imm \<Rightarrow> visit_return_call env imm s
     | ReturnCallIndirect imm \<Rightarrow> visit_return_call_indirect env imm s
     | CallInternal imm \<Rightarrow> visit_call_internal imm s
     | Call imm \<Rightarrow> visit_call env imm s
     | CallIndirect imm \<Rightarrow> visit_call_indirect env imm s
     | SignatureCheck imm \<Rightarrow> visit_signature_check imm s
     | StackCheck imm \<Rightarrow> visit_stack_check imm s
     | RefFunc imm \<Rightarrow> visit_ref_func imm s
     | I32Const imm \<Rightarrow> visit_i32_const imm s
     | Drop \<Rightarrow> visit_drop s
     | Select \<Rightarrow> visit_select s
     | GlobalGet imm \<Rightarrow> visit_global_get imm s
     | GlobalSet imm \<Rightarrow> visit_global_set imm s
     | I32Load imm \<Rightarrow> execute_load_extend i32_load imm s
     | I32Load8S imm \<Rightarrow> execute_load_extend i32_load8_s imm s
     | I32Load8U imm \<Rightarrow> execute_load_extend i32_load8_u imm s
     | I32Load16S imm \<Rightarrow> execute_load_extend i32_load16_s imm s
     | I32Load16U imm \<Rightarrow> execute_load_extend i32_load16_u imm s
     | I32Store imm \<Rightarrow> execute_store_wrap i32_store imm s
     | I32Store8 imm \<Rightarrow> execute_store_wrap i32_store8 imm s
     | I32Store16 imm \<Rightarrow> execute_store_wrap i32_store16 imm s
     | MemorySize \<Rightarrow> visit_memory_size s
     | MemoryGrow \<Rightarrow> visit_memory_grow s
     | MemoryFill \<Rightarrow> visit_memory_fill s
     | MemoryCopy \<Rightarrow> visit_memory_copy s
     | MemoryInit imm \<Rightarrow> visit_memory_init env imm s
     | DataDrop imm \<Rightarrow> visit_data_drop env imm s
     | TableSize imm \<Rightarrow> visit_table_size imm s
     | TableGrow imm \<Rightarrow> visit_table_grow imm s
     | TableFill imm \<Rightarrow> visit_table_fill imm s
     | TableGet imm \<Rightarrow> visit_table_get imm s
     | TableSet imm \<Rightarrow> visit_table_set imm s
     | TableCopy dst_imm src_imm \<Rightarrow> visit_table_copy dst_imm src_imm s
     | TableInit imm \<Rightarrow> visit_table_init env imm s
     | ElemDrop imm \<Rightarrow> visit_element_drop env imm s
     | I32Eqz \<Rightarrow> visit_unary i32_eqz s
     | I32Eq \<Rightarrow> visit_binary i32_eq s
     | I32Ne \<Rightarrow> visit_binary i32_ne s
     | I32LtS \<Rightarrow> visit_binary i32_lt_s s
     | I32LtU \<Rightarrow> visit_binary i32_lt_u s
     | I32GtS \<Rightarrow> visit_binary i32_gt_s s
     | I32GtU \<Rightarrow> visit_binary i32_gt_u s
     | I32LeS \<Rightarrow> visit_binary i32_le_s s
     | I32LeU \<Rightarrow> visit_binary i32_le_u s
     | I32GeS \<Rightarrow> visit_binary i32_ge_s s
     | I32GeU \<Rightarrow> visit_binary i32_ge_u s
     | I32Clz \<Rightarrow> visit_unary i32_clz s
     | I32Ctz \<Rightarrow> visit_unary i32_ctz s
     | I32Popcnt \<Rightarrow> visit_unary i32_popcnt s
     | I32Add \<Rightarrow> visit_binary i32_add s
     | I32Sub \<Rightarrow> visit_binary i32_sub s
     | I32Mul \<Rightarrow> visit_binary i32_mul s
     | I32DivS \<Rightarrow> visit_fallible_binary i32_div_s s
     | I32DivU \<Rightarrow> visit_fallible_binary i32_div_u s
     | I32RemS \<Rightarrow> visit_fallible_binary i32_rem_s s
     | I32RemU \<Rightarrow> visit_fallible_binary i32_rem_u s
     | I32And \<Rightarrow> visit_binary i32_and s
     | I32Or \<Rightarrow> visit_binary i32_or s
     | I32Xor \<Rightarrow> visit_binary i32_xor s
     | I32Shl \<Rightarrow> visit_binary i32_shl s
     | I32ShrS \<Rightarrow> visit_binary i32_shr_s s
     | I32ShrU \<Rightarrow> visit_binary i32_shr_u s
     | I32Rotl \<Rightarrow> visit_binary i32_rotl s
     | I32Rotr \<Rightarrow> visit_binary i32_rotr s
     | I32WrapI64 \<Rightarrow> visit_unary i32_wrap_i64 s
     | I32Extend8S \<Rightarrow> visit_unary i32_extend8_s s
     | I32Extend16S \<Rightarrow> visit_unary i32_extend16_s s
     | I32Mul64 \<Rightarrow> visit_i32_mul64 s
     | I32Add64 \<Rightarrow> visit_i32_add64 s
     | BulkConst imm \<Rightarrow> visit_bulk_const imm s
     | BulkDrop imm \<Rightarrow> visit_bulk_drop imm s
     | Fpu _ \<Rightarrow> Some (Trapped IllegalOpcode s))"

text \<open>One iteration of \<open>run_the_loop\<close>; an instruction pointer outside the code section reads
  memory out of bounds.\<close>

definition exec_step :: "'h env \<Rightarrow> 'h exec \<Rightarrow> 'h exec flow option" where
  "exec_step env s = do { op \<leftarrow> fetch (code_section (module env)) (ip s); step env op s }"

text \<open>The loop: \<open>None\<close> when it never ends, \<open>Undefined\<close> on undefined behaviour or a panic.\<close>

datatype 'r run_result = Undefined | Finished 'r

partial_function (option) run_the_loop ::
  "'h env \<Rightarrow> 'h exec \<Rightarrow> (trap_code option \<times> 'h exec) run_result option" where
  "run_the_loop env s =
     (case exec_step env s of
        None \<Rightarrow> Some Undefined
      | Some flow \<Rightarrow>
          (case flow of
             Next s' \<Rightarrow> run_the_loop env s'
           | Halt s' \<Rightarrow> Some (Finished (None, s'))
           | Trapped t s' \<Rightarrow> Some (Finished (Some t, s'))))"

section \<open>Running with parameters and results\<close>

definition param_width :: "val \<Rightarrow> nat" where
  "param_width v = (case v of I64 _ \<Rightarrow> 2 | F64 _ \<Rightarrow> 2 | _ \<Rightarrow> 1)"

text \<open>The values are popped for the results from the last to the first.\<close>

fun pop_results :: "val list \<Rightarrow> stack_mem \<Rightarrow> (val list \<times> stack_mem) option" where
  "pop_results [] m = Some ([], m)"
| "pop_results (x # xs) m =
     do { (vs, m) \<leftarrow> pop_results xs m; (v, m) \<leftarrow> pop_value (val_ty x) m; Some (v # vs, m) }"

definition halted_state :: "'h exec \<Rightarrow> 'h exec" where
  "halted_state s =
     s\<lparr>vstack := stack_reset (vstack s), call_stack := [],
       store := (store s)\<lparr>last_signature := None\<rparr>\<rparr>"

text \<open>What \<open>run\<close> does once the loop has ended with \<open>status\<close>.\<close>

definition finish_run ::
  "val list \<Rightarrow> trap_code option \<Rightarrow> 'h exec \<Rightarrow> (trap_code option \<times> val list \<times> 'h exec) run_result" where
  "finish_run result status s =
     (case status of
        Some InterruptionCalled \<Rightarrow> Finished (Some InterruptionCalled, result, sync_sp s)
      | Some ExecutionHalted \<Rightarrow> Finished (None, result, halted_state s)
      | Some t \<Rightarrow> Finished (Some t, result, halted_state s)
      | None \<Rightarrow>
          (case from_stack (pop_results result) s of
             None \<Rightarrow> Undefined
           | Some (vs, s) \<Rightarrow> Finished (None, vs, sync_sp s)))"

definition exec_run ::
  "'h env \<Rightarrow> val list \<Rightarrow> val list \<Rightarrow> 'h exec \<Rightarrow>
   (trap_code option \<times> val list \<times> 'h exec) run_result option" where
  "exec_run env params result s =
     (let s = sync_sp s; params_len = sum_list (map param_width params)
      in case stack_reserve params_len (vstack s) of
           Inl t \<Rightarrow> Some (Finished (Some t, result, s))
         | Inr vs \<Rightarrow>
             (case on_stack (push_values params) (reload_sp (s\<lparr>vstack := vs\<rparr>)) of
                None \<Rightarrow> Some Undefined
              | Some s \<Rightarrow>
                  (case run_the_loop env s of
                     None \<Rightarrow> None
                   | Some Undefined \<Rightarrow> Some Undefined
                   | Some (Finished (status, s)) \<Rightarrow> Some (finish_run result status s))))"

section \<open>The engine\<close>

text \<open>An interrupted execution leaves its context in the store (\<open>remember_context\<close>).\<close>

definition remember_context :: "rwasm_module \<Rightarrow> 'h exec \<Rightarrow> 'h store" where
  "remember_context m s =
     (store s)\<lparr>resumable_context :=
        Some \<lparr>ctx_module = m, ctx_call_stack = call_stack s, ctx_ip = ip s,
              ctx_value_stack = sync_stack_ptr (sp s) (vstack s)\<rparr>\<rparr>"

definition engine_outcome ::
  "rwasm_module \<Rightarrow> (trap_code option \<times> val list \<times> 'h exec) run_result option \<Rightarrow>
   (trap_code option \<times> val list \<times> 'h store) run_result option" where
  "engine_outcome m r =
     (case r of
        None \<Rightarrow> None
      | Some Undefined \<Rightarrow> Some Undefined
      | Some (Finished (t, vs, s)) \<Rightarrow>
          Some (Finished (t, vs, if t = Some InterruptionCalled then remember_context m s else store s)))"

definition initial_exec :: "instruction_ptr \<Rightarrow> 'h store \<Rightarrow> 'h exec" where
  "initial_exec p st =
     \<lparr>vstack = value_stack_default, sp = 0, call_stack = [], ip = p, store = st\<rparr>"

definition engine_entrypoint ::
  "'h env \<Rightarrow> 'h store \<Rightarrow> (trap_code option \<times> val list \<times> 'h store) run_result option" where
  "engine_entrypoint env st = engine_outcome (module env) (exec_run env [] [] (initial_exec 0 st))"

definition engine_execute ::
  "'h env \<Rightarrow> val list \<Rightarrow> val list \<Rightarrow> 'h store \<Rightarrow>
   (trap_code option \<times> val list \<times> 'h store) run_result option" where
  "engine_execute env params result st =
     engine_outcome (module env)
       (exec_run env params result (initial_exec (int (unat (source_pc (module env)))) st))"

text \<open>\<open>resume\<close> takes the context out of the store; without one it is \<open>unreachable!()\<close>.\<close>

definition engine_resume ::
  "'h env \<Rightarrow> val list \<Rightarrow> val list \<Rightarrow> 'h store \<Rightarrow>
   (trap_code option \<times> val list \<times> 'h store) run_result option" where
  "engine_resume env params result st =
     (case resumable_context st of
        None \<Rightarrow> Some Undefined
      | Some ctx \<Rightarrow>
          engine_outcome (ctx_module ctx)
            (exec_run (env\<lparr>module := ctx_module ctx\<rparr>) params result
               \<lparr>vstack = ctx_value_stack ctx, sp = stack_ptr (ctx_value_stack ctx),
                call_stack = ctx_call_stack ctx, ip = ctx_ip ctx,
                store = st\<lparr>resumable_context := None\<rparr>\<rparr>))"

text \<open>\<open>RwasmInstance::new\<close> runs the entrypoint only when the source offset is positive.\<close>

definition instance_new ::
  "'h env \<Rightarrow> 'h store \<Rightarrow> (trap_code option \<times> val list \<times> 'h store) run_result option" where
  "instance_new env st =
     (if 0 < source_pc (module env) then engine_entrypoint env st else Some (Finished (None, [], st)))"

end
