(* ===== verification/Local_Step.thy ===== *)
theory Local_Step
  imports Interpreter
begin

text \<open>
  The abstract view of an instruction without calls: the state is the list of the live words
  (top first), the number of free cells above them and the store, and \<open>local_step\<close> says
  what each opcode does to it. The operations of the stack pointer are given through the
  interface \<open>word_stack\<close> (push, pop, read and write below the top). The theory shows that
  the interpreter's \<open>step\<close> implements \<open>local_step\<close>.
\<close>

declare split_paired_Ex [simp del] split_paired_All [simp del]

section \<open>The interface of the operand stack\<close>

locale word_stack =
  fixes repr :: "'m \<Rightarrow> u32 list \<Rightarrow> nat \<Rightarrow> bool"
    and push :: "u32 \<Rightarrow> 'm \<Rightarrow> 'm option"
    and pop :: "'m \<Rightarrow> (u32 \<times> 'm) option"
    and peek :: "nat \<Rightarrow> 'm \<Rightarrow> u32 option"
    and poke :: "nat \<Rightarrow> u32 \<Rightarrow> 'm \<Rightarrow> 'm option"
  assumes push_ok: "repr m s (Suc r) \<Longrightarrow> \<exists>m'. push v m = Some m' \<and> repr m' (v # s) r"
    and pop_ok: "repr m (v # s) r \<Longrightarrow> \<exists>m'. pop m = Some (v, m') \<and> repr m' s (Suc r)"
    and peek_ok: "repr m s r \<Longrightarrow> 0 < n \<Longrightarrow> n \<le> length s \<Longrightarrow> peek n m = Some (s ! (n - 1))"
    and poke_ok: "repr m s r \<Longrightarrow> 0 < n \<Longrightarrow> n \<le> length s \<Longrightarrow>
      \<exists>m'. poke n v m = Some m' \<and> repr m' (s[n - 1 := v]) r"
begin

lemma push_push_ok:
  "repr m s (Suc (Suc r)) \<Longrightarrow>
   \<exists>m'. do { m \<leftarrow> push v m; push w m } = Some m' \<and> repr m' (w # v # s) r"
  using push_ok [of m s "Suc r" v] push_ok [of _ "v # s" r w] by fastforce

lemma pop_pop_ok:
  "repr m (w # v # s) r \<Longrightarrow>
   \<exists>m'. do { (rhs, m) \<leftarrow> pop m; (lhs, m) \<leftarrow> pop m; Some ((lhs, rhs), m) } = Some ((v, w), m') \<and>
        repr m' s (Suc (Suc r))"
  using pop_ok [of m w "v # s" r] pop_ok [of _ v s "Suc r"] by fastforce

lemma update_top_ok:
  "repr m (v # s) r \<Longrightarrow>
   \<exists>m'. do { v \<leftarrow> peek 1 m; poke 1 (f v) m } = Some m' \<and> repr m' (f v # s) r"
  using peek_ok [of m "v # s" r 1] poke_ok [of m "v # s" r 1 "f v"] by fastforce

lemma pop_update_ok:
  "repr m (w # v # s) r \<Longrightarrow>
   \<exists>m'. do { (rhs, m) \<leftarrow> pop m; lhs \<leftarrow> peek 1 m; poke 1 (f lhs rhs) m } = Some m' \<and>
        repr m' (f v w # s) (Suc r)"
  using pop_ok [of m w "v # s" r] update_top_ok [of _ v s "Suc r" "\<lambda>lhs. f lhs w"] by fastforce

lemma peek_push_ok:
  "repr m s (Suc r) \<Longrightarrow> 0 < n \<Longrightarrow> n \<le> length s \<Longrightarrow>
   \<exists>m'. do { v \<leftarrow> peek n m; push v m } = Some m' \<and> repr m' (s ! (n - 1) # s) r"
  using peek_ok [of m s "Suc r" n] push_ok [of m s r "s ! (n - 1)"] by fastforce

lemma pop_poke_ok:
  "repr m (v # s) r \<Longrightarrow> 0 < n \<Longrightarrow> n \<le> length s \<Longrightarrow>
   \<exists>m'. do { (v, m) \<leftarrow> pop m; poke n v m } = Some m' \<and> repr m' (s[n - 1 := v]) (Suc r)"
  using pop_ok [of m v s r] poke_ok [of _ s "Suc r" n v] by fastforce

end

text \<open>The live words of the allocated cells, and the free cells above them.\<close>

definition repr :: "stack_mem \<Rightarrow> u32 list \<Rightarrow> nat \<Rightarrow> bool" where
  "repr m s r \<longleftrightarrow> (case m of (es, p) \<Rightarrow>
     p \<le> length es \<and> rev (take p es) = s \<and> length es - p = r)"

lemma repr_capacity: "repr m s r \<Longrightarrow> length (fst m) = length s + r"
  by (auto simp: repr_def split: prod.splits)

lemma repr_pointer: "repr m s r \<Longrightarrow> snd m = length s"
  by (auto simp: repr_def split: prod.splits)

lemma repr_nth_back:
  assumes "repr m s r" "0 < n" "n \<le> length s"
  shows "nth_back n m = Some (s ! (n - 1))"
proof -
  obtain es p where m: "m = (es, p)" by (cases m)
  with assms have "p \<le> length es" "s = rev (take p es)" "n \<le> p"
    by (auto simp: repr_def)
  with m assms(2) show ?thesis
    by (simp add: nth_back_def dec_by_def ptr_get_def rev_nth)
qed

lemma repr_set_nth_back:
  assumes "repr m s r" "0 < n" "n \<le> length s"
  shows "\<exists>m'. set_nth_back n v m = Some m' \<and> repr m' (s[n - 1 := v]) r"
proof -
  obtain es p where m: "m = (es, p)" by (cases m)
  with assms have p: "p \<le> length es" "s = rev (take p es)" "n \<le> p" "length es - p = r"
    by (auto simp: repr_def)
  then have "take p (es[p - n := v]) = (take p es)[p - n := v]"
    by (simp add: take_update_swap)
  moreover have "rev ((take p es)[p - n := v]) = (rev (take p es))[n - 1 := v]"
    using p assms(2) by (simp add: rev_update)
  ultimately show ?thesis using m p assms(2)
    by (simp add: set_nth_back_def dec_by_def ptr_set_def repr_def)
qed

interpretation value_stack_words: word_stack repr sp_push sp_pop nth_back set_nth_back
proof
  fix m s r v
  assume "repr m s (Suc r)"
  then show "\<exists>m'. sp_push v m = Some m' \<and> repr m' (v # s) r"
    by (auto simp: repr_def sp_push_def ptr_set_def inc_by_def take_Suc_conv_app_nth
        split: prod.splits)
next
  fix m v s r
  assume "repr m (v # s) r"
  then obtain es p where m: "m = (es, p)" "p \<le> length es" "rev (take p es) = v # s" "length es - p = r"
    by (auto simp: repr_def split: prod.splits)
  from m(3) have "p \<noteq> 0" by (intro notI) simp
  then obtain q where q: "p = Suc q" by (auto simp: gr0_conv_Suc)
  then have "rev (take q es) = s" and "es ! q = v"
    using m by (auto simp: take_Suc_conv_app_nth)
  then show "\<exists>m'. sp_pop m = Some (v, m') \<and> repr m' s (Suc r)"
    using m q by (auto simp: sp_pop_def dec_by_def ptr_get_def repr_def)
next
  fix m s r n
  assume "repr m s r" "0 < n" "n \<le> length s"
  then show "nth_back n m = Some (s ! (n - 1))" by (rule repr_nth_back)
next
  fix m s r n v
  assume "repr m s r" "0 < n" "n \<le> length s"
  then show "\<exists>m'. set_nth_back n v m = Some m' \<and> repr m' (s[n - 1 := v]) r"
    by (rule repr_set_nth_back)
qed

text \<open>The laws in the normal form of the simplifier.\<close>

lemmas word_stack_laws =
  value_stack_words.push_ok value_stack_words.pop_ok
  value_stack_words.update_top_ok [unfolded One_nat_def]
  value_stack_words.pop_update_ok [unfolded One_nat_def]
  repr_set_nth_back [unfolded One_nat_def]

section \<open>What each opcode does to the live words\<close>

datatype 'h local_result =
    Goto int "'h store" "u32 list" nat
  | Trapping trap_code "'h store"
  | Outside

definition bool_word :: "bool \<Rightarrow> u32" where
  "bool_word b = (if b then 1 else 0)"

definition on_top :: "(u32 \<Rightarrow> u32) \<Rightarrow> 'h store \<Rightarrow> u32 list \<Rightarrow> nat \<Rightarrow> 'h local_result" where
  "on_top f st s r = (case s of v # s' \<Rightarrow> Goto 1 st (f v # s') r | [] \<Rightarrow> Outside)"

definition on_top2 :: "(u32 \<Rightarrow> u32 \<Rightarrow> u32) \<Rightarrow> 'h store \<Rightarrow> u32 list \<Rightarrow> nat \<Rightarrow> 'h local_result" where
  "on_top2 f st s r = (case s of b # a # s' \<Rightarrow> Goto 1 st (f a b # s') (r + 1) | _ \<Rightarrow> Outside)"

definition on_top2_or_trap ::
  "(u32 \<Rightarrow> u32 \<Rightarrow> trap_code + u32) \<Rightarrow> 'h store \<Rightarrow> u32 list \<Rightarrow> nat \<Rightarrow> 'h local_result" where
  "on_top2_or_trap f st s r =
     (case s of
        b # a # s' \<Rightarrow> (case f a b of Inl t \<Rightarrow> Trapping t st | Inr v \<Rightarrow> Goto 1 st (v # s') (r + 1))
      | _ \<Rightarrow> Outside)"

definition widened :: "(u64 \<Rightarrow> u64 \<Rightarrow> u64) \<Rightarrow> 'h store \<Rightarrow> u32 list \<Rightarrow> nat \<Rightarrow> 'h local_result" where
  "widened f st s r =
     (case s of
        b # a # s' \<Rightarrow> let w = f (ucast a) (ucast b) in Goto 1 st (hi32 w # lo32 w # s') r
      | _ \<Rightarrow> Outside)"

definition pushed :: "u32 \<Rightarrow> 'h store \<Rightarrow> u32 list \<Rightarrow> nat \<Rightarrow> 'h local_result" where
  "pushed v st s r = (if 0 < r then Goto 1 st (v # s) (r - 1) else Outside)"

definition branching ::
  "(u32 \<Rightarrow> bool) \<Rightarrow> branch_offset \<Rightarrow> 'h store \<Rightarrow> u32 list \<Rightarrow> nat \<Rightarrow> 'h local_result" where
  "branching taken off st s r =
     (case s of v # s' \<Rightarrow> Goto (if taken v then sint off else 1) st s' (r + 1) | [] \<Rightarrow> Outside)"

definition loading ::
  "(u8 list \<Rightarrow> u32 \<Rightarrow> u32 \<Rightarrow> trap_code + u32) \<Rightarrow> u32 \<Rightarrow> 'h store \<Rightarrow> u32 list \<Rightarrow> nat \<Rightarrow> 'h local_result" where
  "loading load off st s r =
     (case s of
        a # s' \<Rightarrow>
          (case load (shared_memory (global_memory st)) a off of
             Inl t \<Rightarrow> Trapping t st
           | Inr v \<Rightarrow> Goto 1 st (v # s') r)
      | [] \<Rightarrow> Outside)"

definition with_memory :: "u8 list \<Rightarrow> 'h store \<Rightarrow> 'h store" where
  "with_memory mem st = st\<lparr>global_memory := (global_memory st)\<lparr>shared_memory := mem\<rparr>\<rparr>"

definition storing ::
  "(u8 list \<Rightarrow> u32 \<Rightarrow> u32 \<Rightarrow> u32 \<Rightarrow> trap_code + u8 list) \<Rightarrow> u32 \<Rightarrow> 'h store \<Rightarrow> u32 list \<Rightarrow> nat \<Rightarrow>
   'h local_result" where
  "storing wr off st s r =
     (case s of
        v # a # s' \<Rightarrow>
          (case wr (shared_memory (global_memory st)) a off v of
             Inl t \<Rightarrow> Trapping t st
           | Inr mem \<Rightarrow> Goto 1 (with_memory mem st) s' (r + 2))
      | _ \<Rightarrow> Outside)"

definition charging :: "u64 \<Rightarrow> 'h store \<Rightarrow> u32 list \<Rightarrow> nat \<Rightarrow> 'h local_result" where
  "charging d st s r =
     (case try_consume_fuel d st of Inl t \<Rightarrow> Trapping t st | Inr st' \<Rightarrow> Goto 1 st' s r)"

definition growing :: "'h store \<Rightarrow> u32 list \<Rightarrow> nat \<Rightarrow> 'h local_result" where
  "growing st s r =
     (case s of
        delta # s' \<Rightarrow>
          (case pages_new delta of
             None \<Rightarrow> Goto 1 st (- 1 # s') r
           | Some delta \<Rightarrow>
               (case memory_grow delta (global_memory st) of
                  None \<Rightarrow> Outside
                | Some (p, g) \<Rightarrow>
                    Goto 1 (st\<lparr>global_memory := g\<rparr>) ((case p of Some p \<Rightarrow> p | None \<Rightarrow> - 1) # s') r))
      | [] \<Rightarrow> Outside)"

definition table_growing :: "u16 \<Rightarrow> 'h store \<Rightarrow> u32 list \<Rightarrow> nat \<Rightarrow> 'h local_result" where
  "table_growing idx st s r =
     (case s of
        delta # init # s' \<Rightarrow>
          (let (res, t) = grow_untyped delta init
                 (case tables st idx of Some t \<Rightarrow> t | None \<Rightarrow> [])
           in Goto 1 (st\<lparr>tables := (tables st)(idx \<mapsto> t)\<rparr>) (res # s') (r + 1))
      | _ \<Rightarrow> Outside)"

text \<open>A word of the stack below the top; the depth counts from one.\<close>

definition reading :: "u32 \<Rightarrow> 'h store \<Rightarrow> u32 list \<Rightarrow> nat \<Rightarrow> 'h local_result" where
  "reading n st s r =
     (if 0 < unat n \<and> unat n \<le> length s then pushed (s ! (unat n - 1)) st s r else Outside)"

definition writing :: "u32 \<Rightarrow> 'h store \<Rightarrow> u32 list \<Rightarrow> nat \<Rightarrow> 'h local_result" where
  "writing n st s r =
     (case s of
        v # s' \<Rightarrow>
          if 0 < unat n \<and> unat n \<le> length s' then Goto 1 st (s'[unat n - 1 := v]) (r + 1) else Outside
      | [] \<Rightarrow> Outside)"

definition teeing :: "u32 \<Rightarrow> 'h store \<Rightarrow> u32 list \<Rightarrow> nat \<Rightarrow> 'h local_result" where
  "teeing n st s r =
     (case s of
        v # _ \<Rightarrow>
          if 0 < unat n \<and> unat n \<le> length s then Goto 1 st (s[unat n - 1 := v]) r else Outside
      | [] \<Rightarrow> Outside)"

definition dropping :: "'h store \<Rightarrow> u32 list \<Rightarrow> nat \<Rightarrow> 'h local_result" where
  "dropping st s r = (case s of _ # s' \<Rightarrow> Goto 1 st s' (r + 1) | [] \<Rightarrow> Outside)"

definition selecting :: "'h store \<Rightarrow> u32 list \<Rightarrow> nat \<Rightarrow> 'h local_result" where
  "selecting st s r =
     (case s of c # b # a # s' \<Rightarrow> Goto 1 st ((if c \<noteq> 0 then a else b) # s') (r + 2) | _ \<Rightarrow> Outside)"

definition charging_top :: "'h store \<Rightarrow> u32 list \<Rightarrow> nat \<Rightarrow> 'h local_result" where
  "charging_top st s r = (case s of v # s' \<Rightarrow> charging (ucast v) st s' (r + 1) | [] \<Rightarrow> Outside)"

definition zeros_pushed :: "u32 \<Rightarrow> 'h store \<Rightarrow> u32 list \<Rightarrow> nat \<Rightarrow> 'h local_result" where
  "zeros_pushed n st s r =
     (if unat n \<le> r then Goto 1 st (replicate (unat n) 0 @ s) (r - unat n) else Outside)"

definition dropping_n :: "u32 \<Rightarrow> 'h store \<Rightarrow> u32 list \<Rightarrow> nat \<Rightarrow> 'h local_result" where
  "dropping_n n st s r =
     (if unat n \<le> length s then Goto 1 st (drop (unat n) s) (r + unat n) else Outside)"

text \<open>An opcode that takes three operands and updates the store, or traps.\<close>

definition updating3 ::
  "(u32 \<Rightarrow> u32 \<Rightarrow> u32 \<Rightarrow> 'h store \<Rightarrow> (trap_code + 'h store) option) \<Rightarrow>
   'h store \<Rightarrow> u32 list \<Rightarrow> nat \<Rightarrow> 'h local_result" where
  "updating3 f st s r = (case s of
     n # v # d # s' \<Rightarrow>
       (case f d v n st of
          None \<Rightarrow> Outside
        | Some (Inl t) \<Rightarrow> Trapping t st
        | Some (Inr st') \<Rightarrow> Goto 1 st' s' (r + 3))
   | _ \<Rightarrow> Outside)"

definition memory_of :: "'h store \<Rightarrow> u8 list" where
  "memory_of st = shared_memory (global_memory st)"

definition filled_memory :: "u32 \<Rightarrow> u32 \<Rightarrow> u32 \<Rightarrow> 'h store \<Rightarrow> (trap_code + 'h store) option" where
  "filled_memory d v n st = Some
     (case slice_get (memory_of st) (i32_as_usize d) (i32_as_usize n) of
        None \<Rightarrow> Inl MemoryOutOfBounds
      | Some _ \<Rightarrow> Inr (with_memory
          (overwrite (memory_of st) (i32_as_usize d) (replicate (i32_as_usize n) (ucast v))) st))"

definition copied_memory :: "u32 \<Rightarrow> u32 \<Rightarrow> u32 \<Rightarrow> 'h store \<Rightarrow> (trap_code + 'h store) option" where
  "copied_memory d src n st = Some
     (case slice_get (memory_of st) (i32_as_usize src) (i32_as_usize n) of
        None \<Rightarrow> Inl MemoryOutOfBounds
      | Some bytes \<Rightarrow>
          (case slice_get (memory_of st) (i32_as_usize d) (i32_as_usize n) of
             None \<Rightarrow> Inl MemoryOutOfBounds
           | Some _ \<Rightarrow> Inr (with_memory (overwrite (memory_of st) (i32_as_usize d) bytes) st)))"

definition with_table :: "u16 \<Rightarrow> table_entity \<Rightarrow> 'h store \<Rightarrow> 'h store" where
  "with_table i t st = st\<lparr>tables := (tables st)(i \<mapsto> t)\<rparr>"

definition updated_table :: "u16 \<Rightarrow> trap_code + table_entity \<Rightarrow> 'h store \<Rightarrow> trap_code + 'h store" where
  "updated_table i r st = (case r of Inl t \<Rightarrow> Inl t | Inr t \<Rightarrow> Inr (with_table i t st))"

definition filled_table :: "u16 \<Rightarrow> u32 \<Rightarrow> u32 \<Rightarrow> u32 \<Rightarrow> 'h store \<Rightarrow> (trap_code + 'h store) option" where
  "filled_table i d v n st =
     do { t \<leftarrow> tables st i; Some (updated_table i (fill_untyped d v n t) st) }"

definition copied_table :: "u16 \<Rightarrow> u16 \<Rightarrow> u32 \<Rightarrow> u32 \<Rightarrow> u32 \<Rightarrow> 'h store \<Rightarrow> (trap_code + 'h store) option" where
  "copied_table i j d src n st =
     do { from \<leftarrow> tables st j; to \<leftarrow> tables st i;
          Some (updated_table i (if j \<noteq> i then table_copy d from src n to
                                 else copy_within d src n from) st) }"

definition table_reading :: "u16 \<Rightarrow> 'h store \<Rightarrow> u32 list \<Rightarrow> nat \<Rightarrow> 'h local_result" where
  "table_reading i st s r = (case s of
     k # s' \<Rightarrow> (case tables st i of
        None \<Rightarrow> Outside
      | Some t \<Rightarrow> (case get_untyped k t of
           None \<Rightarrow> Trapping TableOutOfBounds st
         | Some v \<Rightarrow> Goto 1 st (v # s') r))
   | [] \<Rightarrow> Outside)"

definition table_writing :: "u16 \<Rightarrow> 'h store \<Rightarrow> u32 list \<Rightarrow> nat \<Rightarrow> 'h local_result" where
  "table_writing i st s r = (case s of
     v # k # s' \<Rightarrow> (case tables st i of
        None \<Rightarrow> Outside
      | Some t \<Rightarrow> (case set_untyped k v t of
           Inl _ \<Rightarrow> Trapping TableOutOfBounds st
         | Inr t \<Rightarrow> Goto 1 (with_table i t st) s' (r + 2)))
   | _ \<Rightarrow> Outside)"

definition global_writing :: "u32 \<Rightarrow> 'h store \<Rightarrow> u32 list \<Rightarrow> nat \<Rightarrow> 'h local_result" where
  "global_writing i st s r = (case s of
     v # s' \<Rightarrow> Goto 1 (st\<lparr>global_variables := (global_variables st)(i \<mapsto> v)\<rparr>) s' (r + 1)
   | [] \<Rightarrow> Outside)"

definition signature_checking :: "u32 \<Rightarrow> 'h store \<Rightarrow> u32 list \<Rightarrow> nat \<Rightarrow> 'h local_result" where
  "signature_checking i st s r =
     (let st' = st\<lparr>last_signature := None\<rparr> in
      case last_signature st of
        Some a \<Rightarrow> if a \<noteq> i then Trapping BadSignature st' else Goto 1 st' s r
      | None \<Rightarrow> Goto 1 st' s r)"

definition local_step :: "opcode \<Rightarrow> 'h store \<Rightarrow> u32 list \<Rightarrow> nat \<Rightarrow> 'h local_result" where
  "local_step op st s r = (case op of
     Br off \<Rightarrow> Goto (sint off) st s r
   | BrIfEqz off \<Rightarrow> branching (\<lambda>v. v = 0) off st s r
   | BrIfNez off \<Rightarrow> branching (\<lambda>v. v \<noteq> 0) off st s r
   | Unreachable \<Rightarrow> Trapping UnreachableCodeReached st
   | Trap t \<Rightarrow> Trapping t st
   | LocalGet n \<Rightarrow> reading n st s r
   | LocalSet n \<Rightarrow> writing n st s r
   | LocalTee n \<Rightarrow> teeing n st s r
   | Drop \<Rightarrow> dropping st s r
   | Select \<Rightarrow> selecting st s r
   | I32Const v \<Rightarrow> pushed v st s r
   | RefFunc f \<Rightarrow> pushed f st s r
   | GlobalGet i \<Rightarrow> pushed (global_word_bits i st) st s r
   | ConsumeFuel n \<Rightarrow> charging (ucast n) st s r
   | ConsumeFuelStack \<Rightarrow> charging_top st s r
   | MemorySize \<Rightarrow> pushed (current_pages (global_memory st)) st s r
   | MemoryGrow \<Rightarrow> growing st s r
   | TableSize i \<Rightarrow> (case tables st i of Some t \<Rightarrow> pushed (table_size t) st s r | None \<Rightarrow> Outside)
   | TableGrow i \<Rightarrow> table_growing i st s r
   | I32Load off \<Rightarrow> loading i32_load off st s r
   | I32Load8S off \<Rightarrow> loading i32_load8_s off st s r
   | I32Load8U off \<Rightarrow> loading i32_load8_u off st s r
   | I32Load16S off \<Rightarrow> loading i32_load16_s off st s r
   | I32Load16U off \<Rightarrow> loading i32_load16_u off st s r
   | I32Store off \<Rightarrow> storing i32_store off st s r
   | I32Store8 off \<Rightarrow> storing i32_store8 off st s r
   | I32Store16 off \<Rightarrow> storing i32_store16 off st s r
   | I32Mul64 \<Rightarrow> widened (*) st s r
   | I32Add64 \<Rightarrow> widened (+) st s r
   | I32Eqz \<Rightarrow> on_top i32_eqz st s r
   | I32Clz \<Rightarrow> on_top i32_clz st s r
   | I32Ctz \<Rightarrow> on_top i32_ctz st s r
   | I32Popcnt \<Rightarrow> on_top i32_popcnt st s r
   | I32WrapI64 \<Rightarrow> on_top i32_wrap_i64 st s r
   | I32Extend8S \<Rightarrow> on_top i32_extend8_s st s r
   | I32Extend16S \<Rightarrow> on_top i32_extend16_s st s r
   | I32Eq \<Rightarrow> on_top2 i32_eq st s r
   | I32Ne \<Rightarrow> on_top2 i32_ne st s r
   | I32LtS \<Rightarrow> on_top2 i32_lt_s st s r
   | I32LtU \<Rightarrow> on_top2 i32_lt_u st s r
   | I32GtS \<Rightarrow> on_top2 i32_gt_s st s r
   | I32GtU \<Rightarrow> on_top2 i32_gt_u st s r
   | I32LeS \<Rightarrow> on_top2 i32_le_s st s r
   | I32LeU \<Rightarrow> on_top2 i32_le_u st s r
   | I32GeS \<Rightarrow> on_top2 i32_ge_s st s r
   | I32GeU \<Rightarrow> on_top2 i32_ge_u st s r
   | I32Add \<Rightarrow> on_top2 i32_add st s r
   | I32Sub \<Rightarrow> on_top2 i32_sub st s r
   | I32Mul \<Rightarrow> on_top2 i32_mul st s r
   | I32And \<Rightarrow> on_top2 i32_and st s r
   | I32Or \<Rightarrow> on_top2 i32_or st s r
   | I32Xor \<Rightarrow> on_top2 i32_xor st s r
   | I32Shl \<Rightarrow> on_top2 i32_shl st s r
   | I32ShrS \<Rightarrow> on_top2 i32_shr_s st s r
   | I32ShrU \<Rightarrow> on_top2 i32_shr_u st s r
   | I32Rotl \<Rightarrow> on_top2 i32_rotl st s r
   | I32Rotr \<Rightarrow> on_top2 i32_rotr st s r
   | I32DivS \<Rightarrow> on_top2_or_trap i32_div_s st s r
   | I32DivU \<Rightarrow> on_top2_or_trap i32_div_u st s r
   | I32RemS \<Rightarrow> on_top2_or_trap i32_rem_s st s r
   | I32RemU \<Rightarrow> on_top2_or_trap i32_rem_u st s r
   | BulkConst n \<Rightarrow> zeros_pushed n st s r
   | BulkDrop n \<Rightarrow> dropping_n n st s r
   | GlobalSet i \<Rightarrow> global_writing i st s r
   | SignatureCheck i \<Rightarrow> signature_checking i st s r
   | MemoryFill \<Rightarrow> updating3 filled_memory st s r
   | MemoryCopy \<Rightarrow> updating3 copied_memory st s r
   | TableFill i \<Rightarrow> updating3 (filled_table i) st s r
   | TableCopy i j \<Rightarrow> updating3 (copied_table i j) st s r
   | TableGet i \<Rightarrow> table_reading i st s r
   | TableSet i \<Rightarrow> table_writing i st s r
   | _ \<Rightarrow> Outside)"

section \<open>The interpreter implements the local steps\<close>

text \<open>The executor state \<open>x\<close> moved by \<open>d\<close> instructions with new live words, free cells and
  store; everything else is as in \<open>x\<close>.\<close>

definition moved :: "'h exec \<Rightarrow> int \<Rightarrow> 'h store \<Rightarrow> u32 list \<Rightarrow> nat \<Rightarrow> 'h exec \<Rightarrow> bool" where
  "moved x d st s r x' \<longleftrightarrow>
     (\<exists>m. repr m s r \<and> x' = (set_stack m x)\<lparr>ip := ip x + d, store := st\<rparr>)"

definition follows :: "'h exec \<Rightarrow> 'h exec flow option \<Rightarrow> 'h local_result \<Rightarrow> bool" where
  "follows x f res \<longleftrightarrow> (case res of
     Goto d st s r \<Rightarrow> (\<exists>x'. f = Some (Next x') \<and> moved x d st s r x')
   | Trapping t st \<Rightarrow> (\<exists>x'. f = Some (Trapped t x') \<and> store x' = st \<and> call_stack x' = call_stack x)
   | Outside \<Rightarrow> True)"

lemma store_set_stack [simp]: "store (set_stack m x) = store x"
  and call_stack_set_stack [simp]: "call_stack (set_stack m x) = call_stack x"
  and stack_of_set_stack [simp]: "stack_of (set_stack m x) = m"
  and ip_set_stack [simp]: "ip (set_stack m x) = ip x"
  and set_stack_set_stack [simp]: "set_stack m' (set_stack m x) = set_stack m' x"
  by (simp_all add: set_stack_def stack_of_def)

lemma set_stack_same [simp]: "set_stack (stack_of x) x = x"
  by (simp add: set_stack_def stack_of_def)

lemma set_stack_store: "set_stack m (x\<lparr>store := st\<rparr>) = (set_stack m x)\<lparr>store := st\<rparr>"
  by (simp add: set_stack_def)

lemma ip_store_unchanged [simp]:
  "(set_stack m x)\<lparr>ip := i, store := store x\<rparr> = (set_stack m x)\<lparr>ip := i\<rparr>"
  by (simp add: set_stack_def)

lemmas follow_defs = follows_def moved_def next_instr_def ip_add_def on_stack_def from_stack_def

lemma follows_on_stack:
  "\<exists>m'. g (stack_of x) = Some m' \<and> repr m' s' r' \<Longrightarrow>
   follows x (do { x \<leftarrow> on_stack g x; next_instr x }) (Goto 1 (store x) s' r')"
  by (auto simp: follow_defs)

lemma follows_Outside [simp]: "follows x f Outside"
  by (simp add: follows_def)

text \<open>A first part of an opcode that moves the stack alone can be skipped.\<close>

lemma follows_set_stack:
  "follows (set_stack m x) f res \<Longrightarrow> follows x f res"
  by (auto simp: follows_def moved_def split: local_result.splits)

lemma follows_store:
  "follows (x\<lparr>store := st\<rparr>) f res \<Longrightarrow> follows x f res"
  by (auto simp: follows_def moved_def set_stack_store split: local_result.splits)

lemma stack_of_store [simp]: "stack_of (x\<lparr>store := st\<rparr>) = stack_of x"
  by (simp add: stack_of_def)

lemma set_stack_store_unchanged [simp]: "(set_stack m x)\<lparr>store := store x\<rparr> = set_stack m x"
  by (simp add: set_stack_def)

lemma follows_from_stack:
  assumes "g (stack_of x) = Some (v, m)" and "follows (set_stack m x) (k v (set_stack m x)) res"
  shows "follows x (do { (v, x) \<leftarrow> from_stack g x; k v x }) res"
  using assms by (simp add: from_stack_def follows_set_stack)

lemma follows_unary: "repr (stack_of x) s r \<Longrightarrow> follows x (visit_unary f x) (on_top f (store x) s r)"
  unfolding visit_unary_def on_top_def eval_top_def
  by (cases s) (auto intro!: follows_on_stack word_stack_laws)

lemma follows_binary: "repr (stack_of x) s r \<Longrightarrow> follows x (visit_binary f x) (on_top2 f (store x) s r)"
  unfolding visit_binary_def on_top2_def eval_top2_def
  by (auto split: list.split intro!: follows_on_stack word_stack_laws)

lemma follows_fallible_binary:
  assumes "repr (stack_of x) s r"
  shows "follows x (visit_fallible_binary f x) (on_top2_or_trap f (store x) s r)"
proof (cases "\<exists>b a s'. s = b # a # s'")
  case True
  then obtain b a s' where s: "s = b # a # s'" by blast
  obtain m where m: "sp_pop (stack_of x) = Some (b, m)" "repr m (a # s') (Suc r)"
    using assms s value_stack_words.pop_ok by blast
  have a: "nth_back (Suc 0) m = Some a"
    using value_stack_words.peek_ok [OF m(2), of 1] by simp
  show ?thesis
  proof (cases "f a b")
    case (Inr v)
    obtain m' where "set_nth_back (Suc 0) v m = Some m'" "repr m' (v # s') (Suc r)"
      using value_stack_words.poke_ok [OF m(2), of 1 v] by auto
    with m(1) a Inr show ?thesis
      by (auto simp: s visit_fallible_binary_def on_top2_or_trap_def try_eval_top2_def follow_defs)
  qed (use m(1) a in \<open>auto simp: s visit_fallible_binary_def on_top2_or_trap_def try_eval_top2_def
      follow_defs\<close>)
qed (auto simp: on_top2_or_trap_def split: list.splits)

lemma repr_pop2:
  "repr m (b # a # s) r \<Longrightarrow> \<exists>m'. pop2 m = Some ((a, b), m') \<and> repr m' s (Suc (Suc r))"
  unfolding pop2_def by (rule value_stack_words.pop_pop_ok)

lemma repr_push_i64:
  "repr m s (Suc (Suc r)) \<Longrightarrow> \<exists>m'. push_i64 w m = Some m' \<and> repr m' (hi32 w # lo32 w # s) r"
  unfolding push_i64_def by (rule value_stack_words.push_push_ok)

lemma follows_widened:
  assumes "repr (stack_of x) s r"
    and v: "v = do { ((lhs, rhs), x) \<leftarrow> from_stack pop2 x;
                 x \<leftarrow> on_stack (push_i64 (f (ucast lhs) (ucast rhs))) x; next_instr x }"
  shows "follows x v (widened f (store x) s r)"
proof (cases "\<exists>b a s'. s = b # a # s'")
  case True
  then obtain b a s' where s: "s = b # a # s'" by blast
  then obtain m where m: "pop2 (stack_of x) = Some ((a, b), m)" "repr m s' (Suc (Suc r))"
    using assms repr_pop2 by blast
  have "follows (set_stack m x) (do { x \<leftarrow> on_stack (push_i64 w) (set_stack m x); next_instr x })
      (Goto 1 (store (set_stack m x)) (hi32 w # lo32 w # s') r)" for w
    using m repr_push_i64 by (intro follows_on_stack) simp
  then show ?thesis
    unfolding v s widened_def using follows_from_stack [of pop2, OF m(1)] by (fastforce simp: Let_def)
qed (auto simp: widened_def split: list.splits)

lemma follows_pushed:
  "repr (stack_of x) s r \<Longrightarrow>
   follows x (do { x \<leftarrow> on_stack (sp_push v) x; next_instr x }) (pushed v (store x) s r)"
  unfolding pushed_def
  by (cases r) (auto intro!: follows_on_stack word_stack_laws)

lemma follows_reading:
  "repr (stack_of x) s r \<Longrightarrow> follows x (visit_local_get n x) (reading n (store x) s r)"
  by (simp add: visit_local_get_def reading_def repr_nth_back follows_pushed)

lemma follows_writing:
  "repr (stack_of x) s r \<Longrightarrow> follows x (visit_local_set n x) (writing n (store x) s r)"
proof (cases s)
  case (Cons v s')
  assume "repr (stack_of x) s r"
  then obtain m where m: "sp_pop (stack_of x) = Some (v, m)" "repr m s' (Suc r)"
    using value_stack_words.pop_ok Cons by blast
  then show ?thesis
    unfolding visit_local_set_def writing_def
    using follows_on_stack [of "set_nth_back (unat n) v" "set_stack m x" "s'[unat n - 1 := v]" "Suc r"]
      repr_set_nth_back [OF m(2)]
    by (auto simp: Cons intro!: follows_from_stack [of sp_pop, OF m(1)])
qed (simp add: writing_def)

lemma follows_teeing:
  "repr (stack_of x) s r \<Longrightarrow> follows x (visit_local_tee n x) (teeing n (store x) s r)"
  by (cases s)
    (auto simp: visit_local_tee_def teeing_def sp_last_def repr_nth_back
      intro!: follows_on_stack word_stack_laws simp del: list_update.simps)

lemma follows_dropping:
  "repr (stack_of x) s r \<Longrightarrow> follows x (visit_drop x) (dropping (store x) s r)"
  unfolding visit_drop_def dropping_def
  using value_stack_words.pop_ok [of "stack_of x" "hd s" "tl s" r]
  by (cases s) (auto simp: sp_drop_def sp_pop_def bind_eq_Some_conv intro!: follows_on_stack)

lemma follows_selecting:
  assumes "repr (stack_of x) s r"
  shows "follows x (visit_select x) (selecting (store x) s r)"
proof (cases "\<exists>c b a s'. s = c # b # a # s'")
  case True
  then obtain c b a s' where s: "s = c # b # a # s'" by blast
  then obtain m where m: "pop2 (stack_of x) = Some ((b, c), m)" "repr m (a # s') (Suc (Suc r))"
    using assms repr_pop2 by blast
  show ?thesis
    using value_stack_words.update_top_ok [OF m(2), of "\<lambda>a. if c \<noteq> 0 then a else b"] m(1)
    by (auto simp: visit_select_def selecting_def s eval_top3_def intro!: follows_on_stack)
qed (auto simp: selecting_def split: list.splits)

lemma follows_branching:
  assumes "repr (stack_of x) s r"
    and v: "v = do { (c, x) \<leftarrow> from_stack sp_pop x;
                 Some (Next (if taken c then ip_offset (sint off) x else ip_add 1 x)) }"
  shows "follows x v (branching taken off (store x) s r)"
proof (cases s)
  case (Cons c s')
  then obtain m where "sp_pop (stack_of x) = Some (c, m)" "repr m s' (Suc r)"
    using assms value_stack_words.pop_ok by blast
  then show ?thesis
    by (auto simp: v Cons branching_def follow_defs ip_offset_def)
qed (simp add: branching_def)

lemma follows_loading:
  assumes "repr (stack_of x) s r"
  shows "follows x (execute_load_extend ld off x) (loading ld off (store x) s r)"
proof (cases s)
  case (Cons a s')
  have a: "nth_back (Suc 0) (stack_of x) = Some a"
    using value_stack_words.peek_ok [OF assms, of 1] Cons by simp
  show ?thesis
  proof (cases "ld (shared_memory (global_memory (store x))) a off")
    case (Inr v)
    obtain m' where "set_nth_back (Suc 0) v (stack_of x) = Some m'" "repr m' (v # s') r"
      using value_stack_words.poke_ok [OF assms, of 1 v] Cons by auto
    with a Inr show ?thesis
      by (auto simp: execute_load_extend_def loading_def Cons exec_memory_def try_eval_top_def
          follow_defs)
  qed (use a in \<open>auto simp: execute_load_extend_def loading_def Cons exec_memory_def
      try_eval_top_def follow_defs\<close>)
qed (simp add: loading_def)

lemma follows_storing:
  assumes "repr (stack_of x) s r"
  shows "follows x (execute_store_wrap wr off x) (storing wr off (store x) s r)"
proof (cases "\<exists>v a s'. s = v # a # s'")
  case True
  then obtain v a s' where s: "s = v # a # s'" by blast
  then obtain m where m: "pop2 (stack_of x) = Some ((a, v), m)" "repr m s' (Suc (Suc r))"
    using assms repr_pop2 by blast
  then show ?thesis
    by (auto simp: execute_store_wrap_def storing_def s exec_memory_def set_exec_memory_def
        with_memory_def follow_defs set_stack_def split: sum.split)
qed (auto simp: storing_def split: list.splits)

lemma follows_charging:
  "repr (stack_of x) s r \<Longrightarrow> follows x (charge_fuel d x) (charging d (store x) s r)"
  by (auto simp: charge_fuel_def charging_def follow_defs set_stack_def stack_of_def split: sum.split)

lemma follows_charging_top:
  "repr (stack_of x) s r \<Longrightarrow> follows x (visit_consume_fuel_stack x) (charging_top (store x) s r)"
proof (cases s)
  case (Cons v s')
  assume "repr (stack_of x) s r"
  then obtain m where m: "sp_pop (stack_of x) = Some (v, m)" "repr m s' (Suc r)"
    using Cons value_stack_words.pop_ok by blast
  then show ?thesis
    unfolding visit_consume_fuel_stack_def charging_top_def
    using follows_charging [of "set_stack m x" s' "Suc r" "ucast v"]
    by (auto simp: Cons intro!: follows_from_stack [of sp_pop, OF m(1)])
qed (simp add: charging_top_def)

lemma follows_growing:
  assumes "repr (stack_of x) s r"
  shows "follows x (visit_memory_grow x) (growing (store x) s r)"
proof (cases s)
  case (Cons delta s')
  then obtain m where m: "sp_pop (stack_of x) = Some (delta, m)" "repr m s' (Suc r)"
    using assms value_stack_words.pop_ok by blast
  have push: "follows x (do { x \<leftarrow> on_stack (sp_push v) ((set_stack m x)\<lparr>store := st\<rparr>); next_instr x })
      (Goto 1 st (v # s') r)" for v st
    using follows_pushed [of "(set_stack m x)\<lparr>store := st\<rparr>" s' "Suc r" v] m(2)
    by (auto simp: pushed_def intro: follows_set_stack follows_store)
  show ?thesis
    using m(1) push [of _ "store x"] push
    by (auto simp: visit_memory_grow_def growing_def Cons from_stack_def split: option.split)
qed (simp add: growing_def)

lemma follows_table_growing:
  assumes "repr (stack_of x) s r"
  shows "follows x (visit_table_grow i x) (table_growing i (store x) s r)"
proof (cases "\<exists>d v s'. s = d # v # s'")
  case True
  then obtain d v s' where s: "s = d # v # s'" by blast
  then obtain m where m: "pop2 (stack_of x) = Some ((v, d), m)" "repr m s' (Suc (Suc r))"
    using assms repr_pop2 by blast
  have "follows x (do { x \<leftarrow> on_stack (sp_push v) ((set_stack m x)\<lparr>store := st\<rparr>); next_instr x })
      (Goto 1 st (v # s') (Suc r))" for v st
    using follows_pushed [of "(set_stack m x)\<lparr>store := st\<rparr>" s' "Suc (Suc r)" v] m(2)
    by (auto simp: pushed_def intro: follows_set_stack follows_store)
  then show ?thesis
    using m(1)
    by (auto simp: visit_table_grow_def table_growing_def s from_stack_def set_table_def Let_def
        split: prod.split)
qed (auto simp: table_growing_def split: list.splits)

lemma follows_constant_pushes:
  assumes "repr (stack_of x) s r"
  shows "follows x (visit_i32_const v x) (pushed v (store x) s r)"
    and "follows x (visit_ref_func f x) (pushed f (store x) s r)"
    and "follows x (visit_global_get i x) (pushed (global_word_bits i (store x)) (store x) s r)"
    and "follows x (visit_memory_size x) (pushed (current_pages (global_memory (store x))) (store x) s r)"
    and "follows x (visit_table_size ti x)
      (case tables (store x) ti of Some t \<Rightarrow> pushed (table_size t) (store x) s r | None \<Rightarrow> Outside)"
  using assms
  by (auto simp: visit_i32_const_def visit_ref_func_def visit_global_get_def visit_memory_size_def
      visit_table_size_def follows_pushed split: option.split)

lemma follows_transfers:
  assumes "repr (stack_of x) s r"
  shows "follows x (visit_unreachable x) (Trapping UnreachableCodeReached (store x))"
    and "follows x (visit_trap_code t x) (Trapping t (store x))"
    and "follows x (visit_br off x) (Goto (sint off) (store x) s r)"
    and "follows x (visit_br_if off x) (branching (\<lambda>v. v = 0) off (store x) s r)"
    and "follows x (visit_br_if_nez off x) (branching (\<lambda>v. v \<noteq> 0) off (store x) s r)"
    and "follows x (visit_consume_fuel n x) (charging (ucast n) (store x) s r)"
proof -
  show "follows x (visit_br off x) (Goto (sint off) (store x) s r)"
    using assms by (auto simp: visit_br_def follow_defs ip_offset_def set_stack_def stack_of_def)
qed (use assms in \<open>auto simp: visit_unreachable_def visit_trap_code_def visit_br_if_def
      visit_br_if_nez_def visit_consume_fuel_def follows_def [of _ _ "Trapping _ _"] if_distrib
      intro!: follows_branching follows_charging arg_cong [where f = "Option.bind _"] ext\<close>)

lemma follows_widenings:
  assumes "repr (stack_of x) s r"
  shows "follows x (visit_i32_mul64 x) (widened (*) (store x) s r)"
    and "follows x (visit_i32_add64 x) (widened (+) (store x) s r)"
  using assms
  by (auto simp: visit_i32_mul64_def visit_i32_add64_def intro!: follows_widened)

text \<open>Bulk pushes and drops.\<close>

lemma push_zeros_ok: "repr m s (n + r) \<Longrightarrow> \<exists>m'. push_zeros n m = Some m' \<and> repr m' (replicate n 0 @ s) r"
proof (induction n arbitrary: m s)
  case (Suc n)
  then obtain m1 where m1: "sp_push 0 m = Some m1" "repr m1 (0 # s) (n + r)"
    using value_stack_words.push_ok [of m s "n + r" 0] by auto
  from Suc.IH [OF m1(2)] obtain m' where
    "push_zeros n m1 = Some m'" "repr m' (replicate n 0 @ 0 # s) r" by blast
  with m1(1) show ?case by (simp add: replicate_app_Cons_same)
qed simp

lemma repr_drop:
  assumes "repr m s r" and "n \<le> length s"
  shows "\<exists>m'. drop_n n m = Some m' \<and> repr m' (drop n s) (r + n)"
proof -
  obtain es p where m: "m = (es, p)" by (cases m)
  with assms have p: "p \<le> length es" "s = rev (take p es)" "length es - p = r" "n \<le> p"
    by (auto simp: repr_def)
  have "rev (take (p - n) es) = drop n (rev (take p es))"
    using p by (simp add: drop_rev take_take)
  with m p show ?thesis by (auto simp: drop_n_def dec_by_def repr_def)
qed

lemma follows_zeros:
  assumes "repr (stack_of x) s r"
  shows "follows x (visit_bulk_const n x) (zeros_pushed n (store x) s r)"
  unfolding visit_bulk_const_def zeros_pushed_def
  using push_zeros_ok [of "stack_of x" s "unat n" "r - unat n"] assms
  by (auto intro!: follows_on_stack)

lemma follows_dropping_n:
  "repr (stack_of x) s r \<Longrightarrow> follows x (visit_bulk_drop n x) (dropping_n n (store x) s r)"
  unfolding visit_bulk_drop_def dropping_n_def
  by (auto intro!: follows_on_stack repr_drop)

text \<open>Opcodes that take operands and change the store.\<close>

lemma repr_pop3:
  assumes "repr m (c # b # a # s) r"
  shows "\<exists>m'. pop3 m = Some ((a, b, c), m') \<and> repr m' s (r + 3)"
proof -
  obtain m1 where m1: "pop2 m = Some ((b, c), m1)" "repr m1 (a # s) (Suc (Suc r))"
    using repr_pop2 [OF assms] by blast
  then obtain m2 where "sp_pop m1 = Some (a, m2)" "repr m2 s (Suc (Suc (Suc r)))"
    using value_stack_words.pop_ok by blast
  with m1 show ?thesis by (auto simp: pop3_def numeral_3_eq_3)
qed

lemma follows_updating3:
  assumes "repr (stack_of x) s r"
    and v: "\<And>d u n y. store y = store x \<Longrightarrow> f d u n (store x) \<noteq> None \<Longrightarrow> k d u n y =
      (case f d u n (store x) of
         Some (Inl t) \<Rightarrow> Some (Trapped t y) | Some (Inr st) \<Rightarrow> next_instr (y\<lparr>store := st\<rparr>))"
  shows "follows x (do { ((d, u, n), y) \<leftarrow> from_stack pop3 x; k d u n y }) (updating3 f (store x) s r)"
proof (cases "\<exists>n u d s'. s = n # u # d # s'")
  case True
  then obtain n u d s' where s: "s = n # u # d # s'" by blast
  then obtain m where m: "pop3 (stack_of x) = Some ((d, u, n), m)" "repr m s' (r + 3)"
    using assms(1) repr_pop3 by blast
  show ?thesis
    using m v [of "set_stack m x" d u n]
    by (auto simp: s updating3_def from_stack_def follow_defs set_stack_def
        split: option.splits sum.splits)
qed (auto simp: updating3_def split: list.splits)

lemma follows_memory_updates:
  assumes "repr (stack_of x) s r"
  shows "follows x (visit_memory_fill x) (updating3 filled_memory (store x) s r)"
    and "follows x (visit_memory_copy x) (updating3 copied_memory (store x) s r)"
  unfolding visit_memory_fill_def visit_memory_copy_def
  by (intro follows_updating3 [OF assms];
      simp add: filled_memory_def copied_memory_def exec_memory_def set_exec_memory_def
        memory_of_def with_memory_def Let_def split: option.split)+

lemma follows_table_updates:
  assumes "repr (stack_of x) s r"
  shows "follows x (visit_table_fill i x) (updating3 (filled_table i) (store x) s r)"
    and "follows x (visit_table_copy i j x) (updating3 (copied_table i j) (store x) s r)"
proof -
  note simps = filled_table_def copied_table_def updated_table_def table_result_def set_table_def
    with_table_def
  show "follows x (visit_table_fill i x) (updating3 (filled_table i) (store x) s r)"
    unfolding visit_table_fill_def
    by (rule follows_updating3 [OF assms], cases "tables (store x) i")
      (auto simp: simps split: sum.split)
  show "follows x (visit_table_copy i j x) (updating3 (copied_table i j) (store x) s r)"
    unfolding visit_table_copy_def
    by (rule follows_updating3 [OF assms], cases "tables (store x) i"; cases "tables (store x) j")
      (auto simp: simps split: sum.split)
qed

lemma follows_table_reading:
  assumes "repr (stack_of x) s r"
  shows "follows x (visit_table_get i x) (table_reading i (store x) s r)"
proof (cases s)
  case (Cons k s')
  then obtain m where m: "sp_pop (stack_of x) = Some (k, m)" "repr m s' (Suc r)"
    using assms value_stack_words.pop_ok by blast
  have push: "follows x (do { x \<leftarrow> on_stack (sp_push v) (set_stack m x); next_instr x })
      (Goto 1 (store x) (v # s') r)" for v
    using follows_pushed [of "set_stack m x" s' "Suc r" v] m(2)
    by (auto simp: pushed_def intro: follows_set_stack)
  show ?thesis
    using m(1) push
    by (auto simp: visit_table_get_def table_reading_def Cons from_stack_def follows_def [of _ _ "Trapping _ _"]
        split: option.split)
qed (simp add: table_reading_def)

lemma follows_table_writing:
  assumes "repr (stack_of x) s r"
  shows "follows x (visit_table_set i x) (table_writing i (store x) s r)"
proof (cases "\<exists>v k s'. s = v # k # s'")
  case True
  then obtain v k s' where s: "s = v # k # s'" by blast
  then obtain m where m: "pop2 (stack_of x) = Some ((k, v), m)" "repr m s' (Suc (Suc r))"
    using assms repr_pop2 by blast
  then show ?thesis
    by (auto simp: visit_table_set_def table_writing_def s follow_defs table_result_def set_table_def
        with_table_def set_stack_def split: option.split sum.split)
qed (auto simp: table_writing_def split: list.splits)

lemma follows_global_writing:
  assumes "repr (stack_of x) s r"
  shows "follows x (visit_global_set i x) (global_writing i (store x) s r)"
proof (cases s)
  case (Cons v s')
  then obtain m where m: "sp_pop (stack_of x) = Some (v, m)" "repr m s' (Suc r)"
    using assms value_stack_words.pop_ok by blast
  then show ?thesis
    by (auto simp: visit_global_set_def global_writing_def Cons follow_defs set_stack_def)
qed (simp add: global_writing_def)

lemma follows_signature_checking:
  "repr (stack_of x) s r \<Longrightarrow> follows x (visit_signature_check i x) (signature_checking i (store x) s r)"
  by (auto simp: visit_signature_check_def signature_checking_def Let_def follow_defs set_stack_def
      stack_of_def split: option.split)

lemmas follows_store_updates =
  follows_zeros follows_dropping_n follows_memory_updates follows_table_updates
  follows_table_reading follows_table_writing follows_global_writing follows_signature_checking

lemmas follows_visits =
  follows_unary follows_binary follows_fallible_binary follows_pushed follows_reading
  follows_writing follows_teeing follows_dropping follows_selecting follows_loading
  follows_storing follows_charging follows_charging_top follows_growing follows_table_growing
  follows_constant_pushes follows_transfers follows_widenings follows_store_updates

lemma step_follows:
  assumes "repr (stack_of x) s r"
  shows "follows x (step env op x) (local_step op (store x) s r)"
  using assms
  by (cases op)
    (simp_all add: step_def local_step_def follows_visits)

section \<open>Words below the operands and spare cells\<close>

lemmas local_step_parts =
  on_top_def on_top2_def on_top2_or_trap_def widened_def pushed_def branching_def loading_def
  storing_def charging_def growing_def table_growing_def reading_def writing_def teeing_def
  dropping_def selecting_def charging_top_def zeros_pushed_def dropping_n_def updating3_def
  table_reading_def table_writing_def global_writing_def signature_checking_def

text \<open>A local step reads and writes operands only: it is the same above any other words, with
  more free cells, and keeps the number of cells.\<close>

lemma local_step_frame_Goto:
  "local_step op st s r = Goto d st' s' r' \<Longrightarrow>
   local_step op st (s @ t) (r + e) = Goto d st' (s' @ t) (r' + e)"
  by (cases op)
    (auto simp: local_step_def local_step_parts nth_append list_update_append Let_def
      split: list.splits if_splits option.splits sum.splits prod.splits nat.splits)

lemma local_step_frame_Trapping:
  "local_step op st s r = Trapping c st' \<Longrightarrow> local_step op st (s @ t) (r + e) = Trapping c st'"
  by (cases op)
    (auto simp: local_step_def local_step_parts nth_append list_update_append Let_def
      split: list.splits if_splits option.splits sum.splits prod.splits nat.splits)

lemma local_step_cells:
  "local_step op st s r = Goto d st' s' r' \<Longrightarrow> length s' + r' = length s + r"
  by (cases op)
    (auto simp: local_step_def local_step_parts Let_def
      split: list.splits if_splits option.splits sum.splits prod.splits nat.splits)

end
