(* ===== verification/Local_Code.thy ===== *)
theory Local_Code
  imports Local_Step
begin

text \<open>
  Runs of code without calls: iterated local steps and their relation to the interpreter's
  loop (\<open>exec_reaches\<close>), the rules by which the lowered routines are evaluated
  symbolically (\<open>fwd\<close> runs a segment of code forward, taking branches inside it), and
  \<open>computes\<close>, which states what a routine does in any program, at any place, with any
  words below its operands.
\<close>

section \<open>Runs of local code\<close>

type_synonym 'h config = "int \<times> 'h store \<times> u32 list \<times> nat"

inductive local_steps :: "opcode list \<Rightarrow> 'h config \<Rightarrow> 'h config \<Rightarrow> bool" for ops where
  stay: "local_steps ops c c"
| advance: "fetch ops pc = Some op \<Longrightarrow> local_step op st s r = Goto d st' s' r' \<Longrightarrow>
    local_steps ops (pc + d, st', s', r') c \<Longrightarrow> local_steps ops (pc, st, s, r) c"

lemma local_steps_trans:
  "local_steps ops c c' \<Longrightarrow> local_steps ops c' c'' \<Longrightarrow> local_steps ops c c''"
  by (induction rule: local_steps.induct) (auto intro: local_steps.intros)

lemma local_steps_cells:
  assumes "local_steps ops c c'"
  shows "(case c of (_, _, s, r) \<Rightarrow> length s + r) = (case c' of (_, _, s, r) \<Rightarrow> length s + r)"
  using assms by (induction rule: local_steps.induct) (auto dest: local_step_cells)

definition code_at :: "opcode list \<Rightarrow> nat \<Rightarrow> opcode list \<Rightarrow> bool" where
  "code_at code k ops \<longleftrightarrow> (\<exists>pre post. code = pre @ ops @ post \<and> length pre = k)"

lemma fetch_code_at:
  "code_at code k ops \<Longrightarrow> fetch ops pc = Some op \<Longrightarrow> fetch code (int k + pc) = Some op"
  by (auto simp: code_at_def fetch_def nth_append nat_add_distrib split: if_splits)

definition exec_reaches :: "'h env \<Rightarrow> 'h exec \<Rightarrow> 'h exec \<Rightarrow> bool" where
  "exec_reaches env = rtranclp (\<lambda>x y. exec_step env x = Some (Next y))"

lemma exec_reaches_refl [simp]: "exec_reaches env x x"
  by (simp add: exec_reaches_def)

lemma exec_reaches_step:
  "exec_step env x = Some (Next y) \<Longrightarrow> exec_reaches env y z \<Longrightarrow> exec_reaches env x z"
  by (simp add: exec_reaches_def converse_rtranclp_into_rtranclp)

lemma exec_reaches_trans:
  "exec_reaches env x y \<Longrightarrow> exec_reaches env y z \<Longrightarrow> exec_reaches env x z"
  by (simp add: exec_reaches_def)

lemma exec_reaches_run:
  "exec_reaches env x y \<Longrightarrow> run_the_loop env x = run_the_loop env y"
  unfolding exec_reaches_def
proof (induction rule: converse_rtranclp_induct)
  case (step x z)
  then show ?case by (subst run_the_loop.simps) simp
qed simp

lemma moved_moved:
  "moved x d st s r y \<Longrightarrow> moved y d' st' s' r' z \<Longrightarrow> moved x (d + d') st' s' r' z"
  by (fastforce simp: moved_def set_stack_def)

lemma moved_repr: "moved x d st s r y \<Longrightarrow> repr (stack_of y) s r"
  by (auto simp: moved_def set_stack_def stack_of_def)

lemma moved_ip: "moved x d st s r y \<Longrightarrow> ip y = ip x + d"
  and moved_store: "moved x d st s r y \<Longrightarrow> store y = st"
  and moved_call_stack: "moved x d st s r y \<Longrightarrow> call_stack y = call_stack x"
  by (auto simp: moved_def set_stack_def)

lemma moved_refl: "repr (stack_of x) s r \<Longrightarrow> moved x 0 (store x) s r x"
  by (auto simp: moved_def intro!: exI [of _ "stack_of x"])

lemma exec_step_follows:
  "repr (stack_of x) s r \<Longrightarrow> fetch (code_section (module env)) (ip x) = Some op \<Longrightarrow>
   follows x (exec_step env x) (local_step op (store x) s r)"
  by (simp add: exec_step_def step_follows)

text \<open>A run of local code is a run of the interpreter wherever the code stands.\<close>

lemma local_steps_reaches:
  assumes "local_steps ops c c'"
    and "code_at (code_section (module env)) k ops"
    and "c = (pc, store x, s, r)" "c' = (pc', st', s', r')"
    and "ip x = int k + pc" "repr (stack_of x) (s @ t) (r + e)"
  shows "\<exists>x'. exec_reaches env x x' \<and> moved x (pc' - pc) st' (s' @ t) (r' + e) x'"
  using assms
proof (induction arbitrary: x pc s r rule: local_steps.induct)
  case (stay c)
  then show ?case by (auto intro!: exI [of _ x] dest: moved_refl)
next
  case (advance p op st u q d st1 u1 q1 c x pc s r)
  have "follows x (exec_step env x) (local_step op (store x) (s @ t) (r + e))"
    using advance.hyps(1) advance.prems by (auto intro!: exec_step_follows fetch_code_at)
  then obtain y where y: "exec_step env x = Some (Next y)" "moved x d st1 (u1 @ t) (q1 + e) y"
    using local_step_frame_Goto [OF advance.hyps(2)] advance.prems by (auto simp: follows_def)
  have "\<exists>x'. exec_reaches env y x' \<and> moved y (pc' - (pc + d)) st' (s' @ t) (r' + e) x'"
    using advance.prems y(2) moved_ip [OF y(2)] moved_repr [OF y(2)] moved_store [OF y(2)]
    by (intro advance.IH) auto
  then show ?case
    using y moved_moved [OF y(2)] by (fastforce intro: exec_reaches_step)
qed

section \<open>Symbolic evaluation\<close>

text \<open>
  \<open>fwd c st s r\<close> runs the segment \<open>c\<close> from its first instruction until control leaves
  it: at the end (distance 0), by a branch beyond it (positive distance from the end) or
  back (negative distance).
\<close>

function fwd :: "opcode list \<Rightarrow> 'h store \<Rightarrow> u32 list \<Rightarrow> nat \<Rightarrow> 'h local_result" where
  "fwd [] st s r = Goto 0 st s r"
| "fwd (op # c) st s r =
     (case local_step op st s r of
        Goto d st' s' r' \<Rightarrow>
          if 1 \<le> d \<and> d - 1 \<le> int (length c) then fwd (drop (nat (d - 1)) c) st' s' r'
          else Goto (d - 1 - int (length c)) st' s' r'
      | Trapping t st' \<Rightarrow> Trapping t st'
      | Outside \<Rightarrow> Outside)"
  by pat_completeness auto
termination by (relation "measure (\<lambda>(c, _). length c)") auto

lemma fetch_middle [simp]: "fetch (pre @ op # post) (int (length pre)) = Some op"
  by (simp add: fetch_def)

lemma fwd_Goto_steps:
  "fwd seg st s r = Goto d st' s' r' \<Longrightarrow> ops = pre @ seg @ post \<Longrightarrow>
   local_steps ops (int (length pre), st, s, r) (int (length pre + length seg) + d, st', s', r')"
proof (induction seg st s r arbitrary: pre rule: fwd.induct)
  case (1 st s r)
  then show ?case by (auto intro: local_steps.stay)
next
  case (2 op c st s r)
  from "2.prems"(1) obtain e st1 s1 r1 where st1: "local_step op st s r = Goto e st1 s1 r1"
    by (auto split: local_result.splits)
  have fetch: "fetch ops (int (length pre)) = Some op"
    using "2.prems"(2) by simp
  show ?case
  proof (cases "1 \<le> e \<and> e - 1 \<le> int (length c)")
    case True
    let ?k = "nat (e - 1)"
    have len: "?k \<le> length c" using True by linarith
    have "local_steps ops (int (length (pre @ op # take ?k c)), st1, s1, r1)
        (int (length (pre @ op # take ?k c) + length (drop ?k c)) + d, st', s', r')"
      using "2.prems" True st1 by (intro "2.IH") auto
    moreover have "int (length (pre @ op # take ?k c)) = int (length pre) + e"
      using True len by simp
    moreover have "int (length (pre @ op # take ?k c) + length (drop ?k c)) =
        int (length pre + length (op # c))"
      using len by simp
    ultimately show ?thesis using local_steps.advance [OF fetch st1] by simp
  next
    case False
    then have "Goto (e - 1 - int (length c)) st1 s1 r1 = Goto d st' s' r'"
      using "2.prems"(1) st1 by (simp split: if_splits)
    then show ?thesis
      using local_steps.advance [OF fetch st1 local_steps.stay] by (auto simp: algebra_simps)
  qed
qed

text \<open>A run that ends in a trap.\<close>

definition local_traps :: "opcode list \<Rightarrow> 'h config \<Rightarrow> trap_code \<Rightarrow> 'h store \<Rightarrow> bool" where
  "local_traps ops c t st' \<longleftrightarrow>
     (\<exists>pc st s r op. local_steps ops c (pc, st, s, r) \<and> fetch ops pc = Some op \<and>
        local_step op st s r = Trapping t st')"

lemma local_traps_steps:
  "local_steps ops c c' \<Longrightarrow> local_traps ops c' t st \<Longrightarrow> local_traps ops c t st"
  unfolding local_traps_def by (meson local_steps_trans)

lemma fwd_Trapping_traps:
  "fwd seg st s r = Trapping t st' \<Longrightarrow> ops = pre @ seg @ post \<Longrightarrow>
   local_traps ops (int (length pre), st, s, r) t st'"
proof (induction seg st s r arbitrary: pre rule: fwd.induct)
  case (2 op c st s r)
  have fetch: "fetch ops (int (length pre)) = Some op"
    using "2.prems"(2) by simp
  show ?case
  proof (cases "local_step op st s r")
    case (Goto e st1 s1 r1)
    with "2.prems"(1) have e: "1 \<le> e" "e - 1 \<le> int (length c)"
      by (auto split: if_splits)
    let ?k = "nat (e - 1)"
    have len: "?k \<le> length c" using e by linarith
    have "local_traps ops (int (length (pre @ op # take ?k c)), st1, s1, r1) t st'"
      using "2.prems" e Goto by (intro "2.IH") auto
    moreover have "int (length (pre @ op # take ?k c)) = int (length pre) + e"
      using e len by simp
    ultimately show ?thesis
      using local_traps_steps [OF local_steps.advance [OF fetch Goto local_steps.stay]] by simp
  next
    case (Trapping t1 st1)
    with "2.prems" fetch show ?thesis
      unfolding local_traps_def by (auto intro!: exI local_steps.stay)
  qed (use "2.prems" in simp)
qed simp

section \<open>Routines\<close>

text \<open>
  A routine called with the operands \<open>ins\<close> on top of the stack and \<open>msh\<close> free cells runs to
  the instruction behind it, with the results in place of the operands, or traps; what
  lies below, the call stack, and everything that is not mentioned is unchanged.
\<close>

definition computes ::
  "'h env \<Rightarrow> opcode list \<Rightarrow> u32 \<Rightarrow> 'h store \<Rightarrow> u32 list \<Rightarrow> (trap_code \<times> 'h store) + ('h store \<times> u32 list) \<Rightarrow> bool"
where
  "computes env ops msh st ins res \<longleftrightarrow>
     (\<forall>x k t r. code_at (code_section (module env)) k ops \<longrightarrow> ip x = int k \<longrightarrow> store x = st \<longrightarrow>
        repr (stack_of x) (ins @ t) r \<longrightarrow> unat msh \<le> r \<longrightarrow>
        (case res of
           Inr (st', outs) \<Rightarrow>
             \<exists>x'. exec_reaches env x x' \<and>
               moved x (int (length ops)) st' (outs @ t) (r + length ins - length outs) x'
         | Inl (c, st') \<Rightarrow>
             \<exists>x' x''. exec_reaches env x x' \<and> exec_step env x' = Some (Trapped c x'') \<and>
               store x'' = st' \<and> call_stack x'' = call_stack x))"

abbreviation yields :: "'h env \<Rightarrow> opcode list \<Rightarrow> u32 \<Rightarrow> u32 list \<Rightarrow> u32 list \<Rightarrow> bool" where
  "yields env ops msh ins outs \<equiv> (\<forall>st. computes env ops msh st ins (Inr (st, outs)))"

abbreviation faults :: "'h env \<Rightarrow> opcode list \<Rightarrow> u32 \<Rightarrow> u32 list \<Rightarrow> trap_code \<Rightarrow> bool" where
  "faults env ops msh ins c \<equiv> (\<forall>st. computes env ops msh st ins (Inl (c, st)))"

lemma computes_steps:
  assumes "local_steps ops (0, st, ins, unat msh) (int (length ops), st', outs, r')"
  shows "computes env ops msh st ins (Inr (st', outs))"
  unfolding computes_def sum.case prod.case
proof (intro allI impI)
  fix x k t r
  assume x: "code_at (code_section (module env)) k ops" "ip x = int k" "store x = st"
    "repr (stack_of x) (ins @ t) r" "unat msh \<le> r"
  have "length ins + unat msh = length outs + r'"
    using local_steps_cells [OF assms] by simp
  then have "r' + (r - unat msh) = r + length ins - length outs"
    using x(5) by linarith
  then show "\<exists>x'. exec_reaches env x x' \<and>
      moved x (int (length ops)) st' (outs @ t) (r + length ins - length outs) x'"
    using local_steps_reaches [OF assms x(1), of 0 x ins "unat msh" "int (length ops)" st' outs r' t
        "r - unat msh"] x by simp
qed

lemma computes_traps:
  assumes "local_traps ops (0, st, ins, unat msh) c st'"
  shows "computes env ops msh st ins (Inl (c, st'))"
  unfolding computes_def sum.case prod.case
proof (intro allI impI)
  fix x k t r
  assume x: "code_at (code_section (module env)) k ops" "ip x = int k" "store x = st"
    "repr (stack_of x) (ins @ t) r" "unat msh \<le> r"
  from assms obtain pc st1 s1 r1 op where run:
    "local_steps ops (0, st, ins, unat msh) (pc, st1, s1, r1)" "fetch ops pc = Some op"
    "local_step op st1 s1 r1 = Trapping c st'"
    by (auto simp: local_traps_def)
  then obtain x' where x': "exec_reaches env x x'" "moved x pc st1 (s1 @ t) (r1 + (r - unat msh)) x'"
    using local_steps_reaches [OF run(1) x(1), of 0 x ins "unat msh" pc st1 s1 r1 t "r - unat msh"] x
    by auto
  have "follows x' (exec_step env x') (local_step op (store x') (s1 @ t) (r1 + (r - unat msh)))"
    using x run(2) moved_repr [OF x'(2)] moved_ip [OF x'(2)]
    by (intro exec_step_follows) (auto intro: fetch_code_at)
  then show "\<exists>x' x''. exec_reaches env x x' \<and> exec_step env x' = Some (Trapped c x'') \<and>
      store x'' = st' \<and> call_stack x'' = call_stack x"
    using x' local_step_frame_Trapping [OF run(3)] moved_store [OF x'(2)] moved_call_stack [OF x'(2)]
    by (auto simp: follows_def)
qed

lemma computes_fwd:
  "fwd ops st ins (unat msh) = Goto 0 st' outs r' \<Longrightarrow> computes env ops msh st ins (Inr (st', outs))"
  using fwd_Goto_steps [of ops st ins "unat msh" 0 st' outs r' ops "[]" "[]"] by (auto intro: computes_steps)

lemma computes_fwd_trap:
  "fwd ops st ins (unat msh) = Trapping c st' \<Longrightarrow> computes env ops msh st ins (Inl (c, st'))"
  using fwd_Trapping_traps [of ops st ins "unat msh" c st' ops "[]" "[]"] by (auto intro: computes_traps)

section \<open>Rules of the evaluation\<close>

text \<open>One rule per opcode, the branches through \<open>jump\<close>: conditions stay symbolic, and the code
  behind an undecided one is not entered.\<close>

definition jump :: "int \<Rightarrow> opcode list \<Rightarrow> 'h store \<Rightarrow> u32 list \<Rightarrow> nat \<Rightarrow> 'h local_result" where
  "jump d c st s r =
     (if 1 \<le> d \<and> d - 1 \<le> int (length c) then fwd (drop (nat (d - 1)) c) st s r
      else Goto (d - 1 - int (length c)) st s r)"

declare fwd.simps(2) [simp del] fwd.simps(1) [exec_simps]
  i32_arith_defs [exec_simps] i32_compare_defs [exec_simps]

lemmas fwd_unfold = fwd.simps(2) local_step_def local_step_parts jump_def

lemma fwd_unary [exec_simps]:
  "fwd (I32Eqz # c) st (v # s) r = fwd c st (i32_eqz v # s) r"
  "fwd (I32Clz # c) st (v # s) r = fwd c st (i32_clz v # s) r"
  "fwd (I32Ctz # c) st (v # s) r = fwd c st (i32_ctz v # s) r"
  "fwd (I32Popcnt # c) st (v # s) r = fwd c st (i32_popcnt v # s) r"
  "fwd (I32WrapI64 # c) st (v # s) r = fwd c st (i32_wrap_i64 v # s) r"
  "fwd (I32Extend8S # c) st (v # s) r = fwd c st (i32_extend8_s v # s) r"
  "fwd (I32Extend16S # c) st (v # s) r = fwd c st (i32_extend16_s v # s) r"
  by (simp_all add: fwd_unfold)

lemma fwd_binary [exec_simps]:
  "fwd (I32Eq # c) st (b # a # s) r = fwd c st (i32_eq a b # s) (r + 1)"
  "fwd (I32Ne # c) st (b # a # s) r = fwd c st (i32_ne a b # s) (r + 1)"
  "fwd (I32LtS # c) st (b # a # s) r = fwd c st (i32_lt_s a b # s) (r + 1)"
  "fwd (I32LtU # c) st (b # a # s) r = fwd c st (i32_lt_u a b # s) (r + 1)"
  "fwd (I32GtS # c) st (b # a # s) r = fwd c st (i32_gt_s a b # s) (r + 1)"
  "fwd (I32GtU # c) st (b # a # s) r = fwd c st (i32_gt_u a b # s) (r + 1)"
  "fwd (I32LeS # c) st (b # a # s) r = fwd c st (i32_le_s a b # s) (r + 1)"
  "fwd (I32LeU # c) st (b # a # s) r = fwd c st (i32_le_u a b # s) (r + 1)"
  "fwd (I32GeS # c) st (b # a # s) r = fwd c st (i32_ge_s a b # s) (r + 1)"
  "fwd (I32GeU # c) st (b # a # s) r = fwd c st (i32_ge_u a b # s) (r + 1)"
  "fwd (I32Add # c) st (b # a # s) r = fwd c st (i32_add a b # s) (r + 1)"
  "fwd (I32Sub # c) st (b # a # s) r = fwd c st (i32_sub a b # s) (r + 1)"
  "fwd (I32Mul # c) st (b # a # s) r = fwd c st (i32_mul a b # s) (r + 1)"
  "fwd (I32And # c) st (b # a # s) r = fwd c st (i32_and a b # s) (r + 1)"
  "fwd (I32Or # c) st (b # a # s) r = fwd c st (i32_or a b # s) (r + 1)"
  "fwd (I32Xor # c) st (b # a # s) r = fwd c st (i32_xor a b # s) (r + 1)"
  "fwd (I32Shl # c) st (b # a # s) r = fwd c st (i32_shl a b # s) (r + 1)"
  "fwd (I32ShrS # c) st (b # a # s) r = fwd c st (i32_shr_s a b # s) (r + 1)"
  "fwd (I32ShrU # c) st (b # a # s) r = fwd c st (i32_shr_u a b # s) (r + 1)"
  "fwd (I32Rotl # c) st (b # a # s) r = fwd c st (i32_rotl a b # s) (r + 1)"
  "fwd (I32Rotr # c) st (b # a # s) r = fwd c st (i32_rotr a b # s) (r + 1)"
  by (simp_all add: fwd_unfold)

lemma fwd_widened [exec_simps]:
  "fwd (I32Mul64 # c) st (b # a # s) r =
    fwd c st (hi32 (ucast a * ucast b) # lo32 (ucast a * ucast b) # s) r"
  "fwd (I32Add64 # c) st (b # a # s) r =
    fwd c st (hi32 (ucast a + ucast b) # lo32 (ucast a + ucast b) # s) r"
  by (simp_all add: fwd_unfold Let_def)

lemma fwd_locals [exec_simps]:
  "fwd (LocalGet n # c) st s r =
    (if 0 < unat n \<and> unat n \<le> length s \<and> 0 < r then fwd c st (s ! (unat n - 1) # s) (r - 1) else Outside)"
  "fwd (LocalSet n # c) st (v # s) r =
    (if 0 < unat n \<and> unat n \<le> length s then fwd c st (s[unat n - 1 := v]) (r + 1) else Outside)"
  "fwd (LocalTee n # c) st (v # s) r =
    (if 0 < unat n \<and> unat n \<le> Suc (length s) then fwd c st ((v # s)[unat n - 1 := v]) r else Outside)"
  by (simp_all add: fwd_unfold del: list_update.simps)

lemma fwd_stack [exec_simps]:
  "fwd (Drop # c) st (v # s) r = fwd c st s (r + 1)"
  "fwd (Select # c) st (e # b # a # s) r = fwd c st ((if e \<noteq> 0 then a else b) # s) (r + 2)"
  "fwd (I32Const v # c) st s r = (if 0 < r then fwd c st (v # s) (r - 1) else Outside)"
  by (simp_all add: fwd_unfold)

lemma fwd_bulk [exec_simps]:
  "fwd (BulkConst n # c) st s r =
    (if unat n \<le> r then fwd c st (replicate (unat n) 0 @ s) (r - unat n) else Outside)"
  "fwd (BulkDrop n # c) st s r =
    (if unat n \<le> length s then fwd c st (drop (unat n) s) (r + unat n) else Outside)"
  by (simp_all add: fwd_unfold)

lemma fwd_updates [exec_simps]:
  "fwd (MemoryFill # c) st (n # v # d # s) r = (case filled_memory d v n st of
     None \<Rightarrow> Outside | Some (Inl t) \<Rightarrow> Trapping t st | Some (Inr st') \<Rightarrow> fwd c st' s (r + 3))"
  "fwd (MemoryCopy # c) st (n # v # d # s) r = (case copied_memory d v n st of
     None \<Rightarrow> Outside | Some (Inl t) \<Rightarrow> Trapping t st | Some (Inr st') \<Rightarrow> fwd c st' s (r + 3))"
  "fwd (TableFill i # c) st (n # v # d # s) r = (case filled_table i d v n st of
     None \<Rightarrow> Outside | Some (Inl t) \<Rightarrow> Trapping t st | Some (Inr st') \<Rightarrow> fwd c st' s (r + 3))"
  "fwd (TableCopy i j # c) st (n # v # d # s) r = (case copied_table i j d v n st of
     None \<Rightarrow> Outside | Some (Inl t) \<Rightarrow> Trapping t st | Some (Inr st') \<Rightarrow> fwd c st' s (r + 3))"
  by (simp_all add: fwd_unfold split: option.split sum.split)

lemma fwd_grow [exec_simps]:
  "fwd (MemoryGrow # c) st (d # s) r = (case growing st (d # s) r of
     Goto e st' s' r' \<Rightarrow> fwd c st' s' r' | Trapping t st' \<Rightarrow> Trapping t st' | Outside \<Rightarrow> Outside)"
  "fwd (TableGrow i # c) st s r = (case table_growing i st s r of
     Goto e st' s' r' \<Rightarrow> fwd c st' s' r' | Trapping t st' \<Rightarrow> Trapping t st' | Outside \<Rightarrow> Outside)"
  "fwd (TableSize i # c) st s r =
    (case tables st i of Some t \<Rightarrow> if 0 < r then fwd c st (table_size t # s) (r - 1) else Outside
       | None \<Rightarrow> Outside)"
  by (auto simp: fwd_unfold split: option.split prod.split list.split)

lemma fwd_branch [exec_simps]:
  "fwd (Br off # c) st s r = jump (sint off) c st s r"
  "fwd (BrIfEqz off # c) st (v # s) r = (if v = 0 then jump (sint off) c st s (r + 1) else fwd c st s (r + 1))"
  "fwd (BrIfNez off # c) st (v # s) r = (if v = 0 then fwd c st s (r + 1) else jump (sint off) c st s (r + 1))"
  "fwd (Trap t # c) st s r = Trapping t st"
  by (simp_all add: fwd_unfold)

lemma fwd_memory [exec_simps]:
  "fwd (MemorySize # c) st s r =
    (if 0 < r then fwd c st (current_pages (global_memory st) # s) (r - 1) else Outside)"
  "fwd (I32Load off # c) st (a # s) r =
    (case i32_load (shared_memory (global_memory st)) a off of
       Inl t \<Rightarrow> Trapping t st | Inr v \<Rightarrow> fwd c st (v # s) r)"
  "fwd (I32Load8S off # c) st (a # s) r =
    (case i32_load8_s (shared_memory (global_memory st)) a off of
       Inl t \<Rightarrow> Trapping t st | Inr v \<Rightarrow> fwd c st (v # s) r)"
  "fwd (I32Load8U off # c) st (a # s) r =
    (case i32_load8_u (shared_memory (global_memory st)) a off of
       Inl t \<Rightarrow> Trapping t st | Inr v \<Rightarrow> fwd c st (v # s) r)"
  "fwd (I32Load16S off # c) st (a # s) r =
    (case i32_load16_s (shared_memory (global_memory st)) a off of
       Inl t \<Rightarrow> Trapping t st | Inr v \<Rightarrow> fwd c st (v # s) r)"
  "fwd (I32Load16U off # c) st (a # s) r =
    (case i32_load16_u (shared_memory (global_memory st)) a off of
       Inl t \<Rightarrow> Trapping t st | Inr v \<Rightarrow> fwd c st (v # s) r)"
  "fwd (I32Store off # c) st (v # a # s) r =
    (case i32_store (shared_memory (global_memory st)) a off v of
       Inl t \<Rightarrow> Trapping t st | Inr mem \<Rightarrow> fwd c (with_memory mem st) s (r + 2))"
  "fwd (I32Store8 off # c) st (v # a # s) r =
    (case i32_store8 (shared_memory (global_memory st)) a off v of
       Inl t \<Rightarrow> Trapping t st | Inr mem \<Rightarrow> fwd c (with_memory mem st) s (r + 2))"
  "fwd (I32Store16 off # c) st (v # a # s) r =
    (case i32_store16 (shared_memory (global_memory st)) a off v of
       Inl t \<Rightarrow> Trapping t st | Inr mem \<Rightarrow> fwd c (with_memory mem st) s (r + 2))"
  by (simp_all add: fwd_unfold split: sum.split)

lemma fwd_fuel [exec_simps]:
  "fwd (ConsumeFuel n # c) st s r =
    (case try_consume_fuel (ucast n) st of Inl t \<Rightarrow> Trapping t st | Inr st' \<Rightarrow> fwd c st' s r)"
  "fwd (ConsumeFuelStack # c) st (v # s) r =
    (case try_consume_fuel (ucast v) st of Inl t \<Rightarrow> Trapping t st | Inr st' \<Rightarrow> fwd c st' s (r + 1))"
  by (simp_all add: fwd_unfold split: sum.split)

text \<open>Segments run one after the other.\<close>

lemma local_steps_segment:
  "fwd seg st s r = Goto d st' s' r' \<Longrightarrow> ops = pre @ seg @ post \<Longrightarrow>
   i = int (length pre) \<Longrightarrow> j = int (length pre + length seg) + d \<Longrightarrow>
   local_steps ops (i, st, s, r) (j, st', s', r')"
  using fwd_Goto_steps by simp

lemma fwd_append:
  "fwd xs st s r = Goto d st' s' r' \<Longrightarrow> 0 \<le> d \<Longrightarrow> d \<le> int (length ys) \<Longrightarrow>
   fwd (xs @ ys) st s r = fwd (drop (nat d) ys) st' s' r'"
proof (induction xs st s r rule: fwd.induct)
  case (2 op c st s r)
  obtain e st1 s1 r1 where st1: "local_step op st s r = Goto e st1 s1 r1"
    using "2.prems"(1) by (auto simp: fwd.simps(2) split: local_result.splits)
  show ?case
  proof (cases "1 \<le> e \<and> e - 1 \<le> int (length c)")
    case True
    then have "fwd (drop (nat (e - 1)) c @ ys) st1 s1 r1 = fwd (drop (nat d) ys) st' s' r'"
      using "2.prems" st1 by (intro "2.IH") (auto simp: fwd.simps(2))
    moreover have "drop (nat (e - 1)) (c @ ys) = drop (nat (e - 1)) c @ ys"
      using True by (simp add: nat_le_iff)
    ultimately show ?thesis using True st1 by (simp add: fwd.simps(2))
  next
    case False
    then have d: "d = e - 1 - int (length c)" "st1 = st'" "s1 = s'" "r1 = r'"
      using "2.prems"(1) st1 by (auto simp: fwd.simps(2) split: if_splits)
    then have "nat (e - 1) = length c + nat d" "1 \<le> e" "e - 1 \<le> int (length (c @ ys))"
      using "2.prems" by auto
    then show ?thesis using st1 d by (simp add: fwd.simps(2))
  qed
qed simp

lemma fwd_append_trap:
  "fwd xs st s r = Trapping t st' \<Longrightarrow> fwd (xs @ ys) st s r = Trapping t st'"
proof (induction xs st s r rule: fwd.induct)
  case (2 op c st s r)
  show ?case
  proof (cases "local_step op st s r")
    case (Goto e st1 s1 r1)
    with "2.prems" have e: "1 \<le> e" "e - 1 \<le> int (length c)"
      by (auto simp: fwd.simps(2) split: if_splits)
    then have "fwd (drop (nat (e - 1)) c @ ys) st1 s1 r1 = Trapping t st'"
      using "2.prems" Goto by (intro "2.IH") (auto simp: fwd.simps(2))
    then show ?thesis using e Goto by (simp add: fwd.simps(2))
  qed (use "2.prems" in \<open>auto simp: fwd.simps(2)\<close>)
qed simp

end
