(* ===== verification/Vm_Invariants.thy ===== *)
theory Vm_Invariants
  imports Local_Code
begin

text \<open>
  What every instruction keeps: the invariant of the executor state (\<open>vm_wf\<close>: a well-formed
  store, at most \<open>N_MAX_RECURSION_DEPTH\<close> return addresses, the stack pointer within the
  allocated cells and at most twice \<open>maximum_len\<close> cells) and the fuel account, which never
  decreases under an unchanged limit. Both are one reflexive and transitive relation
  \<open>evolves\<close> between states, so that the proof for an instruction follows its code: each
  primitive of the executor evolves the state, and a sequence composes. A syscall is covered
  by the same contract on the host's handler (\<open>handler_evolves\<close>).
\<close>

section \<open>The relation\<close>

definition store_evolves :: "'h store \<Rightarrow> 'h store \<Rightarrow> bool" where
  "store_evolves st st' \<longleftrightarrow>
     fuel_limit st' = fuel_limit st \<and> consumed_fuel st \<le> consumed_fuel st' \<and>
     (store_wf st \<longrightarrow> store_wf st')"

definition stack_wf :: "'h exec \<Rightarrow> bool" where
  "stack_wf s \<longleftrightarrow>
     sp s \<le> stack_capacity (vstack s) \<and> stack_capacity (vstack s) \<le> 2 * maximum_len (vstack s)"

definition vm_wf :: "'h exec \<Rightarrow> bool" where
  "vm_wf s \<longleftrightarrow>
     store_wf (store s) \<and> stack_wf s \<and> length (call_stack s) \<le> N_MAX_RECURSION_DEPTH"

definition evolves :: "'h exec \<Rightarrow> 'h exec \<Rightarrow> bool" where
  "evolves s s' \<longleftrightarrow>
     store_evolves (store s) (store s') \<and>
     maximum_len (vstack s') = maximum_len (vstack s) \<and>
     (stack_wf s \<longrightarrow> stack_wf s') \<and>
     (length (call_stack s) \<le> N_MAX_RECURSION_DEPTH \<longrightarrow>
      length (call_stack s') \<le> N_MAX_RECURSION_DEPTH)"

fun flow_state :: "'s flow \<Rightarrow> 's" where
  "flow_state (Next s) = s"
| "flow_state (Halt s) = s"
| "flow_state (Trapped t s) = s"

definition evolving :: "'h exec \<Rightarrow> 'h exec flow option \<Rightarrow> bool" where
  "evolving s f \<longleftrightarrow> (\<forall>fl. f = Some fl \<longrightarrow> evolves s (flow_state fl))"

named_theorems evolve "rules on the evolution of the executor state"

lemma store_evolves_refl [simp]: "store_evolves st st"
  by (simp add: store_evolves_def)

lemma store_evolves_trans:
  "store_evolves st st1 \<Longrightarrow> store_evolves st1 st2 \<Longrightarrow> store_evolves st st2"
  by (auto simp: store_evolves_def)

lemma evolves_refl [simp]: "evolves s s"
  by (simp add: evolves_def)

lemma evolves_trans: "evolves s t \<Longrightarrow> evolves t u \<Longrightarrow> evolves s u"
  by (auto simp: evolves_def elim: store_evolves_trans)

lemma evolves_vm_wf: "evolves s t \<Longrightarrow> vm_wf s \<Longrightarrow> vm_wf t"
  by (simp add: evolves_def vm_wf_def store_evolves_def)

lemma stack_wf_updates [simp]:
  "stack_wf (s\<lparr>ip := p\<rparr>) = stack_wf s" "stack_wf (s\<lparr>store := st\<rparr>) = stack_wf s"
  "stack_wf (s\<lparr>call_stack := cs\<rparr>) = stack_wf s"
  by (simp_all add: stack_wf_def)

lemma evolving_None [evolve]: "evolving s None"
  and evolving_Next [evolve]: "evolves s t \<Longrightarrow> evolving s (Some (Next t))"
  and evolving_Halt [evolve]: "evolves s t \<Longrightarrow> evolving s (Some (Halt t))"
  and evolving_Trapped [evolve]: "evolves s t \<Longrightarrow> evolving s (Some (Trapped c t))"
  and evolving_next_instr [evolve]: "evolves s t \<Longrightarrow> evolving s (next_instr t)"
  by (simp_all add: evolving_def next_instr_def ip_add_def evolves_def)

text \<open>Fields that the relation does not look at.\<close>

lemma evolves_ip [evolve]: "evolves s t \<Longrightarrow> evolves s (t\<lparr>ip := p\<rparr>)"
  "evolves s t \<Longrightarrow> evolves s (ip_add n t)" "evolves s t \<Longrightarrow> evolves s (ip_offset d t)"
  by (simp_all add: evolves_def ip_add_def ip_offset_def)

lemma evolves_store [evolve]:
  "evolves s t \<Longrightarrow> store_evolves (store t) st \<Longrightarrow> evolves s (t\<lparr>store := st\<rparr>)"
  by (auto simp: evolves_def elim: store_evolves_trans)

lemma store_evolves_updates:
  "store_evolves st (st\<lparr>last_signature := x\<rparr>)"
  "store_evolves st (st\<lparr>global_variables := gs\<rparr>)"
  "store_evolves st (st\<lparr>empty_data_segments := fs\<rparr>)"
  "store_evolves st (st\<lparr>empty_elem_segments := fs\<rparr>)"
  "store_evolves st (st\<lparr>resumable_context := c\<rparr>)"
  by (auto simp: store_evolves_def store_wf_def fuel_wf_def split: option.splits)

lemmas evolves_store_updates [evolve] = evolves_store [OF _ store_evolves_updates(1)]
  evolves_store [OF _ store_evolves_updates(2)] evolves_store [OF _ store_evolves_updates(3)]
  evolves_store [OF _ store_evolves_updates(4)]

section \<open>Stack operations\<close>

text \<open>A stack operation keeps the number of cells and the pointer within them.\<close>

definition in_cells :: "stack_mem \<Rightarrow> stack_mem \<Rightarrow> bool" where
  "in_cells m m' \<longleftrightarrow>
     length (fst m') = length (fst m) \<and> (snd m \<le> length (fst m) \<longrightarrow> snd m' \<le> length (fst m'))"

lemma in_cells_refl [simp]: "in_cells m m"
  by (simp add: in_cells_def)

lemma in_cells_trans: "in_cells a b \<Longrightarrow> in_cells b c \<Longrightarrow> in_cells a c"
  by (auto simp: in_cells_def)

lemma in_cells_moves:
  "inc_by n m = Some m' \<Longrightarrow> in_cells m m'" "dec_by n m = Some m' \<Longrightarrow> in_cells m m'"
  "ptr_set v m = Some m' \<Longrightarrow> in_cells m m'"
  by (auto simp: in_cells_def inc_by_def dec_by_def ptr_set_def split: prod.splits if_splits)

lemma in_cells_set_nth_back: "set_nth_back n v m = Some m' \<Longrightarrow> in_cells m m'"
  by (cases m) (auto simp: set_nth_back_def in_cells_def dec_by_def ptr_set_def bind_eq_Some_conv
      split: if_split_asm)

lemma in_cells_push: "sp_push v m = Some m' \<Longrightarrow> in_cells m m'"
  by (auto simp: sp_push_def bind_eq_Some_conv dest!: in_cells_moves elim: in_cells_trans)

lemma in_cells_pop: "sp_pop m = Some (v, m') \<Longrightarrow> in_cells m m'"
  by (auto simp: sp_pop_def bind_eq_Some_conv dest!: in_cells_moves)

lemma in_cells_pop2: "pop2 m = Some (v, m') \<Longrightarrow> in_cells m m'"
  by (auto simp: pop2_def bind_eq_Some_conv dest!: in_cells_pop elim: in_cells_trans)

lemma in_cells_pop3: "pop3 m = Some (v, m') \<Longrightarrow> in_cells m m'"
  by (auto simp: pop3_def bind_eq_Some_conv dest!: in_cells_pop in_cells_pop2 elim: in_cells_trans)

lemma in_cells_drop: "sp_drop m = Some m' \<Longrightarrow> in_cells m m'" "drop_n n m = Some m' \<Longrightarrow> in_cells m m'"
  by (auto simp: sp_drop_def drop_n_def dest!: in_cells_moves)

lemma in_cells_push_i64: "push_i64 v m = Some m' \<Longrightarrow> in_cells m m'"
  by (auto simp: push_i64_def bind_eq_Some_conv dest!: in_cells_push elim: in_cells_trans)

lemma in_cells_pop_i64: "pop_i64 m = Some (v, m') \<Longrightarrow> in_cells m m'"
  by (auto simp: pop_i64_def bind_eq_Some_conv dest!: in_cells_pop2)

lemma in_cells_push_zeros: "push_zeros n m = Some m' \<Longrightarrow> in_cells m m'"
  by (induction n arbitrary: m) (auto simp: bind_eq_Some_conv dest!: in_cells_push elim: in_cells_trans)

lemma in_cells_eval:
  "eval_top f m = Some m' \<Longrightarrow> in_cells m m'" "eval_top2 g m = Some m' \<Longrightarrow> in_cells m m'"
  "eval_top3 h m = Some m' \<Longrightarrow> in_cells m m'"
  by (auto simp: eval_top_def eval_top2_def eval_top3_def bind_eq_Some_conv
      dest!: in_cells_pop in_cells_pop2 in_cells_set_nth_back elim: in_cells_trans)

lemma in_cells_try_eval:
  assumes "try_eval_top f m = Some (t, m')"
  shows "in_cells m m'"
proof -
  obtain v where v: "nth_back 1 m = Some v" using assms by (auto simp: try_eval_top_def bind_eq_Some_conv)
  with assms show ?thesis
    by (cases "f v") (auto simp: try_eval_top_def bind_eq_Some_conv dest: in_cells_set_nth_back)
qed

lemma in_cells_try_eval2:
  assumes "try_eval_top2 g m = Some (t, m')"
  shows "in_cells m m'"
proof -
  obtain rhs lhs m1 where v: "sp_pop m = Some (rhs, m1)" "nth_back 1 m1 = Some lhs"
    using assms by (auto simp: try_eval_top2_def bind_eq_Some_conv)
  with assms show ?thesis
    by (cases "g lhs rhs")
      (auto simp: try_eval_top2_def bind_eq_Some_conv
        dest!: in_cells_pop in_cells_set_nth_back elim: in_cells_trans)
qed

lemma in_cells_push_value: "push_value v m = Some m' \<Longrightarrow> in_cells m m'"
  by (auto simp: push_value_def split: val.splits dest!: in_cells_push in_cells_push_i64)

lemma in_cells_pop_value: "pop_value t m = Some (v, m') \<Longrightarrow> in_cells m m'"
  by (auto simp: pop_value_def bind_eq_Some_conv split: val_type.splits
      dest!: in_cells_pop in_cells_pop_i64)

lemma in_cells_push_values: "push_values vs m = Some m' \<Longrightarrow> in_cells m m'"
  by (induction vs arbitrary: m)
    (auto simp: bind_eq_Some_conv dest!: in_cells_push_value elim: in_cells_trans)

lemma in_cells_pop_params: "pop_params ts b m = Some (vs, m') \<Longrightarrow> in_cells m m'"
  by (induction ts arbitrary: b m)
    (auto simp: bind_eq_Some_conv dest!: in_cells_pop_value elim: in_cells_trans)

lemma in_cells_pop_results: "pop_results xs m = Some (vs, m') \<Longrightarrow> in_cells m m'"
  by (induction xs arbitrary: vs m')
    (auto simp: bind_eq_Some_conv dest!: in_cells_pop_value intro: in_cells_trans)

lemmas in_cells_intros =
  in_cells_set_nth_back in_cells_push in_cells_pop in_cells_pop2 in_cells_pop3 in_cells_drop
  in_cells_push_i64 in_cells_push_zeros in_cells_eval in_cells_try_eval in_cells_try_eval2 in_cells_push_values
  in_cells_pop_params in_cells_pop_results

lemma evolves_set_stack:
  "evolves s t \<Longrightarrow> in_cells (stack_of t) m \<Longrightarrow> evolves s (set_stack m t)"
  by (auto simp: evolves_def set_stack_def stack_of_def in_cells_def stack_wf_def stack_capacity_def)

lemma evolving_on_stack [evolve]:
  assumes "evolves s t" and cells: "\<And>m m'. f m = Some m' \<Longrightarrow> in_cells m m'"
    and cont: "\<And>u. evolves s u \<Longrightarrow> evolving s (k u)"
  shows "evolving s (on_stack f t \<bind> k)"
proof (cases "f (stack_of t)")
  case (Some m)
  then have "evolves s (set_stack m t)"
    by (intro evolves_set_stack assms(1) cells)
  with Some show ?thesis by (simp add: on_stack_def cont)
qed (simp add: on_stack_def evolve)

lemma evolving_from_stack [evolve]:
  assumes "evolves s t" and cells: "\<And>m r m'. f m = Some (r, m') \<Longrightarrow> in_cells m m'"
    and cont: "\<And>r u. evolves s u \<Longrightarrow> evolving s (k (r, u))"
  shows "evolving s (from_stack f t \<bind> k)"
proof (cases "f (stack_of t)")
  case (Some p)
  obtain r m where p: "p = (r, m)" by (cases p)
  with Some have "evolves s (set_stack m t)"
    by (intro evolves_set_stack assms(1)) (auto intro: cells)
  with Some p show ?thesis by (simp add: from_stack_def cont)
qed (simp add: from_stack_def evolve)

lemma evolving_peek:
  "(\<And>v. evolving s (k v)) \<Longrightarrow> evolving s ((x :: 'a option) \<bind> k)"
  by (cases x) (auto simp: evolve)

lemmas evolving_reads [evolve] =
  evolving_peek [of s k "nth_back n m" for s k n m] evolving_peek [of s k "sp_last m" for s k m]
  evolving_peek [of s k "fetch_table_index env n t" for s k env n t]
  evolving_peek [of s k "mark_dropped env i t" for s k env i t]

section \<open>The store's part of an instruction\<close>

lemma store_evolves_charge: "try_consume_fuel d st = Inr st' \<Longrightarrow> store_evolves st st'"
proof -
  assume charge: "try_consume_fuel d st = Inr st'"
  have "consumed_fuel st \<le> saturating_add (consumed_fuel st) d"
    using unat_less [of "consumed_fuel st"] by (simp add: word_le_nat_alt unat_saturating_add)
  then have "fuel_limit st' = fuel_limit st" "consumed_fuel st \<le> consumed_fuel st'"
    using charge by (auto simp: try_consume_fuel_def Let_def split: option.splits if_splits)
  moreover have "store_wf st \<longrightarrow> store_wf st'"
    using try_consume_fuel_wf [OF _ charge] by blast
  ultimately show ?thesis by (simp add: store_evolves_def)
qed

lemma store_evolves_memory:
  "(memory_wf (global_memory st) \<Longrightarrow> memory_wf g) \<Longrightarrow> store_evolves st (st\<lparr>global_memory := g\<rparr>)"
  by (auto simp: store_evolves_def store_wf_def fuel_wf_def split: option.splits)

lemma store_evolves_table:
  "(store_wf st \<Longrightarrow> table_wf t) \<Longrightarrow> store_evolves st (st\<lparr>tables := (tables st)(i \<mapsto> t)\<rparr>)"
  by (auto simp: store_evolves_def store_wf_def fuel_wf_def split: option.splits)

lemma evolves_set_exec_memory [evolve]:
  "evolves s t \<Longrightarrow> length mem = length (exec_memory t) \<Longrightarrow> evolves s (set_exec_memory mem t)"
  unfolding set_exec_memory_def
  by (intro evolve store_evolves_memory) (simp_all add: memory_wf_def exec_memory_def)

lemma evolves_set_table:
  "evolves s t \<Longrightarrow> (store_wf (store t) \<Longrightarrow> table_wf tab) \<Longrightarrow> evolves s (set_table i tab t)"
  unfolding set_table_def by (intro evolve store_evolves_table)

lemma evolving_charge_fuel [evolve]: "evolves s t \<Longrightarrow> evolving s (charge_fuel d t)"
  by (auto simp: charge_fuel_def intro!: evolve store_evolves_charge split: sum.splits)

lemma evolves_sync [evolve]:
  "evolves s t \<Longrightarrow> evolves s (sync_sp t)"
  by (auto simp: evolves_def sync_sp_def sync_stack_ptr_def stack_wf_def stack_capacity_def)

lemma evolves_reload_sync [evolve]: "evolves s t \<Longrightarrow> evolves s (reload_sp (sync_sp t))"
  by (auto simp: evolves_def sync_sp_def reload_sp_def sync_stack_ptr_def stack_wf_def stack_capacity_def)

lemma evolves_call:
  "evolves s t \<Longrightarrow> length cs \<le> N_MAX_RECURSION_DEPTH \<Longrightarrow>
   evolves s (reload_sp (sync_sp t\<lparr>call_stack := cs\<rparr>))"
  by (auto simp: evolves_def sync_sp_def reload_sp_def sync_stack_ptr_def stack_wf_def stack_capacity_def)

lemma evolves_return: "evolves s t \<Longrightarrow> call_stack t = p # cs \<Longrightarrow> evolves s (t\<lparr>call_stack := cs\<rparr>)"
  by (auto simp: evolves_def)

lemma evolves_reserve:
  assumes "evolves s t" and "stack_reserve n (vstack (sync_sp t)) = Inr vs"
  shows "evolves s (reload_sp (sync_sp t\<lparr>vstack := vs\<rparr>))"
  using assms
  by (auto simp: evolves_def sync_sp_def reload_sp_def sync_stack_ptr_def stack_wf_def
      stack_capacity_def stack_reserve_def Let_def split: if_splits)

section \<open>Instructions\<close>

lemma evolving_stack_visits:
  "evolving s (visit_local_get n s)" "evolving s (visit_local_set n s)"
  "evolving s (visit_local_tee n s)" "evolving s (visit_drop s)" "evolving s (visit_select s)"
  "evolving s (visit_ref_func f s)" "evolving s (visit_i32_const v s)"
  "evolving s (visit_bulk_const n s)" "evolving s (visit_bulk_drop n s)"
  by (auto simp: visit_local_get_def visit_local_set_def visit_local_tee_def visit_drop_def
      visit_select_def visit_ref_func_def visit_i32_const_def visit_bulk_const_def
      visit_bulk_drop_def intro!: evolve intro: in_cells_intros)

lemma evolving_alu_visits:
  "evolving s (visit_unary f s)" "evolving s (visit_binary g s)"
  "evolving s (visit_fallible_binary h s)" "evolving s (visit_i32_mul64 s)"
  "evolving s (visit_i32_add64 s)"
  by (auto simp: visit_unary_def visit_binary_def visit_fallible_binary_def visit_i32_mul64_def
      visit_i32_add64_def intro!: evolve intro: in_cells_intros split: option.splits prod.splits)

lemma evolving_system_visits:
  "evolving s (visit_consume_fuel d s)" "evolving s (visit_consume_fuel_stack s)"
  "evolving s (visit_signature_check i s)" "evolving s (visit_stack_check n s)"
  "evolving s (visit_global_get g s)" "evolving s (visit_global_set g s)"
  by (auto simp: visit_consume_fuel_def visit_consume_fuel_stack_def visit_signature_check_def
      visit_stack_check_def visit_global_get_def visit_global_set_def Let_def
      intro!: evolve evolves_reserve intro: in_cells_intros split: option.splits sum.splits)

lemma evolving_grown:
  "(\<And>r g. x = Some (r, g) \<Longrightarrow> evolving s (k (r, g))) \<Longrightarrow> evolving s (x \<bind> k)"
  by (cases x) (auto simp: evolve)

lemma load_store_length:
  "store_wrap w mem a o' v = Inr mem' \<Longrightarrow> length mem' = length mem"
  by (auto simp: store_wrap_Inr_iff)

lemma evolving_memory_visits:
  "evolving s (execute_load_extend ld n s)"
  "(\<And>mem a v mem'. wr mem a n v = Inr mem' \<Longrightarrow> length mem' = length mem) \<Longrightarrow>
   evolving s (execute_store_wrap wr n s)"
  "evolving s (visit_memory_size s)" "evolving s (visit_memory_grow s)"
  "evolving s (visit_memory_fill s)" "evolving s (visit_memory_copy s)"
  "evolving s (visit_memory_init env i s)" "evolving s (visit_data_drop env i s)"
proof -
  show "evolving s (visit_memory_grow s)"
    unfolding visit_memory_grow_def
    by (auto intro!: evolve store_evolves_memory evolving_grown [of "memory_grow d g" for d g]
        dest: memory_grow_wf simp: in_cells_intros split: option.split)
qed (auto simp: execute_load_extend_def execute_store_wrap_def visit_memory_size_def
    visit_memory_fill_def visit_memory_copy_def visit_memory_init_def visit_data_drop_def Let_def slice_simps
    intro!: evolve intro: in_cells_intros split: option.splits prod.splits sum.splits)

lemma evolving_stores:
  "evolving s (execute_store_wrap i32_store n s)" "evolving s (execute_store_wrap i32_store8 n s)"
  "evolving s (execute_store_wrap i32_store16 n s)"
  by (auto intro!: evolving_memory_visits(2) simp: i32_store_def i32_store8_def i32_store16_def
      dest: load_store_length)

lemma tables_wf: "store_wf st \<Longrightarrow> tables st i = Some t \<Longrightarrow> table_wf t"
  by (simp add: store_wf_def)

lemma table_wf_Nil [simp]: "table_wf []"
  by (simp add: table_wf_def)

lemma table_wf_length: "tables st i = Some t \<Longrightarrow> length t' = length t \<Longrightarrow> store_wf st \<Longrightarrow> table_wf t'"
  using tables_wf by (fastforce simp: table_wf_def)

lemma grown_table_wf:
  "grow_untyped d v (case tables st i of Some t \<Rightarrow> t | None \<Rightarrow> []) = (r, t') \<Longrightarrow> store_wf st \<Longrightarrow> table_wf t'"
  by (auto dest: grow_untyped_wf [rotated] tables_wf split: option.splits)

lemma copied_table_wf: "copy_within d s n t = Inr t' \<Longrightarrow> tables st i = Some t \<Longrightarrow> store_wf st \<Longrightarrow> table_wf t'"
  using copy_within_length tables_wf by (metis table_wf_def)

lemma evolving_table_result:
  assumes "evolves s t" and "\<And>x. r = Inr x \<Longrightarrow> store_wf (store t) \<Longrightarrow> table_wf x"
    and "\<And>c u. evolves s u \<Longrightarrow> evolving s (k (c, u))"
  shows "evolving s (table_result i r t \<bind> k)"
  using assms by (cases r) (simp_all add: table_result_def evolves_set_table)

lemma evolving_table:
  "(\<And>x. tables st i = Some x \<Longrightarrow> evolving s (k x)) \<Longrightarrow> evolving s (tables st i \<bind> k)"
  by (cases "tables st i") (auto simp: evolve)

lemmas table_lengths =
  set_untyped_length init_untyped_length table_copy_length fill_untyped_length

lemma evolving_table_visits:
  "evolving s (visit_table_size i s)" "evolving s (visit_table_fill i s)"
  "evolving s (visit_table_get i s)" "evolving s (visit_table_set i s)"
  "evolving s (visit_table_copy i j s)" "evolving s (visit_table_init env e s)"
  "evolving s (visit_element_drop env e s)"
  by (auto simp: visit_table_size_def visit_table_fill_def visit_table_get_def visit_table_set_def
      visit_table_copy_def visit_table_init_def visit_element_drop_def Let_def
      intro!: evolve evolving_table evolving_table_result simp: in_cells_intros
      dest!: table_lengths intro: table_wf_length copied_table_wf split: option.split if_splits)

lemma evolving_table_grow: "evolving s (visit_table_grow i s)"
  by (auto simp: visit_table_grow_def in_cells_intros intro!: evolve evolves_set_table
      intro: grown_table_wf split: prod.split)

section \<open>Control flow and host calls\<close>

lemma evolving_enter_call: "evolves s t \<Longrightarrow> evolving s (enter_call f t)"
  by (auto simp: enter_call_def Let_def intro!: evolve evolves_call)

lemma evolving_resolve_indirect:
  assumes "\<And>r u. evolves s u \<Longrightarrow> evolving s (k (r, u))"
  shows "evolving s (resolve_indirect env i s \<bind> k)"
  by (auto simp: resolve_indirect_def Let_def in_cells_intros intro!: assms evolve evolving_table)

lemma evolving_control_visits:
  "evolving s (visit_unreachable s)" "evolving s (visit_trap_code c s)" "evolving s (visit_br d s)"
  "evolving s (visit_br_if d s)" "evolving s (visit_br_if_nez d s)" "evolving s (visit_br_table n s)"
  "evolving s (visit_return s)" "evolving s (visit_return_call_internal f s)"
  "evolving s (visit_call_internal f s)" "evolving s (visit_return_call_indirect env i s)"
  "evolving s (visit_call_indirect env i s)"
  by (auto simp: visit_unreachable_def visit_trap_code_def visit_br_def visit_br_if_def
      visit_br_if_nez_def visit_br_table_def visit_return_def visit_return_call_internal_def
      visit_call_internal_def visit_return_call_indirect_def visit_call_indirect_def Let_def
      in_cells_intros
      intro!: evolve evolving_enter_call evolving_resolve_indirect
      intro: evolves_return split: list.split sum.split)

section \<open>The end of a run\<close>

text \<open>A finished loop reached a state whose instruction returns from the outermost function or
  traps.\<close>

definition loop_ended :: "'h env \<Rightarrow> 'h exec \<Rightarrow> (trap_code option \<times> 'h exec) run_result \<Rightarrow> bool" where
  "loop_ended env s r \<longleftrightarrow> (case r of
     Undefined \<Rightarrow> True
   | Finished (t, s') \<Rightarrow> \<exists>u. exec_reaches env s u \<and>
       exec_step env u = Some (case t of None \<Rightarrow> Halt s' | Some c \<Rightarrow> Trapped c s'))"

lemma loop_ended_step: "exec_step env s = Some (Next v) \<Longrightarrow> loop_ended env v r \<Longrightarrow> loop_ended env s r"
  by (auto simp: loop_ended_def split: run_result.splits intro: exec_reaches_step)

lemma run_the_loop_ended:
  assumes ret: "run_the_loop env s = Some r"
  shows "loop_ended env s r"
proof (rule run_the_loop.raw_induct [where P = loop_ended, OF _ ret])
  fix f env s r
  assume ih: "\<And>env s r. f env s = Some r \<Longrightarrow> loop_ended env s r"
    and eq: "(case exec_step env s of
        None \<Rightarrow> Some Undefined
      | Some flow \<Rightarrow>
          (case flow of
             Next s' \<Rightarrow> f env s'
           | Halt s' \<Rightarrow> Some (Finished (None, s'))
           | Trapped t s' \<Rightarrow> Some (Finished (Some t, s')))) = Some r"
  show "loop_ended env s r"
  proof (cases "exec_step env s")
    case None
    with eq show ?thesis by (auto simp: loop_ended_def)
  next
    case (Some fl)
    show ?thesis
    proof (cases fl)
      case (Next v)
      with eq Some have "f env v = Some r" by simp
      with ih Some Next show ?thesis by (blast intro: loop_ended_step)
    qed (use eq Some in \<open>auto simp: loop_ended_def intro!: exI [of _ s]\<close>)
  qed
qed

lemma evolves_halted: "evolves s t \<Longrightarrow> evolves s (halted_state t)"
  by (auto simp: halted_state_def evolves_def stack_wf_def stack_reset_def stack_capacity_def
      elim!: store_evolves_trans intro: store_evolves_updates)

lemma evolves_from_stack:
  assumes "from_stack f u = Some (r, w)" and "evolves s u"
    and "\<And>m r m'. f m = Some (r, m') \<Longrightarrow> in_cells m m'"
  shows "evolves s w"
proof -
  obtain m where "f (stack_of u) = Some (r, m)" "w = set_stack m u"
    using assms(1) by (auto simp: from_stack_def bind_eq_Some_conv)
  with assms show ?thesis by (simp add: evolves_set_stack)
qed

lemma finish_run_evolves:
  assumes "finish_run result t u = Finished (c, vs, u')" and "evolves s u"
  shows "evolves s u'"
proof (cases t)
  case None
  with assms(1) obtain w where "from_stack (pop_results result) u = Some (vs, w)" "u' = sync_sp w"
    by (auto simp: finish_run_def split: option.splits)
  moreover from this(1) assms(2) have "evolves s w"
    by (rule evolves_from_stack) (rule in_cells_pop_results)
  ultimately show ?thesis by (simp add: evolve)
next
  case (Some c)
  with assms show ?thesis by (cases c) (auto simp: finish_run_def intro!: evolve evolves_halted)
qed

text \<open>An interrupted run leaves the pointer of the value stack at the executor's.\<close>

lemma interrupted_stack_synced:
  assumes "exec_run env params result s = Some (Finished (Some InterruptionCalled, vs, s'))"
  shows "stack_ptr (vstack s') = sp s'"
proof (cases "stack_reserve (sum_list (map param_width params)) (vstack (sync_sp s))")
  case (Inl t)
  with assms show ?thesis by (auto simp: exec_run_def sync_sp_def sync_stack_ptr_def)
next
  case (Inr stk)
  with assms obtain t u where "finish_run result t u = Finished (Some InterruptionCalled, vs, s')"
    by (auto simp: exec_run_def Let_def split: option.splits run_result.splits prod.splits)
  then show ?thesis
    by (auto simp: finish_run_def sync_sp_def sync_stack_ptr_def
        split: option.splits trap_code.splits)
qed

lemma initial_exec_wf: "store_wf st \<Longrightarrow> vm_wf (initial_exec p st)"
  by (simp add: vm_wf_def initial_exec_def stack_wf_def stack_capacity_def value_stack_default_def
      N_DEFAULT_STACK_SIZE_def N_MAX_STACK_SIZE_def)

lemmas evolving_visits =
  evolving_stack_visits evolving_alu_visits evolving_system_visits evolving_memory_visits(1,3-)
  evolving_stores evolving_table_visits evolving_table_grow evolving_control_visits

section \<open>The host as an interface\<close>

text \<open>
  What the executor relies on when it hands its store to the host: the handler works
  through \<open>StoreTr\<close> without resetting the fuel, so it keeps the store well-formed and never
  lowers the account. Every instruction, every reachable state and every run then has the
  invariant.
\<close>

locale well_behaved_host =
  fixes handler :: "'h store \<Rightarrow> u32 \<Rightarrow> val list \<Rightarrow> val list \<Rightarrow>
    (trap_code option \<times> 'h store \<times> val list) option"
  assumes handler_evolves:
    "handler st i params result = Some (outcome, st', filled) \<Longrightarrow> store_evolves st st'"
begin

lemma evolving_handler:
  assumes "\<And>o' st' fs. store_evolves st st' \<Longrightarrow> evolving s (k (o', st', fs))"
  shows "evolving s (handler st i ps rs \<bind> k)"
  using assms handler_evolves
  by (cases "handler st i ps rs") (fastforce simp: evolve)+

lemma evolving_invoke_syscall:
  assumes "syscall_handler env = handler" and "evolves s t"
  shows "evolving s (invoke_syscall env i t)"
  unfolding invoke_syscall_def assms(1)
  by (rule evolving_peek)
    (auto simp: Let_def in_cells_intros intro!: evolve evolves_reserve assms(2) evolving_handler
      evolving_peek [of s k "those x" for k x]
      split: sum.splits option.split trap_code.split)

lemma evolving_step:
  assumes "syscall_handler env = handler"
  shows "evolving s (step env op s)"
  by (cases op)
    (simp_all add: step_def visit_call_def visit_return_call_def evolve evolving_visits
      evolving_invoke_syscall [OF assms])

lemma exec_step_evolves:
  "syscall_handler env = handler \<Longrightarrow> exec_step env s = Some fl \<Longrightarrow> evolves s (flow_state fl)"
  using evolving_step by (fastforce simp: exec_step_def evolving_def bind_eq_Some_conv)

lemma exec_reaches_evolves:
  assumes "syscall_handler env = handler" and "exec_reaches env s t"
  shows "evolves s t"
  using assms(2) unfolding exec_reaches_def
proof (induction rule: rtranclp_induct)
  case (step t u)
  then show ?case using exec_step_evolves [OF assms(1) step.hyps(2)] by (auto elim: evolves_trans)
qed simp

lemma run_the_loop_evolves:
  assumes host: "syscall_handler env = handler"
    and loop: "run_the_loop env s = Some (Finished (t, s'))"
  shows "evolves s s'"
proof -
  obtain u where u: "exec_reaches env s u"
    "exec_step env u = Some (case t of None \<Rightarrow> Halt s' | Some c \<Rightarrow> Trapped c s')"
    using run_the_loop_ended [OF loop] by (auto simp: loop_ended_def)
  have "evolves u s'"
    using exec_step_evolves [OF host u(2)] by (cases t) simp_all
  with exec_reaches_evolves [OF host u(1)] show ?thesis by (rule evolves_trans)
qed

lemma exec_run_evolves:
  assumes host: "syscall_handler env = handler"
    and run: "exec_run env params result s = Some (Finished (c, vs, s'))"
  shows "evolves s s'"
proof (cases "stack_reserve (sum_list (map param_width params)) (vstack (sync_sp s))")
  case (Inl t)
  with run show ?thesis by (auto simp: exec_run_def intro!: evolve)
next
  case (Inr stk)
  let ?s = "reload_sp (sync_sp s\<lparr>vstack := stk\<rparr>)"
  have start: "evolves s ?s" by (rule evolves_reserve [OF evolves_refl Inr])
  from run Inr obtain m t u where m: "push_values params (stack_of ?s) = Some m"
    and loop: "run_the_loop env (set_stack m ?s) = Some (Finished (t, u))"
    and fin: "finish_run result t u = Finished (c, vs, s')"
    by (auto simp: exec_run_def on_stack_def bind_eq_Some_conv Let_def
        split: option.splits run_result.splits prod.splits)
  from start have "evolves s (set_stack m ?s)"
    by (rule evolves_set_stack) (rule in_cells_push_values [OF m])
  also have "evolves (set_stack m ?s) u"
    by (rule run_the_loop_evolves [OF host loop])
  finally (evolves_trans) show ?thesis by (rule finish_run_evolves [OF fin])
qed

lemma engine_outcome_evolves:
  assumes host: "syscall_handler env = handler"
    and out: "engine_outcome m (exec_run env params result s) = Some (Finished (c, vs, st'))"
  obtains s' where "evolves s s'" "exec_run env params result s = Some (Finished (c, vs, s'))"
    "st' = (if c = Some InterruptionCalled then remember_context m s' else store s')"
    "store_evolves (store s) st'"
proof -
  from out obtain s' where s': "exec_run env params result s = Some (Finished (c, vs, s'))"
    "st' = (if c = Some InterruptionCalled then remember_context m s' else store s')"
    by (auto simp: engine_outcome_def split: option.splits run_result.splits)
  have ev: "evolves s s'" by (rule exec_run_evolves [OF host s'(1)])
  then have "store_evolves (store s) (store s')" by (simp add: evolves_def)
  moreover have "store_evolves (store s') (remember_context m s')"
    unfolding remember_context_def by (rule store_evolves_updates)
  ultimately have "store_evolves (store s) st'"
    unfolding s'(2) by (auto elim: store_evolves_trans)
  with ev s' show thesis by (rule that)
qed

lemma engine_execute_evolves:
  assumes "syscall_handler env = handler"
    and "engine_execute env params result st = Some (Finished (c, vs, st'))"
  shows "store_evolves st st'"
  using assms(2) unfolding engine_execute_def
  by (rule engine_outcome_evolves [OF assms(1)]) (simp add: initial_exec_def)

lemma engine_resume_evolves:
  assumes "syscall_handler env = handler"
    and "engine_resume env params result st = Some (Finished (c, vs, st'))"
  shows "store_evolves st st'"
proof -
  obtain ctx where ctx: "resumable_context st = Some ctx"
    using assms(2) by (cases "resumable_context st") (simp_all add: engine_resume_def)
  have "store_evolves (st\<lparr>resumable_context := None\<rparr>) st'"
    using assms(2) unfolding engine_resume_def ctx option.case
    by (rule engine_outcome_evolves [rotated]) (simp_all add: assms(1))
  with store_evolves_updates(5) show ?thesis by (rule store_evolves_trans)
qed

text \<open>The context an interruption leaves behind has the bounds of the executor.\<close>

lemma interrupted_context:
  assumes "syscall_handler env = handler"
    and "engine_execute env params result st = Some (Finished (Some InterruptionCalled, vs, st'))"
  shows "\<exists>ctx. resumable_context st' = Some ctx \<and> ctx_module ctx = module env \<and>
    length (ctx_call_stack ctx) \<le> N_MAX_RECURSION_DEPTH \<and>
    stack_ptr (ctx_value_stack ctx) \<le> stack_capacity (ctx_value_stack ctx) \<and>
    stack_capacity (ctx_value_stack ctx) \<le> 2 * N_MAX_STACK_SIZE"
  using assms(2) unfolding engine_execute_def
proof (rule engine_outcome_evolves [OF assms(1)])
  fix s' assume "evolves (initial_exec (int (unat (source_pc (module env)))) st) s'"
    and st': "st' = (if Some InterruptionCalled = Some InterruptionCalled
      then remember_context (module env) s' else store s')"
  moreover have "stack_wf (initial_exec p st)" for p
    by (simp add: stack_wf_def initial_exec_def stack_capacity_def value_stack_default_def
        N_DEFAULT_STACK_SIZE_def N_MAX_STACK_SIZE_def)
  ultimately have "stack_wf s'" "length (call_stack s') \<le> N_MAX_RECURSION_DEPTH"
    "maximum_len (vstack s') = N_MAX_STACK_SIZE"
    by (simp_all add: evolves_def initial_exec_def value_stack_default_def)
  then show ?thesis
    using st' by (simp add: remember_context_def sync_stack_ptr_def stack_wf_def stack_capacity_def)
qed

end

end
