(* ===== verification/Host.thy ===== *)
theory Host
  imports Vm_Invariants
begin

text \<open>
  The host side of a system call: the accessors of \<open>RwasmCaller\<close> (\<open>src/vm/context.rs\<close>),
  the handler that refuses every call (\<open>src/strategy/syscall_handler.rs\<close>) and the simple
  call handler (\<open>src/vm/handler.rs\<close>) with its input, output, state and exit code. The
  Keccak hash is a parameter. A handler gives \<open>None\<close> when it panics: a parameter of another
  type, a missing parameter or result, a range outside the input, an unknown function.
  Both handlers meet the contract \<open>well_behaved_host\<close>.
\<close>

section \<open>The caller\<close>

definition caller_memory_read :: "nat \<Rightarrow> nat \<Rightarrow> 'h store \<Rightarrow> trap_code + u8 list" where
  "caller_memory_read offset len st = memory_read offset len (global_memory st)"

definition caller_memory_write :: "nat \<Rightarrow> u8 list \<Rightarrow> 'h store \<Rightarrow> trap_code + 'h store" where
  "caller_memory_write offset buffer st =
     (case memory_write offset buffer (global_memory st) of
        Inl t \<Rightarrow> Inl t
      | Inr g \<Rightarrow> Inr (st\<lparr>global_memory := g\<rparr>))"

text \<open>\<open>always_failing_syscall_handler\<close>.\<close>

definition always_failing_syscall_handler ::
  "'h store \<Rightarrow> u32 \<Rightarrow> val list \<Rightarrow> val list \<Rightarrow> (trap_code option \<times> 'h store \<times> val list) option" where
  "always_failing_syscall_handler caller func_idx params result =
     Some (Some UnknownExternalFunction, caller, result)"

section \<open>The simple call handler\<close>

record call_context =
  exit_code :: u32
  call_input :: "u8 list"
  call_state :: u32
  call_output :: "u8 list"

type_synonym call_store = "call_context store"
type_synonym call_result = "(trap_code option \<times> call_store \<times> val list) option"

text \<open>\<open>params[i].i32().unwrap()\<close> and \<open>result[0] = v\<close>.\<close>

definition i32_param :: "val list \<Rightarrow> nat \<Rightarrow> u32 option" where
  "i32_param params i =
     (if i < length params then case params ! i of I32 v \<Rightarrow> Some v | _ \<Rightarrow> None else None)"

definition set_result :: "val \<Rightarrow> val list \<Rightarrow> val list option" where
  "set_result v result = (case result of [] \<Rightarrow> None | _ # rest \<Rightarrow> Some (v # rest))"

text \<open>\<open>vec![0u8; length]\<close> panics when the length exceeds \<open>isize::MAX\<close>.\<close>

definition alloc_ok :: "nat \<Rightarrow> bool" where
  "alloc_ok len \<longleftrightarrow> len < 2 ^ 63"

definition fn_proc_exit :: "call_store \<Rightarrow> val list \<Rightarrow> val list \<Rightarrow> call_result" where
  "fn_proc_exit caller params result =
     do { code \<leftarrow> i32_param params 0;
          Some (Some ExecutionHalted,
                caller\<lparr>host_data := (host_data caller)\<lparr>exit_code := code\<rparr>\<rparr>, result) }"

definition fn_get_state :: "call_store \<Rightarrow> val list \<Rightarrow> val list \<Rightarrow> call_result" where
  "fn_get_state caller params result =
     do { result \<leftarrow> set_result (I32 (call_state (host_data caller))) result;
          Some (None, caller, result) }"

definition fn_read_input :: "call_store \<Rightarrow> val list \<Rightarrow> val list \<Rightarrow> call_result" where
  "fn_read_input caller params result =
     do { target \<leftarrow> i32_param params 0;
          offset \<leftarrow> i32_param params 1;
          len \<leftarrow> i32_param params 2;
          let caller = caller\<lparr>host_data := (host_data caller)\<lparr>exit_code := - 2020\<rparr>\<rparr> in
          do { bytes \<leftarrow> slice_get (call_input (host_data caller)) (i32_as_usize offset) (i32_as_usize len);
               case caller_memory_write (i32_as_usize target) bytes caller of
                 Inl t \<Rightarrow> Some (Some t, caller, result)
               | Inr caller \<Rightarrow> Some (None, caller, result) } }"

definition fn_input_size :: "call_store \<Rightarrow> val list \<Rightarrow> val list \<Rightarrow> call_result" where
  "fn_input_size caller params result =
     do { result \<leftarrow> set_result (I32 (word_of_nat (length (call_input (host_data caller))))) result;
          Some (None, caller, result) }"

definition fn_write_output :: "call_store \<Rightarrow> val list \<Rightarrow> val list \<Rightarrow> call_result" where
  "fn_write_output caller params result =
     do { offset \<leftarrow> i32_param params 0;
          len \<leftarrow> i32_param params 1;
          if \<not> alloc_ok (i32_as_usize len) then None
          else case caller_memory_read (i32_as_usize offset) (i32_as_usize len) caller of
            Inl t \<Rightarrow> Some (Some t, caller, result)
          | Inr buffer \<Rightarrow>
              Some (None, caller\<lparr>host_data := (host_data caller)\<lparr>call_output :=
                call_output (host_data caller) @ buffer\<rparr>\<rparr>, result) }"

definition fn_keccak256 ::
  "(u8 list \<Rightarrow> u8 list) \<Rightarrow> call_store \<Rightarrow> val list \<Rightarrow> val list \<Rightarrow> call_result" where
  "fn_keccak256 keccak caller params result =
     do { data_offset \<leftarrow> i32_param params 0;
          data_len \<leftarrow> i32_param params 1;
          output32_offset \<leftarrow> i32_param params 2;
          if \<not> alloc_ok (i32_as_usize data_len) then None
          else case caller_memory_read (i32_as_usize data_offset) (i32_as_usize data_len) caller of
            Inl t \<Rightarrow> Some (Some t, caller, result)
          | Inr buffer \<Rightarrow>
              (case caller_memory_write (i32_as_usize output32_offset) (keccak buffer) caller of
                 Inl t \<Rightarrow> Some (Some t, caller, result)
               | Inr caller \<Rightarrow> Some (None, caller, result)) }"

definition simple_call_handler_syscall_handler ::
  "(u8 list \<Rightarrow> u8 list) \<Rightarrow> call_store \<Rightarrow> u32 \<Rightarrow> val list \<Rightarrow> val list \<Rightarrow> call_result" where
  "simple_call_handler_syscall_handler keccak caller func_idx params result =
     (if func_idx = 0x0001 then fn_proc_exit caller params result
      else if func_idx = 0x0002 then fn_get_state caller params result
      else if func_idx = 0x0003 then fn_read_input caller params result
      else if func_idx = 0x0004 then fn_input_size caller params result
      else if func_idx = 0x0005 then fn_write_output caller params result
      else if func_idx = 0x0101 then fn_keccak256 keccak caller params result
      else None)"

section \<open>Both handlers behave\<close>

lemma store_evolves_host_data [simp]: "store_evolves st (st\<lparr>host_data := d\<rparr>)"
  by (auto simp: store_evolves_def store_wf_def fuel_wf_def split: option.splits)

lemma store_evolves_write:
  "caller_memory_write off bs st = Inr st' \<Longrightarrow> store_evolves st st'"
  by (auto simp: caller_memory_write_def intro: memory_write_wf store_evolves_memory split: sum.splits)

lemmas store_evolves_write_data = store_evolves_trans [OF store_evolves_host_data store_evolves_write]

lemma fn_read_input_evolves:
  assumes "fn_read_input st ps rs = Some (t, st', fs)"
  shows "store_evolves st st'"
proof -
  let ?st = "st\<lparr>host_data := (host_data st)\<lparr>exit_code := - 2020\<rparr>\<rparr>"
  from assms obtain target bytes where r:
    "(case caller_memory_write target bytes ?st of
        Inl t \<Rightarrow> Some (Some t, ?st, rs) | Inr caller \<Rightarrow> Some (None, caller, rs)) = Some (t, st', fs)"
    by (auto simp only: fn_read_input_def bind_eq_Some_conv Let_def)
  then show ?thesis
    by (cases "caller_memory_write target bytes ?st") (auto intro: store_evolves_write_data)
qed

lemma simple_handler_evolves:
  "simple_call_handler_syscall_handler k st i ps rs = Some (t, st', fs) \<Longrightarrow> store_evolves st st'"
  by (auto simp: simple_call_handler_syscall_handler_def fn_proc_exit_def fn_get_state_def
      fn_input_size_def fn_write_output_def fn_keccak256_def bind_eq_Some_conv Let_def
      intro: fn_read_input_evolves store_evolves_write split: if_split_asm sum.split_asm)

interpretation simple_host: well_behaved_host "simple_call_handler_syscall_handler keccak" for keccak
  by unfold_locales (rule simple_handler_evolves)

interpretation failing_host: well_behaved_host always_failing_syscall_handler
  by unfold_locales (simp add: always_failing_syscall_handler_def)

end
