(* ===== verification/Import_Linker.thy ===== *)
theory Import_Linker
  imports Value_Stack "HOL-Library.List_Lexorder" "HOL-Library.Char_ord" "HOL-Library.Product_Lexorder"
begin

text \<open>
  The import linker (\<open>src/vm/import_linker.rs\<close>) with the names of imports
  (\<open>src/types/import_name.rs\<close>) and the intrinsics (\<open>src/compiler/intrinsic.rs\<close>): the vector of
  entities and its two indices, by name and by system function index. The hash maps are
  association lists. \<open>SyscallFuelParams\<close> is a type of another crate, the type variable
  \<open>'f\<close>, with its default value as an argument. \<open>insert_entity\<close> panics on a
  collision and gives \<open>None\<close>. A name is ordered by module, then field, as the derived
  \<open>Ord\<close> does.
\<close>

section \<open>Names and entities\<close>

datatype import_name = ImportName (import_module: string) (import_field: string)

instantiation import_name :: linorder
begin

definition less_eq_import_name :: "import_name \<Rightarrow> import_name \<Rightarrow> bool" where
  "less_eq_import_name a b \<longleftrightarrow>
     (import_module a, import_field a) \<le> (import_module b, import_field b)"

definition less_import_name :: "import_name \<Rightarrow> import_name \<Rightarrow> bool" where
  "less_import_name a b \<longleftrightarrow>
     (import_module a, import_field a) < (import_module b, import_field b)"

instance
proof
  fix x y z :: import_name
  show "x < y \<longleftrightarrow> x \<le> y \<and> \<not> y \<le> x"
    unfolding less_eq_import_name_def less_import_name_def by (rule less_le_not_le)
  show "x \<le> x"
    unfolding less_eq_import_name_def by (rule order_refl)
  show "x \<le> z" if "x \<le> y" "y \<le> z"
    using that unfolding less_eq_import_name_def by (rule order_trans)
  show "x = y" if "x \<le> y" "y \<le> x"
    using that antisym [of "(import_module x, import_field x)" "(import_module y, import_field y)"]
    unfolding less_eq_import_name_def by (auto intro: import_name.expand)
  show "x \<le> y \<or> y \<le> x"
    unfolding less_eq_import_name_def by (rule linear)
qed

end

datatype intrinsic = Replace "opcode list" | Remove

record 'f import_linker_entity =
  sys_func_idx :: u32
  syscall_fuel_param :: 'f
  entity_params :: "val_type list"
  entity_result :: "val_type list"
  entity_intrinsic :: "intrinsic option"

text \<open>\<open>matches_func_type\<close> compares the lengths and then the types pairwise.\<close>

definition matches_func_type :: "'f import_linker_entity \<Rightarrow> val_type list \<Rightarrow> val_type list \<Rightarrow> bool" where
  "matches_func_type e params results \<longleftrightarrow>
     length params = length (entity_params e) \<and> length results = length (entity_result e) \<and>
     (\<forall>(a, b) \<in> set (zip params (entity_params e)). a = b) \<and>
     (\<forall>(a, b) \<in> set (zip results (entity_result e)). a = b)"

section \<open>The linker\<close>

record 'f import_linker =
  entities_of :: "'f import_linker_entity list"
  name_to_entity :: "(import_name \<times> nat) list"
  idx_to_entity :: "(u32 \<times> nat) list"

definition linker_default :: "'f import_linker" where
  "linker_default = \<lparr>entities_of = [], name_to_entity = [], idx_to_entity = []\<rparr>"

definition insert_entity ::
  "import_name \<Rightarrow> 'f import_linker_entity \<Rightarrow> 'f import_linker \<Rightarrow> 'f import_linker option" where
  "insert_entity import_name entity l =
     (if import_name \<in> fst ` set (name_to_entity l) then None
      else if sys_func_idx entity \<in> fst ` set (idx_to_entity l) then None
      else let index = length (entities_of l)
        in Some \<lparr>entities_of = entities_of l @ [entity],
                 name_to_entity = (import_name, index) # name_to_entity l,
                 idx_to_entity = (sys_func_idx entity, index) # idx_to_entity l\<rparr>)"

definition insert_function ::
  "import_name \<Rightarrow> u32 \<Rightarrow> 'f \<Rightarrow> val_type list \<Rightarrow> val_type list \<Rightarrow> 'f import_linker \<Rightarrow> 'f import_linker option" where
  "insert_function import_name idx fuel_param params result l =
     insert_entity import_name \<lparr>sys_func_idx = idx, syscall_fuel_param = fuel_param,
       entity_params = params, entity_result = result, entity_intrinsic = None\<rparr> l"

definition insert_intrinsic ::
  "'f \<Rightarrow> import_name \<Rightarrow> u32 \<Rightarrow> intrinsic \<Rightarrow> val_type list \<Rightarrow> val_type list \<Rightarrow> 'f import_linker \<Rightarrow>
   'f import_linker option" where
  "insert_intrinsic default_fuel import_name idx intrinsic params result l =
     insert_entity import_name \<lparr>sys_func_idx = idx, syscall_fuel_param = default_fuel,
       entity_params = params, entity_result = result, entity_intrinsic = Some intrinsic\<rparr> l"

fun insert_all ::
  "(import_name \<times> 'f import_linker_entity) list \<Rightarrow> 'f import_linker \<Rightarrow> 'f import_linker option" where
  "insert_all [] l = Some l"
| "insert_all ((n, e) # arr) l = do { l \<leftarrow> insert_entity n e l; insert_all arr l }"

definition linker_from :: "(import_name \<times> 'f import_linker_entity) list \<Rightarrow> 'f import_linker option" where
  "linker_from arr = insert_all arr linker_default"

text \<open>\<open>entities.get(index)\<close> behind the lookup of an index.\<close>

definition entity_at :: "'f import_linker \<Rightarrow> nat \<Rightarrow> 'f import_linker_entity option" where
  "entity_at l i = (if i < length (entities_of l) then Some (entities_of l ! i) else None)"

definition resolve_by_import_name :: "import_name \<Rightarrow> 'f import_linker \<Rightarrow> 'f import_linker_entity option" where
  "resolve_by_import_name n l = do { index \<leftarrow> map_of (name_to_entity l) n; entity_at l index }"

definition resolve_by_func_idx :: "u32 \<Rightarrow> 'f import_linker \<Rightarrow> 'f import_linker_entity option" where
  "resolve_by_func_idx i l = do { index \<leftarrow> map_of (idx_to_entity l) i; entity_at l index }"

definition find_symbols :: "'f import_linker \<Rightarrow> import_name list" where
  "find_symbols l = sort (map fst (name_to_entity l))"

text \<open>What the executor reads from the linker.\<close>

definition linker_types_of :: "'f import_linker \<Rightarrow> u32 \<Rightarrow> (val_type list \<times> val_type list) option" where
  "linker_types_of l i = map_option (\<lambda>e. (entity_params e, entity_result e)) (resolve_by_func_idx i l)"

section \<open>The linker invariant\<close>

text \<open>Both indices cover the vector once, in the order of insertion, and the second is keyed by
  the entities' own indices.\<close>

definition linker_wf :: "'f import_linker \<Rightarrow> bool" where
  "linker_wf l \<longleftrightarrow>
     map snd (name_to_entity l) = rev [0..<length (entities_of l)] \<and>
     idx_to_entity l = rev (zip (map sys_func_idx (entities_of l)) [0..<length (entities_of l)]) \<and>
     distinct (map fst (name_to_entity l)) \<and> distinct (map sys_func_idx (entities_of l))"

lemma linker_default_wf: "linker_wf linker_default"
  by (simp add: linker_wf_def linker_default_def)

lemma idx_keys: "linker_wf l \<Longrightarrow> fst ` set (idx_to_entity l) = sys_func_idx ` set (entities_of l)"
  by (force simp: linker_wf_def set_zip in_set_conv_nth image_iff)

lemma insert_entity_wf:
  assumes wf: "linker_wf l" and ins: "insert_entity n e l = Some l'"
  shows "linker_wf l'"
proof -
  from ins have new: "n \<notin> fst ` set (name_to_entity l)" "sys_func_idx e \<notin> fst ` set (idx_to_entity l)"
    by (auto simp: insert_entity_def split: if_splits)
  with ins have l': "l' = \<lparr>entities_of = entities_of l @ [e],
      name_to_entity = (n, length (entities_of l)) # name_to_entity l,
      idx_to_entity = (sys_func_idx e, length (entities_of l)) # idx_to_entity l\<rparr>"
    by (auto simp: insert_entity_def Let_def)
  have "sys_func_idx e \<notin> sys_func_idx ` set (entities_of l)"
    using new(2) by (simp add: idx_keys [OF wf])
  with wf new(1) show ?thesis
    unfolding l' linker_wf_def by (auto simp: image_iff)
qed

lemma insert_all_wf: "linker_wf l \<Longrightarrow> insert_all arr l = Some l' \<Longrightarrow> linker_wf l'"
  by (induction arr l rule: insert_all.induct) (auto simp: bind_eq_Some_conv dest: insert_entity_wf)

lemma entity_at_insert:
  assumes "insert_entity n e l = Some l'"
  shows "entity_at l' i = (if i = length (entities_of l) then Some e else entity_at l i)"
  using assms by (auto simp: insert_entity_def entity_at_def Let_def nth_append split: if_splits)

lemma index_bound:
  assumes wf: "linker_wf l"
  shows "map_of (name_to_entity l) n = Some i \<Longrightarrow> i < length (entities_of l)"
    and "map_of (idx_to_entity l) k = Some i \<Longrightarrow> i < length (entities_of l)"
proof -
  assume "map_of (name_to_entity l) n = Some i"
  then have "i \<in> set (map snd (name_to_entity l))" by (force dest: map_of_SomeD)
  with wf show "i < length (entities_of l)" by (simp add: linker_wf_def)
next
  assume "map_of (idx_to_entity l) k = Some i"
  with wf show "i < length (entities_of l)"
    by (auto simp: linker_wf_def set_zip dest!: map_of_SomeD)
qed

lemma resolve_after_insert:
  assumes wf: "linker_wf l" and ins: "insert_entity n e l = Some l'"
  shows "resolve_by_import_name n' l' = (if n' = n then Some e else resolve_by_import_name n' l)"
    and "resolve_by_func_idx k l' =
      (if k = sys_func_idx e then Some e else resolve_by_func_idx k l)"
proof -
  have l': "name_to_entity l' = (n, length (entities_of l)) # name_to_entity l"
    "idx_to_entity l' = (sys_func_idx e, length (entities_of l)) # idx_to_entity l"
    using ins by (auto simp: insert_entity_def Let_def split: if_splits)
  have old: "entity_at l' i = entity_at l i" if "i < length (entities_of l)" for i
    using that by (simp add: entity_at_insert [OF ins])
  show "resolve_by_import_name n' l' = (if n' = n then Some e else resolve_by_import_name n' l)"
    using index_bound(1) [OF wf] old
    by (cases "map_of (name_to_entity l) n'")
      (auto simp: resolve_by_import_name_def l' entity_at_insert [OF ins])
  show "resolve_by_func_idx k l' = (if k = sys_func_idx e then Some e else resolve_by_func_idx k l)"
    using index_bound(2) [OF wf] old
    by (cases "map_of (idx_to_entity l) k")
      (auto simp: resolve_by_func_idx_def l' entity_at_insert [OF ins])
qed

lemma resolve_by_func_idx_key:
  assumes wf: "linker_wf l" and res: "resolve_by_func_idx k l = Some e"
  shows "sys_func_idx e = k \<and> e \<in> set (entities_of l)"
  using assms
  by (auto simp: resolve_by_func_idx_def entity_at_def bind_eq_Some_conv linker_wf_def set_zip
      dest!: map_of_SomeD split: if_splits)

lemma resolve_by_func_idx_member:
  assumes wf: "linker_wf l" and e: "e \<in> set (entities_of l)"
  shows "resolve_by_func_idx (sys_func_idx e) l = Some e"
proof -
  from e obtain i where i: "i < length (entities_of l)" "e = entities_of l ! i"
    by (auto simp: in_set_conv_nth)
  have "distinct (map fst (idx_to_entity l))"
    using wf by (simp add: linker_wf_def rev_map [symmetric])
  moreover have "(sys_func_idx e, i) \<in> set (idx_to_entity l)"
    using wf i by (auto simp: linker_wf_def set_zip intro!: exI [of _ i])
  ultimately have "map_of (idx_to_entity l) (sys_func_idx e) = Some i"
    by (simp add: map_of_eq_Some_iff)
  with i show ?thesis by (simp add: resolve_by_func_idx_def entity_at_def)
qed

lemma find_symbols_sorted: "sorted (find_symbols l) \<and> set (find_symbols l) = fst ` set (name_to_entity l)"
  by (simp add: find_symbols_def)

end
