(* ===== verification/Routine_Run.thy ===== *)
theory Routine_Run
  imports Local_Code
begin

text \<open>
  Running a routine as a program: the typed values that \<open>run\<close> pushes and pops
  (\<open>src/vm/executor.rs\<close>, \<open>src/vm/value_stack.rs\<close>) seen as words, and the whole path
  of \<open>ExecutionEngine::execute\<close> on a module whose code is one routine followed by
  \<open>Return\<close>. A contract \<open>computes\<close> of the routine then is a fact about the engine.
\<close>

section \<open>Typed values as words\<close>

text \<open>The words of a value, the first pushed first.\<close>

definition val_words :: "val \<Rightarrow> u32 list" where
  "val_words v = (case v of
     I32 b \<Rightarrow> [b] | I64 b \<Rightarrow> [lo32 b, hi32 b] | F32 b \<Rightarrow> [b] | F64 b \<Rightarrow> [lo32 b, hi32 b]
   | FuncRef b \<Rightarrow> [b] | ExternRef b \<Rightarrow> [b])"

definition vals_words :: "val list \<Rightarrow> u32 list" where
  "vals_words vs = concat (map val_words vs)"

lemma vals_words_simps [simp]:
  "vals_words [] = []" "vals_words (v # vs) = val_words v @ vals_words vs"
  by (simp_all add: vals_words_def)

lemma length_val_words: "length (val_words v) = param_width v"
  by (simp add: val_words_def param_width_def split: val.splits)

lemma length_vals_words: "length (vals_words vs) = sum_list (map param_width vs)"
  by (induction vs) (simp_all add: length_val_words)

lemma push_i64_ok:
  "repr m s (Suc (Suc r)) \<Longrightarrow> \<exists>m'. push_i64 v m = Some m' \<and> repr m' (hi32 v # lo32 v # s) r"
  unfolding push_i64_def by (rule value_stack_words.push_push_ok)

lemma push_value_ok:
  assumes "repr m s (param_width v + r)"
  shows "\<exists>m'. push_value v m = Some m' \<and> repr m' (rev (val_words v) @ s) r"
  using assms value_stack_words.push_ok [of m s r] push_i64_ok [of m s r]
  by (cases v) (simp_all add: push_value_def val_words_def param_width_def)

lemma push_values_ok:
  "repr m s (length (vals_words vs) + r) \<Longrightarrow>
   \<exists>m'. push_values vs m = Some m' \<and> repr m' (rev (vals_words vs) @ s) r"
proof (induction vs arbitrary: m s)
  case (Cons v vs)
  have "repr m s (param_width v + (length (vals_words vs) + r))"
    using Cons.prems by (simp add: length_val_words add.assoc)
  then obtain m1 where m1: "push_value v m = Some m1"
    "repr m1 (rev (val_words v) @ s) (length (vals_words vs) + r)"
    using push_value_ok by blast
  show ?case using Cons.IH [OF m1(2)] m1(1) by auto
qed simp

lemma pop_i64_ok:
  "repr m (hi # lo # s) r \<Longrightarrow> \<exists>m'. pop_i64 m = Some (join64 hi lo, m') \<and> repr m' s (Suc (Suc r))"
  using value_stack_words.pop_pop_ok [of m hi lo s r]
  by (auto simp: pop_i64_def pop2_def bind_eq_Some_conv split_beta)

lemma pop_value_ok:
  assumes "repr m (rev (val_words v) @ s) r"
  shows "\<exists>m'. pop_value (val_ty v) m = Some (v, m') \<and> repr m' s (r + param_width v)"
  using assms value_stack_words.pop_ok [of m _ s r] pop_i64_ok [of m _ _ s r]
  by (cases v) (fastforce simp: pop_value_def val_words_def param_width_def val_ty_def)+

lemma pop_results_ok:
  "repr m (rev (vals_words vs) @ s) r \<Longrightarrow> map val_ty xs = map val_ty vs \<Longrightarrow>
   \<exists>m'. pop_results xs m = Some (vs, m') \<and> repr m' s (r + length (vals_words vs))"
proof (induction vs arbitrary: xs m s r)
  case (Cons v vs)
  then obtain x ys where xs: "xs = x # ys" "val_ty x = val_ty v" "map val_ty ys = map val_ty vs"
    by auto
  have "repr m (rev (vals_words vs) @ rev (val_words v) @ s) r"
    using Cons.prems(1) by simp
  then obtain m1 where m1: "pop_results ys m = Some (vs, m1)"
    "repr m1 (rev (val_words v) @ s) (r + length (vals_words vs))"
    using Cons.IH xs(3) by blast
  then show ?case
    using pop_value_ok [OF m1(2)] xs by (auto simp: length_val_words add_ac)
qed simp

text \<open>The parameters of a host call: the loop pops the types in their order, so it reads back the
  pushed values when the list of types is its own reverse.\<close>

lemma pop_params_ok:
  "repr m (rev (vals_words vs) @ s) r \<Longrightarrow>
   \<exists>m'. pop_params (map val_ty (rev vs)) buffer m = Some (vs @ buffer, m') \<and>
        repr m' s (r + length (vals_words vs))"
proof (induction vs arbitrary: m s r buffer rule: rev_induct)
  case (snoc v vs)
  have words: "vals_words (vs @ [v]) = vals_words vs @ val_words v"
    by (simp add: vals_words_def)
  have "repr m (rev (val_words v) @ rev (vals_words vs) @ s) r"
    using snoc.prems by (simp add: words)
  then obtain m1 where m1: "pop_value (val_ty v) m = Some (v, m1)"
    "repr m1 (rev (vals_words vs) @ s) (r + param_width v)"
    using pop_value_ok by blast
  obtain m' where "pop_params (map val_ty (rev vs)) (v # buffer) m1 = Some (vs @ v # buffer, m')"
    "repr m' s (r + param_width v + length (vals_words vs))"
    using snoc.IH [OF m1(2)] by blast
  with m1(1) show ?case by (auto simp: words length_val_words add_ac)
qed simp

lemma pop_params_mixed:
  assumes "repr m (rev (vals_words [I64 a, I32 b]) @ s) r"
  shows "\<exists>m'. pop_params [TI64, TI32] [] m = Some ([I32 (lo32 a), I64 (join64 b (hi32 a))], m')"
proof -
  have "repr m (b # hi32 a # lo32 a # s) r" using assms by (simp add: val_words_def)
  then obtain m1 where m1: "pop_i64 m = Some (join64 b (hi32 a), m1)" "repr m1 (lo32 a # s) (Suc (Suc r))"
    using pop_i64_ok by blast
  then obtain m2 where "sp_pop m1 = Some (lo32 a, m2)"
    using value_stack_words.pop_ok by blast
  with m1 show ?thesis by (simp add: pop_value_def)
qed

section \<open>A routine as a program\<close>

text \<open>The module whose code is the routine and a \<open>Return\<close>, entered at its first instruction.\<close>

definition program :: "opcode list \<Rightarrow> 'h env \<Rightarrow> 'h env" where
  "program ops env =
     env\<lparr>module := (module env)\<lparr>code_section := ops @ [Return], source_pc := 0\<rparr>\<rparr>"

lemma program_code [simp]: "code_section (module (program ops env)) = ops @ [Return]"
  and program_start [simp]: "source_pc (module (program ops env)) = 0"
  by (simp_all add: program_def)

lemma repr_default: "repr (entries value_stack_default, 0) [] 32"
  by (simp add: repr_def value_stack_default_def N_DEFAULT_STACK_SIZE_def)

text \<open>The state in which the loop starts.\<close>

lemma exec_run_start_room:
  assumes "length (vals_words params) + r = 32"
  obtains x where
    "\<And>env result. exec_run env params result (initial_exec p st) =
       (case run_the_loop env x of
          None \<Rightarrow> None | Some Undefined \<Rightarrow> Some Undefined
        | Some (Finished (status, s)) \<Rightarrow> Some (finish_run result status s))"
    "repr (stack_of x) (rev (vals_words params)) r" "ip x = p" "store x = st" "call_stack x = []"
    "maximum_len (vstack x) = N_MAX_STACK_SIZE"
proof -
  let ?i = "reload_sp (sync_sp (initial_exec p st))"
  have res: "stack_reserve (sum_list (map param_width params)) (vstack (sync_sp (initial_exec p st)))
      = Inr (vstack (sync_sp (initial_exec p st)))"
    using assms
    by (simp add: stack_reserve_def initial_exec_def value_stack_default_def sync_sp_def
        sync_stack_ptr_def stack_capacity_def N_DEFAULT_STACK_SIZE_def N_MAX_STACK_SIZE_def
        length_vals_words)
  have "repr (stack_of ?i) [] (length (vals_words params) + r)"
    using repr_default assms
    by (simp add: stack_of_def reload_sp_def sync_sp_def sync_stack_ptr_def initial_exec_def)
  then obtain m where m: "push_values params (stack_of ?i) = Some m"
    "repr m (rev (vals_words params)) r"
    using push_values_ok by fastforce
  show thesis
    using m res
    by (intro that [of "set_stack m ?i"])
      (simp_all add: exec_run_def Let_def on_stack_def set_stack_def stack_of_def reload_sp_def
        sync_sp_def initial_exec_def sync_stack_ptr_def value_stack_default_def)
qed

lemma exec_run_start:
  assumes "length (vals_words params) + r = 32"
  obtains x where
    "\<And>env result. exec_run env params result (initial_exec p st) =
       (case run_the_loop env x of
          None \<Rightarrow> None | Some Undefined \<Rightarrow> Some Undefined
        | Some (Finished (status, s)) \<Rightarrow> Some (finish_run result status s))"
    "repr (stack_of x) (rev (vals_words params)) r" "ip x = p" "store x = st" "call_stack x = []"
  by (rule exec_run_start_room [OF assms, where p = p and st = st]) (rule that; assumption)

lemma code_at_program: "code_at (ops @ [Return]) 0 ops"
  by (auto simp: code_at_def)

lemma moved_stack: "moved x d st s r y \<Longrightarrow> repr (entries (vstack y), sp y) s r"
  using moved_repr by (fastforce simp: stack_of_def)

lemma computes_Inr:
  assumes "computes env ops msh st ins (Inr (st', outs))"
    and "code_at (code_section (module env)) k ops" "ip x = int k" "store x = st"
    and "repr (stack_of x) (ins @ t) r" "unat msh \<le> r"
  shows "\<exists>x'. exec_reaches env x x' \<and>
    moved x (int (length ops)) st' (outs @ t) (r + length ins - length outs) x'"
  using assms by (simp add: computes_def)

lemma computes_Inl:
  assumes "computes env ops msh st ins (Inl (c, st'))"
    and "code_at (code_section (module env)) k ops" "ip x = int k" "store x = st"
    and "repr (stack_of x) (ins @ t) r" "unat msh \<le> r"
  shows "\<exists>x' x''. exec_reaches env x x' \<and> exec_step env x' = Some (Trapped c x'') \<and>
    store x'' = st' \<and> call_stack x'' = call_stack x"
  using assms by (simp add: computes_def)

text \<open>A routine that leaves the words of \<open>vs\<close> makes the engine return \<open>vs\<close>.\<close>

lemma program_returns:
  assumes c: "computes (program ops env) ops msh st ins (Inr (st', outs))"
    and ins: "ins = rev (vals_words params)" and outs: "outs = rev (vals_words vs)"
    and ty: "map val_ty result = map val_ty vs"
    and room: "length ins + unat msh \<le> 32"
  shows "engine_execute (program ops env) params result st = Some (Finished (None, vs, st'))"
proof -
  let ?env = "program ops env"
  let ?r = "32 - length ins"
  have msh: "unat msh \<le> ?r" using room by linarith
  obtain x where x: "\<And>env result. exec_run env params result (initial_exec 0 st) =
       (case run_the_loop env x of
          None \<Rightarrow> None | Some Undefined \<Rightarrow> Some Undefined
        | Some (Finished (status, s)) \<Rightarrow> Some (finish_run result status s))"
    and rx: "repr (stack_of x) ins ?r" and ipx: "ip x = 0" and stx: "store x = st"
    and csx: "call_stack x = []"
    using exec_run_start [of params ?r 0 st] room ins by (auto simp del: split_paired_All)
  obtain y r' where y: "exec_reaches ?env x y" "moved x (int (length ops)) st' outs r' y"
    using computes_Inr [OF c, of 0 x "[]" ?r] code_at_program [of ops] ipx stx rx msh by auto
  have step: "exec_step ?env y = Some (Halt (sync_sp y))"
    using moved_ip [OF y(2)] moved_call_stack [OF y(2)] ipx csx
    by (simp add: exec_step_def fetch_def step_def visit_return_def sync_sp_def nth_append)
  have loop: "run_the_loop ?env x = Some (Finished (None, sync_sp y))"
    using exec_reaches_run [OF y(1)] step by (subst (asm) (2) run_the_loop.simps) simp
  have "repr (stack_of (sync_sp y)) (rev (vals_words vs) @ []) r'"
    using moved_stack [OF y(2)] outs by (simp add: sync_sp_def sync_stack_ptr_def stack_of_def)
  then obtain m where m: "pop_results result (stack_of (sync_sp y)) = Some (vs, m)"
    using pop_results_ok ty by blast
  have "store y = st'" by (rule moved_store [OF y(2)])
  then show ?thesis
    using x [of ?env result] loop m
    by (simp add: engine_execute_def finish_run_def from_stack_def engine_outcome_def
        set_stack_def sync_sp_def)
qed

text \<open>A routine that traps makes the engine return the trap and leave the results alone.\<close>

lemma program_traps:
  assumes c: "computes (program ops env) ops msh st ins (Inl (t, st'))"
    and ins: "ins = rev (vals_words params)"
    and room: "length ins + unat msh \<le> 32"
    and t: "t \<noteq> InterruptionCalled" "t \<noteq> ExecutionHalted"
  shows "engine_execute (program ops env) params result st =
    Some (Finished (Some t, result, st'\<lparr>last_signature := None\<rparr>))"
proof -
  let ?env = "program ops env"
  let ?r = "32 - length ins"
  have msh: "unat msh \<le> ?r" using room by linarith
  obtain x where x: "\<And>env result. exec_run env params result (initial_exec 0 st) =
       (case run_the_loop env x of
          None \<Rightarrow> None | Some Undefined \<Rightarrow> Some Undefined
        | Some (Finished (status, s)) \<Rightarrow> Some (finish_run result status s))"
    and rx: "repr (stack_of x) ins ?r" and ipx: "ip x = 0" and stx: "store x = st"
    and csx: "call_stack x = []"
    using exec_run_start [of params ?r 0 st] room ins by (auto simp del: split_paired_All)
  obtain y z where y: "exec_reaches ?env x y" "exec_step ?env y = Some (Trapped t z)" "store z = st'"
    using computes_Inl [OF c, of 0 x "[]" ?r] code_at_program [of ops] ipx stx rx msh by auto
  have "run_the_loop ?env x = Some (Finished (Some t, z))"
    using exec_reaches_run [OF y(1)] y(2) by (subst (asm) (2) run_the_loop.simps) simp
  then show ?thesis
    using x [of ?env result] t y(3)
    by (cases t) (simp_all add: engine_execute_def finish_run_def halted_state_def engine_outcome_def)
qed

text \<open>The two shapes of the 64-bit routines: operands and results as pairs of words.\<close>

lemma program_i64_binary:
  assumes "yields (program ops env) ops msh [hi32 b, lo32 b, hi32 a, lo32 a] [hi32 c, lo32 c]"
    and "unat msh \<le> 28"
  shows "engine_execute (program ops env) [I64 a, I64 b] [I64 x] st = Some (Finished (None, [I64 c], st))"
  using assms by (intro program_returns) (auto simp: val_words_def val_ty_def)

lemma program_i64_compare:
  assumes "yields (program ops env) ops msh [hi32 b, lo32 b, hi32 a, lo32 a] [v]"
    and "unat msh \<le> 28"
  shows "engine_execute (program ops env) [I64 a, I64 b] [I32 x] st = Some (Finished (None, [I32 v], st))"
  using assms by (intro program_returns) (auto simp: val_words_def val_ty_def)

lemma program_i64_unary:
  assumes "yields (program ops env) ops msh [hi32 a, lo32 a] [hi32 c, lo32 c]"
    and "unat msh \<le> 28"
  shows "engine_execute (program ops env) [I64 a] [I64 x] st = Some (Finished (None, [I64 c], st))"
  using assms by (intro program_returns) (auto simp: val_words_def val_ty_def)

lemma program_i64_narrow:
  assumes "yields (program ops env) ops msh [hi32 a, lo32 a] [v]"
    and "unat msh \<le> 28"
  shows "engine_execute (program ops env) [I64 a] [I32 x] st = Some (Finished (None, [I32 v], st))"
  using assms by (intro program_returns) (auto simp: val_words_def val_ty_def)

lemma program_i64_widen:
  assumes "yields (program ops env) ops msh [v] [hi32 c, lo32 c]"
    and "unat msh \<le> 28"
  shows "engine_execute (program ops env) [I32 v] [I64 x] st = Some (Finished (None, [I64 c], st))"
  using assms by (intro program_returns) (auto simp: val_words_def val_ty_def)

lemma program_i64_binary_trap:
  assumes "faults (program ops env) ops msh [hi32 b, lo32 b, hi32 a, lo32 a] t"
    and "unat msh \<le> 28" and "t \<noteq> InterruptionCalled" and "t \<noteq> ExecutionHalted"
  shows "engine_execute (program ops env) [I64 a, I64 b] result st =
    Some (Finished (Some t, result, st\<lparr>last_signature := None\<rparr>))"
  using assms by (intro program_traps) (auto simp: val_words_def)

lemmas program_rules =
  program_i64_binary program_i64_compare program_i64_unary program_i64_binary_trap

text \<open>A routine on words, with word results.\<close>

definition words_outcome ::
  "u32 list \<Rightarrow> (trap_code \<times> 'h store) + ('h store \<times> u32 list) \<Rightarrow> trap_code option \<times> val list \<times> 'h store"
where
  "words_outcome result res = (case res of
     Inl (t, st) \<Rightarrow> (Some t, map I32 result, st\<lparr>last_signature := None\<rparr>)
   | Inr (st, outs) \<Rightarrow> (None, map I32 (rev outs), st))"

lemma vals_words_I32 [simp]: "vals_words (map I32 ws) = ws"
  by (induction ws) (simp_all add: val_words_def)

lemma program_words:
  assumes c: "computes (program ops env) ops msh st (rev ws) res"
    and room: "length ws + unat msh \<le> 32"
    and shape: "case res of Inl (t, _) \<Rightarrow> t \<noteq> InterruptionCalled \<and> t \<noteq> ExecutionHalted
      | Inr (_, outs) \<Rightarrow> length outs = length result"
  shows "engine_execute (program ops env) (map I32 ws) (map I32 result) st =
    Some (Finished (words_outcome result res))"
proof (cases res)
  case (Inl e)
  then obtain t st' where res: "res = Inl (t, st')" by (cases e) simp
  have "engine_execute (program ops env) (map I32 ws) (map I32 result) st =
      Some (Finished (Some t, map I32 result, st'\<lparr>last_signature := None\<rparr>))"
    using shape res room by (intro program_traps [OF c [unfolded res]]) auto
  then show ?thesis by (simp add: res words_outcome_def)
next
  case (Inr e)
  then obtain st' outs where res: "res = Inr (st', outs)" by (cases e) simp
  have "engine_execute (program ops env) (map I32 ws) (map I32 result) st =
      Some (Finished (None, map I32 (rev outs), st'))"
  proof (rule program_returns [OF c [unfolded res]])
    show "map val_ty (map I32 result) = map val_ty (map I32 (rev outs))"
      using shape by (intro nth_equalityI) (auto simp: val_ty_def res)
  qed (use room in simp_all)
  then show ?thesis by (simp add: res words_outcome_def)
qed

section \<open>Routines one after the other\<close>

lemma computes_append:
  assumes a: "computes env a msh st ins (Inr (st1, mid))"
    and b: "computes env b msh' st1 mid res"
    and room: "unat msh' + length mid \<le> unat msh + length ins"
  shows "computes env (a @ b) msh st ins res"
  unfolding computes_def
proof (intro allI impI)
  fix x k t r
  assume x: "code_at (code_section (module env)) k (a @ b)" "ip x = int k" "store x = st"
    "repr (stack_of x) (ins @ t) r" "unat msh \<le> r"
  let ?r = "r + length ins - length mid"
  have code: "code_at (code_section (module env)) k a"
    "code_at (code_section (module env)) (k + length a) b"
    using x(1) by (auto simp: code_at_def) (metis append_assoc length_append)
  obtain y where y: "exec_reaches env x y" "moved x (int (length a)) st1 (mid @ t) ?r y"
    using computes_Inr [OF a code(1) x(2-5)] by blast
  have at: "ip y = int (k + length a)" "store y = st1" "repr (stack_of y) (mid @ t) ?r"
    "unat msh' \<le> ?r" "call_stack y = call_stack x"
    using moved_ip [OF y(2)] moved_store [OF y(2)] moved_repr [OF y(2)] moved_call_stack [OF y(2)]
      x room by auto
  show "case res of
      Inr (st', outs) \<Rightarrow> \<exists>x'. exec_reaches env x x' \<and>
        moved x (int (length (a @ b))) st' (outs @ t) (r + length ins - length outs) x'
    | Inl (c, st') \<Rightarrow> \<exists>x' x''. exec_reaches env x x' \<and> exec_step env x' = Some (Trapped c x'') \<and>
        store x'' = st' \<and> call_stack x'' = call_stack x"
  proof (cases res)
    case (Inl e)
    obtain c st' where e: "e = (c, st')" by (cases e)
    obtain z w where "exec_reaches env y z" "exec_step env z = Some (Trapped c w)"
        "store w = st'" "call_stack w = call_stack y"
      using computes_Inl [OF b [unfolded Inl e] code(2) at(1-4)] by blast
    then show ?thesis using Inl e y(1) at(5) by (auto intro: exec_reaches_trans)
  next
    case (Inr e)
    obtain st' outs where e: "e = (st', outs)" by (cases e)
    obtain z where z: "exec_reaches env y z"
        "moved y (int (length b)) st' (outs @ t) (?r + length mid - length outs) z"
      using computes_Inr [OF b [unfolded Inr e] code(2) at(1-4)] by blast
    have "?r + length mid = r + length ins" using room x(5) by simp
    then show ?thesis
      using Inr e exec_reaches_trans [OF y(1) z(1)] moved_moved [OF y(2) z(2)] by auto
  qed
qed

lemma computes_append_trap:
  assumes a: "computes env a msh st ins (Inl (c, st'))"
  shows "computes env (a @ b) msh st ins (Inl (c, st'))"
proof -
  have "code_at code k (a @ b) \<Longrightarrow> code_at code k a" for code k
    by (auto simp: code_at_def)
  then show ?thesis using a unfolding computes_def by (simp only: sum.case prod.case) blast
qed

lemma computes_follows:
  assumes "\<And>x t r k. code_at (code_section (module env)) k ops \<Longrightarrow> ip x = int k \<Longrightarrow> store x = st \<Longrightarrow>
    repr (stack_of x) (ins @ t) r \<Longrightarrow> follows x (exec_step env x) (case res of
      Inr (st', outs) \<Rightarrow> Goto (int (length ops)) st' (outs @ t) (r + length ins - length outs)
    | Inl (c, st') \<Rightarrow> Trapping c st')"
  shows "computes env ops msh st ins res"
  unfolding computes_def
proof (intro allI impI)
  fix x k t r
  assume "code_at (code_section (module env)) k ops" "ip x = int k" "store x = st"
    "repr (stack_of x) (ins @ t) r"
  note step = assms [OF this]
  show "case res of
      Inr (st', outs) \<Rightarrow> \<exists>x'. exec_reaches env x x' \<and>
        moved x (int (length ops)) st' (outs @ t) (r + length ins - length outs) x'
    | Inl (c, st') \<Rightarrow> \<exists>x' x''. exec_reaches env x x' \<and> exec_step env x' = Some (Trapped c x'') \<and>
        store x'' = st' \<and> call_stack x'' = call_stack x"
  proof (cases res)
    case (Inl e)
    obtain c st' where e: "e = (c, st')" by (cases e)
    obtain z where "exec_step env x = Some (Trapped c z)" "store z = st'" "call_stack z = call_stack x"
      using step by (auto simp: Inl e follows_def)
    then show ?thesis unfolding Inl e sum.case prod.case using exec_reaches_refl by blast
  next
    case (Inr e)
    then show ?thesis
      using step exec_reaches_step [OF _ exec_reaches_refl] by (cases e) (auto simp: follows_def)
  qed
qed

lemma fetch_at: "code_at code k (op # ops) \<Longrightarrow> fetch code (int k) = Some op"
  using fetch_code_at [of code k "op # ops" 0 op] by (simp add: fetch_def)

end
