(* ===== verification/Word64.thy ===== *)
theory Word64
  imports Untyped_Value
begin

text \<open>
  Arithmetic on the two halves of a 64-bit word: the low and high word of sums,
  differences, products, negations and bitwise combinations, and the comparisons of 64-bit
  values by their halves. These are the facts the lowered 64-bit routines rest on.
\<close>

section \<open>Arithmetic\<close>

lemma lo32_of_nat: "lo32 (word_of_nat n) = word_of_nat n"
  by (simp add: word_unat_eq_iff unat_lo32 unsigned_of_nat take_bit_eq_mod mod_mod_cancel)

lemma hi32_of_nat: "hi32 (word_of_nat n) = word_of_nat (n div 2 ^ 32)"
proof -
  have "n mod (2 ^ 32 * 2 ^ 32) div 2 ^ 32 = n div 2 ^ 32 mod 2 ^ 32"
    by (simp only: mod_mult2_eq) simp
  then show ?thesis
    by (simp add: word_unat_eq_iff unat_hi32 unsigned_of_nat take_bit_eq_mod)
qed

lemma of_nat_unat_div_mod:
  "word_of_nat (unat w div 4294967296) = hi32 w" "word_of_nat (unat w mod 4294967296) = lo32 w"
  using hi32_of_nat [of "unat w"]
  by (simp_all add: word_unat_eq_iff unat_lo32 unsigned_of_nat take_bit_eq_mod)

lemma lo32_add [word_split_simps]: "lo32 (a + b) = lo32 a + lo32 b"
proof -
  have "lo32 (word_of_nat (unat a + unat b)) = lo32 (word_of_nat (unat a)) + lo32 (word_of_nat (unat b))"
    unfolding lo32_of_nat by simp
  then show ?thesis by simp
qed

lemma unat_ucast_64 [simp]: "unat (ucast x :: u64) = unat x" for x :: u32
  by (simp add: unsigned_ucast_eq take_bit_nat_eq_self_iff less_trans [OF unat_less])

lemma hi32_add:
  "hi32 (a + b) = hi32 a + hi32 b + hi32 (ucast (lo32 a) + ucast (lo32 b))"
proof -
  have "hi32 (word_of_nat (unat a + unat b)) =
      hi32 a + hi32 b + hi32 (word_of_nat (unat (lo32 a) + unat (lo32 b)))"
    unfolding hi32_of_nat div_add1_eq [of "unat a"]
    by (simp add: of_nat_unat_div_mod unat_lo32)
  moreover have "word_of_nat (unat (lo32 a) + unat (lo32 b)) = (ucast (lo32 a) + ucast (lo32 b) :: u64)"
    by (simp add: word_unat_eq_iff)
  ultimately show ?thesis by simp
qed

lemma word_4294967296: "(4294967296 :: u32) = 0"
  by simp

lemma lo32_mul [word_split_simps]: "lo32 (a * b) = lo32 a * lo32 b"
proof -
  have "lo32 (word_of_nat (unat a * unat b)) = lo32 (word_of_nat (unat a)) * lo32 (word_of_nat (unat b))"
    unfolding lo32_of_nat by simp
  then show ?thesis by simp
qed

lemma hi32_mul:
  "hi32 (a * b) = hi32 a * lo32 b + lo32 a * hi32 b + hi32 (ucast (lo32 a) * ucast (lo32 b))"
proof -
  define ah al bh bl where d: "ah = unat (hi32 a)" "al = unat (lo32 a)" "bh = unat (hi32 b)" "bl = unat (lo32 b)"
  have ab: "unat a = 2 ^ 32 * ah + al" "unat b = 2 ^ 32 * bh + bl"
    unfolding d unat_join64 [symmetric] by simp_all
  have "unat a * unat b = (ah * bl + al * bh + 2 ^ 32 * (ah * bh)) * 2 ^ 32 + al * bl"
    unfolding ab by (simp add: algebra_simps)
  then have "unat a * unat b div 2 ^ 32 = ah * bl + al * bh + 2 ^ 32 * (ah * bh) + al * bl div 2 ^ 32"
    by simp
  then have "hi32 (word_of_nat (unat a * unat b)) =
      word_of_nat (ah * bl + al * bh + 2 ^ 32 * (ah * bh) + al * bl div 2 ^ 32)"
    unfolding hi32_of_nat by simp
  also have "\<dots> = hi32 a * lo32 b + lo32 a * hi32 b + word_of_nat (al * bl div 2 ^ 32)"
    by (simp add: d word_4294967296)
  also have "word_of_nat (al * bl div 2 ^ 32) = hi32 (ucast (lo32 a) * ucast (lo32 b))"
    unfolding hi32_of_nat [symmetric] d by (simp add: word_unat_eq_iff)
  finally show ?thesis by simp
qed

lemma hi32_carry: "hi32 (ucast x + ucast y) = of_bool (2 ^ 32 \<le> unat x + unat y)" for x y :: u32
proof -
  have "unat x + unat y < 2 * 2 ^ 32" using unat_less [of x] unat_less [of y] by simp
  moreover have "(ucast x + ucast y :: u64) = word_of_nat (unat x + unat y)" by (simp add: word_unat_eq_iff)
  moreover have "(unat x + unat y) div 2 ^ 32 = of_bool (2 ^ 32 \<le> unat x + unat y)"
    using \<open>unat x + unat y < 2 * 2 ^ 32\<close> by (auto intro!: div_nat_eqI)
  ultimately show ?thesis
    by (simp only: hi32_of_nat of_nat_of_bool)
qed

lemma lo32_sub [word_split_simps]: "lo32 (a - b) = lo32 a - lo32 b"
  using lo32_add [of "a - b" b] by (simp add: algebra_simps)

lemma hi32_sub [word_split_simps]: "hi32 (a - b) = hi32 a - hi32 b - of_bool (lo32 a < lo32 b)"
proof -
  have "hi32 a = hi32 (a - b) + hi32 b + hi32 (ucast (lo32 a - lo32 b) + ucast (lo32 b))"
    using hi32_add [of "a - b" b] by (simp add: lo32_sub)
  moreover have "2 ^ 32 \<le> unat (lo32 a - lo32 b) + unat (lo32 b) \<longleftrightarrow> lo32 a < lo32 b"
    using unat_less [of "lo32 a"] unat_less [of "lo32 b"]
    by (auto simp: unat_sub_if' word_less_nat_alt)
  ultimately show ?thesis by (simp add: hi32_carry algebra_simps)
qed

section \<open>Bitwise operations\<close>

lemma lo32_bitwise [word_split_simps]:
  "lo32 (a AND b) = lo32 a AND lo32 b"
  "lo32 (a OR b) = lo32 a OR lo32 b"
  "lo32 (a XOR b) = lo32 a XOR lo32 b"
  by (rule bit_word_eqI; auto simp: bit_simps)+

lemma hi32_bitwise [word_split_simps]:
  "hi32 (a AND b) = hi32 a AND hi32 b"
  "hi32 (a OR b) = hi32 a OR hi32 b"
  "hi32 (a XOR b) = hi32 a XOR hi32 b"
  by (rule bit_word_eqI; auto simp: bit_simps)+

lemma halves_ucast [simp]:
  "lo32 (ucast x) = x" "hi32 (ucast x) = 0" for x :: u32
  by (rule bit_word_eqI; auto simp: bit_simps dest: bit_imp_le_length)+

lemma halves_0 [simp]: "lo32 0 = 0" "hi32 0 = 0"
  by (rule bit_word_eqI; simp add: bit_simps)+

section \<open>Comparisons\<close>

lemma u64_eq_0_iff: "a = 0 \<longleftrightarrow> lo32 a = 0 \<and> hi32 a = 0"
  using u64_eq_iff [of a 0] by auto

lemma unat_halves: "unat a = 2 ^ 32 * unat (hi32 a) + unat (lo32 a)"
  by (simp add: unat_join64 [symmetric] del: power_numeral)

lemma u64_less_iff:
  "a < b \<longleftrightarrow> hi32 a < hi32 b \<or> hi32 a = hi32 b \<and> lo32 a < lo32 b"
proof -
  have "2 ^ 32 * h + l < 2 ^ 32 * h' + l' \<longleftrightarrow> h < h' \<or> h = h' \<and> l < l'"
    if "l < 4294967296" "l' < 4294967296" for h h' l l' :: nat
    using that by (auto simp: nat_neq_iff)
  from this [OF unat_less [of "lo32 a", simplified] unat_less [of "lo32 b", simplified], simplified]
  show ?thesis
    by (simp add: word_less_nat_alt word_unat_eq_iff unat_halves [of a] unat_halves [of b])
qed

lemma u64_le_iff:
  "a \<le> b \<longleftrightarrow> hi32 a < hi32 b \<or> hi32 a = hi32 b \<and> lo32 a \<le> lo32 b"
  using u64_less_iff [of b a] by (auto simp: not_less [symmetric])

lemma sint_bit:
  "sint w = int (unat w) - 2 ^ LENGTH('a) * of_bool (bit w (LENGTH('a) - 1))" for w :: "'a::len word"
proof -
  have "sint w = signed_take_bit (LENGTH('a) - 1) (uint w)"
    by (simp add: sint_uint)
  also have "\<dots> = take_bit LENGTH('a) (uint w) - 2 ^ LENGTH('a) * of_bool (bit (uint w) (LENGTH('a) - 1))"
    by (simp add: signed_take_bit_eq_take_bit_minus)
  finally show ?thesis
    using unat_less [of w]
    by (simp add: bit_uint_iff take_bit_int_eq_self_iff of_nat_less_iff [symmetric] del: of_nat_less_iff)
qed

lemma sint_eq_iff [simp]: "sint v = sint w \<longleftrightarrow> v = w" for v w :: "'a::len word"
  by (auto intro: signed_word_eqI)

lemma sint_halves: "sint a = 2 ^ 32 * sint (hi32 a) + int (unat (lo32 a))"
  by (simp add: sint_bit [of a] sint_bit [of "hi32 a"] bit_hi32 unat_halves [of a])

lemma u64_sless_iff:
  "sint a < sint b \<longleftrightarrow> sint (hi32 a) < sint (hi32 b) \<or> hi32 a = hi32 b \<and> lo32 a < lo32 b"
proof -
  have "2 ^ 32 * h + int l < 2 ^ 32 * h' + int l' \<longleftrightarrow> h < h' \<or> h = h' \<and> l < l'"
    if "l < 4294967296" "l' < 4294967296" for h h' :: int and l l' :: nat
    using that by auto
  from this [OF unat_less [of "lo32 a", simplified] unat_less [of "lo32 b", simplified], simplified]
  show ?thesis
    by (simp add: word_less_nat_alt sint_eq_iff sint_halves [of a] sint_halves [of b])
qed

lemma u64_sle_iff:
  "sint a \<le> sint b \<longleftrightarrow> sint (hi32 a) < sint (hi32 b) \<or> hi32 a = hi32 b \<and> lo32 a \<le> lo32 b"
  using u64_sless_iff [of b a] by (auto simp: not_less [symmetric] sint_eq_iff)

section \<open>Bit counts of the halves\<close>

lemma bits_from_top_halves: "bits_from_top a = bits_from_top (hi32 a) @ bits_from_top (lo32 a)"
proof -
  have "[0..<64] = [0..<32] @ map (\<lambda>i. i + 32) [0..<32::nat]"
    by (simp add: map_add_upt upt_add_eq_append [of 0 32 32, simplified])
  then show ?thesis
    by (simp add: bits_from_top_def rev_map [symmetric] comp_def bit_hi32 bit_lo32)
qed

lemma takeWhile_Not_length:
  "length (takeWhile Not (bits_from_top w)) \<le> LENGTH('a)" for w :: "'a::len word"
  using length_takeWhile_le [of Not "bits_from_top w"] by (simp add: bits_from_top_def)

lemma bits_from_top_all_Not: "(\<forall>b \<in> set (bits_from_top w). \<not> b) \<longleftrightarrow> w = 0"
  by (auto simp: bits_from_top_def bit_eq_iff [of w 0] dest: bit_imp_le_length)

lemma leading_zeros_less_iff: "leading_zeros w < LENGTH('a) \<longleftrightarrow> w \<noteq> 0" for w :: "'a::len word"
proof -
  have "length (takeWhile Not bs) < length bs \<longleftrightarrow> \<not> (\<forall>b \<in> set bs. \<not> b)" for bs
    by (induction bs) auto
  from this [of "bits_from_top w"] show ?thesis
    by (simp add: leading_zeros_def bits_from_top_all_Not) (simp add: bits_from_top_def)
qed

lemma trailing_zeros_less_iff: "trailing_zeros w < LENGTH('a) \<longleftrightarrow> w \<noteq> 0" for w :: "'a::len word"
proof -
  have "length (takeWhile Not bs) < length bs \<longleftrightarrow> \<not> (\<forall>b \<in> set bs. \<not> b)" for bs
    by (induction bs) auto
  from this [of "rev (bits_from_top w)"] show ?thesis
    by (simp add: trailing_zeros_def bits_from_top_all_Not) (simp add: bits_from_top_def)
qed

lemma takeWhile_Not_append:
  "takeWhile Not (xs @ ys) = (if \<forall>b \<in> set xs. \<not> b then xs @ takeWhile Not ys else takeWhile Not xs)"
  by (induction xs) auto

lemma length_bits_from_top: "length (bits_from_top w) = LENGTH('a)" for w :: "'a::len word"
  by (simp add: bits_from_top_def)

lemma leading_zeros_halves:
  "leading_zeros a = (if hi32 a = 0 then 32 + leading_zeros (lo32 a) else leading_zeros (hi32 a))"
  for a :: u64
  unfolding leading_zeros_def bits_from_top_halves [of a] takeWhile_Not_append bits_from_top_all_Not
  by (simp add: length_bits_from_top)

lemma trailing_zeros_halves:
  "trailing_zeros a = (if lo32 a = 0 then 32 + trailing_zeros (hi32 a) else trailing_zeros (lo32 a))"
  for a :: u64
  unfolding trailing_zeros_def bits_from_top_halves [of a] rev_append takeWhile_Not_append set_rev
    bits_from_top_all_Not
  by (simp add: length_bits_from_top)

lemma count_ones_halves: "count_ones a = count_ones (hi32 a) + count_ones (lo32 a)" for a :: u64
  by (simp add: count_ones_def bits_from_top_halves [of a])

lemma count_le:
  "leading_zeros w \<le> LENGTH('a)" "trailing_zeros w \<le> LENGTH('a)" "count_ones w \<le> LENGTH('a)"
  for w :: "'a::len word"
  unfolding leading_zeros_def trailing_zeros_def count_ones_def
  by (rule order.trans [OF length_takeWhile_le] order.trans [OF length_filter_le];
      simp add: bits_from_top_def)+

lemma zeros_0: "leading_zeros (0 :: u32) = 32" "trailing_zeros (0 :: u32) = 32"
  using count_le [of "0 :: u32"] leading_zeros_less_iff [of "0 :: u32"]
    trailing_zeros_less_iff [of "0 :: u32"] by simp_all

lemma word_of_nat_32_iff: "(word_of_nat n :: u32) = 32 \<longleftrightarrow> n = 32" if "n \<le> 32"
  using that by (simp add: word_unat_eq_iff unsigned_of_nat take_bit_nat_eq_self)

lemma counted_32_iff:
  "(word_of_nat (leading_zeros w) :: u32) = 32 \<longleftrightarrow> w = 0"
  "(word_of_nat (trailing_zeros w) :: u32) = 32 \<longleftrightarrow> w = 0" for w :: u32
  using count_le [of w] leading_zeros_less_iff [of w] trailing_zeros_less_iff [of w]
  by (auto simp: word_of_nat_32_iff)

lemma halves_small_nat:
  "n \<le> 64 \<Longrightarrow> hi32 (word_of_nat n) = 0" "lo32 (word_of_nat n) = word_of_nat n"
  by (simp_all add: hi32_of_nat lo32_of_nat)

text \<open>The sign of a word.\<close>

lemma top_bit: "bit w 31 \<longleftrightarrow> 2 ^ 31 \<le> unat w" for w :: u32
proof -
  have "unat w div 2 ^ 31 < 2"
    using unat_less [of w] by (simp add: div_less_iff_less_mult)
  then have "odd (unat w div 2 ^ 31) \<longleftrightarrow> 2 ^ 31 \<le> unat w"
    by (auto simp: less_2_cases_iff div_eq_0_iff)
  then show ?thesis
    using bit_unsigned_iff [of w 31, where ?'a = nat] unat_less [of w]
    by (simp add: bit_iff_odd)
qed

lemma sint_positive: "- 1 < sint w \<longleftrightarrow> unat w < 2 ^ 31" for w :: u32
  using unat_less [of w] top_bit [of w]
  by (cases "bit w 31") (simp_all add: sint_bit del: of_nat_unat)

lemma sint_small: "unat w < 2 ^ 31 \<Longrightarrow> sint w = int (unat w)" for w :: u32
  using top_bit [of w] by (simp add: sint_bit del: of_nat_unat)

text \<open>Masks of shift amounts.\<close>

lemma mask_numerals: "(31 :: 'a::len word) = mask 5" "(63 :: 'a::len word) = mask 6"
  by (simp_all add: mask_eq_exp_minus_1)

lemma unat_and_mask: "unat (w AND mask n) = unat w mod 2 ^ n"
  unfolding take_bit_eq_mask [symmetric] unsigned_take_bit_eq by (rule take_bit_eq_mod)

end
