(* ===== verification/Isa_Arith.thy ===== *)
theory Isa_Arith
  imports Local_Code Word64
begin

text \<open>
  The lowered 64-bit routines without loops and shifts (\<open>src/isa/add_sub.rs\<close>, \<open>mul.rs\<close>,
  \<open>conv.rs\<close>, \<open>compare.rs\<close> and the first part of \<open>bitwise.rs\<close>). A routine is the list of
  opcodes its Rust function pushes; a 64-bit value is two words with the high one on top.
  Each is proved to compute the 64-bit operation within the number of cells its \<open>MSH_\<close>
  constant declares.
\<close>

section \<open>Sequences\<close>

definition op_dup :: "opcode list" where "op_dup = [LocalGet 1]"

definition op_swap :: "opcode list" where
  "op_swap = [LocalGet 2, LocalGet 2, LocalSet 3, LocalSet 1]"

section \<open>Addition, subtraction, multiplication\<close>

definition MSH_I64_ADD :: u32 where "MSH_I64_ADD = 4"
definition MSH_I64_SUB :: u32 where "MSH_I64_SUB = 8"
definition MSH_I64_MUL :: u32 where "MSH_I64_MUL = 5"

definition op_i64_add :: "opcode list" where
  "op_i64_add =
    [LocalGet 4, LocalGet 3, I32Add64, LocalGet 5, LocalGet 4, I32Add, I32Add, LocalSet 4,
     LocalSet 4, Drop, Drop]"

definition op_i64_sub :: "opcode list" where
  "op_i64_sub =
    [LocalGet 4, LocalGet 3, I32Sub, LocalGet 5, LocalGet 4, I32LtU, LocalGet 5, LocalGet 4,
     I32Sub, LocalGet 2, I32Sub, LocalSet 5, Drop, LocalSet 4, Drop, Drop]"

definition op_i64_mul :: "opcode list" where
  "op_i64_mul =
    [LocalGet 2, LocalGet 5, I32Mul64, LocalGet 3, LocalGet 7, I32Mul, LocalGet 5, LocalGet 7,
     I32Mul, I32Add, I32Add, LocalSet 4, LocalSet 4, Drop, Drop]"

section \<open>Conversions\<close>

definition MSH_I32_WRAP_I64 :: u32 where "MSH_I32_WRAP_I64 = 0"
definition MSH_I64_EXTEND_I32_S :: u32 where "MSH_I64_EXTEND_I32_S = 2"
definition MSH_I64_EXTEND_I32_U :: u32 where "MSH_I64_EXTEND_I32_U = 1"
definition MSH_I64_EXTEND8_S :: u32 where "MSH_I64_EXTEND8_S = 2"
definition MSH_I64_EXTEND16_S :: u32 where "MSH_I64_EXTEND16_S = 2"
definition MSH_I64_EXTEND32_S :: u32 where "MSH_I64_EXTEND32_S = 2"

definition op_i32_wrap_i64 :: "opcode list" where
  "op_i32_wrap_i64 =
    [Drop]"

definition op_i64_extend_i32_s :: "opcode list" where
  "op_i64_extend_i32_s =
    [LocalGet 1, I32Const 31, I32ShrS]"

definition op_i64_extend_i32_u :: "opcode list" where
  "op_i64_extend_i32_u =
    [I32Const 0]"

definition op_i64_extend8_s :: "opcode list" where
  "op_i64_extend8_s = [Drop, I32Extend8S] @ op_dup @ [I32Const 31, I32ShrS]"

definition op_i64_extend16_s :: "opcode list" where
  "op_i64_extend16_s = [Drop, I32Extend16S] @ op_dup @ [I32Const 31, I32ShrS]"

definition op_i64_extend32_s :: "opcode list" where
  "op_i64_extend32_s = [Drop] @ op_dup @ [I32Const 31, I32ShrS]"

section \<open>Comparisons\<close>

definition MSH_I64_EQZ :: u32 where "MSH_I64_EQZ = 1"
definition MSH_I64_EQ :: u32 where "MSH_I64_EQ = 1"
definition MSH_I64_NE :: u32 where "MSH_I64_NE = 1"
definition MSH_I64_LT_S :: u32 where "MSH_I64_LT_S = 2"
definition MSH_I64_LT_U :: u32 where "MSH_I64_LT_U = 2"
definition MSH_I64_GT_S :: u32 where "MSH_I64_GT_S = 2"
definition MSH_I64_GT_U :: u32 where "MSH_I64_GT_U = 2"
definition MSH_I64_LE_S :: u32 where "MSH_I64_LE_S = 2"
definition MSH_I64_LE_U :: u32 where "MSH_I64_LE_U = 2"
definition MSH_I64_GE_S :: u32 where "MSH_I64_GE_S = 2"
definition MSH_I64_GE_U :: u32 where "MSH_I64_GE_U = 2"

definition op_i64_eqz :: "opcode list" where
  "op_i64_eqz =
    [I32Eqz, LocalGet 2, I32Eqz, LocalSet 2, I32And]"

definition op_i64_eq :: "opcode list" where
  "op_i64_eq =
    [LocalGet 3, I32Eq, LocalSet 2, LocalGet 3, I32Eq, LocalSet 2, I32And]"

definition op_i64_ne :: "opcode list" where
  "op_i64_ne =
    [LocalGet 3, I32Ne, LocalSet 2, LocalGet 3, I32Ne, LocalSet 2, I32Or]"

definition op_i64_lt_s :: "opcode list" where
  "op_i64_lt_s =
    [LocalGet 3, LocalGet 2, I32Eq, BrIfNez 5, LocalGet 3, LocalGet 2, I32LtS, Br 4,
     LocalGet 4, LocalGet 3, I32LtU, LocalSet 4, Drop, Drop, Drop]"

definition op_i64_lt_u :: "opcode list" where
  "op_i64_lt_u =
    [LocalGet 3, LocalGet 2, I32Eq, BrIfNez 5, LocalGet 3, LocalGet 2, I32LtU, Br 4,
     LocalGet 4, LocalGet 3, I32LtU, LocalSet 4, Drop, Drop, Drop]"

definition op_i64_gt_s :: "opcode list" where
  "op_i64_gt_s =
    [LocalGet 3, LocalGet 2, I32Eq, BrIfNez 5, LocalGet 3, LocalGet 2, I32GtS, Br 4,
     LocalGet 4, LocalGet 3, I32GtU, LocalSet 4, Drop, Drop, Drop]"

definition op_i64_gt_u :: "opcode list" where
  "op_i64_gt_u =
    [LocalGet 3, LocalGet 2, I32Eq, BrIfNez 5, LocalGet 3, LocalGet 2, I32GtU, Br 4,
     LocalGet 4, LocalGet 3, I32GtU, LocalSet 4, Drop, Drop, Drop]"

definition op_i64_le_s :: "opcode list" where
  "op_i64_le_s =
    [LocalGet 3, LocalGet 2, I32Eq, BrIfNez 5, LocalGet 3, LocalGet 2, I32LeS, Br 4,
     LocalGet 4, LocalGet 3, I32LeU, LocalSet 4, Drop, Drop, Drop]"

definition op_i64_le_u :: "opcode list" where
  "op_i64_le_u =
    [LocalGet 3, LocalGet 2, I32Eq, BrIfNez 5, LocalGet 3, LocalGet 2, I32LeU, Br 4,
     LocalGet 4, LocalGet 3, I32LeU, LocalSet 4, Drop, Drop, Drop]"

definition op_i64_ge_s :: "opcode list" where
  "op_i64_ge_s =
    [LocalGet 3, LocalGet 2, I32Eq, BrIfNez 5, LocalGet 3, LocalGet 2, I32GeS, Br 4,
     LocalGet 4, LocalGet 3, I32GeU, LocalSet 4, Drop, Drop, Drop]"

definition op_i64_ge_u :: "opcode list" where
  "op_i64_ge_u =
    [LocalGet 3, LocalGet 2, I32Eq, BrIfNez 5, LocalGet 3, LocalGet 2, I32GeU, Br 4,
     LocalGet 4, LocalGet 3, I32GeU, LocalSet 4, Drop, Drop, Drop]"

section \<open>Counting and bitwise operations\<close>

definition MSH_I64_CLZ :: u32 where "MSH_I64_CLZ = 3"
definition MSH_I64_CTZ :: u32 where "MSH_I64_CTZ = 3"
definition MSH_I64_POPCNT :: u32 where "MSH_I64_POPCNT = 1"
definition MSH_I64_AND :: u32 where "MSH_I64_AND = 1"
definition MSH_I64_OR :: u32 where "MSH_I64_OR = 1"
definition MSH_I64_XOR :: u32 where "MSH_I64_XOR = 1"

definition op_i64_clz :: "opcode list" where
  "op_i64_clz =
    [I32Clz, LocalGet 1, I32Const 32, I32Eq, BrIfEqz 4, LocalGet 2, I32Clz, I32Add, LocalSet 1,
     I32Const 0]"

definition op_i64_ctz :: "opcode list" where
  "op_i64_ctz =
    [LocalGet 2, I32Ctz, LocalGet 1, I32Const 32, I32Eq, BrIfEqz 5, LocalSet 2, I32Ctz, I32Add,
     Br 3, LocalSet 2, Drop, I32Const 0]"

definition op_i64_popcnt :: "opcode list" where
  "op_i64_popcnt =
    [I32Popcnt, LocalGet 2, I32Popcnt, LocalSet 2, I32Add, I32Const 0]"

definition op_i64_and :: "opcode list" where
  "op_i64_and =
    [LocalGet 3, I32And, LocalSet 2, LocalGet 3, I32And, LocalSet 2]"

definition op_i64_or :: "opcode list" where
  "op_i64_or =
    [LocalGet 3, I32Or, LocalSet 2, LocalGet 3, I32Or, LocalSet 2]"

definition op_i64_xor :: "opcode list" where
  "op_i64_xor =
    [LocalGet 3, I32Xor, LocalSet 2, LocalGet 3, I32Xor, LocalSet 2]"

section \<open>Correctness\<close>

lemma yieldsI:
  "(\<And>st :: 'h store. fwd ops st ins (unat msh) = Goto 0 st outs (unat msh + length ins - length outs)) \<Longrightarrow>
   yields (env :: 'h env) ops msh ins outs"
  by (blast intro: computes_fwd)

lemma op_dup_correct: "yields env op_dup 1 [v] [v, v]"
  by (rule yieldsI) (simp add: op_dup_def exec_simps)

lemma op_swap_correct: "yields env op_swap 2 [b, a] [a, b]"
  by (rule yieldsI) (simp add: op_swap_def exec_simps)

lemma op_i64_add_correct:
  "yields env op_i64_add MSH_I64_ADD [hi32 b, lo32 b, hi32 a, lo32 a]
     [hi32 (a + b), lo32 (a + b)]"
  by (rule yieldsI)
    (simp add: op_i64_add_def MSH_I64_ADD_def exec_simps, simp add: lo32_add hi32_add [of a b] ac_simps)

lemma op_i64_sub_correct:
  "yields env op_i64_sub MSH_I64_SUB [hi32 b, lo32 b, hi32 a, lo32 a]
     [hi32 (a - b), lo32 (a - b)]"
  by (rule yieldsI)
    (simp add: op_i64_sub_def MSH_I64_SUB_def exec_simps lo32_sub hi32_sub)

lemma op_i64_mul_correct:
  "yields env op_i64_mul MSH_I64_MUL [hi32 b, lo32 b, hi32 a, lo32 a]
     [hi32 (a * b), lo32 (a * b)]"
  by (rule yieldsI)
    (simp add: op_i64_mul_def MSH_I64_MUL_def exec_simps, simp add: lo32_mul hi32_mul [of a b] ac_simps)

text \<open>The halves of extended words.\<close>

lemma halves_scast:
  "lo32 (scast v) = v" "hi32 (scast v) = signed_drop_bit 31 v" for v :: u32
  by (rule bit_word_eqI; auto simp: bit_simps Suc_le_eq)+

lemma halves_scast_small:
  "lo32 (scast (v :: u8)) = scast v" "hi32 (scast (v :: u8)) = signed_drop_bit 31 (scast v)"
  "lo32 (scast (u :: u16)) = scast u" "hi32 (scast (u :: u16)) = signed_drop_bit 31 (scast u)"
  by (rule bit_word_eqI; auto simp: bit_simps)+

lemma ucast_lo32: "ucast (lo32 a) = (ucast a :: u8)" "ucast (lo32 a) = (ucast a :: u16)" "lo32 a = ucast a"
  by (rule bit_word_eqI; auto simp: bit_simps)+

lemma op_i32_wrap_i64_correct:
  "yields env op_i32_wrap_i64 MSH_I32_WRAP_I64 [hi32 a, lo32 a]
     [ucast a]"
  by (rule yieldsI)
    (simp add: op_i32_wrap_i64_def MSH_I32_WRAP_I64_def exec_simps ucast_lo32)

lemma op_i64_extend_i32_s_correct:
  "yields env op_i64_extend_i32_s MSH_I64_EXTEND_I32_S [v]
     [hi32 (scast v), lo32 (scast v)]"
  by (rule yieldsI)
    (simp add: op_i64_extend_i32_s_def MSH_I64_EXTEND_I32_S_def exec_simps halves_scast)

lemma op_i64_extend_i32_u_correct:
  "yields env op_i64_extend_i32_u MSH_I64_EXTEND_I32_U [v]
     [hi32 (ucast v), lo32 (ucast v)]"
  by (rule yieldsI)
    (simp add: op_i64_extend_i32_u_def MSH_I64_EXTEND_I32_U_def exec_simps)

lemma op_i64_extend8_s_correct:
  "yields env op_i64_extend8_s MSH_I64_EXTEND8_S [hi32 a, lo32 a]
     [hi32 (scast (ucast a :: u8)), lo32 (scast (ucast a :: u8))]"
  by (rule yieldsI)
    (simp add: op_i64_extend8_s_def MSH_I64_EXTEND8_S_def exec_simps op_dup_def i32_extend8_s_def halves_scast_small ucast_lo32(1,2))

lemma op_i64_extend16_s_correct:
  "yields env op_i64_extend16_s MSH_I64_EXTEND16_S [hi32 a, lo32 a]
     [hi32 (scast (ucast a :: u16)), lo32 (scast (ucast a :: u16))]"
  by (rule yieldsI)
    (simp add: op_i64_extend16_s_def MSH_I64_EXTEND16_S_def exec_simps op_dup_def i32_extend16_s_def halves_scast_small ucast_lo32(1,2))

lemma op_i64_extend32_s_correct:
  "yields env op_i64_extend32_s MSH_I64_EXTEND32_S [hi32 a, lo32 a]
     [hi32 (scast (ucast a :: u32)), lo32 (scast (ucast a :: u32))]"
  by (rule yieldsI)
    (simp add: op_i64_extend32_s_def MSH_I64_EXTEND32_S_def exec_simps op_dup_def halves_scast flip: ucast_lo32(3))

lemma op_i64_eqz_correct:
  "yields env op_i64_eqz MSH_I64_EQZ [hi32 a, lo32 a]
     [of_bool (a = 0)]"
  by (rule yieldsI)
    (simp add: op_i64_eqz_def MSH_I64_EQZ_def exec_simps u64_eq_0_iff)

lemma op_i64_eq_correct:
  "yields env op_i64_eq MSH_I64_EQ [hi32 b, lo32 b, hi32 a, lo32 a]
     [of_bool (a = b)]"
  by (rule yieldsI)
    (simp add: op_i64_eq_def MSH_I64_EQ_def exec_simps u64_eq_iff [of a b])

lemma op_i64_ne_correct:
  "yields env op_i64_ne MSH_I64_NE [hi32 b, lo32 b, hi32 a, lo32 a]
     [of_bool (a \<noteq> b)]"
  by (rule yieldsI)
    (simp add: op_i64_ne_def MSH_I64_NE_def exec_simps u64_eq_iff [of a b])

lemma op_i64_lt_s_correct:
  "yields env op_i64_lt_s MSH_I64_LT_S [hi32 b, lo32 b, hi32 a, lo32 a]
     [of_bool (sint a < sint b)]"
  by (rule yieldsI)
    (simp add: op_i64_lt_s_def MSH_I64_LT_S_def exec_simps jump_def u64_less_iff u64_le_iff u64_sless_iff u64_sle_iff)

lemma op_i64_lt_u_correct:
  "yields env op_i64_lt_u MSH_I64_LT_U [hi32 b, lo32 b, hi32 a, lo32 a]
     [of_bool (a < b)]"
  by (rule yieldsI)
    (simp add: op_i64_lt_u_def MSH_I64_LT_U_def exec_simps jump_def u64_less_iff u64_le_iff u64_sless_iff u64_sle_iff)

lemma op_i64_gt_s_correct:
  "yields env op_i64_gt_s MSH_I64_GT_S [hi32 b, lo32 b, hi32 a, lo32 a]
     [of_bool (sint a > sint b)]"
  by (rule yieldsI)
    (simp add: op_i64_gt_s_def MSH_I64_GT_S_def exec_simps jump_def u64_less_iff u64_le_iff u64_sless_iff u64_sle_iff)

lemma op_i64_gt_u_correct:
  "yields env op_i64_gt_u MSH_I64_GT_U [hi32 b, lo32 b, hi32 a, lo32 a]
     [of_bool (a > b)]"
  by (rule yieldsI)
    (simp add: op_i64_gt_u_def MSH_I64_GT_U_def exec_simps jump_def u64_less_iff u64_le_iff u64_sless_iff u64_sle_iff)

lemma op_i64_le_s_correct:
  "yields env op_i64_le_s MSH_I64_LE_S [hi32 b, lo32 b, hi32 a, lo32 a]
     [of_bool (sint a \<le> sint b)]"
  by (rule yieldsI)
    (auto simp: op_i64_le_s_def MSH_I64_LE_S_def exec_simps jump_def u64_less_iff u64_le_iff u64_sless_iff u64_sle_iff
      order.order_iff_strict u64_eq_iff [of a b] u64_eq_iff [of b a])

lemma op_i64_le_u_correct:
  "yields env op_i64_le_u MSH_I64_LE_U [hi32 b, lo32 b, hi32 a, lo32 a]
     [of_bool (a \<le> b)]"
  by (rule yieldsI)
    (auto simp: op_i64_le_u_def MSH_I64_LE_U_def exec_simps jump_def u64_less_iff u64_le_iff u64_sless_iff u64_sle_iff
      order.order_iff_strict u64_eq_iff [of a b] u64_eq_iff [of b a])

lemma op_i64_ge_s_correct:
  "yields env op_i64_ge_s MSH_I64_GE_S [hi32 b, lo32 b, hi32 a, lo32 a]
     [of_bool (sint a \<ge> sint b)]"
  by (rule yieldsI)
    (auto simp: op_i64_ge_s_def MSH_I64_GE_S_def exec_simps jump_def u64_less_iff u64_le_iff u64_sless_iff u64_sle_iff
      order.order_iff_strict u64_eq_iff [of a b] u64_eq_iff [of b a])

lemma op_i64_ge_u_correct:
  "yields env op_i64_ge_u MSH_I64_GE_U [hi32 b, lo32 b, hi32 a, lo32 a]
     [of_bool (a \<ge> b)]"
  by (rule yieldsI)
    (auto simp: op_i64_ge_u_def MSH_I64_GE_U_def exec_simps jump_def u64_less_iff u64_le_iff u64_sless_iff u64_sle_iff
      order.order_iff_strict u64_eq_iff [of a b] u64_eq_iff [of b a])

lemma op_i64_and_correct:
  "yields env op_i64_and MSH_I64_AND [hi32 b, lo32 b, hi32 a, lo32 a]
     [hi32 (a AND b), lo32 (a AND b)]"
  by (rule yieldsI)
    (simp add: op_i64_and_def MSH_I64_AND_def exec_simps lo32_bitwise hi32_bitwise and.commute)

lemma op_i64_or_correct:
  "yields env op_i64_or MSH_I64_OR [hi32 b, lo32 b, hi32 a, lo32 a]
     [hi32 (a OR b), lo32 (a OR b)]"
  by (rule yieldsI)
    (simp add: op_i64_or_def MSH_I64_OR_def exec_simps lo32_bitwise hi32_bitwise or.commute)

lemma op_i64_xor_correct:
  "yields env op_i64_xor MSH_I64_XOR [hi32 b, lo32 b, hi32 a, lo32 a]
     [hi32 (a XOR b), lo32 (a XOR b)]"
  by (rule yieldsI)
    (simp add: op_i64_xor_def MSH_I64_XOR_def exec_simps lo32_bitwise hi32_bitwise xor.commute)

lemma op_i64_clz_correct:
  "yields env op_i64_clz MSH_I64_CLZ [hi32 a, lo32 a]
     [hi32 (word_of_nat (leading_zeros a)), lo32 (word_of_nat (leading_zeros a))]"
  by (rule yieldsI)
    (simp add: op_i64_clz_def MSH_I64_CLZ_def exec_simps jump_def i32_clz_def i32_ctz_def i32_popcnt_def counted_32_iff
      halves_small_nat count_le [of a, simplified], simp add: leading_zeros_halves [of a] zeros_0)

lemma op_i64_ctz_correct:
  "yields env op_i64_ctz MSH_I64_CTZ [hi32 a, lo32 a]
     [hi32 (word_of_nat (trailing_zeros a)), lo32 (word_of_nat (trailing_zeros a))]"
  by (rule yieldsI)
    (simp add: op_i64_ctz_def MSH_I64_CTZ_def exec_simps jump_def i32_clz_def i32_ctz_def i32_popcnt_def counted_32_iff
      halves_small_nat count_le [of a, simplified], simp add: trailing_zeros_halves [of a] zeros_0)

lemma op_i64_popcnt_correct:
  "yields env op_i64_popcnt MSH_I64_POPCNT [hi32 a, lo32 a]
     [hi32 (word_of_nat (count_ones a)), lo32 (word_of_nat (count_ones a))]"
  by (rule yieldsI)
    (simp add: op_i64_popcnt_def MSH_I64_POPCNT_def exec_simps jump_def i32_clz_def i32_ctz_def i32_popcnt_def counted_32_iff
      halves_small_nat count_le [of a, simplified], simp add: count_ones_halves [of a])

end
