(* ===== verification/Isa_Shift.thy ===== *)
theory Isa_Shift
  imports Isa_Arith
begin

text \<open>
  The lowered 64-bit shifts and rotations (second part of \<open>src/isa/bitwise.rs\<close>). Each routine
  first computes the two words of the result by cases on the shift amount, then
  reassembles them with the opcodes of a 64-bit \<open>lo | (hi << 32)\<close>; the long ones are split there.
  The specifications are the shifts of Wasm: the amount is taken modulo 64.
\<close>

section \<open>Routines\<close>

definition MSH_I64_SHL :: u32 where "MSH_I64_SHL = 9"
definition MSH_I64_SHR_S :: u32 where "MSH_I64_SHR_S = 21"
definition MSH_I64_SHR_U :: u32 where "MSH_I64_SHR_U = 21"
definition MSH_I64_ROTL :: u32 where "MSH_I64_ROTL = 16"
definition MSH_I64_ROTR :: u32 where "MSH_I64_ROTR = 16"

definition op_i64_shl :: "opcode list" where
  "op_i64_shl =
    [I32Const 0, I32Const 0, LocalGet 4, I32Const 63, I32And, LocalTee 3, BrIfNez 4,
     LocalGet 6, LocalSet 1, Br 44, LocalGet 2, I32Const 32, I32Eq, BrIfNez 36, LocalGet 2,
     I32Const (- 1), I32Add, I32Const 31, I32LtU, BrIfNez 10, I32Const 0, LocalSet 1,
     LocalGet 2, I32Const 32, I32GtU, BrIfNez 19, I32Const 0, LocalSet 5, Br 25, LocalGet 5,
     LocalGet 5, I32Shl, LocalGet 7, I32Const 0, LocalGet 7, I32Sub, I32ShrU, I32Or,
     LocalSet 5, LocalGet 6, LocalGet 5, I32Shl, LocalSet 1, Br 10, LocalGet 6, LocalGet 5,
     I32Shl, LocalSet 5, Br 5, I32Const 0, LocalSet 1, LocalGet 6, LocalSet 5, LocalGet 5,
     I32Const 0, I32Const 32, I32Const 0, LocalGet 2, I32Const 63, I32And, LocalSet 2,
     LocalGet 2, BrIfEqz 32, LocalGet 2, I32Const 31, I32GtU, BrIfEqz 10, LocalGet 4,
     LocalGet 3, I32Const 32, I32Sub, I32Shl, LocalSet 3, I32Const 0, LocalSet 4, Br 19,
     LocalGet 4, LocalGet 3, I32Shl, LocalSet 4, LocalGet 3, LocalGet 3, I32Shl, LocalSet 3,
     LocalGet 4, I32Const 32, LocalGet 4, I32Const 31, I32And, I32Sub, I32ShrU, LocalGet 4,
     I32Or, LocalSet 3, Drop, Drop, LocalGet 3, I32Const 0, LocalGet 3, I32Or, LocalSet 2,
     LocalGet 3, I32Or, LocalSet 2, LocalSet 6, LocalSet 6, Drop, Drop, Drop, Drop]"

definition i64_shr_s_words :: "opcode list" where
  "i64_shr_s_words =
    [I32Const 0, I32Const 0, LocalGet 4, I32Const 63, I32And, LocalTee 3, BrIfNez 4,
     LocalGet 5, LocalSet 1, Br 49, LocalGet 2, I32Const 32, I32Eq, BrIfNez 24, LocalGet 2,
     I32Const (- 1), I32Add, I32Const 31, I32LtU, BrIfNez 25, I32Const 0, LocalSet 1,
     I32Const 0, LocalSet 6, LocalGet 2, I32Const 32, I32LeU, BrIfNez 31, LocalGet 5,
     LocalGet 5, I32ShrS, LocalSet 6, LocalGet 5, I32Const 31, I32ShrS, LocalSet 1, Br 22,
     LocalGet 5, I32Const 31, I32ShrS, LocalSet 1, LocalGet 5, LocalSet 6, Br 15, LocalGet 6,
     LocalGet 5, I32ShrU, LocalGet 6, I32Const 0, LocalGet 7, I32Sub, I32Shl, I32Or,
     LocalSet 6, LocalGet 5, LocalGet 5, I32ShrS, LocalSet 1]"

definition i64_shr_s_join :: "opcode list" where
  "i64_shr_s_join =
    [LocalGet 1, I32Const 0, I32Const 32, I32Const 0, I32Const 0, I32Const 0, LocalGet 4,
     I32Const 63, I32And, LocalTee 3, BrIfNez 4, LocalGet 6, LocalSet 1, Br 44, LocalGet 2,
     I32Const 32, I32Eq, BrIfNez 36, LocalGet 2, I32Const (- 1), I32Add, I32Const 31, I32LtU,
     BrIfNez 10, I32Const 0, LocalSet 1, LocalGet 2, I32Const 32, I32GtU, BrIfNez 19,
     I32Const 0, LocalSet 5, Br 25, LocalGet 5, LocalGet 5, I32Shl, LocalGet 7, I32Const 0,
     LocalGet 7, I32Sub, I32ShrU, I32Or, LocalSet 5, LocalGet 6, LocalGet 5, I32Shl,
     LocalSet 1, Br 10, LocalGet 6, LocalGet 5, I32Shl, LocalSet 5, Br 5, I32Const 0,
     LocalSet 1, LocalGet 6, LocalSet 5, LocalGet 5, I32Const 0, I32Const 32, I32Const 0,
     LocalGet 2, I32Const 63, I32And, LocalSet 2, LocalGet 2, BrIfEqz 32, LocalGet 2,
     I32Const 31, I32GtU, BrIfEqz 10, LocalGet 4, LocalGet 3, I32Const 32, I32Sub, I32Shl,
     LocalSet 3, I32Const 0, LocalSet 4, Br 19, LocalGet 4, LocalGet 3, I32Shl, LocalSet 4,
     LocalGet 3, LocalGet 3, I32Shl, LocalSet 3, LocalGet 4, I32Const 32, LocalGet 4,
     I32Const 31, I32And, I32Sub, I32ShrU, LocalGet 4, I32Or, LocalSet 3, Drop, Drop,
     LocalGet 3, I32Const 0, LocalGet 3, I32Or, LocalSet 2, LocalGet 3, I32Or, LocalSet 2,
     LocalSet 6, LocalSet 6, Drop, Drop, Drop, Drop, LocalGet 8, I32Const 0, LocalGet 3, I32Or,
     LocalSet 2, LocalGet 3, I32Or, LocalSet 2, LocalSet 6, LocalSet 6, Drop, Drop, Drop, Drop]"

definition op_i64_shr_s :: "opcode list" where
  "op_i64_shr_s = i64_shr_s_words @ i64_shr_s_join"

definition op_i64_shr_u :: "opcode list" where
  "op_i64_shr_u =
    [I32Const 0, I32Const 0, LocalGet 4, I32Const 63, I32And, LocalTee 3, BrIfNez 6,
     LocalGet 5, LocalSet 1, LocalGet 6, LocalSet 5, Br 42, LocalGet 2, I32Const 32, I32Eq,
     BrIfNez 36, LocalGet 2, I32Const (- 1), I32Add, I32Const 31, I32LtU, BrIfNez 10,
     I32Const 0, LocalSet 1, LocalGet 2, I32Const 32, I32GtU, BrIfNez 19, I32Const 0,
     LocalSet 5, Br 23, LocalGet 5, LocalGet 5, I32ShrU, LocalSet 1, LocalGet 6, LocalGet 5,
     I32ShrU, LocalGet 6, I32Const 0, LocalGet 7, I32Sub, I32Shl, I32Or, LocalSet 5, Br 8,
     LocalGet 5, LocalGet 5, I32ShrU, LocalSet 5, Br 3, I32Const 0, LocalSet 1, LocalGet 1,
     I32Const 0, I32Const 32, I32Const 0, LocalGet 2, I32Const 63, I32And, LocalSet 2,
     LocalGet 2, BrIfEqz 32, LocalGet 2, I32Const 31, I32GtU, BrIfEqz 10, LocalGet 4,
     LocalGet 3, I32Const 32, I32Sub, I32Shl, LocalSet 3, I32Const 0, LocalSet 4, Br 19,
     LocalGet 4, LocalGet 3, I32Shl, LocalSet 4, LocalGet 3, LocalGet 3, I32Shl, LocalSet 3,
     LocalGet 4, I32Const 32, LocalGet 4, I32Const 31, I32And, I32Sub, I32ShrU, LocalGet 4,
     I32Or, LocalSet 3, Drop, Drop, LocalGet 7, I32Const 0, LocalGet 3, I32Or, LocalSet 2,
     LocalGet 3, I32Or, LocalSet 2, LocalSet 6, LocalSet 6, Drop, Drop, Drop, Drop]"

definition i64_rotl_words :: "opcode list" where
  "i64_rotl_words =
    [I32Const 0, I32Const 0, LocalGet 4, I32Const 63, I32And, LocalTee 3, BrIfNez 4,
     LocalGet 5, LocalSet 2, Br 53, LocalGet 2, I32Const 32, I32LtU, BrIfNez 10, LocalGet 2,
     I32Const 32, I32Ne, BrIfNez 26, LocalGet 6, LocalSet 2, LocalGet 5, LocalSet 6, Br 40,
     LocalGet 5, LocalGet 5, I32Shl, LocalGet 7, I32Const 0, LocalGet 7, I32Sub, LocalTee 4,
     I32ShrU, I32Or, LocalSet 2, LocalGet 6, LocalGet 5, I32Shl, LocalGet 6, LocalGet 3,
     I32ShrU, I32Or, LocalSet 6, Br 20, LocalGet 6, LocalGet 5, I32Shl, LocalGet 6, I32Const 0,
     LocalGet 7, I32Sub, LocalTee 4, I32ShrU, I32Or, LocalSet 2, LocalGet 5, LocalGet 5,
     I32Shl, LocalGet 7, LocalGet 3, I32ShrU, I32Or, LocalSet 6]"

definition i64_rotl_join :: "opcode list" where
  "i64_rotl_join =
    [LocalGet 2, I32Const 0, I32Const 32, I32Const 0, I32Const 0, I32Const 0, LocalGet 4,
     I32Const 63, I32And, LocalTee 3, BrIfNez 4, LocalGet 6, LocalSet 1, Br 44, LocalGet 2,
     I32Const 32, I32Eq, BrIfNez 36, LocalGet 2, I32Const (- 1), I32Add, I32Const 31, I32LtU,
     BrIfNez 10, I32Const 0, LocalSet 1, LocalGet 2, I32Const 32, I32GtU, BrIfNez 19,
     I32Const 0, LocalSet 5, Br 25, LocalGet 5, LocalGet 5, I32Shl, LocalGet 7, I32Const 0,
     LocalGet 7, I32Sub, I32ShrU, I32Or, LocalSet 5, LocalGet 6, LocalGet 5, I32Shl,
     LocalSet 1, Br 10, LocalGet 6, LocalGet 5, I32Shl, LocalSet 5, Br 5, I32Const 0,
     LocalSet 1, LocalGet 6, LocalSet 5, LocalGet 5, I32Const 0, I32Const 32, I32Const 0,
     LocalGet 2, I32Const 63, I32And, LocalSet 2, LocalGet 2, BrIfEqz 32, LocalGet 2,
     I32Const 31, I32GtU, BrIfEqz 10, LocalGet 4, LocalGet 3, I32Const 32, I32Sub, I32Shl,
     LocalSet 3, I32Const 0, LocalSet 4, Br 19, LocalGet 4, LocalGet 3, I32Shl, LocalSet 4,
     LocalGet 3, LocalGet 3, I32Shl, LocalSet 3, LocalGet 4, I32Const 32, LocalGet 4,
     I32Const 31, I32And, I32Sub, I32ShrU, LocalGet 4, I32Or, LocalSet 3, Drop, Drop,
     LocalGet 3, I32Const 0, LocalGet 3, I32Or, LocalSet 2, LocalGet 3, I32Or, LocalSet 2,
     LocalSet 6, LocalSet 6, Drop, Drop, Drop, Drop, LocalGet 8, I32Const 0, LocalGet 3, I32Or,
     LocalSet 2, LocalGet 3, I32Or, LocalSet 2, LocalSet 6, LocalSet 6, Drop, Drop, Drop, Drop]"

definition op_i64_rotl :: "opcode list" where
  "op_i64_rotl = i64_rotl_words @ i64_rotl_join"

definition i64_rotr_words :: "opcode list" where
  "i64_rotr_words =
    [I32Const 0, I32Const 0, LocalGet 4, I32Const 63, I32And, LocalTee 3, BrIfNez 4,
     LocalGet 5, LocalSet 2, Br 55, LocalGet 2, I32Const 32, I32Ne, BrIfNez 6, LocalGet 6,
     LocalSet 2, LocalGet 5, LocalSet 6, Br 46, LocalGet 2, I32Const (- 1), I32Add,
     I32Const 31, I32LtU, BrIfNez 21, LocalGet 6, LocalGet 5, I32ShrU, LocalGet 6, I32Const 0,
     LocalGet 7, I32Sub, LocalTee 4, I32Shl, I32Or, LocalSet 2, LocalGet 5, LocalGet 5,
     I32ShrU, LocalGet 7, LocalGet 3, I32Shl, I32Or, LocalSet 6, Br 20, LocalGet 5, LocalGet 5,
     I32ShrU, LocalGet 7, I32Const 0, LocalGet 7, I32Sub, LocalTee 4, I32Shl, I32Or,
     LocalSet 2, LocalGet 6, LocalGet 5, I32ShrU, LocalGet 6, LocalGet 3, I32Shl, I32Or,
     LocalSet 6]"

definition i64_rotr_join :: "opcode list" where
  "i64_rotr_join =
    [LocalGet 2, I32Const 0, I32Const 32, I32Const 0, I32Const 0, I32Const 0, LocalGet 4,
     I32Const 63, I32And, LocalTee 3, BrIfNez 4, LocalGet 6, LocalSet 1, Br 44, LocalGet 2,
     I32Const 32, I32Eq, BrIfNez 36, LocalGet 2, I32Const (- 1), I32Add, I32Const 31, I32LtU,
     BrIfNez 10, I32Const 0, LocalSet 1, LocalGet 2, I32Const 32, I32GtU, BrIfNez 19,
     I32Const 0, LocalSet 5, Br 25, LocalGet 5, LocalGet 5, I32Shl, LocalGet 7, I32Const 0,
     LocalGet 7, I32Sub, I32ShrU, I32Or, LocalSet 5, LocalGet 6, LocalGet 5, I32Shl,
     LocalSet 1, Br 10, LocalGet 6, LocalGet 5, I32Shl, LocalSet 5, Br 5, I32Const 0,
     LocalSet 1, LocalGet 6, LocalSet 5, LocalGet 5, I32Const 0, I32Const 32, I32Const 0,
     LocalGet 2, I32Const 63, I32And, LocalSet 2, LocalGet 2, BrIfEqz 32, LocalGet 2,
     I32Const 31, I32GtU, BrIfEqz 10, LocalGet 4, LocalGet 3, I32Const 32, I32Sub, I32Shl,
     LocalSet 3, I32Const 0, LocalSet 4, Br 19, LocalGet 4, LocalGet 3, I32Shl, LocalSet 4,
     LocalGet 3, LocalGet 3, I32Shl, LocalSet 3, LocalGet 4, I32Const 32, LocalGet 4,
     I32Const 31, I32And, I32Sub, I32ShrU, LocalGet 4, I32Or, LocalSet 3, Drop, Drop,
     LocalGet 3, I32Const 0, LocalGet 3, I32Or, LocalSet 2, LocalGet 3, I32Or, LocalSet 2,
     LocalSet 6, LocalSet 6, Drop, Drop, Drop, Drop, LocalGet 8, I32Const 0, LocalGet 3, I32Or,
     LocalSet 2, LocalGet 3, I32Or, LocalSet 2, LocalSet 6, LocalSet 6, Drop, Drop, Drop, Drop]"

definition op_i64_rotr :: "opcode list" where
  "op_i64_rotr = i64_rotr_words @ i64_rotr_join"

section \<open>Shift amounts\<close>

definition amount :: "u64 \<Rightarrow> nat" where
  "amount b = unat (b AND 0x3F)"

lemma amount_mod: "amount b = unat b mod 64"
  by (simp add: amount_def mask_numerals unat_and_mask)

lemma amount_less: "amount b < 64"
  by (simp add: amount_mod)

lemma unat_of_amount [simp]: "unat (word_of_nat (amount b) :: u32) = amount b"
  using amount_less [of b] by (simp add: unsigned_of_nat take_bit_nat_eq_self)

lemma lo32_mask: "lo32 b AND 63 = word_of_nat (amount b)"
proof -
  have "unat (lo32 b AND 63) = amount b"
    by (simp add: mask_numerals unat_and_mask unat_lo32 amount_mod mod_mod_cancel)
  moreover have "lo32 b AND 63 = word_of_nat (unat (lo32 b AND 63))"
    by simp
  ultimately show ?thesis by argo
qed

lemma amount_compare:
  "(word_of_nat (amount b) :: u32) = 0 \<longleftrightarrow> amount b = 0"
  "(word_of_nat (amount b) :: u32) = 32 \<longleftrightarrow> amount b = 32"
  "word_of_nat (amount b) - 1 < (31 :: u32) \<longleftrightarrow> 0 < amount b \<and> amount b < 32"
  "(32 :: u32) < word_of_nat (amount b) \<longleftrightarrow> 32 < amount b"
  "word_of_nat (amount b) < (32 :: u32) \<longleftrightarrow> amount b < 32"
  "word_of_nat (amount b) \<le> (32 :: u32) \<longleftrightarrow> amount b \<le> 32"
proof -
  show "word_of_nat (amount b) - 1 < (31 :: u32) \<longleftrightarrow> 0 < amount b \<and> amount b < 32"
    by (cases "amount b = 0") (auto simp: word_less_nat_alt unat_sub_if' unsigned_minus_1_eq_mask
        mask_eq_exp_minus_1)
qed (simp_all add: word_unat_eq_iff word_less_nat_alt word_le_nat_alt)

lemma minus_mod_32: "x \<le> 32 * k \<Longrightarrow> (32 * k - x) mod 32 = (32 - x mod 32) mod 32" for x k :: nat
proof -
  assume le: "x \<le> 32 * k"
  define q r where qr: "q = x div 32" "r = x mod 32"
  then have x: "x = 32 * q + r" "r < 32" by simp_all
  show ?thesis
  proof (cases "r = 0")
    case True
    then have "32 * k - x = 32 * (k - q)" using x by (simp add: diff_mult_distrib2)
    then have "(32 * k - x) mod 32 = 0" by (simp only: mod_mult_self1_is_0)
    then show ?thesis using True qr by simp
  next
    case False
    then have "32 * k - x = 32 - r + 32 * (k - q - 1)" using x le by simp
    then have "(32 * k - x) mod 32 = (32 - r) mod 32" by (simp only: mod_mult_self2)
    then show ?thesis by (simp add: qr)
  qed
qed

lemma amount_mod_32:
  "unat (lo32 b AND 31) = amount b mod 32"
  "unat (- lo32 b AND 31) = (32 - amount b mod 32) mod 32"
proof -
  show u: "unat (lo32 b AND 31) = amount b mod 32"
    by (simp add: mask_numerals unat_and_mask unat_lo32 amount_mod mod_mod_cancel)
  have "- lo32 b = word_of_nat (2 ^ 32 - unat (lo32 b))"
    using unat_less [of "lo32 b"] by (simp add: of_nat_diff)
  then have "unat (- lo32 b AND 31) = (2 ^ 32 - unat (lo32 b)) mod 32"
    by (simp add: mask_numerals unat_and_mask unsigned_of_nat take_bit_eq_mod mod_mod_cancel)
  also have "\<dots> = (32 - unat (lo32 b) mod 32) mod 32"
    using unat_less [of "lo32 b"] minus_mod_32 [of "unat (lo32 b)" "2 ^ 27"] by simp
  also have "unat (lo32 b) mod 32 = amount b mod 32"
    using u by (simp add: mask_numerals unat_and_mask)
  finally show "unat (- lo32 b AND 31) = (32 - amount b mod 32) mod 32" .
qed

text \<open>The shift amount is zero, below 32, 32 or above.\<close>

lemma amount_cases:
  obtains "amount b = 0" | "0 < amount b" "amount b < 32" | "amount b = 32"
  | "32 < amount b" "amount b < 64"
  using amount_less [of b] by linarith

lemmas amount_simps = lo32_mask amount_compare amount_mod_32

section \<open>Shifts of the halves\<close>

definition i64_shl :: "u64 \<Rightarrow> u64 \<Rightarrow> u64" where
  "i64_shl a b = push_bit (amount b) a"

definition i64_shr_u :: "u64 \<Rightarrow> u64 \<Rightarrow> u64" where
  "i64_shr_u a b = drop_bit (amount b) a"

definition i64_shr_s :: "u64 \<Rightarrow> u64 \<Rightarrow> u64" where
  "i64_shr_s a b = signed_drop_bit (amount b) a"

definition i64_rotl :: "u64 \<Rightarrow> u64 \<Rightarrow> u64" where
  "i64_rotl a b = word_rotl (amount b) a"

definition i64_rotr :: "u64 \<Rightarrow> u64 \<Rightarrow> u64" where
  "i64_rotr a b = word_rotr (amount b) a"

lemma bit_at: "bit a m \<Longrightarrow> m = n \<Longrightarrow> bit a n"
  by simp

lemma push_bit_halves:
  "0 < n \<Longrightarrow> n < 32 \<Longrightarrow> hi32 (push_bit n a) = push_bit n (hi32 a) OR drop_bit (32 - n) (lo32 a)"
  "n \<le> 32 \<Longrightarrow> lo32 (push_bit n a) = push_bit n (lo32 a)"
  "32 \<le> n \<Longrightarrow> hi32 (push_bit n a) = push_bit (n - 32) (lo32 a)"
  "32 \<le> n \<Longrightarrow> lo32 (push_bit n a) = 0"
  by (rule bit_word_eqI; auto simp: bit_simps elim!: bit_at)+

lemma drop_bit_halves:
  "n \<le> 32 \<Longrightarrow> hi32 (drop_bit n a) = drop_bit n (hi32 a)"
  "0 < n \<Longrightarrow> n < 32 \<Longrightarrow> lo32 (drop_bit n a) = drop_bit n (lo32 a) OR push_bit (32 - n) (hi32 a)"
  "32 \<le> n \<Longrightarrow> hi32 (drop_bit n a) = 0"
  "32 \<le> n \<Longrightarrow> lo32 (drop_bit n a) = drop_bit (n - 32) (hi32 a)"
  by (rule bit_word_eqI; auto simp: bit_simps elim!: bit_at dest: bit_imp_le_length)+

lemma signed_drop_bit_halves:
  "n < 32 \<Longrightarrow> hi32 (signed_drop_bit n a) = signed_drop_bit n (hi32 a)"
  "0 < n \<Longrightarrow> n < 32 \<Longrightarrow> lo32 (signed_drop_bit n a) = drop_bit n (lo32 a) OR push_bit (32 - n) (hi32 a)"
  "32 \<le> n \<Longrightarrow> hi32 (signed_drop_bit n a) = signed_drop_bit 31 (hi32 a)"
  "32 \<le> n \<Longrightarrow> n < 64 \<Longrightarrow> lo32 (signed_drop_bit n a) = signed_drop_bit (n - 32) (hi32 a)"
  by (rule bit_word_eqI; auto simp: bit_simps Suc_le_eq elim!: bit_at dest: bit_imp_le_length)+

lemma rot_shifts:
  "0 < n \<Longrightarrow> n < 64 \<Longrightarrow> word_rotl n a = push_bit n a OR drop_bit (64 - n) a"
  "0 < n \<Longrightarrow> n < 64 \<Longrightarrow> word_rotr n a = drop_bit n a OR push_bit (64 - n) a" for a :: u64
proof -
  assume n: "0 < n" "n < 64"
  have l: "(i + (64 - n)) mod 64 = (if n \<le> i then i - n else i + (64 - n))" if "i < 64" for i
  proof (cases "n \<le> i")
    case True
    then have "(i + (64 - n)) mod 64 = ((i - n) + 64) mod 64" using n by simp
    also have "\<dots> = i - n" using that by simp
    finally show ?thesis using True by simp
  qed (use n in simp)
  have r: "(i + n) mod 64 = (if i < 64 - n then i + n else i - (64 - n))" if "i < 64" for i
  proof (cases "i < 64 - n")
    case False
    then have "(i + n) mod 64 = ((i - (64 - n)) + 64) mod 64" using n that by simp
    also have "\<dots> = i - (64 - n)" using that by simp
    finally show ?thesis using False by simp
  qed (use n in simp)
  have rl: "bit (word_rotl n a) i \<longleftrightarrow> bit a (if n \<le> i then i - n else i + (64 - n))" if "i < 64" for i
    using n l [OF that] that unfolding bit_word_rotl_iff by simp
  have rr: "bit (word_rotr n a) i \<longleftrightarrow> bit a (if i < 64 - n then i + n else i - (64 - n))" if "i < 64" for i
    using n r [OF that] that unfolding bit_word_rotr_iff by simp
  have nl: "\<not> bit a (64 + i - n)" if "n \<le> i" for i
    using that n by (auto dest: bit_imp_le_length)
  have nr: "\<not> bit a (n + i)" if "\<not> i < 64 - n" for i
    using that n by (auto dest: bit_imp_le_length)
  show "word_rotl n a = push_bit n a OR drop_bit (64 - n) a"
  proof (rule bit_word_eqI)
    fix i
    assume "i < LENGTH(64)"
    then show "bit (word_rotl n a) i \<longleftrightarrow> bit (push_bit n a OR drop_bit (64 - n) a) i"
      using n nl by (cases "n \<le> i") (auto simp: rl bit_or_iff bit_push_bit_iff bit_drop_bit_eq add.commute [of i])
  qed
  show "word_rotr n a = drop_bit n a OR push_bit (64 - n) a"
  proof (rule bit_word_eqI)
    fix i
    assume "i < LENGTH(64)"
    then show "bit (word_rotr n a) i \<longleftrightarrow> bit (drop_bit n a OR push_bit (64 - n) a) i"
      using n nr by (cases "i < 64 - n") (auto simp: rr bit_or_iff bit_push_bit_iff bit_drop_bit_eq add.commute [of i])
  qed
qed

lemma rot_0: "word_rotl 0 a = a" "word_rotr 0 a = a" for a :: u64
  by (rule bit_word_eqI; simp add: bit_simps)+

section \<open>Correctness\<close>

text \<open>The reassembling parts return the two words; the words are those of the result.\<close>

lemma fwd_joins:
  "fwd i64_shr_s_join st [h, x, bh, bl, ah, l] 19 = Goto 0 st [h, l] 23"
  "fwd i64_rotl_join st [x, h, bh, bl, ah, l] 14 = Goto 0 st [h, l] 18"
  "fwd i64_rotr_join st [x, h, bh, bl, ah, l] 14 = Goto 0 st [h, l] 18"
  by (simp_all add: i64_shr_s_join_def i64_rotl_join_def i64_rotr_join_def exec_simps jump_def
      mask_numerals [symmetric])

lemma fwd_shr_s_words:
  "\<exists>x. fwd i64_shr_s_words st [hi32 b, lo32 b, hi32 a, lo32 a] 21 =
       Goto 0 st [hi32 (i64_shr_s a b), x, hi32 b, lo32 b, hi32 a, lo32 (i64_shr_s a b)] 19"
  by (rule amount_cases [of b]; simp add: i64_shr_s_words_def exec_simps jump_def amount_simps;
      simp add: i64_shr_s_def signed_drop_bit_halves le_mod_geq)

lemma fwd_rotl_words:
  "\<exists>x. fwd i64_rotl_words st [hi32 b, lo32 b, hi32 a, lo32 a] 16 =
       Goto 0 st [x, hi32 (i64_rotl a b), hi32 b, lo32 b, hi32 a, lo32 (i64_rotl a b)] 14"
  by (rule amount_cases [of b]; simp add: i64_rotl_words_def exec_simps jump_def amount_simps;
      simp add: i64_rotl_def rot_shifts rot_0 lo32_bitwise hi32_bitwise push_bit_halves
        drop_bit_halves le_mod_geq or.commute)

lemma fwd_rotr_words:
  "\<exists>x. fwd i64_rotr_words st [hi32 b, lo32 b, hi32 a, lo32 a] 16 =
       Goto 0 st [x, hi32 (i64_rotr a b), hi32 b, lo32 b, hi32 a, lo32 (i64_rotr a b)] 14"
  by (rule amount_cases [of b]; simp add: i64_rotr_words_def exec_simps jump_def amount_simps;
      simp add: i64_rotr_def rot_shifts rot_0 lo32_bitwise hi32_bitwise push_bit_halves
        drop_bit_halves le_mod_geq or.commute)

lemma op_i64_shl_correct:
  "yields env op_i64_shl MSH_I64_SHL [hi32 b, lo32 b, hi32 a, lo32 a]
     [hi32 (i64_shl a b), lo32 (i64_shl a b)]"
  by (rule yieldsI, rule amount_cases [of b];
      simp add: op_i64_shl_def MSH_I64_SHL_def exec_simps jump_def amount_simps;
      simp add: i64_shl_def push_bit_halves le_mod_geq)

lemma op_i64_shr_u_correct:
  "yields env op_i64_shr_u MSH_I64_SHR_U [hi32 b, lo32 b, hi32 a, lo32 a]
     [hi32 (i64_shr_u a b), lo32 (i64_shr_u a b)]"
  by (rule yieldsI, rule amount_cases [of b];
      simp add: op_i64_shr_u_def MSH_I64_SHR_U_def exec_simps jump_def amount_simps;
      simp add: i64_shr_u_def drop_bit_halves le_mod_geq)

lemma op_i64_shr_s_correct:
  "yields env op_i64_shr_s MSH_I64_SHR_S [hi32 b, lo32 b, hi32 a, lo32 a]
     [hi32 (i64_shr_s a b), lo32 (i64_shr_s a b)]"
proof (rule yieldsI)
  fix st
  show "fwd op_i64_shr_s st [hi32 b, lo32 b, hi32 a, lo32 a] (unat MSH_I64_SHR_S) =
      Goto 0 st [hi32 (i64_shr_s a b), lo32 (i64_shr_s a b)]
        (unat MSH_I64_SHR_S + length [hi32 b, lo32 b, hi32 a, lo32 a] -
         length [hi32 (i64_shr_s a b), lo32 (i64_shr_s a b)])"
    using fwd_shr_s_words [of st b a]
    by (auto simp: op_i64_shr_s_def MSH_I64_SHR_S_def fwd_append fwd_joins)
qed

lemma op_i64_rotl_correct:
  "yields env op_i64_rotl MSH_I64_ROTL [hi32 b, lo32 b, hi32 a, lo32 a]
     [hi32 (i64_rotl a b), lo32 (i64_rotl a b)]"
proof (rule yieldsI)
  fix st
  show "fwd op_i64_rotl st [hi32 b, lo32 b, hi32 a, lo32 a] (unat MSH_I64_ROTL) =
      Goto 0 st [hi32 (i64_rotl a b), lo32 (i64_rotl a b)]
        (unat MSH_I64_ROTL + length [hi32 b, lo32 b, hi32 a, lo32 a] -
         length [hi32 (i64_rotl a b), lo32 (i64_rotl a b)])"
    using fwd_rotl_words [of st b a]
    by (auto simp: op_i64_rotl_def MSH_I64_ROTL_def fwd_append fwd_joins)
qed

lemma op_i64_rotr_correct:
  "yields env op_i64_rotr MSH_I64_ROTR [hi32 b, lo32 b, hi32 a, lo32 a]
     [hi32 (i64_rotr a b), lo32 (i64_rotr a b)]"
proof (rule yieldsI)
  fix st
  show "fwd op_i64_rotr st [hi32 b, lo32 b, hi32 a, lo32 a] (unat MSH_I64_ROTR) =
      Goto 0 st [hi32 (i64_rotr a b), lo32 (i64_rotr a b)]
        (unat MSH_I64_ROTR + length [hi32 b, lo32 b, hi32 a, lo32 a] -
         length [hi32 (i64_rotr a b), lo32 (i64_rotr a b)])"
    using fwd_rotr_words [of st b a]
    by (auto simp: op_i64_rotr_def MSH_I64_ROTR_def fwd_append fwd_joins)
qed

end
