(* ===== verification/Long_Division.thy ===== *)
theory Long_Division
  imports Word64
begin

text \<open>
  Binary long division, the algorithm of the lowered 64-bit division and remainder routines:
  the quotient and the remainder of the bits of the dividend read so far. \<open>div_step\<close> is one
  iteration of the 64-bit loops on remainder, shifted dividend and quotient; \<open>reduce\<close> is
  the conditional subtraction of the 32-bit loops. The facts state what the loops keep
  after \<open>i\<close> iterations, and that no iteration overflows.
\<close>

section \<open>Prefixes of the dividend\<close>

definition bits_read :: "nat \<Rightarrow> nat \<Rightarrow> nat \<Rightarrow> nat" where
  "bits_read len m i = m div 2 ^ (len - i)"

lemma bits_read_0: "m < 2 ^ len \<Longrightarrow> bits_read len m 0 = 0"
  by (simp add: bits_read_def)

lemma bits_read_all: "bits_read len m len = m"
  by (simp add: bits_read_def)

lemma bits_read_Suc:
  assumes "i < len"
  shows "bits_read len m (Suc i) = 2 * bits_read len m i + of_bool (bit m (len - Suc i))"
proof -
  let ?k = "len - Suc i"
  have k: "len - i = Suc ?k" using assms by simp
  have "x = 2 * (x div 2) + of_bool (odd x)" for x :: nat
    by (cases "even x") auto
  from this [of "m div 2 ^ ?k"] show ?thesis
    by (simp add: bits_read_def k div_mult2_eq [symmetric] bit_iff_odd mult.commute [of _ 2])
qed

lemma bits_read_less: "m < 2 ^ len \<Longrightarrow> i \<le> len \<Longrightarrow> bits_read len m i < 2 ^ i"
  by (simp add: bits_read_def div_less_iff_less_mult power_add [symmetric])

text \<open>Reading one more bit doubles the quotient and the remainder, up to one subtraction.\<close>

lemma div_mod_double:
  fixes t d b :: nat
  assumes "0 < d" "b \<le> 1"
  shows "(2 * t + b) div d = 2 * (t div d) + of_bool (d \<le> 2 * (t mod d) + b)"
    and "(2 * t + b) mod d =
      (if d \<le> 2 * (t mod d) + b then 2 * (t mod d) + b - d else 2 * (t mod d) + b)"
proof -
  let ?m = "2 * (t mod d) + b"
  have t: "2 * t + b = ?m + d * (2 * (t div d))"
  proof -
    have "2 * (x + d * y) + b = 2 * x + b + d * (2 * y)" for x y :: nat
      by (simp add: algebra_simps)
    from this [of "t mod d" "t div d"] show ?thesis
      by (simp only: mod_mult_div_eq)
  qed
  have less: "?m < 2 * d"
    using mod_less_divisor [OF assms(1), of t] assms(2) by linarith
  have dm: "(2 * t + b) div d = 2 * (t div d) + ?m div d" "(2 * t + b) mod d = ?m mod d"
    unfolding t using assms(1) by simp_all
  have m: "?m div d = of_bool (d \<le> ?m)" "?m mod d = (if d \<le> ?m then ?m - d else ?m)"
    using less assms(1) by (auto simp: div_nat_eqI le_mod_geq intro!: div_nat_eqI)
  show "(2 * t + b) div d = 2 * (t div d) + of_bool (d \<le> ?m)"
    and "(2 * t + b) mod d = (if d \<le> ?m then ?m - d else ?m)"
    unfolding dm m by simp_all
qed

section \<open>The 64-bit loop\<close>

definition shift_in :: "u64 \<Rightarrow> u64 \<Rightarrow> u64" where
  "shift_in r n = r * 2 OR drop_bit 63 n"

definition div_step :: "u64 \<Rightarrow> u64 \<times> u64 \<times> u64 \<Rightarrow> u64 \<times> u64 \<times> u64" where
  "div_step d s = (case s of (r, n, q) \<Rightarrow>
     let r' = shift_in r n
     in if d \<le> r' then (r' - d, n * 2, 1 OR q * 2)
        else (r', n * 2, q * 2))"

lemma bit_double:
  "bit (w * 2) n \<longleftrightarrow> n < LENGTH('a) \<and> 0 < n \<and> bit w (n - 1)" for w :: "'a::len word"
proof -
  have "w * 2 = push_bit 1 w"
    by (simp only: push_bit_eq_mult power_one_right)
  then show ?thesis
    by (simp only: bit_push_bit_iff) (auto simp: Suc_le_eq possible_bit_word)
qed

lemma double_halves:
  "hi32 (a * 2) = hi32 a * 2 OR drop_bit 31 (lo32 a)"
  "lo32 (a * 2) = lo32 a * 2"
  by (rule bit_word_eqI; auto simp: bit_double bit_simps Suc_le_eq dest: bit_imp_le_length)+

lemma shift_in_halves:
  "hi32 (shift_in r n) = hi32 r * 2 OR drop_bit 31 (lo32 r)"
  "lo32 (shift_in r n) = lo32 r * 2 OR drop_bit 31 (hi32 n)"
  by (rule bit_word_eqI; auto simp: shift_in_def bit_double bit_simps Suc_le_eq
      dest: bit_imp_le_length)+

lemma unat_double: "2 * unat w < 2 ^ LENGTH('a) \<Longrightarrow> unat (w * 2) = 2 * unat w"
  for w :: "'a::len word"
proof -
  assume "2 * unat w < 2 ^ LENGTH('a)"
  moreover have "unat (w * 2) = unat (w + w)"
    by (simp only: mult_2_right)
  ultimately show ?thesis
    by (simp only: unat_word_ariths) simp
qed

lemma unat_double_OR_bit:
  fixes w b :: "'a::len word"
  assumes "b \<in> {0, 1}" "2 * unat w + 1 < 2 ^ LENGTH('a)"
  shows "unat (w * 2 OR b) = 2 * unat w + unat b"
proof -
  have "w * 2 OR b = w * 2 + b"
    using assms(1) by (intro disjunctive_add [symmetric]) (auto simp: bit_double bit_1_iff)
  moreover have "unat b \<le> 1" using assms(1) by auto
  ultimately show ?thesis
    using assms(2) by (simp add: unat_word_ariths(1) unat_double)
qed

lemma drop_bit_top: "drop_bit 63 n = of_bool (bit n 63)" for n :: u64
proof (rule bit_word_eqI)
  fix i
  show "bit (drop_bit 63 n) i \<longleftrightarrow> bit (of_bool (bit n 63) :: u64) i"
    using bit_imp_le_length [of n "63 + i"] by (cases i) (auto simp: bit_simps)
qed

lemma unat_shift_in:
  assumes "2 * unat r + 1 < 2 ^ 64"
  shows "unat (shift_in r n) = 2 * unat r + of_bool (bit n 63)"
  using assms unat_double_OR_bit [of "of_bool (bit n 63)" r]
  by (cases "bit n 63") (auto simp: shift_in_def drop_bit_top)

lemma unat_double_OR_1:
  "unat q < 2 ^ 63 \<Longrightarrow> unat (1 OR q * 2) = 2 * unat q + 1" for q :: u64
  using unat_double_OR_bit [of 1 q] by (simp add: or.commute)

text \<open>After \<open>i\<close> iterations: quotient and remainder of the \<open>i\<close> top bits of the dividend.\<close>

definition div_state :: "u64 \<Rightarrow> u64 \<Rightarrow> nat \<Rightarrow> u64 \<times> u64 \<times> u64" where
  "div_state n d i =
     (let t = bits_read 64 (unat n) i
      in (word_of_nat (t mod unat d), push_bit i n, word_of_nat (t div unat d)))"

lemma unat_of_nat_small: "x < 2 ^ LENGTH('a) \<Longrightarrow> unat (word_of_nat x :: 'a::len word) = x"
  by (simp add: unsigned_of_nat take_bit_nat_eq_self)

lemma unat_eqD: "unat w = x \<Longrightarrow> w = word_of_nat x"
  by auto

lemma div_state_0: "div_state n d 0 = (0, n, 0)"
  using unat_less [of n] by (simp add: div_state_def bits_read_0)

lemma div_state_64: "d \<noteq> 0 \<Longrightarrow> div_state n d 64 = (n mod d, 0, n div d)"
  using unat_of_nat_small [OF le_less_trans [OF mod_less_eq_dividend unat_less [of n]], of "unat d"]
    unat_of_nat_small [OF le_less_trans [OF div_le_dividend unat_less [of n]], of "unat d"]
  by (simp add: div_state_def Let_def bits_read_all word_unat_eq_iff unat_mod unat_div)

lemma div_state_Suc:
  assumes d: "d \<noteq> 0" and i: "i < 64"
  shows "div_step d (div_state n d i) = div_state n d (Suc i)"
proof -
  let ?D = "unat d" and ?t = "bits_read 64 (unat n) i"
  define b :: nat where "b = of_bool (bit (unat n) (64 - Suc i))"
  have D: "0 < ?D" using d by (simp add: unat_gt_0)
  have b: "b \<le> 1" by (simp add: b_def)
  have t: "?t < 2 ^ i" using i unat_less [of n] by (intro bits_read_less) auto
  have p: "(2::nat) ^ i \<le> 2 ^ 63" using i by (intro power_increasing) auto
  have t64: "?t < 2 ^ LENGTH(64)" using t p by simp
  have rd: "unat (word_of_nat (?t mod ?D) :: u64) = ?t mod ?D"
    by (rule unat_of_nat_small [OF le_less_trans [OF mod_less_eq_dividend t64]])
  have qd: "unat (word_of_nat (?t div ?D) :: u64) = ?t div ?D"
    by (rule unat_of_nat_small [OF le_less_trans [OF div_le_dividend t64]])
  have r63: "?t mod ?D < 2 ^ 63" and q63: "?t div ?D < 2 ^ 63"
    using t p mod_less_eq_dividend [of ?t ?D] div_le_dividend [of ?t ?D] by linarith+
  have bit: "bit (push_bit i n) 63 = bit (unat n) (64 - Suc i)"
    using i by (auto simp: bit_simps bit_unsigned_iff)
  let ?r' = "shift_in (word_of_nat (?t mod ?D)) (push_bit i n)"
  have r': "unat ?r' = 2 * (?t mod ?D) + b"
    using r63 by (subst unat_shift_in) (auto simp: rd bit b_def)
  note dm = div_mod_double [OF D b, of ?t, folded bits_read_Suc [OF i, of "unat n", folded b_def]]
  have push: "push_bit i n * 2 = push_bit i (n * 2)"
    by (simp add: push_bit_eq_mult)
  show ?thesis
  proof (cases "?D \<le> 2 * (?t mod ?D) + b")
    case True
    then have "d \<le> ?r'" by (simp add: word_le_nat_alt r')
    moreover have "?r' - d = word_of_nat (unat ?r' - ?D)"
      using \<open>d \<le> ?r'\<close> by (simp add: of_nat_diff word_le_nat_alt)
    then have "?r' - d = word_of_nat (bits_read 64 (unat n) (Suc i) mod ?D)"
      unfolding dm(2) r' using True by simp
    moreover have "1 OR word_of_nat (?t div ?D) * 2 =
        (word_of_nat (bits_read 64 (unat n) (Suc i) div ?D) :: u64)"
      using True q63 by (intro unat_eqD) (simp add: dm(1) unat_double_OR_1 qd)
    ultimately show ?thesis
      by (simp add: div_state_def div_step_def Let_def push)
  next
    case False
    then have "\<not> d \<le> ?r'" by (simp add: word_le_nat_alt r')
    moreover have "unat ?r' = bits_read 64 (unat n) (Suc i) mod ?D"
      unfolding dm(2) r' using False by simp
    then have "?r' = word_of_nat (bits_read 64 (unat n) (Suc i) mod ?D)"
      by (rule unat_eqD)
    moreover have "word_of_nat (?t div ?D) * 2 =
        (word_of_nat (bits_read 64 (unat n) (Suc i) div ?D) :: u64)"
      using False q63 by (intro unat_eqD) (simp add: dm(1) unat_double qd)
    ultimately show ?thesis
      by (simp add: div_state_def div_step_def Let_def push)
  qed
qed

section \<open>The 32-bit loops\<close>

text \<open>
  The same with a divisor below \<open>2 ^ 31\<close>: the remainder fits a 32-bit word with room for one
  more bit, and the quotient fits one when the high half of the dividend is below the
  divisor. The bits of the quotient are set in place.
\<close>

definition part_rem :: "nat \<Rightarrow> u32 \<Rightarrow> nat \<Rightarrow> u32" where
  "part_rem m d i = word_of_nat (bits_read 64 m i mod unat d)"

definition part_quot :: "nat \<Rightarrow> u32 \<Rightarrow> nat \<Rightarrow> u32" where
  "part_quot m d i = word_of_nat (bits_read 64 m i div unat d * 2 ^ (64 - i))"

definition next_rem :: "nat \<Rightarrow> u32 \<Rightarrow> nat \<Rightarrow> u32" where
  "next_rem m d i = of_bool (bit m (63 - i)) OR part_rem m d i * 2"

lemma part_0: "m < 2 ^ 64 \<Longrightarrow> part_rem m d 0 = 0" "m < 2 ^ 64 \<Longrightarrow> part_quot m d 0 = 0"
  by (simp_all add: part_rem_def part_quot_def bits_read_0)

lemma part_64: "part_rem m d 64 = word_of_nat (m mod unat d)" "part_quot m d 64 = word_of_nat (m div unat d)"
  by (simp_all add: part_rem_def part_quot_def bits_read_all)

lemma unat_part_rem: "d \<noteq> 0 \<Longrightarrow> unat (part_rem m d i) = bits_read 64 m i mod unat d"
  unfolding part_rem_def
  using less_trans [OF mod_less_divisor unat_less [of d]] by (intro unat_of_nat_small) (simp add: unat_gt_0)

lemma unat_next_rem:
  assumes "d \<noteq> 0" "unat d \<le> 2 ^ 31"
  shows "unat (next_rem m d i) = 2 * (bits_read 64 m i mod unat d) + of_bool (bit m (63 - i))"
proof -
  have "bits_read 64 m i mod unat d < unat d"
    using assms(1) by (simp add: unat_gt_0)
  then show ?thesis
    using assms unat_double_OR_bit [of "of_bool (bit m (63 - i))" "part_rem m d i"]
    by (cases "bit m (63 - i)") (auto simp: next_rem_def unat_part_rem or.commute)
qed

lemma part_quot_bits: "bit (part_quot m d i) n \<Longrightarrow> 64 - i \<le> n"
proof -
  have "part_quot m d i = push_bit (64 - i) (word_of_nat (bits_read 64 m i div unat d))"
    by (simp add: part_quot_def push_bit_eq_mult)
  then show "bit (part_quot m d i) n \<Longrightarrow> 64 - i \<le> n"
    by (simp add: bit_push_bit_iff)
qed

lemma part_Suc:
  assumes d: "d \<noteq> 0" "unat d \<le> 2 ^ 31" and i: "i < 64"
  shows "part_rem m d (Suc i) = (if next_rem m d i < d then next_rem m d i else next_rem m d i - d)"
    and "part_quot m d (Suc i) =
      (if next_rem m d i < d then part_quot m d i else push_bit (63 - i) 1 OR part_quot m d i)"
proof -
  let ?D = "unat d" and ?t = "bits_read 64 m i"
  define b :: nat where "b = of_bool (bit m (63 - i))"
  have D: "0 < ?D" using d by (simp add: unat_gt_0)
  have b: "b \<le> 1" by (simp add: b_def)
  have Suc: "bits_read 64 m (Suc i) = 2 * ?t + b"
    using bits_read_Suc [OF i, of m] by (simp add: b_def)
  have nr: "unat (next_rem m d i) = 2 * (?t mod ?D) + b"
    using unat_next_rem [OF d] by (simp add: b_def)
  have less: "next_rem m d i < d \<longleftrightarrow> \<not> ?D \<le> 2 * (?t mod ?D) + b"
    by (simp add: word_less_nat_alt nr not_le)
  note dm = div_mod_double [OF D b, of ?t, folded Suc]
  show "part_rem m d (Suc i) = (if next_rem m d i < d then next_rem m d i else next_rem m d i - d)"
  proof (cases "next_rem m d i < d")
    case True
    then have "next_rem m d i = word_of_nat (bits_read 64 m (Suc i) mod ?D)"
      using less by (intro unat_eqD) (simp add: dm(2) nr)
    with True show ?thesis by (simp add: part_rem_def)
  next
    case False
    then have "next_rem m d i - d = word_of_nat (unat (next_rem m d i) - ?D)"
      by (simp add: of_nat_diff word_less_nat_alt not_less)
    then have "next_rem m d i - d = word_of_nat (bits_read 64 m (Suc i) mod ?D)"
      unfolding dm(2) nr using False less by simp
    with False show ?thesis by (simp add: part_rem_def)
  qed
  have k: "64 - Suc i = 63 - i" "64 - i = Suc (63 - i)"
    using i by simp_all
  show "part_quot m d (Suc i) =
      (if next_rem m d i < d then part_quot m d i else push_bit (63 - i) 1 OR part_quot m d i)"
  proof (cases "next_rem m d i < d")
    case True
    then have "bits_read 64 m (Suc i) div ?D * 2 ^ (64 - Suc i) = ?t div ?D * 2 ^ (64 - i)"
      using less by (simp add: dm(1) k)
    with True show ?thesis by (simp only: part_quot_def if_True)
  next
    case False
    then have "bits_read 64 m (Suc i) div ?D * 2 ^ (64 - Suc i) = 2 ^ (63 - i) + ?t div ?D * 2 ^ (64 - i)"
      using less by (simp add: dm(1) k algebra_simps)
    then have "part_quot m d (Suc i) = push_bit (63 - i) 1 + part_quot m d i"
      by (simp only: part_quot_def) (simp add: push_bit_eq_mult)
    also have "\<dots> = push_bit (63 - i) 1 OR part_quot m d i"
      using part_quot_bits [of m d i "63 - i"] k(2)
      by (intro disjunctive_add) (auto simp: bit_simps bit_1_iff)
    finally show ?thesis using False by simp
  qed
qed

text \<open>The first 32 bits of a dividend with a small high half give nothing to subtract.\<close>

lemma next_rem_high:
  assumes "d \<noteq> 0" "unat d \<le> 2 ^ 31" "m div 2 ^ 32 < unat d" "i < 32"
  shows "next_rem m d i < d"
proof -
  have "bits_read 64 m (Suc i) \<le> m div 2 ^ 32"
    using assms(4) unfolding bits_read_def by (intro div_le_mono2 power_increasing) auto
  moreover have "bits_read 64 m (Suc i) = 2 * bits_read 64 m i + of_bool (bit m (63 - i))"
    using bits_read_Suc [of i 64 m] assms(4) by simp
  ultimately have "2 * bits_read 64 m i + of_bool (bit m (63 - i)) < unat d"
    using assms(3) by linarith
  moreover have "bits_read 64 m i mod unat d \<le> bits_read 64 m i"
    by simp
  ultimately show ?thesis
    using unat_next_rem [OF assms(1,2), of m i] by (simp add: word_less_nat_alt)
qed

section \<open>Division by halves\<close>

text \<open>The quotient and the remainder of the whole dividend from those of its two parts.\<close>

lemma division_by_halves:
  fixes n dd :: u64
  assumes d: "d \<noteq> 0" "hi32 dd = 0" "lo32 dd = d" and r1: "r1 = part_rem (unat (hi32 n)) d 64"
  shows "hi32 (n div dd) = part_quot (unat (hi32 n)) d 64"
    and "lo32 (n div dd) = part_quot (unat (join64 r1 (lo32 n))) d 64"
    and "lo32 (n mod dd) = part_rem (unat (join64 r1 (lo32 n))) d 64"
    and "hi32 (n mod dd) = 0" and "r1 < d"
proof -
  define D H L M where defs: "D = unat d" "H = unat (hi32 n)" "L = unat (lo32 n)" "M = unat (join64 r1 (lo32 n))"
  have D: "0 < D" "unat dd = D" "D < 2 ^ 32"
    using d unat_less [of d] unat_halves [of dd] by (simp_all add: defs unat_gt_0)
  have n: "unat n = 2 ^ 32 * H + L" and L: "L < 2 ^ 32"
    using unat_halves [of n] unat_less [of "lo32 n"] by (simp_all add: defs)
  have r: "unat r1 = H mod D"
    using unat_part_rem [OF d(1), of H 64] by (simp add: r1 defs bits_read_all)
  have M: "M = 2 ^ 32 * (H mod D) + L"
    by (simp add: defs(4) unat_join64 r) (simp add: defs)
  have nM: "unat n = M + D * (2 ^ 32 * (H div D))"
  proof -
    have "2 ^ 32 * (H mod D + D * (H div D)) = 2 ^ 32 * (H mod D) + D * (2 ^ 32 * (H div D))"
      by (simp only: distrib_left mult.left_commute [of D])
    then show ?thesis unfolding n M mod_mult_div_eq by simp
  qed
  have "M < 2 ^ 32 * D"
  proof -
    have "H mod D + 1 \<le> D" using D(1) by (simp add: Suc_leI)
    then have "2 ^ 32 * (H mod D + 1) \<le> 2 ^ 32 * D" by (rule mult_le_mono2)
    then show ?thesis using L by (simp add: M)
  qed
  then have MD: "M div D < 2 ^ 32"
    by (simp add: div_less_iff_less_mult D mult.commute)
  have q: "unat (n div dd) = M div D + 2 ^ 32 * (H div D)"
    unfolding unat_div D(2) nM using D(1) by simp
  have m: "unat (n mod dd) = M mod D"
    unfolding unat_mod D(2) nM by simp
  have u: "unat (hi32 (n div dd)) = H div D" "unat (lo32 (n div dd)) = M div D"
    unfolding unat_hi32 unat_lo32 q using MD by simp_all
  have MD': "M mod D < D" using D(1) by simp
  then have v: "unat (lo32 (n mod dd)) = M mod D" "unat (hi32 (n mod dd)) = 0"
    unfolding unat_hi32 unat_lo32 m using D(3) by simp_all
  show "hi32 (n div dd) = part_quot (unat (hi32 n)) d 64"
    unfolding part_64 by (rule unat_eqD) (simp only: u defs)
  show "lo32 (n div dd) = part_quot (unat (join64 r1 (lo32 n))) d 64"
    unfolding part_64 by (rule unat_eqD) (simp only: u defs)
  show "lo32 (n mod dd) = part_rem (unat (join64 r1 (lo32 n))) d 64"
    unfolding part_64 by (rule unat_eqD) (simp only: v defs)
  show "hi32 (n mod dd) = 0"
    using v(2) by (simp only: unat_eq_0)
  show "r1 < d"
    using r D by (simp add: word_less_nat_alt defs)
qed

end
