(* ===== verification/Isa_Loops.thy ===== *)
theory Isa_Loops
  imports Isa_Shift Long_Division
begin

text \<open>
  The loop rule of local code and the facts on the halves of the long division states that the
  lowered division and remainder routines share.
\<close>

section \<open>Counted loops\<close>

text \<open>A segment that runs from \<open>head\<close> to \<open>head\<close>, and the last time to \<open>exit\<close>.\<close>

lemma local_loop:
  assumes step: "\<And>i s. i < k \<Longrightarrow> P i s \<Longrightarrow>
      \<exists>s'. P (Suc i) s' \<and> local_steps ops (head, st, s, r) (if Suc i = k then exit else head, st, s', r)"
    and start: "P 0 s0" and k: "0 < k"
  shows "\<exists>s'. P k s' \<and> local_steps ops (head, st, s0, r) (exit, st, s', r)"
proof -
  have "\<exists>s'. P (Suc i) s' \<and> local_steps ops (head, st, s0, r) (if Suc i = k then exit else head, st, s', r)"
    if "i < k" for i
    using that
  proof (induction i)
    case 0
    then show ?case using step [OF _ start] by auto
  next
    case (Suc i)
    then obtain s where s: "P (Suc i) s" "local_steps ops (head, st, s0, r) (head, st, s, r)"
      by (auto split: if_splits)
    with step [of "Suc i" s] Suc.prems show ?case
      by (meson local_steps_trans)
  qed
  from this [of "k - 1"] k show ?thesis by simp
qed

text \<open>A counter that runs down to zero.\<close>

lemma count_down:
  assumes "i < k" "k < 2 ^ 32"
  shows "word_of_nat (k - i) - (1 :: u32) = word_of_nat (k - Suc i)"
    and "(word_of_nat (k - Suc i) :: u32) = 0 \<longleftrightarrow> Suc i = k"
    and "(word_of_nat (k - i) :: u32) = 1 \<longleftrightarrow> Suc i = k"
proof -
  have "word_of_nat (k - i) = (word_of_nat (k - Suc i) + 1 :: u32)"
    using assms(1) by (metis Suc_diff_Suc of_nat_Suc add.commute)
  then show d: "word_of_nat (k - i) - (1 :: u32) = word_of_nat (k - Suc i)"
    by simp
  have "unat (word_of_nat (k - Suc i) :: u32) = k - Suc i"
    using assms by (intro unat_of_nat_small) auto
  then show z: "(word_of_nat (k - Suc i) :: u32) = 0 \<longleftrightarrow> Suc i = k"
    using assms(1) by (auto simp: word_unat_eq_iff)
  show "(word_of_nat (k - i) :: u32) = 1 \<longleftrightarrow> Suc i = k"
    unfolding z [symmetric] d [symmetric] by simp
qed

section \<open>Forms of the evaluator\<close>

lemma plus_minus_1: "c + 4294967295 = c - (1 :: u32)"
proof -
  have "(4294967295 :: u32) = - 1" by simp
  then show ?thesis by (simp only: add_uminus_conv_diff)
qed

lemma halves_OR_1: "lo32 (1 OR q * 2) = 1 OR lo32 q * 2" "hi32 (1 OR q * 2) = hi32 (q * 2)"
  by (rule bit_word_eqI; auto simp: bit_double bit_simps bit_1_iff)+

text \<open>The counter of the 32-bit loops runs from 95 to 32; its offsets and its low bits.\<close>

definition num :: "nat \<Rightarrow> u32" where
  "num k = word_of_nat k"

lemma counter_add:
  "i \<le> 64 \<Longrightarrow> num (95 - i) + 4294967265 = num (64 - i)"
  "i \<le> 63 \<Longrightarrow> num (95 - i) + 4294967264 = num (63 - i)"
  "i < 64 \<Longrightarrow> num (95 - i) + 4294967295 = num (95 - Suc i)"
proof -
  have add: "num (n + k) + (- word_of_nat k) = num n" for n k
    by (simp add: num_def)
  have neg: "(4294967265 :: u32) = - 31" "(4294967264 :: u32) = - 32" "(4294967295 :: u32) = - 1"
    by simp_all
  show "i \<le> 64 \<Longrightarrow> num (95 - i) + 4294967265 = num (64 - i)"
    unfolding neg using add [of "64 - i" 31] by simp
  show "i \<le> 63 \<Longrightarrow> num (95 - i) + 4294967264 = num (63 - i)"
    unfolding neg using add [of "63 - i" 32] by simp
  show "i < 64 \<Longrightarrow> num (95 - i) + 4294967295 = num (95 - Suc i)"
    unfolding neg using add [of "95 - Suc i" 1] Suc_diff_Suc [of i 95] by simp
qed

lemma counter_compare:
  "32 < num (64 - i) \<longleftrightarrow> i < 32"
  "1 < num (64 - i) \<longleftrightarrow> i < 63"
proof -
  have "unat (num (64 - i)) = 64 - i"
    unfolding num_def by (intro unat_of_nat_small) simp
  then show "32 < num (64 - i) \<longleftrightarrow> i < 32" "1 < num (64 - i) \<longleftrightarrow> i < 63"
    by (auto simp: word_less_nat_alt)
qed

lemma counter_mask:
  "32 \<le> i \<Longrightarrow> unat (num (63 - i) AND 31) = 63 - i"
  "i < 32 \<Longrightarrow> unat (num (95 - i) AND 31) = 31 - i"
proof -
  have u: "unat (num n) = n" if "n < 128" for n
    using that unfolding num_def by (intro unat_of_nat_small) simp
  show "32 \<le> i \<Longrightarrow> unat (num (63 - i) AND 31) = 63 - i"
    by (simp add: mask_numerals unat_and_mask u)
  assume i: "i < 32"
  then have "(95 - i) mod 32 = (31 - i + 2 * 32) mod 32" by simp
  also have "\<dots> = 31 - i" using i by (simp only: mod_mult_self1) simp
  finally show "unat (num (95 - i) AND 31) = 31 - i"
    by (simp add: mask_numerals unat_and_mask u)
qed

lemma drop_bit_AND_1: "drop_bit k w AND 1 = of_bool (bit w k)" for w :: "'a::len word"
  by (rule bit_word_eqI) (auto simp: bit_simps bit_1_iff)

lemmas counter_facts = counter_add counter_compare counter_mask drop_bit_AND_1

end
