(* ===== verification/Isa_Div_U.thy ===== *)
theory Isa_Div_U
  imports Isa_Loops
begin

text \<open>
  The lowered unsigned division (\<open>src/isa/div_u.rs\<close>): the checks of the operands, the path for a
  divisor below \<open>2 ^ 31\<close> (two 32-bit loops, one per half of the dividend), the path for
  any other divisor (one 64-bit loop) and the reassembling of the quotient.
\<close>

section \<open>The routine\<close>

definition MSH_I64_DIV_U :: u32 where "MSH_I64_DIV_U = 21"

definition i64_div_u_entry :: "opcode list" where
  "i64_div_u_entry =
    [I32Const 0, I32Const 0, I32Const 0, I32Const 0, I32Const 0, I32Const 0, I32Const 0,
     LocalGet 8, BrIfNez 19, LocalGet 9, I32Eqz, BrIfNez 25, LocalGet 10, BrIfNez 9,
     I32Const 0, LocalSet 7, I32Const 0, LocalSet 6, LocalGet 11, LocalGet 10, I32LtU,
     BrIfNez 251, LocalGet 9, I32Const 4294967295, I32GtS, BrIfNez 12, Br 159, I32Const 0,
     LocalSet 7, LocalGet 10, LocalGet 9, I32GeU, BrIfNez 143, I32Const 0, LocalSet 6, Br 237,
     Trap IntegerDivisionByZero]"

definition i64_div_u_high_init :: "opcode list" where
  "i64_div_u_high_init =
    [I32Const 0, LocalSet 7, I32Const 95, LocalSet 5, I32Const 0, LocalSet 4]"

definition i64_div_u_high_loop :: "opcode list" where
  "i64_div_u_high_loop =
    [LocalGet 4, I32Const 1, I32Shl, LocalSet 4, LocalGet 5, I32Const 4294967265, I32Add,
     LocalTee 7, I32Const 32, I32GtU, BrIfNez 26, LocalGet 10, LocalGet 6, I32Const 4294967264,
     I32Add, LocalTee 5, I32ShrU, I32Const 1, I32And, LocalGet 5, I32Or, LocalTee 5,
     LocalGet 10, I32LtU, BrIfNez 26, LocalGet 4, LocalGet 10, I32Sub, LocalSet 4, LocalGet 7,
     I32Const 1, LocalGet 5, I32Shl, I32Or, LocalSet 7, Br 15, LocalGet 4, LocalGet 10, I32LtU,
     BrIfNez 11, LocalGet 4, LocalGet 10, I32Sub, LocalSet 4, I32Const 1, LocalGet 6, I32Shl,
     LocalGet 8, I32Or, LocalSet 7, LocalGet 5, I32Const 4294967295, I32Add, LocalSet 5,
     LocalGet 6, I32Const 1, I32GtU, BrIfNez (- 57)]"

definition i64_div_u_low_init :: "opcode list" where
  "i64_div_u_low_init =
    [I32Const 0, LocalSet 6, I32Const 95, LocalSet 5, I32Const 0, LocalSet 10]"

definition i64_div_u_low_loop :: "opcode list" where
  "i64_div_u_low_loop =
    [LocalGet 10, I32Const 1, I32Shl, LocalSet 10, LocalGet 5, I32Const 4294967265, I32Add,
     LocalTee 4, I32Const 32, I32GtU, BrIfNez 26, LocalGet 11, LocalGet 6, I32Const 4294967264,
     I32Add, LocalTee 10, I32ShrU, I32Const 1, I32And, LocalGet 11, I32Or, LocalTee 11,
     LocalGet 10, I32LtU, BrIfNez 35, LocalGet 10, LocalGet 10, I32Sub, LocalSet 10,
     LocalGet 6, I32Const 1, LocalGet 10, I32Shl, I32Or, LocalSet 6, Br 24, LocalGet 4,
     LocalGet 6, I32ShrU, I32Const 1, I32And, LocalGet 11, I32Or, LocalTee 11, LocalGet 10,
     I32LtU, BrIfNez 13, LocalGet 10, LocalGet 10, I32Sub, LocalSet 10, I32Const 1, LocalGet 6,
     I32Const 31, I32And, I32Shl, LocalGet 7, I32Or, LocalSet 6, LocalGet 5,
     I32Const 4294967295, I32Add, LocalSet 5, LocalGet 3, I32Const 1, I32GtU, BrIfNez (- 66)]"

definition i64_div_u_low_exit :: "opcode list" where
  "i64_div_u_low_exit =
    [Br 98]"

definition i64_div_u_wide_check :: "opcode list" where
  "i64_div_u_wide_check =
    [LocalGet 11, LocalGet 10, I32GeU, BrIfNez 7, I32Const 0, LocalSet 6, LocalGet 10,
     LocalGet 9, I32Eq, BrIfNez 88]"

definition i64_div_u_wide_init :: "opcode list" where
  "i64_div_u_wide_init =
    [I32Const 0, LocalSet 4, I32Const 64, LocalSet 2, I32Const 0, LocalSet 7, I32Const 0,
     LocalSet 6, I32Const 0, LocalSet 3]"

definition i64_div_u_wide_shift :: "opcode list" where
  "i64_div_u_wide_shift =
    [LocalGet 3, I32Const 1, I32Shl, LocalGet 11, I32Const 31, I32ShrU, I32Or, LocalSet 5,
     LocalGet 4, I32Const 1, I32Shl, LocalGet 4, I32Const 31, I32ShrU, I32Or]"

definition i64_div_u_wide_subtract :: "opcode list" where
  "i64_div_u_wide_subtract =
    [LocalTee 5, LocalGet 9, I32GtU, BrIfNez 14, I32Const 0, LocalSet 1, LocalGet 4,
     LocalGet 9, I32Ne, BrIfNez 5, LocalGet 5, LocalGet 10, I32GeU, BrIfNez 4, LocalGet 5,
     LocalSet 3, Br 15, LocalGet 4, LocalGet 9, I32Sub, LocalGet 6, LocalGet 11, I32LtU,
     I32Sub, LocalSet 4, LocalGet 5, LocalGet 10, I32Sub, LocalSet 3, I32Const 1, LocalSet 1,
     LocalGet 10, I32Const 1, I32Shl, LocalGet 12, I32Const 31, I32ShrU, I32Or, LocalSet 10,
     LocalGet 11, I32Const 1, I32Shl, LocalSet 11, LocalGet 7, I32Const 1, I32Shl, LocalGet 7,
     I32Const 31, I32ShrU, I32Or, LocalSet 7, LocalGet 1, LocalGet 7, I32Const 1, I32Shl,
     I32Or, LocalSet 6, LocalGet 2, I32Const 4294967295, I32Add, LocalTee 3, BrIfNez (- 76)]"

definition i64_div_u_exit :: "opcode list" where
  "i64_div_u_exit =
    [LocalGet 7, I32Const 0, I32Const 32, I32Const 0, I32Const 0, I32Const 0, LocalGet 4,
     I32Const 63, I32And, LocalTee 3, BrIfNez 4, LocalGet 6, LocalSet 1, Br 44, LocalGet 2,
     I32Const 32, I32Eq, BrIfNez 36, LocalGet 2, I32Const 4294967295, I32Add, I32Const 31,
     I32LtU, BrIfNez 10, I32Const 0, LocalSet 1, LocalGet 2, I32Const 32, I32GtU, BrIfNez 19,
     I32Const 0, LocalSet 5, Br 25, LocalGet 5, LocalGet 5, I32Shl, LocalGet 7, I32Const 0,
     LocalGet 7, I32Sub, I32ShrU, I32Or, LocalSet 5, LocalGet 6, LocalGet 5, I32Shl,
     LocalSet 1, Br 10, LocalGet 6, LocalGet 5, I32Shl, LocalSet 5, Br 5, I32Const 0,
     LocalSet 1, LocalGet 6, LocalSet 5, LocalGet 5, I32Const 0, I32Const 32, I32Const 0,
     LocalGet 2, I32Const 63, I32And, LocalSet 2, LocalGet 2, BrIfEqz 32, LocalGet 2,
     I32Const 31, I32GtU, BrIfEqz 10, LocalGet 4, LocalGet 3, I32Const 32, I32Sub, I32Shl,
     LocalSet 3, I32Const 0, LocalSet 4, Br 19, LocalGet 4, LocalGet 3, I32Shl, LocalSet 4,
     LocalGet 3, LocalGet 3, I32Shl, LocalSet 3, LocalGet 4, I32Const 32, LocalGet 4,
     I32Const 31, I32And, I32Sub, I32ShrU, LocalGet 4, I32Or, LocalSet 3, Drop, Drop,
     LocalGet 3, I32Const 0, LocalGet 3, I32Or, LocalSet 2, LocalGet 3, I32Or, LocalSet 2,
     LocalSet 6, LocalSet 6, Drop, Drop, Drop, Drop, LocalGet 8, I32Const 0, LocalGet 3, I32Or,
     LocalSet 2, LocalGet 3, I32Or, LocalSet 2, LocalSet 11, LocalSet 11, Drop, Drop, Drop,
     Drop, Drop, Drop, Drop, Drop, Drop]"

definition op_i64_div_u :: "opcode list" where
  "op_i64_div_u = i64_div_u_entry @ i64_div_u_high_init @ i64_div_u_high_loop @ i64_div_u_low_init @ i64_div_u_low_loop @ i64_div_u_low_exit @ i64_div_u_wide_check @ i64_div_u_wide_init @ i64_div_u_wide_shift @ i64_div_u_wide_subtract @ i64_div_u_exit"

lemma length_div_u [simp]:
  "length i64_div_u_entry = 37"
  "length i64_div_u_high_init = 6"
  "length i64_div_u_high_loop = 58"
  "length i64_div_u_low_init = 6"
  "length i64_div_u_low_loop = 67"
  "length i64_div_u_low_exit = 1"
  "length i64_div_u_wide_check = 10"
  "length i64_div_u_wide_init = 10"
  "length i64_div_u_wide_shift = 15"
  "length i64_div_u_wide_subtract = 62"
  "length i64_div_u_exit = 133"
  by (simp_all add: i64_div_u_entry_def i64_div_u_high_init_def i64_div_u_high_loop_def i64_div_u_low_init_def i64_div_u_low_loop_def i64_div_u_low_exit_def i64_div_u_wide_check_def i64_div_u_wide_init_def i64_div_u_wide_shift_def i64_div_u_wide_subtract_def i64_div_u_exit_def)

text \<open>Where the segments start, and where they end.\<close>

lemma div_u_at:
  "fwd i64_div_u_entry st s r = Goto d st' s' r' \<Longrightarrow>
   local_steps op_i64_div_u (0, st, s, r) (37 + d, st', s', r')"
  "fwd i64_div_u_high_init st s r = Goto d st' s' r' \<Longrightarrow>
   local_steps op_i64_div_u (37, st, s, r) (43 + d, st', s', r')"
  "fwd i64_div_u_high_loop st s r = Goto d st' s' r' \<Longrightarrow>
   local_steps op_i64_div_u (43, st, s, r) (101 + d, st', s', r')"
  "fwd i64_div_u_low_init st s r = Goto d st' s' r' \<Longrightarrow>
   local_steps op_i64_div_u (101, st, s, r) (107 + d, st', s', r')"
  "fwd i64_div_u_low_loop st s r = Goto d st' s' r' \<Longrightarrow>
   local_steps op_i64_div_u (107, st, s, r) (174 + d, st', s', r')"
  "fwd i64_div_u_low_exit st s r = Goto d st' s' r' \<Longrightarrow>
   local_steps op_i64_div_u (174, st, s, r) (175 + d, st', s', r')"
  "fwd i64_div_u_wide_check st s r = Goto d st' s' r' \<Longrightarrow>
   local_steps op_i64_div_u (175, st, s, r) (185 + d, st', s', r')"
  "fwd i64_div_u_wide_init st s r = Goto d st' s' r' \<Longrightarrow>
   local_steps op_i64_div_u (185, st, s, r) (195 + d, st', s', r')"
  "fwd i64_div_u_wide_shift st s r = Goto d st' s' r' \<Longrightarrow>
   local_steps op_i64_div_u (195, st, s, r) (210 + d, st', s', r')"
  "fwd i64_div_u_wide_subtract st s r = Goto d st' s' r' \<Longrightarrow>
   local_steps op_i64_div_u (210, st, s, r) (272 + d, st', s', r')"
  "fwd i64_div_u_exit st s r = Goto d st' s' r' \<Longrightarrow>
   local_steps op_i64_div_u (272, st, s, r) (405 + d, st', s', r')"
  subgoal by (erule local_steps_segment [where pre = "[]" and
        post = "i64_div_u_high_init @ i64_div_u_high_loop @ i64_div_u_low_init @ i64_div_u_low_loop @ i64_div_u_low_exit @ i64_div_u_wide_check @ i64_div_u_wide_init @ i64_div_u_wide_shift @ i64_div_u_wide_subtract @ i64_div_u_exit"]; simp add: op_i64_div_u_def)
  subgoal by (erule local_steps_segment [where pre = "i64_div_u_entry" and
        post = "i64_div_u_high_loop @ i64_div_u_low_init @ i64_div_u_low_loop @ i64_div_u_low_exit @ i64_div_u_wide_check @ i64_div_u_wide_init @ i64_div_u_wide_shift @ i64_div_u_wide_subtract @ i64_div_u_exit"]; simp add: op_i64_div_u_def)
  subgoal by (erule local_steps_segment [where pre = "i64_div_u_entry @ i64_div_u_high_init" and
        post = "i64_div_u_low_init @ i64_div_u_low_loop @ i64_div_u_low_exit @ i64_div_u_wide_check @ i64_div_u_wide_init @ i64_div_u_wide_shift @ i64_div_u_wide_subtract @ i64_div_u_exit"]; simp add: op_i64_div_u_def)
  subgoal by (erule local_steps_segment [where pre = "i64_div_u_entry @ i64_div_u_high_init @ i64_div_u_high_loop" and
        post = "i64_div_u_low_loop @ i64_div_u_low_exit @ i64_div_u_wide_check @ i64_div_u_wide_init @ i64_div_u_wide_shift @ i64_div_u_wide_subtract @ i64_div_u_exit"]; simp add: op_i64_div_u_def)
  subgoal by (erule local_steps_segment [where pre = "i64_div_u_entry @ i64_div_u_high_init @ i64_div_u_high_loop @ i64_div_u_low_init" and
        post = "i64_div_u_low_exit @ i64_div_u_wide_check @ i64_div_u_wide_init @ i64_div_u_wide_shift @ i64_div_u_wide_subtract @ i64_div_u_exit"]; simp add: op_i64_div_u_def)
  subgoal by (erule local_steps_segment [where pre = "i64_div_u_entry @ i64_div_u_high_init @ i64_div_u_high_loop @ i64_div_u_low_init @ i64_div_u_low_loop" and
        post = "i64_div_u_wide_check @ i64_div_u_wide_init @ i64_div_u_wide_shift @ i64_div_u_wide_subtract @ i64_div_u_exit"]; simp add: op_i64_div_u_def)
  subgoal by (erule local_steps_segment [where pre = "i64_div_u_entry @ i64_div_u_high_init @ i64_div_u_high_loop @ i64_div_u_low_init @ i64_div_u_low_loop @ i64_div_u_low_exit" and
        post = "i64_div_u_wide_init @ i64_div_u_wide_shift @ i64_div_u_wide_subtract @ i64_div_u_exit"]; simp add: op_i64_div_u_def)
  subgoal by (erule local_steps_segment [where pre = "i64_div_u_entry @ i64_div_u_high_init @ i64_div_u_high_loop @ i64_div_u_low_init @ i64_div_u_low_loop @ i64_div_u_low_exit @ i64_div_u_wide_check" and
        post = "i64_div_u_wide_shift @ i64_div_u_wide_subtract @ i64_div_u_exit"]; simp add: op_i64_div_u_def)
  subgoal by (erule local_steps_segment [where pre = "i64_div_u_entry @ i64_div_u_high_init @ i64_div_u_high_loop @ i64_div_u_low_init @ i64_div_u_low_loop @ i64_div_u_low_exit @ i64_div_u_wide_check @ i64_div_u_wide_init" and
        post = "i64_div_u_wide_subtract @ i64_div_u_exit"]; simp add: op_i64_div_u_def)
  subgoal by (erule local_steps_segment [where pre = "i64_div_u_entry @ i64_div_u_high_init @ i64_div_u_high_loop @ i64_div_u_low_init @ i64_div_u_low_loop @ i64_div_u_low_exit @ i64_div_u_wide_check @ i64_div_u_wide_init @ i64_div_u_wide_shift" and
        post = "i64_div_u_exit"]; simp add: op_i64_div_u_def)
  subgoal by (erule local_steps_segment [where pre = "i64_div_u_entry @ i64_div_u_high_init @ i64_div_u_high_loop @ i64_div_u_low_init @ i64_div_u_low_loop @ i64_div_u_low_exit @ i64_div_u_wide_check @ i64_div_u_wide_init @ i64_div_u_wide_shift @ i64_div_u_wide_subtract" and
        post = "[]"]; simp add: op_i64_div_u_def)
  done

section \<open>The 64-bit path\<close>

definition div_u_wide_state :: "u64 \<Rightarrow> u64 \<Rightarrow> nat \<Rightarrow> u32 list \<Rightarrow> bool" where
  "div_u_wide_state n d i s \<longleftrightarrow> (\<exists>x y. case div_state n d i of (r, m, q) \<Rightarrow>
     s = [x, word_of_nat (64 - i), lo32 r, hi32 r, y, lo32 q, hi32 q, hi32 d, lo32 d, hi32 m, lo32 m])"

lemma fwd_div_u_wide_shift:
  "fwd i64_div_u_wide_shift st [x, c, lo32 r, hi32 r, y, ql, qh, dh, dl, hi32 n, lo32 n] 14 =
   Goto 0 st [hi32 (shift_in r n), x, c, lo32 r, hi32 r, lo32 (shift_in r n), ql, qh, dh, dl, hi32 n, lo32 n] 13"
  by (simp add: i64_div_u_wide_shift_def exec_simps shift_in_halves)

lemma fwd_div_u_wide_subtract:
  "div_step d (r, n, q) = (r', n', q') \<Longrightarrow>
   \<exists>y. fwd i64_div_u_wide_subtract st
     [hi32 (shift_in r n), x, c, rl, rh, lo32 (shift_in r n), lo32 q, hi32 q, hi32 d, lo32 d, hi32 n, lo32 n] 13 =
     Goto (if c = 1 then 0 else - 77) st
       [y, c - 1, lo32 r', hi32 r', lo32 (shift_in r n), lo32 q', hi32 q', hi32 d, lo32 d, hi32 n', lo32 n'] 14"
  by (cases "d \<le> shift_in r n")
    (auto simp: div_step_def Let_def i64_div_u_wide_subtract_def exec_simps jump_def u64_le_iff [of d]
      halves_OR_1 double_halves plus_minus_1 lo32_sub hi32_sub)

lemma div_u_wide_iteration:
  assumes d: "d \<noteq> 0" and i: "i < 64" and s: "div_u_wide_state n d i s"
  shows "\<exists>s'. div_u_wide_state n d (Suc i) s' \<and>
    local_steps op_i64_div_u (195, st, s, 14) (if Suc i = 64 then 272 else 195, st, s', 14)"
proof -
  obtain r m q where st: "div_state n d i = (r, m, q)" by (cases "div_state n d i")
  obtain r' m' q' where st': "div_state n d (Suc i) = (r', m', q')" by (cases "div_state n d (Suc i)")
  have step: "div_step d (r, m, q) = (r', m', q')"
    using div_state_Suc [OF d i, of n] by (simp add: st st')
  obtain x y where s: "s = [x, word_of_nat (64 - i), lo32 r, hi32 r, y, lo32 q, hi32 q, hi32 d, lo32 d, hi32 m, lo32 m]"
    using s by (auto simp: div_u_wide_state_def st)
  have c: "word_of_nat (64 - i) - (1 :: u32) = word_of_nat (64 - Suc i)"
    "(word_of_nat (64 - i) :: u32) = 1 \<longleftrightarrow> Suc i = 64"
    using i by (intro count_down; simp)+
  obtain z where "fwd i64_div_u_wide_subtract st
     [hi32 (shift_in r m), x, word_of_nat (64 - i), lo32 r, hi32 r, lo32 (shift_in r m), lo32 q, hi32 q,
      hi32 d, lo32 d, hi32 m, lo32 m] 13 =
     Goto (if Suc i = 64 then 0 else - 77) st
       [z, word_of_nat (64 - Suc i), lo32 r', hi32 r', lo32 (shift_in r m), lo32 q', hi32 q', hi32 d, lo32 d,
        hi32 m', lo32 m'] 14"
    using fwd_div_u_wide_subtract [OF step, of st x "word_of_nat (64 - i)" "lo32 r" "hi32 r"]
    unfolding c by blast
  from div_u_at(10) [OF this] div_u_at(9) [OF fwd_div_u_wide_shift, of st x "word_of_nat (64 - i)" r y "lo32 q" "hi32 q" "hi32 d" "lo32 d" m]
  show ?thesis
    unfolding s div_u_wide_state_def st' by (fastforce dest: local_steps_trans split: if_splits)
qed

lemma fwd_div_u_wide_init:
  "fwd i64_div_u_wide_init st [x1, x2, x3, x4, x5, x6, x7, dh, dl, nh, nl] 14 =
   Goto 0 st [x1, 64, 0, 0, x5, 0, 0, dh, dl, nh, nl] 14"
  by (simp add: i64_div_u_wide_init_def exec_simps)

lemma fwd_div_u_exit:
  "fwd i64_div_u_exit st [x1, x2, x3, x4, x5, ql, qh, dh, dl, nh, nl] 14 = Goto 0 st [qh, ql] 23"
  by (simp add: i64_div_u_exit_def exec_simps jump_def mask_numerals [symmetric])

lemma div_u_wide:
  assumes d: "d \<noteq> 0"
  shows "local_steps op_i64_div_u (185, st, [x1, x2, x3, x4, x5, x6, x7, hi32 d, lo32 d, hi32 n, lo32 n], 14)
    (405, st, [hi32 (n div d), lo32 (n div d)], 23)"
proof -
  let ?s0 = "[x1, 64, 0, 0, x5, 0, 0, hi32 d, lo32 d, hi32 n, lo32 n]"
  have start: "div_u_wide_state n d 0 ?s0"
    by (auto simp: div_u_wide_state_def div_state_0)
  have "\<exists>s'. div_u_wide_state n d 64 s' \<and> local_steps op_i64_div_u (195, st, ?s0, 14) (272, st, s', 14)"
    by (rule local_loop [OF div_u_wide_iteration [OF d] start]) auto
  then obtain x y where "local_steps op_i64_div_u (195, st, ?s0, 14)
      (272, st, [x, 0, lo32 (n mod d), hi32 (n mod d), y, lo32 (n div d), hi32 (n div d),
        hi32 d, lo32 d, 0, 0], 14)"
    by (auto simp: div_u_wide_state_def div_state_64 [OF d])
  from local_steps_trans [OF div_u_at(8) [OF fwd_div_u_wide_init, simplified] local_steps_trans [OF this
      div_u_at(11) [OF fwd_div_u_exit, simplified]]]
  show ?thesis .
qed

section \<open>The path for a small divisor\<close>

lemma fwd_div_u_high_loop:
  assumes i: "i < 64" and d: "d \<noteq> 0" "unat d \<le> 2 ^ 31"
  shows "\<exists>y. fwd i64_div_u_high_loop st
      [x1, x2, x3, part_rem (unat nh) d i, num (95 - i), x6, part_quot (unat nh) d i, dh, d, nh, nl] 14 =
    Goto (if Suc i = 64 then 0 else - 58) st
      [x1, x2, y, part_rem (unat nh) d (Suc i), num (95 - Suc i), num (64 - i),
       part_quot (unat nh) d (Suc i), dh, d, nh, nl] 14"
proof (cases "i < 32")
  case True
  have "unat nh div 2 ^ 32 < unat d"
    using unat_less [of nh] d by (simp add: unat_gt_0)
  then have less: "next_rem (unat nh) d i < d"
    using next_rem_high [OF d _ True] by blast
  have "\<not> bit (unat nh) (63 - i)"
    using True by (auto simp: bit_unsigned_iff dest: bit_imp_le_length)
  then have nr: "next_rem (unat nh) d i = part_rem (unat nh) d i * 2"
    by (simp add: next_rem_def)
  show ?thesis
    using True less
    by (simp add: i64_div_u_high_loop_def exec_simps jump_def part_Suc [OF d i] counter_facts nr)
next
  case False
  have nr: "next_rem (unat nh) d i = of_bool (bit nh (63 - i)) OR part_rem (unat nh) d i * 2"
    by (simp add: next_rem_def bit_unsigned_iff)
  show ?thesis
    using False i
    by (cases "next_rem (unat nh) d i < d")
      (simp_all add: i64_div_u_high_loop_def exec_simps jump_def part_Suc [OF d i] counter_facts nr [symmetric]
        or.commute [of "part_quot (unat nh) d i"])
qed

lemma fwd_div_u_low_loop:
  assumes i: "i < 64" and d: "d \<noteq> 0" "unat d \<le> 2 ^ 31" and r1: "r1 < d"
    and m_def: "m = unat (join64 r1 nl)"
  shows "\<exists>y z. fwd i64_div_u_low_loop st
      [x1, x2, x3, r1, num (95 - i), part_quot m d i, qh, x8, d, part_rem m d i, nl] 14 =
    Goto (if Suc i = 64 then 0 else - 67) st
      [x1, x2, y, r1, num (95 - Suc i), part_quot m d (Suc i), qh, z, d, part_rem m d (Suc i), nl] 14"
proof (cases "i < 32")
  case True
  have "m div 2 ^ 32 = unat r1"
    using unat_less [of nl] by (simp add: m_def unat_join64)
  then have less: "next_rem m d i < d"
    using next_rem_high [OF d _ True] r1 by (simp add: word_less_nat_alt)
  have nr: "next_rem m d i = of_bool (bit r1 (31 - i)) OR part_rem m d i * 2"
  proof -
    have "63 - i < 64" "\<not> 63 - i < 32" "63 - i - 32 = 31 - i" using True by simp_all
    then show ?thesis by (simp only: next_rem_def m_def bit_unsigned_iff bit_join64) simp
  qed
  show ?thesis
    using True less
    by (simp add: i64_div_u_low_loop_def exec_simps jump_def part_Suc [OF d i] counter_facts nr [symmetric])
next
  case False
  have nr: "next_rem m d i = of_bool (bit nl (63 - i)) OR part_rem m d i * 2"
  proof -
    have "63 - i < 64" "63 - i < 32" using False i by simp_all
    then show ?thesis by (simp only: next_rem_def m_def bit_unsigned_iff bit_join64) simp
  qed
  show ?thesis
    using False i
    by (cases "next_rem m d i < d")
      (simp_all add: i64_div_u_low_loop_def exec_simps jump_def part_Suc [OF d i] counter_facts nr [symmetric]
        or.commute [of "part_quot m d i"])
qed

text \<open>Both loops, and the end.\<close>

lemma fwd_div_u_inits:
  "fwd i64_div_u_high_init st [x1, x2, x3, x4, x5, x6, x7, dh, dl, nh, nl] 14 =
   Goto 0 st [x1, x2, x3, 0, num 95, x6, 0, dh, dl, nh, nl] 14"
  "fwd i64_div_u_low_init st [x1, x2, x3, r, x5, x6, qh, dh, dl, nh, nl] 14 =
   Goto 0 st [x1, x2, x3, r, num 95, 0, qh, dh, dl, 0, nl] 14"
  "fwd i64_div_u_low_exit st s 14 = Goto 97 st s 14"
  by (simp_all add: i64_div_u_high_init_def i64_div_u_low_init_def i64_div_u_low_exit_def exec_simps
      jump_def num_def)

lemma div_u_high:
  assumes d: "d \<noteq> 0" "unat d \<le> 2 ^ 31"
  shows "\<exists>x3 x6. local_steps op_i64_div_u (43, st, [x1, x2, y3, 0, num 95, y6, 0, dh, d, nh, nl], 14)
    (101, st, [x1, x2, x3, part_rem (unat nh) d 64, num 31, x6, part_quot (unat nh) d 64, dh, d, nh, nl], 14)"
proof -
  define P where "P i s \<longleftrightarrow> (\<exists>x3 x6. s = [x1, x2, x3, part_rem (unat nh) d i, num (95 - i), x6,
      part_quot (unat nh) d i, dh, d, nh, nl])" for i s
  have "\<exists>s'. P 64 s' \<and> local_steps op_i64_div_u (43, st, [x1, x2, y3, 0, num 95, y6, 0, dh, d, nh, nl], 14) (101, st, s', 14)"
  proof (rule local_loop [of 64 P])
    fix i s
    assume i: "i < 64" and "P i s"
    then obtain x3 x6 where s: "s = [x1, x2, x3, part_rem (unat nh) d i, num (95 - i), x6,
        part_quot (unat nh) d i, dh, d, nh, nl]"
      by (auto simp: P_def)
    from fwd_div_u_high_loop [OF i d, of st x1 x2 x3 nh x6 dh nl] show
      "\<exists>s'. P (Suc i) s' \<and> local_steps op_i64_div_u (43, st, s, 14) (if Suc i = 64 then 101 else 43, st, s', 14)"
      unfolding s P_def by (fastforce dest: div_u_at(3) split: if_splits)
  qed (use unat_less [of nh] in \<open>auto simp: P_def part_0\<close>)
  then show ?thesis by (auto simp: P_def)
qed

lemma div_u_low:
  assumes d: "d \<noteq> 0" "unat d \<le> 2 ^ 31" and r1: "r1 < d" and m: "m = unat (join64 r1 nl)"
  shows "\<exists>x3 x8. local_steps op_i64_div_u (107, st, [x1, x2, y3, r1, num 95, 0, qh, y8, d, 0, nl], 14)
    (174, st, [x1, x2, x3, r1, num 31, part_quot m d 64, qh, x8, d, part_rem m d 64, nl], 14)"
proof -
  define P where "P i s \<longleftrightarrow> (\<exists>x3 x8. s = [x1, x2, x3, r1, num (95 - i), part_quot m d i, qh, x8, d,
      part_rem m d i, nl])" for i s
  have "\<exists>s'. P 64 s' \<and> local_steps op_i64_div_u (107, st, [x1, x2, y3, r1, num 95, 0, qh, y8, d, 0, nl], 14) (174, st, s', 14)"
  proof (rule local_loop [of 64 P])
    fix i s
    assume i: "i < 64" and "P i s"
    then obtain x3 x8 where s: "s = [x1, x2, x3, r1, num (95 - i), part_quot m d i, qh, x8, d,
        part_rem m d i, nl]"
      by (auto simp: P_def)
    from fwd_div_u_low_loop [OF i d r1 m, of st x1 x2 x3 qh x8] show
      "\<exists>s'. P (Suc i) s' \<and> local_steps op_i64_div_u (107, st, s, 14) (if Suc i = 64 then 174 else 107, st, s', 14)"
      unfolding s P_def by (fastforce dest: div_u_at(5) split: if_splits)
  qed (use unat_less [of "join64 r1 nl"] in \<open>auto simp: P_def part_0 m\<close>)
  then show ?thesis by (auto simp: P_def)
qed

lemma div_u_small:
  assumes d: "hi32 d = 0" "lo32 d \<noteq> 0" "unat (lo32 d) \<le> 2 ^ 31"
  shows "local_steps op_i64_div_u (37, st, [x1, x2, x3, x4, x5, x6, x7, hi32 d, lo32 d, hi32 n, lo32 n], 14)
    (405, st, [hi32 (n div d), lo32 (n div d)], 23)"
proof -
  define r1 where "r1 = part_rem (unat (hi32 n)) (lo32 d) 64"
  note half = division_by_halves [OF d(2,1) refl r1_def]
  obtain y3 y6 where high: "local_steps op_i64_div_u
      (43, st, [x1, x2, x3, 0, num 95, x6, 0, hi32 d, lo32 d, hi32 n, lo32 n], 14)
      (101, st, [x1, x2, y3, r1, num 31, y6, hi32 (n div d), hi32 d, lo32 d, hi32 n, lo32 n], 14)"
    using div_u_high [OF d(2,3), of st x1 x2 x3 x6 "hi32 d" "hi32 n" "lo32 n"] by (auto simp: half(1) r1_def)
  obtain z3 z8 where low: "local_steps op_i64_div_u
      (107, st, [x1, x2, y3, r1, num 95, 0, hi32 (n div d), hi32 d, lo32 d, 0, lo32 n], 14)
      (174, st, [x1, x2, z3, r1, num 31, lo32 (n div d), hi32 (n div d), z8, lo32 d, lo32 (n mod d), lo32 n], 14)"
    using div_u_low [OF d(2,3) half(5) refl, of st x1 x2 y3 "hi32 (n div d)" "hi32 d" "lo32 n"]
    by (auto simp: half(2,3))
  note chain = local_steps_trans [OF div_u_at(2) [OF fwd_div_u_inits(1), simplified]]
    local_steps_trans [OF div_u_at(4) [OF fwd_div_u_inits(2), simplified]]
    local_steps_trans [OF div_u_at(6) [OF fwd_div_u_inits(3), simplified]]
  show ?thesis
    by (rule chain(1), rule local_steps_trans [OF high], rule chain(2), rule local_steps_trans [OF low],
        rule chain(3), rule div_u_at(11) [OF fwd_div_u_exit, simplified])
qed

section \<open>The whole routine\<close>

definition div_u_start :: "u64 \<Rightarrow> u64 \<Rightarrow> u32 list" where
  "div_u_start n d = [0, 0, 0, 0, 0, 0, 0, hi32 d, lo32 d, hi32 n, lo32 n]"

lemma fwd_div_u_entry:
  "fwd i64_div_u_entry st [hi32 d, lo32 d, hi32 n, lo32 n] 21 =
   (if d = 0 then Trapping IntegerDivisionByZero st
    else if hi32 d = 0 \<and> hi32 n = 0 \<and> lo32 n < lo32 d \<or> hi32 n < hi32 d
    then Goto 235 st (div_u_start n d) 14
    else if hi32 d = 0 then Goto (if - 1 < sint (lo32 d) then 0 else 148) st (div_u_start n d) 14
    else Goto 138 st (div_u_start n d) 14)"
  by (cases "hi32 d = 0"; cases "lo32 d = 0"; cases "hi32 n = 0"; cases "hi32 n < hi32 d";
      auto simp: i64_div_u_entry_def exec_simps jump_def u64_eq_0_iff div_u_start_def not_less)

lemma fwd_div_u_wide_check:
  "fwd i64_div_u_wide_check st (div_u_start n d) 14 =
   (if hi32 n = hi32 d \<and> lo32 n < lo32 d then Goto 87 st (div_u_start n d) 14
    else Goto 0 st (div_u_start n d) 14)"
  by (auto simp: i64_div_u_wide_check_def exec_simps jump_def div_u_start_def not_less)

lemma div_u_smaller:
  assumes "n < d"
  shows "local_steps op_i64_div_u (272, st, div_u_start n d, 14) (405, st, [hi32 (n div d), lo32 (n div d)], 23)"
proof -
  have "n div d = 0" using assms by (simp add: word_less_nat_alt word_unat_eq_iff unat_div)
  then show ?thesis
    using div_u_at(11) [OF fwd_div_u_exit, of st 0 0 0 0 0 0 0 "hi32 d" "lo32 d" "hi32 n" "lo32 n"]
    by (simp add: div_u_start_def)
qed

lemma div_u_runs:
  assumes d: "d \<noteq> 0"
  shows "local_steps op_i64_div_u (0, st, [hi32 d, lo32 d, hi32 n, lo32 n], 21)
    (405, st, [hi32 (n div d), lo32 (n div d)], 23)"
proof -
  let ?ops = "op_i64_div_u" and ?c0 = "(0, st, [hi32 d, lo32 d, hi32 n, lo32 n], 21)"
  consider (small) "hi32 d = 0 \<and> hi32 n = 0 \<and> lo32 n < lo32 d \<or> hi32 n < hi32 d"
    | (fast) "hi32 d = 0" "\<not> (hi32 n = 0 \<and> lo32 n < lo32 d)" "- 1 < sint (lo32 d)"
    | (slow) "hi32 d = 0" "\<not> (hi32 n = 0 \<and> lo32 n < lo32 d)" "\<not> - 1 < sint (lo32 d)"
    | (wide) "hi32 d \<noteq> 0" "\<not> hi32 n < hi32 d"
    by (cases "hi32 d = 0") auto
  then show ?thesis
  proof cases
    case small
    then have "n < d" by (auto simp: u64_less_iff [of n])
    moreover have "fwd i64_div_u_entry st [hi32 d, lo32 d, hi32 n, lo32 n] 21 = Goto 235 st (div_u_start n d) 14"
      using small d by (subst fwd_div_u_entry) auto
    then have "local_steps ?ops ?c0 (272, st, div_u_start n d, 14)"
      using div_u_at(1) by fastforce
    ultimately show ?thesis using div_u_smaller local_steps_trans by blast
  next
    case fast
    have lo: "lo32 d \<noteq> 0" using fast d by (simp add: u64_eq_0_iff)
    have "unat (lo32 d) \<le> 2 ^ 31" using fast sint_positive by (simp add: less_imp_le)
    note run = div_u_small [OF fast(1) lo this, of st 0 0 0 0 0 0 0 n, folded div_u_start_def]
    have "fwd i64_div_u_entry st [hi32 d, lo32 d, hi32 n, lo32 n] 21 = Goto 0 st (div_u_start n d) 14"
      using fast d by (subst fwd_div_u_entry) auto
    then have "local_steps ?ops ?c0 (37, st, div_u_start n d, 14)"
      using div_u_at(1) by fastforce
    then show ?thesis using run local_steps_trans by blast
  next
    case slow
    have "fwd i64_div_u_entry st [hi32 d, lo32 d, hi32 n, lo32 n] 21 = Goto 148 st (div_u_start n d) 14"
      using slow d by (subst fwd_div_u_entry) auto
    then have "local_steps ?ops ?c0 (185, st, div_u_start n d, 14)"
      using div_u_at(1) by fastforce
    then show ?thesis
      using div_u_wide [OF d, of st 0 0 0 0 0 0 0 n, folded div_u_start_def] local_steps_trans by blast
  next
    case wide
    have "fwd i64_div_u_entry st [hi32 d, lo32 d, hi32 n, lo32 n] 21 = Goto 138 st (div_u_start n d) 14"
      using wide d by (subst fwd_div_u_entry) auto
    then have check: "local_steps ?ops ?c0 (175, st, div_u_start n d, 14)"
      using div_u_at(1) by fastforce
    show ?thesis
    proof (cases "hi32 n = hi32 d \<and> lo32 n < lo32 d")
      case True
      then have "n < d" by (auto simp: u64_less_iff [of n])
      moreover have "local_steps ?ops (175, st, div_u_start n d, 14) (272, st, div_u_start n d, 14)"
        using div_u_at(7) [of st "div_u_start n d" 14 87] True by (simp add: fwd_div_u_wide_check)
      ultimately show ?thesis using check div_u_smaller local_steps_trans by blast
    next
      case False
      then have "local_steps ?ops (175, st, div_u_start n d, 14) (185, st, div_u_start n d, 14)"
        using div_u_at(7) [of st "div_u_start n d" 14 0] by (simp add: fwd_div_u_wide_check)
      then show ?thesis
        using check div_u_wide [OF d, of st 0 0 0 0 0 0 0 n, folded div_u_start_def] local_steps_trans by blast
    qed
  qed
qed

lemma op_i64_div_u_correct:
  "d \<noteq> 0 \<Longrightarrow> yields env op_i64_div_u MSH_I64_DIV_U [hi32 d, lo32 d, hi32 n, lo32 n]
     [hi32 (n div d), lo32 (n div d)]"
  using div_u_runs [of d _ n]
  by (auto intro!: computes_steps simp: MSH_I64_DIV_U_def op_i64_div_u_def)

lemma op_i64_div_u_zero:
  "faults env op_i64_div_u MSH_I64_DIV_U [hi32 0, lo32 0, hi32 n, lo32 n] IntegerDivisionByZero"
  using fwd_append_trap [OF fwd_div_u_entry [of _ 0 n, simplified]]
  by (auto intro!: computes_fwd_trap simp: MSH_I64_DIV_U_def op_i64_div_u_def)

end
