(* ===== verification/Isa_Memory.thy ===== *)
theory Isa_Memory
  imports Isa_Arith
begin

text \<open>
  The lowering of the 64-bit loads and stores to two 32-bit accesses
  (\<open>src/isa/memory.rs\<close>). Each routine is proved to do what the WebAssembly instruction does
  on the same memory (\<open>wasm_load\<close>, \<open>wasm_store\<close>): the little-endian value at the
  effective address, or \<open>MemoryOutOfBounds\<close> with the memory untouched, even when only the
  upper half is outside. The constants \<open>MEMORY_BYTES_PER_FUEL\<close> of the checked routines come
  from another crate; those routines are in theory \<open>Isa_Checked\<close>.
\<close>

section \<open>The routines\<close>

definition MSH_I64_LOAD :: u32 where "MSH_I64_LOAD = 2"
definition MSH_I64_LOAD8_S :: u32 where "MSH_I64_LOAD8_S = 1"
definition MSH_I64_LOAD8_U :: u32 where "MSH_I64_LOAD8_U = 1"
definition MSH_I64_LOAD16_S :: u32 where "MSH_I64_LOAD16_S = 1"
definition MSH_I64_LOAD16_U :: u32 where "MSH_I64_LOAD16_U = 1"
definition MSH_I64_LOAD32_S :: u32 where "MSH_I64_LOAD32_S = 1"
definition MSH_I64_LOAD32_U :: u32 where "MSH_I64_LOAD32_U = 1"
definition MSH_I64_STORE :: u32 where "MSH_I64_STORE = 2"
definition MSH_I64_STORE8 :: u32 where "MSH_I64_STORE8 = 0"
definition MSH_I64_STORE16 :: u32 where "MSH_I64_STORE16 = 0"
definition MSH_I64_STORE32 :: u32 where "MSH_I64_STORE32 = 0"
definition MSH_I64_CONST :: u32 where "MSH_I64_CONST = 2"

definition op_i64_load :: "u32 \<Rightarrow> opcode list" where
  "op_i64_load offset =
     [LocalGet 1, I32Load (saturating_add offset 4), LocalGet 2, I32Load offset, LocalSet 2]"

definition op_i64_load8_s :: "u32 \<Rightarrow> opcode list" where
  "op_i64_load8_s offset = I32Load8S offset # op_dup @ [I32Const 31, I32ShrS]"

definition op_i64_load8_u :: "u32 \<Rightarrow> opcode list" where
  "op_i64_load8_u offset = [I32Load8U offset, I32Const 0]"

definition op_i64_load16_s :: "u32 \<Rightarrow> opcode list" where
  "op_i64_load16_s offset = I32Load16S offset # op_dup @ [I32Const 31, I32ShrS]"

definition op_i64_load16_u :: "u32 \<Rightarrow> opcode list" where
  "op_i64_load16_u offset = [I32Load16U offset, I32Const 0]"

definition op_i64_load32_s :: "u32 \<Rightarrow> opcode list" where
  "op_i64_load32_s offset = I32Load offset # op_dup @ [I32Const 31, I32ShrS]"

definition op_i64_load32_u :: "u32 \<Rightarrow> opcode list" where
  "op_i64_load32_u offset = [I32Load offset, I32Const 0]"

definition op_i64_store :: "u32 \<Rightarrow> opcode list" where
  "op_i64_store offset =
     [LocalGet 3, LocalGet 2, I32Store (saturating_add offset 4), Drop, I32Store offset]"

definition op_i64_store8 :: "u32 \<Rightarrow> opcode list" where
  "op_i64_store8 offset = [Drop, I32Store8 offset]"

definition op_i64_store16 :: "u32 \<Rightarrow> opcode list" where
  "op_i64_store16 offset = [Drop, I32Store16 offset]"

definition op_i64_store32 :: "u32 \<Rightarrow> opcode list" where
  "op_i64_store32 offset = [Drop, I32Store offset]"

definition op_i64_const :: "u64 \<Rightarrow> opcode list" where
  "op_i64_const value = [I32Const (lo32 value), I32Const (hi32 value)]"

section \<open>What the WebAssembly instructions do\<close>

definition in_memory :: "nat \<Rightarrow> u8 list \<Rightarrow> u32 \<Rightarrow> u32 \<Rightarrow> bool" where
  "in_memory n mem address offset \<longleftrightarrow> unat offset + unat address + n \<le> length mem"

definition wasm_load ::
  "nat \<Rightarrow> (u8 list \<Rightarrow> u64) \<Rightarrow> u8 list \<Rightarrow> u32 \<Rightarrow> u32 \<Rightarrow> trap_code + u64" where
  "wasm_load n ext mem address offset =
     (if in_memory n mem address offset then Inr (ext (take n (drop (unat offset + unat address) mem)))
      else Inl MemoryOutOfBounds)"

definition wasm_store :: "u8 list \<Rightarrow> u8 list \<Rightarrow> u32 \<Rightarrow> u32 \<Rightarrow> trap_code + u8 list" where
  "wasm_store bytes mem address offset =
     (if in_memory (length bytes) mem address offset
      then Inr (overwrite mem (unat offset + unat address) bytes) else Inl MemoryOutOfBounds)"

text \<open>The results as outcomes of a routine.\<close>

definition loaded :: "'h store \<Rightarrow> trap_code + u64 \<Rightarrow> (trap_code \<times> 'h store) + ('h store \<times> u32 list)" where
  "loaded st r = (case r of Inl t \<Rightarrow> Inl (t, st) | Inr v \<Rightarrow> Inr (st, [hi32 v, lo32 v]))"

definition stored :: "'h store \<Rightarrow> trap_code + u8 list \<Rightarrow> (trap_code \<times> 'h store) + ('h store \<times> u32 list)" where
  "stored st r = (case r of Inl t \<Rightarrow> Inl (t, st) | Inr mem \<Rightarrow> Inr (with_memory mem st, []))"

section \<open>Bytes\<close>

lemma le_nat_append: "le_nat (xs @ ys) = le_nat xs + 256 ^ length xs * le_nat ys"
  by (induction xs) (simp_all add: algebra_simps)

lemma le_nat_bound: "le_nat xs < 256 ^ length xs"
proof (induction xs)
  case (Cons b xs)
  have "unat b \<le> 255" using unat_less [of b] by simp
  with Cons show ?case by simp
qed simp

lemma unat_from_le_bytes: "256 ^ length bs \<le> (2 :: nat) ^ LENGTH('a) \<Longrightarrow> unat (from_le_bytes bs :: 'a::len word) = le_nat bs"
  using le_nat_bound [of bs] by (simp add: from_le_bytes_def unat_of_nat)

lemma from_le_bytes_halves:
  assumes "length lo = 4" "length hi = 4"
  shows "from_le_bytes (lo @ hi) = join64 (from_le_bytes hi) (from_le_bytes lo)"
proof (rule unsigned_word_eqI)
  show "unat (from_le_bytes (lo @ hi) :: u64) = unat (join64 (from_le_bytes hi) (from_le_bytes lo))"
    using assms by (simp add: unat_join64 unat_from_le_bytes le_nat_append)
qed

lemma nat_le_append: "nat_le (j + k) n = nat_le j n @ nat_le k (n div 256 ^ j)"
  by (induction j arbitrary: n) (simp_all add: div_mult2_eq)

lemma nat_le_mod: "nat_le k (n mod 256 ^ k) = nat_le k n"
proof (induction k arbitrary: n)
  case (Suc k)
  have "n mod 256 ^ Suc k div 256 = n div 256 mod 256 ^ k"
    by (simp add: mod_mult2_eq)
  moreover have "(word_of_nat (n mod 256 ^ Suc k) :: u8) = word_of_nat n"
    by (simp add: word_of_nat_eq_iff take_bit_eq_mod mod_mod_cancel)
  ultimately show ?case by (simp add: Suc.IH)
qed simp

lemma to_le_bytes_halves: "to_le_bytes 8 v = to_le_bytes 4 (lo32 v) @ to_le_bytes 4 (hi32 v)"
  using nat_le_append [of 4 4 "unat v"] nat_le_mod [of 4 "unat v"]
  by (simp add: to_le_bytes_def unat_lo32 unat_hi32)

lemma to_le_bytes_ucast:
  "to_le_bytes 1 (ucast (lo32 v) :: u8) = to_le_bytes 1 (ucast v :: u8)"
  "to_le_bytes 2 (ucast (lo32 v) :: u16) = to_le_bytes 2 (ucast v :: u16)"
  by (simp_all add: ucast_lo32(1,2))

lemma to_le_bytes_not_Nil: "0 < k \<Longrightarrow> to_le_bytes k w \<noteq> []"
  using length_to_le_bytes [of k w] by force

section \<open>The loads\<close>

text \<open>A memory is small: every address behind which a byte lies fits 32 bits.\<close>

lemma load_extend_eq:
  assumes "length mem \<le> 2 ^ 31" and "0 < n"
  shows "load_extend n ext mem a off =
    (if in_memory n mem a off then Inr (ext (take n (drop (unat off + unat a) mem)))
     else Inl MemoryOutOfBounds)"
proof (cases "in_memory n mem a off")
  case True
  with assms show ?thesis
    using load_extend_Inr_iff [of n ext mem a off "ext (take n (drop (unat off + unat a) mem))"]
    by (simp add: in_memory_def)
next
  case False
  then show ?thesis
    by (auto simp: load_extend_def load_into_def effective_address_def in_memory_def slice_get_def
        checked_add_def unat_word_ariths split: option.splits)
qed

lemma store_wrap_eq:
  assumes "length mem \<le> 2 ^ 31" and "wrap v \<noteq> []"
  shows "store_wrap wrap mem a off v = wasm_store (wrap v) mem a off"
proof (cases "in_memory (length (wrap v)) mem a off")
  case True
  with assms show ?thesis
    using store_wrap_Inr_iff [of wrap mem a off v "overwrite mem (unat off + unat a) (wrap v)"]
    by (cases "wrap v") (simp_all add: in_memory_def wasm_store_def)
next
  case False
  then show ?thesis
    by (auto simp: store_wrap_def store_from_def effective_address_def in_memory_def slice_get_def
        checked_add_def unat_word_ariths wasm_store_def split: option.splits)
qed

lemmas load_defs = i32_load_def i32_load8_s_def i32_load8_u_def i32_load16_s_def i32_load16_u_def
lemmas store_defs = i32_store_def i32_store8_def i32_store16_def

lemma computes_loaded:
  assumes "\<And>t. r = Inl t \<Longrightarrow> fwd ops st ins (unat msh) = Trapping t st"
    and "\<And>v. r = Inr v \<Longrightarrow> \<exists>r'. fwd ops st ins (unat msh) = Goto 0 st [hi32 v, lo32 v] r'"
  shows "computes env ops msh st ins (loaded st r)"
  using assms by (cases r) (auto simp: loaded_def intro: computes_fwd computes_fwd_trap)

lemma computes_stored:
  assumes "\<And>t. r = Inl t \<Longrightarrow> fwd ops st ins (unat msh) = Trapping t st"
    and "\<And>mem. r = Inr mem \<Longrightarrow> \<exists>r'. fwd ops st ins (unat msh) = Goto 0 (with_memory mem st) [] r'"
  shows "computes env ops msh st ins (stored st r)"
  using assms by (cases r) (auto simp: stored_def intro: computes_fwd computes_fwd_trap)

text \<open>The halves of the extended values.\<close>

lemma halves_loaded:
  "signed_drop_bit 31 (scast b :: u32) = hi32 (scast b)" "scast b = lo32 (scast b)" for b :: u8
  by (simp_all add: halves_scast_small)

lemma halves_ucast_narrow:
  fixes b :: "'a::len word"
  assumes "LENGTH('a) \<le> 32"
  shows "hi32 (ucast b) = 0" "lo32 (ucast b) = ucast b"
proof -
  have "\<not> bit b n" if "32 \<le> n" for n
    using bit_imp_le_length [of b n] that assms by auto
  then show "hi32 (ucast b) = 0" "lo32 (ucast b) = ucast b"
    by (auto intro!: bit_word_eqI simp: bit_simps)
qed

text \<open>A sign-extending load needs two cells more than its address, one more than its \<open>MSH_\<close>
  constant: the translator adds the growth of the operand to the constant.\<close>

lemma op_i64_load8_s_correct:
  assumes "length (memory_of st) \<le> 2 ^ 31"
  shows "computes env (op_i64_load8_s off) (MSH_I64_LOAD8_S + 1) st [a]
    (loaded st (wasm_load 1 (\<lambda>bs. scast (from_le_bytes bs :: u8)) (memory_of st) a off))"
  using assms
  by (intro computes_loaded)
    (auto simp: op_i64_load8_s_def op_dup_def MSH_I64_LOAD8_S_def exec_simps load_defs
      load_extend_eq wasm_load_def memory_of_def halves_scast_small split: if_splits)

lemma op_i64_load8_u_correct:
  assumes "length (memory_of st) \<le> 2 ^ 31"
  shows "computes env (op_i64_load8_u off) MSH_I64_LOAD8_U st [a]
    (loaded st (wasm_load 1 (\<lambda>bs. ucast (from_le_bytes bs :: u8)) (memory_of st) a off))"
  using assms
  by (intro computes_loaded)
    (auto simp: op_i64_load8_u_def MSH_I64_LOAD8_U_def exec_simps load_defs
      load_extend_eq wasm_load_def memory_of_def halves_ucast_narrow split: if_splits)

lemma op_i64_load16_s_correct:
  assumes "length (memory_of st) \<le> 2 ^ 31"
  shows "computes env (op_i64_load16_s off) (MSH_I64_LOAD16_S + 1) st [a]
    (loaded st (wasm_load 2 (\<lambda>bs. scast (from_le_bytes bs :: u16)) (memory_of st) a off))"
  using assms
  by (intro computes_loaded)
    (auto simp: op_i64_load16_s_def op_dup_def MSH_I64_LOAD16_S_def exec_simps load_defs
      load_extend_eq wasm_load_def memory_of_def halves_scast_small split: if_splits)

lemma op_i64_load16_u_correct:
  assumes "length (memory_of st) \<le> 2 ^ 31"
  shows "computes env (op_i64_load16_u off) MSH_I64_LOAD16_U st [a]
    (loaded st (wasm_load 2 (\<lambda>bs. ucast (from_le_bytes bs :: u16)) (memory_of st) a off))"
  using assms
  by (intro computes_loaded)
    (auto simp: op_i64_load16_u_def MSH_I64_LOAD16_U_def exec_simps load_defs
      load_extend_eq wasm_load_def memory_of_def halves_ucast_narrow split: if_splits)

lemma op_i64_load32_s_correct:
  assumes "length (memory_of st) \<le> 2 ^ 31"
  shows "computes env (op_i64_load32_s off) (MSH_I64_LOAD32_S + 1) st [a]
    (loaded st (wasm_load 4 (\<lambda>bs. scast (from_le_bytes bs :: u32)) (memory_of st) a off))"
  using assms
  by (intro computes_loaded)
    (auto simp: op_i64_load32_s_def op_dup_def MSH_I64_LOAD32_S_def exec_simps load_defs
      load_extend_eq wasm_load_def memory_of_def halves_scast split: if_splits)

lemma op_i64_load32_u_correct:
  assumes "length (memory_of st) \<le> 2 ^ 31"
  shows "computes env (op_i64_load32_u off) MSH_I64_LOAD32_U st [a]
    (loaded st (wasm_load 4 (\<lambda>bs. ucast (from_le_bytes bs :: u32)) (memory_of st) a off))"
  using assms
  by (intro computes_loaded)
    (auto simp: op_i64_load32_u_def MSH_I64_LOAD32_U_def exec_simps load_defs
      load_extend_eq wasm_load_def memory_of_def halves_ucast_narrow split: if_splits)

lemma op_i64_load_correct:
  assumes mem: "length (memory_of st) \<le> 2 ^ 31"
  shows "computes env (op_i64_load off) MSH_I64_LOAD st [a]
    (loaded st (wasm_load 8 from_le_bytes (memory_of st) a off))"
proof (rule computes_loaded)
  let ?mem = "memory_of st" and ?p = "unat off + unat a"
  have sat: "in_memory 4 ?mem a (saturating_add off 4) \<longleftrightarrow> in_memory 8 ?mem a off"
    using mem by (auto simp: in_memory_def unat_saturating_add min_def)
  have low: "in_memory 8 ?mem a off \<Longrightarrow> in_memory 4 ?mem a off"
    by (simp add: in_memory_def)
  have addr: "in_memory 8 ?mem a off \<Longrightarrow> unat (saturating_add off 4) = unat off + 4"
    using mem by (simp add: in_memory_def unat_saturating_add min_def)
  note simps = op_i64_load_def MSH_I64_LOAD_def exec_simps load_defs load_extend_eq [OF mem]
    wasm_load_def sat low memory_of_def [symmetric]
  show "fwd (op_i64_load off) st [a] (unat MSH_I64_LOAD) = Trapping t st"
    if "wasm_load 8 from_le_bytes ?mem a off = Inl t" for t
    using that by (simp add: simps split: if_splits)
  show "\<exists>r'. fwd (op_i64_load off) st [a] (unat MSH_I64_LOAD) = Goto 0 st [hi32 v, lo32 v] r'"
    if v: "wasm_load 8 from_le_bytes ?mem a off = Inr v" for v
  proof -
    have ok: "in_memory 8 ?mem a off" and v: "v = from_le_bytes (take 8 (drop ?p ?mem))"
      using v by (auto simp: wasm_load_def split: if_splits)
    have "take 8 (drop ?p ?mem) = take 4 (drop ?p ?mem) @ take 4 (drop (?p + 4) ?mem)"
      using take_add [of 4 4 "drop ?p ?mem"] by (simp add: add.commute)
    moreover have "length (take 4 (drop ?p ?mem)) = 4" "length (take 4 (drop (?p + 4) ?mem)) = 4"
      using ok by (auto simp: in_memory_def)
    ultimately have "hi32 v = from_le_bytes (take 4 (drop (?p + 4) ?mem))"
      "lo32 v = from_le_bytes (take 4 (drop ?p ?mem))"
      by (simp_all add: v from_le_bytes_halves)
    then show ?thesis
      using ok low by (simp add: simps addr add_ac)
  qed
qed

section \<open>The stores\<close>

lemma op_i64_store_small_correct:
  assumes "length (memory_of st) \<le> 2 ^ 31"
  shows "computes env (op_i64_store8 off) MSH_I64_STORE8 st [hi32 v, lo32 v, a]
      (stored st (wasm_store (to_le_bytes 1 (ucast v :: u8)) (memory_of st) a off))"
    and "computes env (op_i64_store16 off) MSH_I64_STORE16 st [hi32 v, lo32 v, a]
      (stored st (wasm_store (to_le_bytes 2 (ucast v :: u16)) (memory_of st) a off))"
    and "computes env (op_i64_store32 off) MSH_I64_STORE32 st [hi32 v, lo32 v, a]
      (stored st (wasm_store (to_le_bytes 4 (lo32 v)) (memory_of st) a off))"
proof -
  note simps = op_i64_store8_def op_i64_store16_def op_i64_store32_def MSH_I64_STORE8_def
    MSH_I64_STORE16_def MSH_I64_STORE32_def exec_simps store_defs store_wrap_eq to_le_bytes_ucast
    to_le_bytes_not_Nil to_le_bytes_ucast [unfolded One_nat_def]
    memory_of_def [symmetric]
  show "computes env (op_i64_store8 off) MSH_I64_STORE8 st [hi32 v, lo32 v, a]
      (stored st (wasm_store (to_le_bytes 1 (ucast v :: u8)) (memory_of st) a off))"
    using assms by (intro computes_stored) (auto simp: simps)
  show "computes env (op_i64_store16 off) MSH_I64_STORE16 st [hi32 v, lo32 v, a]
      (stored st (wasm_store (to_le_bytes 2 (ucast v :: u16)) (memory_of st) a off))"
    using assms by (intro computes_stored) (auto simp: simps)
  show "computes env (op_i64_store32 off) MSH_I64_STORE32 st [hi32 v, lo32 v, a]
      (stored st (wasm_store (to_le_bytes 4 (lo32 v)) (memory_of st) a off))"
    using assms by (intro computes_stored) (auto simp: simps)
qed

text \<open>The upper half is written first; when it is outside nothing is written.\<close>

lemma overwrite_twice:
  assumes "p + length xs + length ys \<le> length mem"
  shows "overwrite (overwrite mem (p + length xs) ys) p xs = overwrite mem p (xs @ ys)"
  using assms by (intro nth_equalityI) (auto simp: nth_overwrite nth_append)

lemma op_i64_store_correct:
  assumes mem: "length (memory_of st) \<le> 2 ^ 31"
  shows "computes env (op_i64_store off) MSH_I64_STORE st [hi32 v, lo32 v, a]
    (stored st (wasm_store (to_le_bytes 8 v) (memory_of st) a off))"
proof (rule computes_stored)
  let ?mem = "memory_of st" and ?p = "unat off + unat a"
  let ?hi = "to_le_bytes 4 (hi32 v)" and ?lo = "to_le_bytes 4 (lo32 v)"
  have sat: "in_memory 4 ?mem a (saturating_add off 4) \<longleftrightarrow> in_memory 8 ?mem a off"
    using mem by (auto simp: in_memory_def unat_saturating_add min_def)
  note simps = op_i64_store_def MSH_I64_STORE_def exec_simps store_defs
    memory_of_def [symmetric] sat
  have hi: "store_wrap (to_le_bytes 4) ?mem a (saturating_add off 4) (hi32 v) =
      wasm_store ?hi ?mem a (saturating_add off 4)"
    using mem by (simp add: store_wrap_eq to_le_bytes_not_Nil)
  show "fwd (op_i64_store off) st [hi32 v, lo32 v, a] (unat MSH_I64_STORE) = Trapping t st"
    if "wasm_store (to_le_bytes 8 v) ?mem a off = Inl t" for t
    using that by (simp add: simps hi) (simp add: wasm_store_def sat split: if_splits)
  show "\<exists>r'. fwd (op_i64_store off) st [hi32 v, lo32 v, a] (unat MSH_I64_STORE) =
      Goto 0 (with_memory mem' st) [] r'"
    if m: "wasm_store (to_le_bytes 8 v) ?mem a off = Inr mem'" for mem'
  proof -
    from m have ok: "in_memory 8 ?mem a off" and mem': "mem' = overwrite ?mem ?p (?lo @ ?hi)"
      by (auto simp: wasm_store_def to_le_bytes_halves split: if_splits)
    have p: "unat (saturating_add off 4) + unat a = ?p + 4"
      using ok mem by (simp add: in_memory_def unat_saturating_add min_def)
    let ?mem1 = "overwrite ?mem (?p + 4) ?hi"
    have len: "length ?mem1 = length ?mem"
      using ok by (simp add: in_memory_def)
    have "wasm_store ?hi ?mem a (saturating_add off 4) = Inr ?mem1"
      using ok sat p by (simp only: wasm_store_def length_to_le_bytes) simp
    moreover have "store_wrap (to_le_bytes 4) ?mem1 a off (lo32 v) = Inr (overwrite ?mem1 ?p ?lo)"
      using ok mem len by (simp add: store_wrap_eq to_le_bytes_not_Nil wasm_store_def in_memory_def)
    moreover have "overwrite ?mem1 ?p ?lo = mem'"
      using ok overwrite_twice [of ?p ?lo ?hi ?mem] by (simp add: mem' in_memory_def)
    moreover have "memory_of (with_memory m st) = m" "with_memory m2 (with_memory m1 st) = with_memory m2 st" for m m1 m2
      by (simp_all add: memory_of_def with_memory_def)
    ultimately show ?thesis
      by (simp add: simps hi)
  qed
qed

lemma op_i64_const_correct: "yields env (op_i64_const v) MSH_I64_CONST [] [hi32 v, lo32 v]"
  by (rule yieldsI) (simp add: op_i64_const_def MSH_I64_CONST_def exec_simps)

end
