(* ===== verification/Fuel_Policy.thy ===== *)
theory Fuel_Policy
  imports Prelude
begin

text \<open>
  What the sources use of the crate \<open>rwasm_fuel_policy\<close>, which is not part of the
  repository: its constants and cost functions are the fields of a record that the
  definitions of the compiler take as an argument, and \<open>SyscallFuelParams\<close> is a datatype
  with the constructors and fields the sources match on. Nothing is assumed of the values,
  except where a lemma names it: the number of bytes (table elements) per unit of fuel is
  two to the power of the shift that goes with it, as the comments in
  \<open>src/isa/memory.rs\<close> and \<open>src/isa/table.rs\<close> say.
\<close>

record fuel_policy =
  memory_bytes_per_fuel :: u32
  memory_bytes_per_fuel_log2 :: u32
  table_elems_per_fuel :: u32
  table_elems_per_fuel_log2 :: u32
  fuel_max_linear_x :: u32
  fuel_max_quadratic_x :: u32
  cost_base :: u32
  cost_entity :: u32
  cost_load :: u32
  cost_store :: u32
  cost_call :: u32
  fuel_for_locals :: "u32 \<Rightarrow> u32"
  fuel_for_drop_keep :: "u16 \<Rightarrow> u16 \<Rightarrow> u32"

datatype syscall_fuel_params =
    FuelNone
  | FuelConst (base_cost: u64)
  | LinearFuel (param_index: u32) (base_fuel: u32) (linear_word_cost: u32)
  | QuadraticFuel (local_depth: u32) (word_cost: u32) (divisor: u32) (fuel_denom_rate: u32)

definition power_of_two_rate :: "u32 \<Rightarrow> u32 \<Rightarrow> bool" where
  "power_of_two_rate per log2 \<longleftrightarrow> unat log2 < 32 \<and> per = push_bit (unat log2) 1"

lemma unat_rate: "power_of_two_rate per log2 \<Longrightarrow> unat per = 2 ^ unat log2"
proof -
  assume rate: "power_of_two_rate per log2"
  then have "unat (push_bit (unat log2) (1 :: u32)) = take_bit 32 (push_bit (unat log2) 1)"
    by (simp only: unsigned_push_bit_eq) simp
  also have "\<dots> = 2 ^ unat log2"
    using rate power_strict_increasing [of "unat log2" 32 "2 :: nat"]
    by (simp add: power_of_two_rate_def push_bit_eq_mult take_bit_eq_mod)
  finally show ?thesis using rate by (simp only: power_of_two_rate_def)
qed

text \<open>The rounded-up charge of \<open>n\<close> units, when the sum does not wrap.\<close>

lemma rounded_charge:
  assumes rate: "power_of_two_rate per log2" and n: "unat n + unat per \<le> 2 ^ 32"
  shows "unat (drop_bit (unat log2) (n + (per - 1))) = (unat n + unat per - 1) div unat per"
proof -
  have pos: "0 < unat per" using unat_rate [OF rate] by simp
  have "unat (per - 1) = unat per - 1"
    using pos by (subst unat_minus_one) (auto simp: unat_gt_0)
  then have "unat (n + (per - 1)) = unat n + unat per - 1"
    using n pos by (simp add: unat_word_ariths)
  then show ?thesis
    by (simp only: unat_drop_bit_eq) (simp only: drop_bit_eq_div unat_rate [OF rate])
qed

end
