(* ===== verification/Isa_Checked.thy ===== *)
theory Isa_Checked
  imports Isa_Memory Fuel_Policy
begin

text \<open>
  The checked lowering of the bulk memory and table instructions (\<open>src/isa/memory.rs\<close>,
  \<open>src/isa/table.rs\<close>): limit checks that answer \<open>-1\<close> or trap, the rewriting of a
  segment's offset, and the fuel charge before the instruction itself. The lemmas give what
  each routine does in the range where the 32-bit sums do not wrap, and what the signed
  comparison of a wrapped sum lets through.
\<close>

section \<open>The routines\<close>

definition N_BYTES_PER_MEMORY_PAGE :: u32 where "N_BYTES_PER_MEMORY_PAGE = 65536"

definition MSH_MEMORY_GROW_CHECKED :: u32 where "MSH_MEMORY_GROW_CHECKED = 2"
definition MSH_MEMORY_FILL_CHECKED :: u32 where "MSH_MEMORY_FILL_CHECKED = 2"
definition MSH_MEMORY_COPY_CHECKED :: u32 where "MSH_MEMORY_COPY_CHECKED = 2"
definition MSH_MEMORY_INIT_CHECKED :: u32 where "MSH_MEMORY_INIT_CHECKED = 2"
definition MSH_TABLE_INIT_CHECKED :: u32 where "MSH_TABLE_INIT_CHECKED = 2"
definition MSH_TABLE_GROW_CHECKED :: u32 where "MSH_TABLE_GROW_CHECKED = 2"
definition MSH_TABLE_FILL_CHECKED :: u32 where "MSH_TABLE_FILL_CHECKED = 2"
definition MSH_TABLE_COPY_CHECKED :: u32 where "MSH_TABLE_COPY_CHECKED = 2"

text \<open>The block that charges the rounded-up number of units, shared by the routines.\<close>

definition charge_units :: "u32 \<Rightarrow> u32 \<Rightarrow> bool \<Rightarrow> opcode list" where
  "charge_units per log2 inject_fuel_check =
     (if inject_fuel_check
      then [LocalGet 1, I32Const (per - 1), I32Add, I32Const log2, I32ShrU, ConsumeFuelStack] else [])"

definition op_memory_grow_checked :: "fuel_policy \<Rightarrow> u32 option \<Rightarrow> bool \<Rightarrow> opcode list" where
  "op_memory_grow_checked fp max_pages inject_fuel_check =
     (case max_pages of
        Some max_pages \<Rightarrow>
          [LocalGet 1, MemorySize, I32Add, I32Const max_pages, I32GtS, BrIfEqz 4, Drop,
           I32Const 0xFFFFFFFF, Br (if inject_fuel_check then 8 else 2)]
      | None \<Rightarrow> []) @
     (if inject_fuel_check
      then [LocalGet 1, I32Const N_BYTES_PER_MEMORY_PAGE, I32Mul,
            I32Const (memory_bytes_per_fuel_log2 fp), I32ShrU, ConsumeFuelStack]
      else []) @
     [MemoryGrow]"

definition op_memory_fill_checked :: "fuel_policy \<Rightarrow> bool \<Rightarrow> opcode list" where
  "op_memory_fill_checked fp inject_fuel_check =
     charge_units (memory_bytes_per_fuel fp) (memory_bytes_per_fuel_log2 fp) inject_fuel_check @
     [MemoryFill]"

definition op_memory_copy_checked :: "fuel_policy \<Rightarrow> bool \<Rightarrow> opcode list" where
  "op_memory_copy_checked fp inject_fuel_check =
     charge_units (memory_bytes_per_fuel fp) (memory_bytes_per_fuel_log2 fp) inject_fuel_check @
     [MemoryCopy]"

text \<open>The part of the two \<open>init\<close> routines before the charge: the length check and the new offset.\<close>

definition length_check :: "u32 \<Rightarrow> trap_code \<Rightarrow> opcode list" where
  "length_check len t =
     [LocalGet 1, LocalGet 3, I32Add, I32Const len, I32GtS, BrIfEqz 2, Trap t]"

definition offset_rewrite :: "u32 \<Rightarrow> opcode list" where
  "offset_rewrite offset = [I32Const offset, LocalGet 3, I32Add, LocalSet 2]"

definition op_memory_init_checked ::
  "fuel_policy \<Rightarrow> u32 option \<Rightarrow> u32 option \<Rightarrow> u32 \<Rightarrow> bool \<Rightarrow> opcode list" where
  "op_memory_init_checked fp rewrite_offset rewrite_length data_segment_index inject_fuel_check =
     (case rewrite_length of
        Some len \<Rightarrow> if len > 0 then length_check len MemoryOutOfBounds else []
      | None \<Rightarrow> []) @
     (case rewrite_offset of
        Some offset \<Rightarrow> if offset > 0 then offset_rewrite offset else []
      | None \<Rightarrow> []) @
     charge_units (memory_bytes_per_fuel fp) (memory_bytes_per_fuel_log2 fp) inject_fuel_check @
     [MemoryInit data_segment_index]"

definition op_table_init_checked ::
  "fuel_policy \<Rightarrow> u32 \<Rightarrow> u16 \<Rightarrow> u32 \<Rightarrow> u32 \<Rightarrow> bool \<Rightarrow> opcode list" where
  "op_table_init_checked fp segment_index table_index len offset inject_fuel_check =
     length_check len TableOutOfBounds @
     (if offset > 0 then offset_rewrite offset else []) @
     charge_units (table_elems_per_fuel fp) (table_elems_per_fuel_log2 fp) inject_fuel_check @
     [TableInit segment_index, TableGet table_index]"

definition op_table_grow_checked :: "fuel_policy \<Rightarrow> u16 \<Rightarrow> u32 option \<Rightarrow> bool \<Rightarrow> opcode list" where
  "op_table_grow_checked fp table_idx limit_check inject_fuel_check =
     (case limit_check of
        Some limit \<Rightarrow>
          [LocalGet 1, TableSize table_idx, I32Add, I32Const limit, I32GtS, BrIfEqz 5, Drop, Drop,
           I32Const 0xFFFFFFFF, Br (if inject_fuel_check then 8 else 2)]
      | None \<Rightarrow> []) @
     charge_units (table_elems_per_fuel fp) (table_elems_per_fuel_log2 fp) inject_fuel_check @
     [TableGrow table_idx]"

definition op_table_fill_checked :: "fuel_policy \<Rightarrow> u16 \<Rightarrow> bool \<Rightarrow> opcode list" where
  "op_table_fill_checked fp table_idx inject_fuel_check =
     charge_units (table_elems_per_fuel fp) (table_elems_per_fuel_log2 fp) inject_fuel_check @
     [TableFill table_idx]"

definition op_table_copy_checked :: "fuel_policy \<Rightarrow> u16 \<Rightarrow> u16 \<Rightarrow> bool \<Rightarrow> opcode list" where
  "op_table_copy_checked fp dst_table_idx src_table_idx inject_fuel_check =
     charge_units (table_elems_per_fuel fp) (table_elems_per_fuel_log2 fp) inject_fuel_check @
     [TableCopy dst_table_idx src_table_idx]"

section \<open>The charge\<close>

text \<open>The units a routine charges for \<open>n\<close>, as the code computes them: a sum that wraps and a
  shift by the amount modulo 32.\<close>

definition units :: "u32 \<Rightarrow> u32 \<Rightarrow> u32 \<Rightarrow> u32" where
  "units per log2 n = i32_shr_u (n + (per - 1)) log2"

lemma fwd_charge_units:
  "2 \<le> r \<Longrightarrow> fwd (charge_units per log2 inject) st (n # s) r =
    (if inject then
       case try_consume_fuel (ucast (units per log2 n)) st of
         Inl t \<Rightarrow> Trapping t st | Inr st' \<Rightarrow> Goto 0 st' (n # s) r
     else Goto 0 st (n # s) r)"
  by (auto simp: charge_units_def exec_simps units_def add.commute split: sum.split)

text \<open>Within the range it is the quotient rounded up.\<close>

lemma units_rounded:
  assumes "power_of_two_rate per log2" and "unat n + unat per \<le> 2 ^ 32"
  shows "unat (units per log2 n) = (unat n + unat per - 1) div unat per"
proof -
  have "unat (log2 AND 31) = unat log2"
    using assms(1) by (simp add: power_of_two_rate_def mask_numerals unat_and_mask)
  with rounded_charge [OF assms] show ?thesis
    by (simp add: units_def i32_shr_u_def)
qed

text \<open>The outcome of a routine, read off its evaluation.\<close>

lemma computes_result:
  "(case fwd ops st ins (unat msh) of
      Goto d st' outs r \<Rightarrow> d = 0 \<and> res = Inr (st', outs)
    | Trapping c st' \<Rightarrow> res = Inl (c, st')
    | Outside \<Rightarrow> False) \<Longrightarrow> computes env ops msh st ins res"
  by (cases "fwd ops st ins (unat msh)") (auto intro: computes_fwd computes_fwd_trap)

section \<open>Growing the memory\<close>

text \<open>What the routine does when nothing wraps: above the maximum it answers \<open>-1\<close> for free,
  otherwise it charges the new bytes and grows.\<close>

definition grow_checked :: "u32 \<Rightarrow> u32 \<Rightarrow> u32 \<Rightarrow> 'h store \<Rightarrow> (trap_code \<times> 'h store) + ('h store \<times> u32 list)" where
  "grow_checked log2 mx d st =
     (if unat (current_pages (global_memory st)) + unat d > unat mx then Inr (st, [0xFFFFFFFF])
      else case try_consume_fuel (ucast (i32_shr_u (d * N_BYTES_PER_MEMORY_PAGE) log2)) st of
        Inl t \<Rightarrow> Inl (t, st)
      | Inr st' \<Rightarrow>
          (case memory_grow d (global_memory st') of
             Some (p, g) \<Rightarrow>
               Inr (st'\<lparr>global_memory := g\<rparr>, [case p of Some p \<Rightarrow> p | None \<Rightarrow> 0xFFFFFFFF])
           | None \<Rightarrow> Inr (st', [0xFFFFFFFF])))"

lemma gt_s_small:
  "unat a < 2 ^ 31 \<Longrightarrow> unat b < 2 ^ 31 \<Longrightarrow> i32_gt_s a b = of_bool (unat b < unat a)"
  by (simp add: i32_gt_s_def sint_small del: of_nat_unat)

lemma op_memory_grow_checked_correct:
  assumes wf: "memory_wf (global_memory st)" and d: "unat d < 2 ^ 30" and mx: "unat mx \<le> 65536"
  shows "computes env (op_memory_grow_checked fp (Some mx) True) MSH_MEMORY_GROW_CHECKED st [d]
    (grow_checked (memory_bytes_per_fuel_log2 fp) mx d st)"
proof -
  let ?p = "current_pages (global_memory st)"
  have p: "unat ?p \<le> 32768"
    using wf by (auto simp: memory_wf_def N_MAX_ALLOWED_MEMORY_PAGES_def word_le_nat_alt)
  then have sum: "unat (?p + d) = unat ?p + unat d"
    using d by (simp add: unat_word_ariths)
  then have cmp: "sint mx < sint (d + ?p) \<longleftrightarrow> unat mx < unat ?p + unat d"
    using p d mx by (simp add: sint_small add.commute del: of_nat_unat flip: of_nat_add)
  note simps = op_memory_grow_checked_def MSH_MEMORY_GROW_CHECKED_def exec_simps jump_def cmp
    grow_checked_def i32_shr_u_def
  have pd: "pages_new d = Some d" if "unat ?p + unat d \<le> unat mx"
    using that mx by (simp add: pages_new_def pages_max_def word_less_nat_alt)
  have mem: "global_memory st' = global_memory st" if "try_consume_fuel u st = Inr st'" for u st'
    using that by (auto simp: try_consume_fuel_def Let_def split: option.splits if_splits)
  obtain r g where grown: "memory_grow d (global_memory st) = Some (r, g)"
    using memory_grow_total [OF wf] by blast
  show ?thesis
    by (rule computes_result)
      (auto simp: simps growing_def pd mem grown not_less split: sum.split option.split)
qed

text \<open>The charge does not wrap below the limit: it is 65536 bytes a page.\<close>

lemma grown_bytes: "unat d \<le> 65535 \<Longrightarrow> unat (d * N_BYTES_PER_MEMORY_PAGE) = 65536 * unat d"
  by (simp add: N_BYTES_PER_MEMORY_PAGE_def unat_word_ariths)

text \<open>A growth by \<open>2 ^ 31\<close> pages is above every limit, but its wrapped sum is negative: the check
  lets it through, and the wrapped product charges nothing.\<close>

lemma grow_check_wraps:
  assumes wf: "memory_wf (global_memory st)" and mx: "unat mx \<le> 65536"
  shows "i32_gt_s (0x80000000 + current_pages (global_memory st)) mx = 0"
proof -
  let ?p = "current_pages (global_memory st)"
  have p: "unat ?p \<le> 32768"
    using wf by (auto simp: memory_wf_def N_MAX_ALLOWED_MEMORY_PAGES_def word_le_nat_alt)
  then have "unat (0x80000000 + ?p) = 2 ^ 31 + unat ?p"
    by (simp add: unat_word_ariths)
  then have "sint (0x80000000 + ?p) < 0"
    using top_bit [of "0x80000000 + ?p"] unat_less [of "0x80000000 + ?p"] p
    by (simp add: sint_bit del: of_nat_unat)
  then show ?thesis
    using mx by (simp add: i32_gt_s_def sint_small del: of_nat_unat)
qed

lemma grow_charge_wraps: "(0x80000000 :: u32) * N_BYTES_PER_MEMORY_PAGE = 0"
  by (rule unsigned_word_eqI [where ?'a = nat]) (simp add: N_BYTES_PER_MEMORY_PAGE_def unat_word_ariths)

lemma op_memory_grow_checked_wraps:
  assumes wf: "memory_wf (global_memory st)" and mx: "unat mx \<le> 65536"
    and limit: "fuel_wf st"
  shows "computes env (op_memory_grow_checked fp (Some mx) True) MSH_MEMORY_GROW_CHECKED st [0x80000000]
    (Inr (st, [- 1]))"
proof -
  have cmp: "\<not> sint mx < sint (0x80000000 + current_pages (global_memory st))"
    using grow_check_wraps [OF wf mx] by (simp add: i32_gt_s_def split: if_splits)
  have free: "try_consume_fuel 0 st = Inr st"
    using limit unat_less [of "consumed_fuel st"]
    by (auto simp: try_consume_fuel_def saturating_add_def fuel_wf_def Let_def not_le split: option.splits)
  show ?thesis
    by (rule computes_result)
      (simp add: op_memory_grow_checked_def MSH_MEMORY_GROW_CHECKED_def exec_simps jump_def cmp
        growing_def pages_new_def pages_max_def grow_charge_wraps free)
qed

section \<open>Filling and copying\<close>

text \<open>The fuel first, then the instruction.\<close>

definition charged ::
  "bool \<Rightarrow> u32 \<Rightarrow> ('h store \<Rightarrow> (trap_code + 'h store) option) \<Rightarrow> 'h store \<Rightarrow>
   ((trap_code \<times> 'h store) + ('h store \<times> u32 list)) option" where
  "charged inject n f st =
     (case (if inject then try_consume_fuel (ucast n) st else Inr st) of
        Inl t \<Rightarrow> Some (Inl (t, st))
      | Inr st' \<Rightarrow>
          (case f st' of
             None \<Rightarrow> None
           | Some (Inl t) \<Rightarrow> Some (Inl (t, st'))
           | Some (Inr st'') \<Rightarrow> Some (Inr (st'', []))))"

lemma computes_charged:
  assumes body: "\<And>st r. fwd [op] st [n, v, d] r = (case f st of
      None \<Rightarrow> Outside | Some (Inl t) \<Rightarrow> Trapping t st | Some (Inr st') \<Rightarrow> Goto 0 st' [] (r + 3))"
    and res: "charged inject (units per log2 n) f st = Some res" and msh: "2 \<le> unat msh"
  shows "computes env (charge_units per log2 inject @ [op]) msh st [n, v, d] res"
proof (rule computes_result)
  show "(case fwd (charge_units per log2 inject @ [op]) st [n, v, d] (unat msh) of
      Goto d st' outs r \<Rightarrow> d = 0 \<and> res = Inr (st', outs)
    | Trapping c st' \<Rightarrow> res = Inl (c, st') | Outside \<Rightarrow> False)"
  proof (cases "inject \<longrightarrow> (\<exists>st'. try_consume_fuel (ucast (units per log2 n)) st = Inr st')")
    case False
    then obtain t where "inject" "try_consume_fuel (ucast (units per log2 n)) st = Inl t"
      by (metis old.sum.exhaust)
    moreover from this have "fwd (charge_units per log2 inject @ [op]) st [n, v, d] (unat msh) = Trapping t st"
      by (intro fwd_append_trap) (simp add: fwd_charge_units [OF msh])
    ultimately show ?thesis using res by (simp add: charged_def)
  next
    case True
    then obtain st' where st': "(if inject then try_consume_fuel (ucast (units per log2 n)) st else Inr st) = Inr st'"
      by (cases inject) auto
    then have "fwd (charge_units per log2 inject @ [op]) st [n, v, d] (unat msh) =
        fwd (drop (nat 0) [op]) st' [n, v, d] (unat msh)"
      by (intro fwd_append) (auto simp: fwd_charge_units [OF msh] split: if_splits)
    then show ?thesis
      using res st' by (auto simp: body charged_def split: option.splits sum.splits)
  qed
qed

lemma op_memory_fill_checked_correct:
  "charged inject (units (memory_bytes_per_fuel fp) (memory_bytes_per_fuel_log2 fp) n)
     (filled_memory d v n) st = Some res \<Longrightarrow>
   computes env (op_memory_fill_checked fp inject) MSH_MEMORY_FILL_CHECKED st [n, v, d] res"
  unfolding op_memory_fill_checked_def
  by (rule computes_charged) (simp_all add: exec_simps MSH_MEMORY_FILL_CHECKED_def split: option.split sum.split)

lemma op_memory_copy_checked_correct:
  "charged inject (units (memory_bytes_per_fuel fp) (memory_bytes_per_fuel_log2 fp) n)
     (copied_memory d s n) st = Some res \<Longrightarrow>
   computes env (op_memory_copy_checked fp inject) MSH_MEMORY_COPY_CHECKED st [n, s, d] res"
  unfolding op_memory_copy_checked_def
  by (rule computes_charged) (simp_all add: exec_simps MSH_MEMORY_COPY_CHECKED_def split: option.split sum.split)

lemma op_table_fill_checked_correct:
  "charged inject (units (table_elems_per_fuel fp) (table_elems_per_fuel_log2 fp) n)
     (filled_table i d v n) st = Some res \<Longrightarrow>
   computes env (op_table_fill_checked fp i inject) MSH_TABLE_FILL_CHECKED st [n, v, d] res"
  unfolding op_table_fill_checked_def
  by (rule computes_charged) (simp_all add: exec_simps MSH_TABLE_FILL_CHECKED_def split: option.split sum.split)

lemma op_table_copy_checked_correct:
  "charged inject (units (table_elems_per_fuel fp) (table_elems_per_fuel_log2 fp) n)
     (copied_table i j d s n) st = Some res \<Longrightarrow>
   computes env (op_table_copy_checked fp i j inject) MSH_TABLE_COPY_CHECKED st [n, s, d] res"
  unfolding op_table_copy_checked_def
  by (rule computes_charged) (simp_all add: exec_simps MSH_TABLE_COPY_CHECKED_def split: option.split sum.split)

section \<open>Growing a table\<close>

definition table_grow_checked ::
  "u32 \<Rightarrow> u16 \<Rightarrow> u32 \<Rightarrow> u32 \<Rightarrow> u32 \<Rightarrow> 'h store \<Rightarrow> table_entity \<Rightarrow>
   (trap_code \<times> 'h store) + ('h store \<times> u32 list)" where
  "table_grow_checked charge i limit d init st t =
     (if length t + unat d > unat limit then Inr (st, [0xFFFFFFFF])
      else case try_consume_fuel (ucast charge) st of
        Inl c \<Rightarrow> Inl (c, st)
      | Inr st' \<Rightarrow> (case grow_untyped d init t of (r, t) \<Rightarrow> Inr (with_table i t st', [r])))"

lemma op_table_grow_checked_correct:
  assumes t: "tables st i = Some t" "table_wf t" and d: "unat d < 2 ^ 30" and limit: "unat limit < 2 ^ 30"
  shows "computes env (op_table_grow_checked fp i (Some limit) True) MSH_TABLE_GROW_CHECKED st [d, init]
    (table_grow_checked (units (table_elems_per_fuel fp) (table_elems_per_fuel_log2 fp) d) i limit d init st t)"
proof -
  have len: "length t \<le> 1024" using t(2) by (simp add: table_wf_def N_MAX_TABLE_SIZE_def)
  have size: "unat (table_size t) = length t" by (rule unat_table_size [OF t(2)])
  then have "unat (table_size t + d) = length t + unat d"
    using d len by (simp add: unat_word_ariths)
  then have cmp: "sint limit < sint (d + table_size t) \<longleftrightarrow> unat limit < length t + unat d"
    using len d limit by (simp add: sint_small add.commute del: of_nat_unat flip: of_nat_add)
  have tabs: "tables st' = tables st" if "try_consume_fuel u st = Inr st'" for u st'
    using that by (auto simp: try_consume_fuel_def Let_def split: option.splits if_splits)
  show ?thesis
    by (rule computes_result)
      (auto simp: op_table_grow_checked_def MSH_TABLE_GROW_CHECKED_def charge_units_def exec_simps
        jump_def cmp table_grow_checked_def t(1) tabs units_def table_growing_def with_table_def
        not_less Let_def split: sum.split prod.split)
qed

end
