(* ===== verification/Isa_Init.thy ===== *)
theory Isa_Init
  imports Isa_Checked Routine_Run
begin

text \<open>
  The checked \<open>memory.init\<close> and \<open>table.init\<close> (\<open>op_memory_init_checked\<close> of
  \<open>src/isa/memory.rs\<close>, \<open>op_table_init_checked\<close> of \<open>src/isa/table.rs\<close>) run to the end:
  the length check, the rewriting of the source offset into the merged section, the charge
  and the initialisation itself, which reads the module. The length check compares a
  wrapping sum as a signed number; \<open>length_check_small\<close> says when that is the check of the
  specification, \<open>length_check_wraps\<close> gives operands it lets through.
\<close>

declare split_paired_Ex [simp del] split_paired_All [simp del]

section \<open>The last instruction of the two routines\<close>

definition initialised_memory ::
  "'h env \<Rightarrow> u32 \<Rightarrow> u32 \<Rightarrow> u32 \<Rightarrow> u32 \<Rightarrow> 'h store \<Rightarrow> trap_code + 'h store" where
  "initialised_memory env i d src n st =
     (case slice_get (memory_of st) (i32_as_usize d) (i32_as_usize n) of
        None \<Rightarrow> Inl MemoryOutOfBounds
      | Some _ \<Rightarrow>
          (case slice_get (if flag_at (empty_data_segments st) i then [] else data_section (module env))
              (i32_as_usize src) (i32_as_usize n) of
             None \<Rightarrow> Inl MemoryOutOfBounds
           | Some bytes \<Rightarrow> Inr (with_memory (overwrite (memory_of st) (i32_as_usize d) bytes) st)))"

definition initialised_table ::
  "'h env \<Rightarrow> u32 \<Rightarrow> u16 \<Rightarrow> u32 \<Rightarrow> u32 \<Rightarrow> u32 \<Rightarrow> 'h store \<Rightarrow> (trap_code + 'h store) option" where
  "initialised_table env i j d src n st =
     do { t \<leftarrow> tables st j;
          Some (updated_table j (init_untyped d
            (if flag_at (empty_elem_segments st) i then [] else elem_section (module env)) src n t) st) }"

definition outcome :: "'h store \<Rightarrow> trap_code + 'h store \<Rightarrow> (trap_code \<times> 'h store) + ('h store \<times> u32 list)" where
  "outcome st r = (case r of Inl t \<Rightarrow> Inl (t, st) | Inr st' \<Rightarrow> Inr (st', []))"

lemma computes_memory_init:
  "computes env [MemoryInit i] msh st [n, src, d] (outcome st (initialised_memory env i d src n st))"
proof (rule computes_follows)
  fix x t r k
  assume x: "code_at (code_section (module env)) k [MemoryInit i]" "ip x = int k" "store x = st"
    "repr (stack_of x) ([n, src, d] @ t) r"
  then obtain m where m: "pop3 (stack_of x) = Some ((d, src, n), m)" "repr m t (r + 3)"
    using repr_pop3 by fastforce
  show "follows x (exec_step env x) (case outcome st (initialised_memory env i d src n st) of
      Inr (st', outs) \<Rightarrow> Goto (int (length [MemoryInit i])) st' (outs @ t) (r + length [n, src, d] - length outs)
    | Inl (c, st') \<Rightarrow> Trapping c st')"
    using m x fetch_at [OF x(1)]
    by (auto simp: exec_step_def step_def visit_memory_init_def from_stack_def outcome_def
        initialised_memory_def follow_defs set_stack_def memory_of_def with_memory_def
        exec_memory_def set_exec_memory_def Let_def numeral_3_eq_3 split: option.split)
qed

lemma computes_table_init:
  assumes res: "initialised_table env i j d src n st = Some res"
  shows "computes env [TableInit i, TableGet j] msh st [n, src, d] (outcome st res)"
proof (rule computes_follows)
  fix x t r k
  assume x: "code_at (code_section (module env)) k [TableInit i, TableGet j]" "ip x = int k" "store x = st"
    "repr (stack_of x) ([n, src, d] @ t) r"
  then obtain m where m: "pop3 (stack_of x) = Some ((d, src, n), m)" "repr m t (r + 3)"
    using repr_pop3 by fastforce
  have nxt: "fetch (code_section (module env)) (int k + 1) = Some (TableGet j)"
    using fetch_code_at [OF x(1), of 1] by (simp add: fetch_def)
  let ?es = "if flag_at (empty_elem_segments st) i then [] else elem_section (module env)"
  obtain tab where tab: "tables st j = Some tab" "res = updated_table j (init_untyped d ?es src n tab) st"
    using res by (auto simp: initialised_table_def bind_eq_Some_conv)
  show "follows x (exec_step env x) (case outcome st res of
      Inr (st', outs) \<Rightarrow> Goto (int (length [TableInit i, TableGet j])) st' (outs @ t) (r + length [n, src, d] - length outs)
    | Inl (c, st') \<Rightarrow> Trapping c st')"
    using m x(2-3) fetch_at [OF x(1)] nxt tab
    by (cases "init_untyped d ?es src n tab")
      (auto simp: exec_step_def step_def visit_table_init_def fetch_table_index_def from_stack_def
        outcome_def follow_defs set_stack_def updated_table_def with_table_def table_result_def
        set_table_def Let_def numeral_3_eq_3)
qed

section \<open>The checked routines\<close>

text \<open>The charge, then an instruction that updates the store.\<close>

lemma computes_charge_then:
  assumes tail: "\<And>st r. f st = Some r \<Longrightarrow> computes env tail msh st [n, v, d] (outcome st r)"
    and res: "charged inject (units per log2 n) f st = Some res" and msh: "2 \<le> unat msh"
  shows "computes env (charge_units per log2 inject @ tail) msh st [n, v, d] res"
proof (cases "if inject then try_consume_fuel (ucast (units per log2 n)) st else Inr st")
  case (Inl t)
  then have "res = Inl (t, st)" and "inject" using res by (auto simp: charged_def split: if_splits)
  moreover from this Inl have "fwd (charge_units per log2 inject) st [n, v, d] (unat msh) = Trapping t st"
    by (simp add: fwd_charge_units [OF msh])
  ultimately show ?thesis by (auto intro: computes_append_trap computes_fwd_trap)
next
  case (Inr st')
  then have "fwd (charge_units per log2 inject) st [n, v, d] (unat msh) = Goto 0 st' [n, v, d] (unat msh)"
    by (auto simp: fwd_charge_units [OF msh] split: if_splits)
  then have first: "computes env (charge_units per log2 inject) msh st [n, v, d] (Inr (st', [n, v, d]))"
    by (rule computes_fwd)
  from Inr res obtain r where r: "f st' = Some r" "res = outcome st' r"
    by (auto simp: charged_def outcome_def split: option.splits sum.splits)
  show ?thesis
    unfolding r(2) by (rule computes_append [OF first tail [OF r(1)]]) simp
qed

lemma computes_length_check:
  assumes msh: "2 \<le> unat msh"
  shows "computes env (length_check len t) msh st [n, s, d]
    (if i32_gt_s (n + s) len \<noteq> 0 then Inl (t, st) else Inr (st, [n, s, d]))"
  using msh
  by (intro computes_result) (simp add: length_check_def exec_simps jump_def)

lemma computes_offset_rewrite:
  assumes msh: "2 \<le> unat msh"
  shows "computes env (if offset > 0 then offset_rewrite offset else []) msh st [n, s, d]
    (Inr (st, [n, s + offset, d]))"
  using msh
  by (intro computes_result) (simp add: offset_rewrite_def exec_simps word_gt_0)

lemma op_table_init_checked_computes:
  assumes "charged inject (units (table_elems_per_fuel fp) (table_elems_per_fuel_log2 fp) n)
      (initialised_table env i j d (s + offset) n) st = Some res"
  shows "computes env (op_table_init_checked fp i j len offset inject) MSH_TABLE_INIT_CHECKED st [n, s, d]
    (if i32_gt_s (n + s) len \<noteq> 0 then Inl (TableOutOfBounds, st) else res)"
proof -
  note check = computes_length_check [of MSH_TABLE_INIT_CHECKED env len TableOutOfBounds st n s d]
  have rest: "computes env ((if offset > 0 then offset_rewrite offset else []) @
      charge_units (table_elems_per_fuel fp) (table_elems_per_fuel_log2 fp) inject @
      [TableInit i, TableGet j]) MSH_TABLE_INIT_CHECKED st [n, s, d] res"
    by (rule computes_append [OF computes_offset_rewrite
          computes_charge_then [where msh = MSH_TABLE_INIT_CHECKED, OF computes_table_init assms]])
      (simp_all add: MSH_TABLE_INIT_CHECKED_def)
  show ?thesis
  proof (cases "i32_gt_s (n + s) len \<noteq> 0")
    case True
    with check show ?thesis
      by (simp add: op_table_init_checked_def MSH_TABLE_INIT_CHECKED_def computes_append_trap)
  next
    case False
    with check have "computes env (length_check len TableOutOfBounds) MSH_TABLE_INIT_CHECKED st
        [n, s, d] (Inr (st, [n, s, d]))"
      by (simp add: MSH_TABLE_INIT_CHECKED_def)
    from computes_append [OF this rest] False show ?thesis
      by (simp add: op_table_init_checked_def)
  qed
qed

lemma op_memory_init_checked_computes:
  assumes "charged inject (units (memory_bytes_per_fuel fp) (memory_bytes_per_fuel_log2 fp) n)
      (\<lambda>st. Some (initialised_memory env i d (s + offset) n st)) st = Some res" and len: "len > 0"
  shows "computes env (op_memory_init_checked fp (Some offset) (Some len) i inject) MSH_MEMORY_INIT_CHECKED
    st [n, s, d] (if i32_gt_s (n + s) len \<noteq> 0 then Inl (MemoryOutOfBounds, st) else res)"
proof -
  note check = computes_length_check [of MSH_MEMORY_INIT_CHECKED env len MemoryOutOfBounds st n s d]
  have rest: "computes env ((if offset > 0 then offset_rewrite offset else []) @
      charge_units (memory_bytes_per_fuel fp) (memory_bytes_per_fuel_log2 fp) inject @ [MemoryInit i])
      MSH_MEMORY_INIT_CHECKED st [n, s, d] res"
    by (rule computes_append [OF computes_offset_rewrite
          computes_charge_then [where msh = MSH_MEMORY_INIT_CHECKED, OF _ assms(1)]])
      (auto simp: MSH_MEMORY_INIT_CHECKED_def intro: computes_memory_init)
  show ?thesis
  proof (cases "i32_gt_s (n + s) len \<noteq> 0")
    case True
    with check len show ?thesis
      by (simp add: op_memory_init_checked_def MSH_MEMORY_INIT_CHECKED_def computes_append_trap)
  next
    case False
    with check have "computes env (length_check len MemoryOutOfBounds) MSH_MEMORY_INIT_CHECKED st
        [n, s, d] (Inr (st, [n, s, d]))"
      by (simp add: MSH_MEMORY_INIT_CHECKED_def)
    from computes_append [OF this rest] False len show ?thesis
      by (simp add: op_memory_init_checked_def)
  qed
qed

text \<open>Below \<open>2 ^ 31\<close> the check is the one the specification asks for.\<close>

lemma length_check_small:
  assumes "unat n + unat s < 2 ^ 31" and "unat len < 2 ^ 31"
  shows "i32_gt_s (n + s) len \<noteq> 0 \<longleftrightarrow> unat len < unat n + unat s"
proof -
  have "unat (n + s) = unat n + unat s" using assms by (simp add: unat_word_ariths)
  then show ?thesis using assms by (simp add: gt_s_small)
qed

text \<open>A source offset of \<open>2 ^ 32 - 1\<close> with a length of one wraps to zero and passes.\<close>

lemma length_check_wraps: "unat len < 2 ^ 31 \<Longrightarrow> i32_gt_s (1 + 0xFFFFFFFF) len = 0"
  by (simp add: i32_gt_s_def sint_small del: of_nat_unat)

end
