(* ===== verification/Memory_Run.thy ===== *)
theory Memory_Run
  imports Isa_Memory Routine_Run
begin

text \<open>
  The 64-bit loads and stores as programs of the engine: the outcome of executing the
  lowering of \<open>src/isa/memory.rs\<close> in terms of the WebAssembly load and store, and what a
  load reads after a store.
\<close>

definition load_result :: "'h store \<Rightarrow> val list \<Rightarrow> trap_code + u64 \<Rightarrow> trap_code option \<times> val list \<times> 'h store" where
  "load_result st result r = (case r of
     Inl t \<Rightarrow> (Some t, result, st\<lparr>last_signature := None\<rparr>) | Inr v \<Rightarrow> (None, [I64 v], st))"

definition store_result :: "'h store \<Rightarrow> trap_code + u8 list \<Rightarrow> trap_code option \<times> val list \<times> 'h store" where
  "store_result st r = (case r of
     Inl t \<Rightarrow> (Some t, [], st\<lparr>last_signature := None\<rparr>) | Inr mem \<Rightarrow> (None, [], with_memory mem st))"

lemma program_loaded:
  assumes "computes (program ops env) ops msh st [a] (loaded st (wasm_load n f mem a off))"
    and "unat msh \<le> 28"
  shows "engine_execute (program ops env) [I32 a] [I64 x] st =
    Some (Finished (load_result st [I64 x] (wasm_load n f mem a off)))"
proof (cases "in_memory n mem a off")
  case True
  then show ?thesis using assms
    by (simp add: wasm_load_def loaded_def load_result_def)
      (rule program_returns, auto simp: val_words_def val_ty_def)
next
  case False
  then show ?thesis using assms
    by (simp add: wasm_load_def loaded_def load_result_def)
      (rule program_traps, auto simp: val_words_def)
qed

lemma program_stored:
  assumes "computes (program ops env) ops msh st [hi32 v, lo32 v, a] (stored st (wasm_store bs mem a off))"
    and "unat msh \<le> 28"
  shows "engine_execute (program ops env) [I32 a, I64 v] [] st =
    Some (Finished (store_result st (wasm_store bs mem a off)))"
proof (cases "in_memory (length bs) mem a off")
  case True
  then show ?thesis using assms
    by (simp add: wasm_store_def stored_def store_result_def)
      (rule program_returns, auto simp: val_words_def)
next
  case False
  then show ?thesis using assms
    by (simp add: wasm_store_def stored_def store_result_def)
      (rule program_traps, auto simp: val_words_def)
qed

lemma store_wf_memory: "store_wf st \<Longrightarrow> length (memory_of st) \<le> 2 ^ 31"
  using memory_wf_length [of "global_memory st"] by (simp add: store_wf_def memory_of_def)

lemma program_i64_load:
  "store_wf st \<Longrightarrow> engine_execute (program (op_i64_load off) env) [I32 a] [I64 x] st =
    Some (Finished (load_result st [I64 x] (wasm_load 8 from_le_bytes (memory_of st) a off)))"
  by (rule program_loaded [OF op_i64_load_correct [OF store_wf_memory]]) (simp_all add: MSH_I64_LOAD_def)

lemma program_i64_store:
  "store_wf st \<Longrightarrow> engine_execute (program (op_i64_store off) env) [I32 a, I64 v] [] st =
    Some (Finished (store_result st (wasm_store (to_le_bytes 8 v) (memory_of st) a off)))"
  by (rule program_stored [OF op_i64_store_correct [OF store_wf_memory]]) (simp_all add: MSH_I64_STORE_def)

section \<open>Reading back\<close>

lemma take_drop_overwrite:
  "p + length bs \<le> length mem \<Longrightarrow> take (length bs) (drop p (overwrite mem p bs)) = bs"
  by (simp add: overwrite_def)

lemma wasm_load_after_store:
  assumes "wasm_store (to_le_bytes 8 v) mem a off = Inr mem'"
  shows "wasm_load 8 from_le_bytes mem' a off = Inr v"
  using assms take_drop_overwrite [of "unat off + unat a" "to_le_bytes 8 v" mem]
  by (auto simp: wasm_store_def wasm_load_def in_memory_def from_le_to_le_bytes split: if_splits)

text \<open>A load that does not overlap the eight bytes of a store reads what was there.\<close>

lemma wasm_load_disjoint:
  assumes "wasm_store bs mem a off = Inr mem'"
    and "unat off' + unat a' + n \<le> unat off + unat a \<or> unat off + unat a + length bs \<le> unat off' + unat a'"
  shows "wasm_load n f mem' a' off' = wasm_load n f mem a' off'"
proof -
  from assms(1) have m: "in_memory (length bs) mem a off" "mem' = overwrite mem (unat off + unat a) bs"
    by (auto simp: wasm_store_def split: if_splits)
  then have len: "length mem' = length mem" by (simp add: in_memory_def)
  have "take n (drop (unat off' + unat a') mem') = take n (drop (unat off' + unat a') mem)"
    if "in_memory n mem a' off'"
    using that m assms(2)
    by (intro nth_equalityI) (auto simp: in_memory_def nth_overwrite len)
  then show ?thesis
    by (simp add: wasm_load_def in_memory_def len)
qed

end
