(* ===== verification/Checked_Run.thy ===== *)
theory Checked_Run
  imports Isa_Init Memory_Run
begin

text \<open>
  The checked bulk routines as programs of the engine: which traps they end with, and
  their outcome when the code is one routine.
\<close>

definition plain_trap :: "trap_code \<Rightarrow> bool" where
  "plain_trap t \<longleftrightarrow> t \<noteq> InterruptionCalled \<and> t \<noteq> ExecutionHalted"

lemma consume_trap: "try_consume_fuel d st = Inl t \<Longrightarrow> t = OutOfFuel"
  by (auto simp: try_consume_fuel_def Let_def split: option.splits if_splits)

lemma charged_shape:
  assumes "charged inject n f st = Some res" and "\<And>st t. f st = Some (Inl t) \<Longrightarrow> plain_trap t"
  shows "case res of Inl (t, _) \<Rightarrow> t \<noteq> InterruptionCalled \<and> t \<noteq> ExecutionHalted
    | Inr (_, outs) \<Rightarrow> length outs = length ([] :: u32 list)"
  using assms consume_trap
  by (fastforce simp: charged_def plain_trap_def split: sum.splits option.splits if_splits)

lemma program_charged:
  assumes "computes (program ops env) ops 2 st [n, v, d] res"
    and "charged inject u f st = Some res" and "\<And>st t. f st = Some (Inl t) \<Longrightarrow> plain_trap t"
  shows "engine_execute (program ops env) [I32 d, I32 v, I32 n] [] st = Some (Finished (words_outcome [] res))"
  using program_words [of ops env 2 st "[d, v, n]" res "[]"] assms(1) charged_shape [OF assms(2,3)] by simp

lemma memory_update_traps:
  "filled_memory d v n st = Some (Inl t) \<Longrightarrow> plain_trap t"
  "copied_memory d v n st = Some (Inl t) \<Longrightarrow> plain_trap t"
  by (auto simp: filled_memory_def copied_memory_def plain_trap_def split: option.splits)

lemma table_update_traps:
  "filled_table i d v n st = Some (Inl t) \<Longrightarrow> plain_trap t"
  "copied_table i j d v n st = Some (Inl t) \<Longrightarrow> plain_trap t"
  "initialised_table env k j d v n st = Some (Inl t) \<Longrightarrow> plain_trap t"
  by (auto simp: filled_table_def copied_table_def initialised_table_def updated_table_def plain_trap_def
      fill_untyped_def table_copy_def copy_within_def init_untyped_def bind_eq_Some_conv
      split: option.splits sum.splits if_splits)

lemma initialised_memory_traps: "initialised_memory env i d v n st = Inl t \<Longrightarrow> plain_trap t"
  by (auto simp: initialised_memory_def plain_trap_def split: option.splits)

lemma grow_checked_shape:
  "case grow_checked log2 mx d st of Inl (t, _) \<Rightarrow> t \<noteq> InterruptionCalled \<and> t \<noteq> ExecutionHalted
    | Inr (_, outs) \<Rightarrow> length outs = length [x]"
  using consume_trap by (fastforce simp: grow_checked_def split: sum.splits option.splits)

lemma table_grow_checked_shape:
  "case table_grow_checked u i l d init st tab of Inl (t, _) \<Rightarrow> t \<noteq> InterruptionCalled \<and> t \<noteq> ExecutionHalted
    | Inr (_, outs) \<Rightarrow> length outs = length [x]"
  using consume_trap by (fastforce simp: table_grow_checked_def split: sum.splits prod.splits)

lemmas checked_msh = MSH_MEMORY_GROW_CHECKED_def MSH_MEMORY_FILL_CHECKED_def MSH_MEMORY_COPY_CHECKED_def
  MSH_MEMORY_INIT_CHECKED_def MSH_TABLE_INIT_CHECKED_def MSH_TABLE_GROW_CHECKED_def
  MSH_TABLE_FILL_CHECKED_def MSH_TABLE_COPY_CHECKED_def

lemma program_memory_fill:
  assumes "charged inject (units (memory_bytes_per_fuel fp) (memory_bytes_per_fuel_log2 fp) n)
     (filled_memory d v n) st = Some res"
  shows "engine_execute (program (op_memory_fill_checked fp inject) env) [I32 d, I32 v, I32 n] [] st =
    Some (Finished (words_outcome [] res))"
  by (rule program_charged [OF op_memory_fill_checked_correct [OF assms, unfolded checked_msh] assms])
    (rule memory_update_traps)

lemma program_memory_copy:
  assumes "charged inject (units (memory_bytes_per_fuel fp) (memory_bytes_per_fuel_log2 fp) n)
     (copied_memory d s n) st = Some res"
  shows "engine_execute (program (op_memory_copy_checked fp inject) env) [I32 d, I32 s, I32 n] [] st =
    Some (Finished (words_outcome [] res))"
  by (rule program_charged [OF op_memory_copy_checked_correct [OF assms, unfolded checked_msh] assms])
    (rule memory_update_traps)

lemma program_table_fill:
  assumes "charged inject (units (table_elems_per_fuel fp) (table_elems_per_fuel_log2 fp) n)
     (filled_table i d v n) st = Some res"
  shows "engine_execute (program (op_table_fill_checked fp i inject) env) [I32 d, I32 v, I32 n] [] st =
    Some (Finished (words_outcome [] res))"
  by (rule program_charged [OF op_table_fill_checked_correct [OF assms, unfolded checked_msh] assms])
    (rule table_update_traps)

lemma program_table_copy:
  assumes "charged inject (units (table_elems_per_fuel fp) (table_elems_per_fuel_log2 fp) n)
     (copied_table i j d s n) st = Some res"
  shows "engine_execute (program (op_table_copy_checked fp i j inject) env) [I32 d, I32 s, I32 n] [] st =
    Some (Finished (words_outcome [] res))"
  by (rule program_charged [OF op_table_copy_checked_correct [OF assms, unfolded checked_msh] assms])
    (rule table_update_traps)

text \<open>The two initialisations, with the outcome of the check.\<close>

definition checked_outcome ::
  "bool \<Rightarrow> trap_code \<Rightarrow> 'h store \<Rightarrow> (trap_code \<times> 'h store) + ('h store \<times> u32 list) \<Rightarrow>
   (trap_code \<times> 'h store) + ('h store \<times> u32 list)" where
  "checked_outcome bad t st res = (if bad then Inl (t, st) else res)"

lemma program_table_init:
  assumes E: "E = program (op_table_init_checked fp i j len offset inject) env"
    and c: "charged inject (units (table_elems_per_fuel fp) (table_elems_per_fuel_log2 fp) n)
      (initialised_table E i j d (s + offset) n) st = Some res"
  shows "engine_execute E [I32 d, I32 s, I32 n] [] st = Some (Finished (words_outcome []
    (checked_outcome (i32_gt_s (n + s) len \<noteq> 0) TableOutOfBounds st res)))"
proof -
  have "case res of Inl (t, _) \<Rightarrow> t \<noteq> InterruptionCalled \<and> t \<noteq> ExecutionHalted
      | Inr (_, outs) \<Rightarrow> length outs = length ([] :: u32 list)"
    by (rule charged_shape [OF c]) (rule table_update_traps)
  with program_words [of "op_table_init_checked fp i j len offset inject" env MSH_TABLE_INIT_CHECKED st
      "[d, s, n]" "if i32_gt_s (n + s) len \<noteq> 0 then Inl (TableOutOfBounds, st) else res" "[]"]
    op_table_init_checked_computes [OF c, of len, unfolded E]
  show ?thesis by (auto simp: checked_outcome_def checked_msh E split: if_splits)
qed

lemma program_memory_init:
  assumes E: "E = program (op_memory_init_checked fp (Some offset) (Some len) i inject) env"
    and c: "charged inject (units (memory_bytes_per_fuel fp) (memory_bytes_per_fuel_log2 fp) n)
      (\<lambda>st. Some (initialised_memory E i d (s + offset) n st)) st = Some res" and len: "len > 0"
  shows "engine_execute E [I32 d, I32 s, I32 n] [] st = Some (Finished (words_outcome []
    (checked_outcome (i32_gt_s (n + s) len \<noteq> 0) MemoryOutOfBounds st res)))"
proof -
  have "plain_trap t" if "Some (initialised_memory E i d (s + offset) n st') = Some (Inl t)" for st' t
    using that by (auto intro: initialised_memory_traps)
  from charged_shape [OF c this]
    program_words [of "op_memory_init_checked fp (Some offset) (Some len) i inject" env
      MSH_MEMORY_INIT_CHECKED st "[d, s, n]"
      "if i32_gt_s (n + s) len \<noteq> 0 then Inl (MemoryOutOfBounds, st) else res" "[]"]
    op_memory_init_checked_computes [OF c len, unfolded E]
  show ?thesis by (auto simp: checked_outcome_def checked_msh E split: if_splits)
qed

end
