(* ===== verification/Checked_Spec.thy ===== *)
theory Checked_Spec
  imports Checked_Run
begin

text \<open>
  What the checked bulk routines are to do, said without the functions of the code: the fuel as a
  number, ranges by their bounds, and memories and tables as lists. The lemmas give the outcomes
  of \<open>Checked_Run\<close> in these terms.
\<close>

section \<open>Paying\<close>

text \<open>The account after a payment; it saturates at the largest \<open>u64\<close>.\<close>

definition pays :: "nat \<Rightarrow> 'h store \<Rightarrow> 'h store option" where
  "pays n st =
     (let c = min (unat (consumed_fuel st) + n) (2 ^ 64 - 1)
      in if \<exists>l. fuel_limit st = Some l \<and> unat l < c then None else Some (st\<lparr>consumed_fuel := word_of_nat c\<rparr>))"

definition paying ::
  "bool \<Rightarrow> nat \<Rightarrow> 'h store \<Rightarrow> ('h store \<Rightarrow> (trap_code \<times> 'h store) + ('h store \<times> u32 list)) \<Rightarrow>
   (trap_code \<times> 'h store) + ('h store \<times> u32 list)" where
  "paying metered n st f =
     (if metered then case pays n st of None \<Rightarrow> Inl (OutOfFuel, st) | Some st' \<Rightarrow> f st' else f st)"

lemma consume_pays:
  "try_consume_fuel d st = (case pays (unat d) st of None \<Rightarrow> Inl OutOfFuel | Some st' \<Rightarrow> Inr st')"
proof -
  define c where "c = min (unat (consumed_fuel st) + unat d) (2 ^ 64 - 1)"
  have sat: "saturating_add (consumed_fuel st) d = word_of_nat c" "unat (word_of_nat c :: u64) = c"
    by (simp_all add: c_def saturating_add_def min_def unat_of_nat word_unat_eq_iff unat_word_ariths unsigned_minus_1_eq_mask mask_eq_exp_minus_1 del: of_nat_add)
  have "pays (unat d) st = (if \<exists>l. fuel_limit st = Some l \<and> unat l < c then None else Some (st\<lparr>consumed_fuel := word_of_nat c\<rparr>))"
    unfolding pays_def c_def Let_def by (rule refl)
  then show ?thesis
    using sat(2) unfolding try_consume_fuel_def sat(1) Let_def
    by (simp add: word_less_nat_alt split: option.split)
qed

lemma pays_keeps: "pays n st = Some st' \<Longrightarrow> global_memory st' = global_memory st \<and> tables st' = tables st \<and>
    empty_elem_segments st' = empty_elem_segments st \<and> empty_data_segments st' = empty_data_segments st"
  by (auto simp: pays_def Let_def split: if_splits)

text \<open>The rounded-up number of units; the sum of the rounding is one of 32 bits.\<close>

definition rounded :: "u32 \<Rightarrow> u32 \<Rightarrow> nat" where
  "rounded per n = (unat n + unat per - 1) mod 2 ^ 32 div unat per"

lemma units_are_rounded:
  assumes "power_of_two_rate per log2"
  shows "unat (units per log2 n) = rounded per n"
proof -
  have log: "unat (log2 AND 31) = unat log2"
    using assms by (simp add: power_of_two_rate_def mask_numerals unat_and_mask)
  have pos: "0 < unat per" using unat_rate [OF assms] by simp
  have "unat (per - 1) = unat per - 1"
    using pos by (subst unat_minus_one) (auto simp: unat_gt_0)
  then have "unat (n + (per - 1)) = (unat n + unat per - 1) mod 2 ^ 32"
    using pos by (simp add: unat_word_ariths)
  then show ?thesis
    unfolding units_def i32_shr_u_def rounded_def log unat_drop_bit_eq
    by (simp only: drop_bit_eq_div unat_rate [OF assms])
qed

text \<open>Where nothing wraps it is the quotient, rounded up.\<close>

lemma rounded_exact: "unat n + unat per \<le> 2 ^ 32 \<Longrightarrow> 0 < unat per \<Longrightarrow> rounded per n = (unat n + unat per - 1) div unat per"
  by (simp add: rounded_def)

lemma charged_paying:
  assumes rate: "power_of_two_rate per log2"
    and f: "\<And>st'. st' = st \<or> pays (rounded per n) st = Some st' \<Longrightarrow> f st' = Some (r st')"
    and g: "\<And>st'. st' = st \<or> pays (rounded per n) st = Some st' \<Longrightarrow>
      g st' = (case r st' of Inl t \<Rightarrow> Inl (t, st') | Inr st'' \<Rightarrow> Inr (st'', []))"
  shows "charged inject (units per log2 n) f st = Some (paying inject (rounded per n) st g)"
proof -
  note n = units_are_rounded [OF rate, of n]
  show ?thesis
  proof (cases "if inject then pays (rounded per n) st else Some st")
    case None
    then show ?thesis by (auto simp: charged_def paying_def consume_pays n split: if_splits)
  next
    case (Some st')
    then have "f st' = Some (r st')" "g st' = (case r st' of Inl t \<Rightarrow> Inl (t, st') | Inr st'' \<Rightarrow> Inr (st'', []))"
      using f g by (auto split: if_splits)
    then show ?thesis using Some
      by (auto simp: charged_def paying_def consume_pays n split: if_splits sum.splits)
  qed
qed

section \<open>Ranges\<close>

lemma usize_small: "unat v < 2 ^ 31 \<Longrightarrow> i32_as_usize v = unat v"
  using sint_small [of v] by (simp add: i32_as_usize_def scast_eq)

lemma usize_large:
  assumes "\<not> unat v < 2 ^ 31"
  shows "2 ^ 63 \<le> i32_as_usize v"
proof -
  have "sint v = int (unat v) - 2 ^ 32" using assms top_bit [of v] by (simp add: sint_bit)
  moreover have "2 ^ 31 \<le> int (unat v)" "int (unat v) < 2 ^ 32" using assms unat_less [of v] by (simp_all del: of_nat_unat)
  ultimately have s: "sint v < 0" "- (2 ^ 31) \<le> sint v" by simp_all
  have "0 \<le> sint v + 2 ^ 64" using s(2) by simp
  moreover have "sint v + 2 ^ 64 < 2 ^ 64" using s(1) by simp
  ultimately have "(sint v + 2 ^ 64) mod 2 ^ 64 = sint v + 2 ^ 64" by (rule mod_pos_pos_trivial)
  then have m: "sint v mod 2 ^ 64 = sint v + 2 ^ 64" by (simp only: mod_add_self2)
  have "int (i32_as_usize v) = uint (word_of_int (sint v) :: u64)" by (simp only: i32_as_usize_def scast_eq of_nat_unat)
  also have "\<dots> = sint v + 2 ^ 64" unfolding uint_word_of_int using m by simp
  finally have "2 ^ 63 \<le> int (i32_as_usize v)" using s(2) by simp
  then show ?thesis by simp
qed

text \<open>A range of a vector of at most \<open>2 ^ 31\<close> elements whose ends are signed 32-bit numbers extended to \<open>usize\<close>.\<close>

definition in_range :: "u32 \<Rightarrow> u32 \<Rightarrow> 'a list \<Rightarrow> bool" where
  "in_range d n xs \<longleftrightarrow> unat d < 2 ^ 31 \<and> unat n < 2 ^ 31 \<and> unat d + unat n \<le> length xs"

lemma usize_slice:
  assumes "length xs \<le> 2 ^ 32"
  shows "slice_get xs (i32_as_usize d) (i32_as_usize n) =
    (if in_range d n xs then Some (take (unat n) (drop (unat d) xs)) else None)"
proof -
  have none: "slice_get xs a b = None" if "length xs < a \<or> length xs < b" for a b
    using that by (auto simp: slice_get_def)
  consider "unat d < 2 ^ 31" "unat n < 2 ^ 31" | "\<not> unat d < 2 ^ 31" | "\<not> unat n < 2 ^ 31" by blast
  then show ?thesis
  proof cases
    case 1
    then show ?thesis by (auto simp: usize_small in_range_def slice_get_def)
  next
    case 2
    then have "length xs < i32_as_usize d" using usize_large [of d] assms by simp
    then show ?thesis using none 2 by (simp add: in_range_def)
  next
    case 3
    then have "length xs < i32_as_usize n" using usize_large [of n] assms by simp
    then show ?thesis using none 3 by (simp add: in_range_def)
  qed
qed

section \<open>Memories\<close>

text \<open>Growing by zeros, when the new number of pages is allowed.\<close>

lemma memory_grow_spec:
  assumes wf: "memory_wf g" and d: "unat (current_pages g) + unat d \<le> 65536"
  shows "memory_grow d g = Some
    (if unat (current_pages g) + unat d \<le> unat (max_allowed_memory_pages g)
     then (Some (current_pages g), g\<lparr>shared_memory := shared_memory g @ replicate (65536 * unat d) 0, current_pages := current_pages g + d\<rparr>)
     else (None, g))"
proof -
  let ?p = "current_pages g"
  have len: "length (shared_memory g) = unat ?p * 65536" and le: "unat ?p \<le> unat (max_allowed_memory_pages g)"
    using wf by (simp_all add: memory_wf_def bytes_per_page_def word_le_nat_alt)
  have sum: "unat (?p + d) = unat ?p + unat d" using d by (simp add: unat_word_ariths)
  have add: "pages_checked_add ?p d = Some (?p + d)"
    using d sum by (simp add: pages_checked_add_def checked_add_def pages_new_def pages_max_def word_less_nat_alt)
  have bytes: "pages_to_bytes (?p + d) = Some ((unat ?p + unat d) * 65536)"
    using d sum by (simp add: pages_to_bytes_def bytes_new64_def bytes_new_impl_def bytes_max64_def bytes_per_page_def)
  show ?thesis
  proof (cases "d = 0")
    case True
    then show ?thesis using le by (cases g) (simp add: memory_grow_def)
  next
    case False
    have "vec_resize ((unat ?p + unat d) * 65536) 0 (shared_memory g) = shared_memory g @ replicate (65536 * unat d) 0"
      by (simp add: vec_resize_def len algebra_simps)
    then show ?thesis
      using False add bytes len sum by (simp add: memory_grow_def word_less_nat_alt not_less)
  qed
qed

text \<open>The routine: no charge above the maximum, and the charge is kept when the growth is refused.\<close>

lemma grow_checked_spec:
  assumes wf: "memory_wf (global_memory st)" and mx: "unat mx \<le> 65536"
  defines "g \<equiv> global_memory st"
  shows "grow_checked log2 mx d st =
    (if unat (current_pages g) + unat d > unat mx then Inr (st, [- 1])
     else paying True (65536 * unat d mod 2 ^ 32 div 2 ^ (unat log2 mod 32)) st (\<lambda>st'.
       if unat (current_pages g) + unat d \<le> unat (max_allowed_memory_pages g)
       then Inr (st'\<lparr>global_memory := g\<lparr>shared_memory := shared_memory g @ replicate (65536 * unat d) 0,
              current_pages := current_pages g + d\<rparr>\<rparr>, [current_pages g])
       else Inr (st', [- 1])))"
proof -
  have m: "unat (d * N_BYTES_PER_MEMORY_PAGE) = 65536 * unat d mod 2 ^ 32"
    by (simp add: N_BYTES_PER_MEMORY_PAGE_def unat_word_ariths mult.commute)
  have log: "unat (log2 AND 0x1F) = unat log2 mod 32" by (simp add: mask_numerals unat_and_mask)
  have n: "unat (i32_shr_u (d * N_BYTES_PER_MEMORY_PAGE) log2) = 65536 * unat d mod 2 ^ 32 div 2 ^ (unat log2 mod 32)"
    unfolding i32_shr_u_def unat_drop_bit_eq m log by (rule drop_bit_eq_div)
  show ?thesis
  proof (cases "unat (current_pages g) + unat d > unat mx")
    case False
    then have small: "unat (current_pages (global_memory st)) + unat d \<le> 65536" using mx by (simp add: g_def)
    have "global_memory st' = global_memory st" if "pays k st = Some st'" for k st' using pays_keeps [OF that] by simp
    note same = this
    have grown: "st'\<lparr>global_memory := global_memory st\<rparr> = st'" if "pays k st = Some st'" for k st'
      using same [OF that] by (cases st') simp
    show ?thesis
      using False memory_grow_spec [OF wf small] same grown
      by (auto simp: grow_checked_def paying_def consume_pays n g_def split: option.split)
  qed (simp add: grow_checked_def g_def)
qed

lemma program_memory_fill_spec:
  assumes rate: "power_of_two_rate (memory_bytes_per_fuel fp) (memory_bytes_per_fuel_log2 fp)"
    and mem: "length (memory_of st) \<le> 2 ^ 31"
  shows "engine_execute (program (op_memory_fill_checked fp inject) env) [I32 d, I32 v, I32 n] [] st =
    Some (Finished (words_outcome [] (paying inject (rounded (memory_bytes_per_fuel fp) n) st (\<lambda>st.
      if in_range d n (memory_of st)
      then Inr (with_memory (overwrite (memory_of st) (unat d) (replicate (unat n) (ucast v))) st, [])
      else Inl (MemoryOutOfBounds, st)))))"
proof (rule program_memory_fill)
  let ?r = "\<lambda>st. if in_range d n (memory_of st)
      then Inr (with_memory (overwrite (memory_of st) (unat d) (replicate (unat n) (ucast v))) st)
      else Inl MemoryOutOfBounds"
  show "charged inject (units (memory_bytes_per_fuel fp) (memory_bytes_per_fuel_log2 fp) n) (filled_memory d v n) st =
      Some (paying inject (rounded (memory_bytes_per_fuel fp) n) st (\<lambda>st.
      if in_range d n (memory_of st)
      then Inr (with_memory (overwrite (memory_of st) (unat d) (replicate (unat n) (ucast v))) st, [])
      else Inl (MemoryOutOfBounds, st)))"
  proof (rule charged_paying [OF rate, where r = ?r])
    fix st' assume "st' = st \<or> pays (rounded (memory_bytes_per_fuel fp) n) st = Some st'"
    then have "memory_of st' = memory_of st" using pays_keeps [of _ st st'] by (auto simp: memory_of_def)
    then show "filled_memory d v n st' = Some (?r st')"
      using mem by (auto simp: filled_memory_def usize_slice) (simp_all add: in_range_def usize_small)
  qed simp
qed

lemma program_memory_copy_spec:
  assumes rate: "power_of_two_rate (memory_bytes_per_fuel fp) (memory_bytes_per_fuel_log2 fp)"
    and mem: "length (memory_of st) \<le> 2 ^ 31"
  shows "engine_execute (program (op_memory_copy_checked fp inject) env) [I32 d, I32 s, I32 n] [] st =
    Some (Finished (words_outcome [] (paying inject (rounded (memory_bytes_per_fuel fp) n) st (\<lambda>st.
      if in_range s n (memory_of st) \<and> in_range d n (memory_of st)
      then Inr (with_memory (overwrite (memory_of st) (unat d) (take (unat n) (drop (unat s) (memory_of st)))) st, [])
      else Inl (MemoryOutOfBounds, st)))))"
proof (rule program_memory_copy)
  let ?r = "\<lambda>st. if in_range s n (memory_of st) \<and> in_range d n (memory_of st)
      then Inr (with_memory (overwrite (memory_of st) (unat d) (take (unat n) (drop (unat s) (memory_of st)))) st)
      else Inl MemoryOutOfBounds"
  show "charged inject (units (memory_bytes_per_fuel fp) (memory_bytes_per_fuel_log2 fp) n) (copied_memory d s n) st =
      Some (paying inject (rounded (memory_bytes_per_fuel fp) n) st (\<lambda>st.
      if in_range s n (memory_of st) \<and> in_range d n (memory_of st)
      then Inr (with_memory (overwrite (memory_of st) (unat d) (take (unat n) (drop (unat s) (memory_of st)))) st, [])
      else Inl (MemoryOutOfBounds, st)))"
  proof (rule charged_paying [OF rate, where r = ?r])
    fix st' assume "st' = st \<or> pays (rounded (memory_bytes_per_fuel fp) n) st = Some st'"
    then have "memory_of st' = memory_of st" using pays_keeps [of _ st st'] by (auto simp: memory_of_def)
    then show "copied_memory d s n st' = Some (?r st')"
      using mem by (auto simp: copied_memory_def usize_slice) (simp_all add: in_range_def usize_small)
  qed simp
qed

section \<open>Tables\<close>

text \<open>Copying a part of a list into a table.\<close>

definition copied_into :: "u32 list \<Rightarrow> nat \<Rightarrow> u32 list \<Rightarrow> nat \<Rightarrow> nat \<Rightarrow> u32 list option" where
  "copied_into t d es s n =
     (if d + n \<le> length t \<and> s + n \<le> length es then Some (take d t @ take n (drop s es) @ drop (d + n) t) else None)"

lemma init_untyped_spec:
  "init_untyped d es s n t = (case copied_into t (unat d) es (unat s) (unat n) of
     None \<Rightarrow> Inl TableOutOfBounds | Some t' \<Rightarrow> Inr t')"
  by (auto simp: init_untyped_def copied_into_def slice_get_def overwrite_def min_def split: option.splits)

lemma table_grow_checked_spec:
  assumes t: "table_wf t"
  shows "table_grow_checked u i limit d init st t =
    (if length t + unat d > unat limit then Inr (st, [- 1])
     else paying True (unat u) st (\<lambda>st.
       if length t + unat d \<le> 1024 then Inr (with_table i (t @ replicate (unat d) init) st, [word_of_nat (length t)])
       else Inr (with_table i t st, [- 1])))"
  by (simp add: table_grow_checked_def paying_def consume_pays grow_untyped_spec [OF t] table_size_def N_MAX_TABLE_SIZE_def split: option.split)

text \<open>The segment as the instruction sees it: nothing when it has been dropped.\<close>

definition live_elements :: "'h env \<Rightarrow> u32 \<Rightarrow> 'h store \<Rightarrow> u32 list" where
  "live_elements env i st = (if flag_at (empty_elem_segments st) i then [] else elem_section (module env))"

lemma program_table_init_spec:
  assumes E: "E = program (op_table_init_checked fp i j len offset inject) env"
    and rate: "power_of_two_rate (table_elems_per_fuel fp) (table_elems_per_fuel_log2 fp)" and t: "tables st j = Some t"
  shows "engine_execute E [I32 d, I32 s, I32 n] [] st = Some (Finished (words_outcome []
    (if i32_gt_s (n + s) len \<noteq> 0 then Inl (TableOutOfBounds, st)
     else paying inject (rounded (table_elems_per_fuel fp) n) st (\<lambda>st'.
       case copied_into t (unat d) (live_elements env i st) (unat (s + offset)) (unat n) of
         None \<Rightarrow> Inl (TableOutOfBounds, st') | Some t' \<Rightarrow> Inr (with_table j t' st', [])))))"
proof -
  let ?c = "copied_into t (unat d) (live_elements env i st) (unat (s + offset)) (unat n)"
  have "charged inject (units (table_elems_per_fuel fp) (table_elems_per_fuel_log2 fp) n)
      (initialised_table E i j d (s + offset) n) st = Some (paying inject (rounded (table_elems_per_fuel fp) n) st (\<lambda>st'.
       case ?c of None \<Rightarrow> Inl (TableOutOfBounds, st') | Some t' \<Rightarrow> Inr (with_table j t' st', [])))"
  proof (rule charged_paying [OF rate, where r = "\<lambda>st'. case ?c of None \<Rightarrow> Inl TableOutOfBounds | Some t' \<Rightarrow> Inr (with_table j t' st')"])
    fix st' assume "st' = st \<or> pays (rounded (table_elems_per_fuel fp) n) st = Some st'"
    then have "tables st' = tables st" "empty_elem_segments st' = empty_elem_segments st" using pays_keeps [of _ st st'] by auto
    then show "initialised_table E i j d (s + offset) n st' = Some (case ?c of None \<Rightarrow> Inl TableOutOfBounds | Some t' \<Rightarrow> Inr (with_table j t' st'))"
      using t by (auto simp: initialised_table_def init_untyped_spec updated_table_def live_elements_def E program_def split: option.split)
  qed (simp split: option.split)
  from program_table_init [OF E this] show ?thesis by (simp only: checked_outcome_def)
qed

definition live_bytes :: "'h env \<Rightarrow> u32 \<Rightarrow> 'h store \<Rightarrow> u8 list" where
  "live_bytes env i st = (if flag_at (empty_data_segments st) i then [] else data_section (module env))"

lemma program_memory_init_spec:
  assumes E: "E = program (op_memory_init_checked fp (Some offset) (Some len) i inject) env"
    and rate: "power_of_two_rate (memory_bytes_per_fuel fp) (memory_bytes_per_fuel_log2 fp)" and len: "len > 0"
    and small: "length (memory_of st) \<le> 2 ^ 31" "length (data_section (module env)) \<le> 2 ^ 32"
  shows "engine_execute E [I32 d, I32 s, I32 n] [] st = Some (Finished (words_outcome []
    (if i32_gt_s (n + s) len \<noteq> 0 then Inl (MemoryOutOfBounds, st)
     else paying inject (rounded (memory_bytes_per_fuel fp) n) st (\<lambda>st'.
       if in_range d n (memory_of st) \<and> in_range (s + offset) n (live_bytes env i st)
       then Inr (with_memory (overwrite (memory_of st) (unat d) (take (unat n) (drop (unat (s + offset)) (live_bytes env i st)))) st', [])
       else Inl (MemoryOutOfBounds, st')))))"
proof -
  let ?in = "in_range d n (memory_of st) \<and> in_range (s + offset) n (live_bytes env i st)"
  let ?mem = "overwrite (memory_of st) (unat d) (take (unat n) (drop (unat (s + offset)) (live_bytes env i st)))"
  have "charged inject (units (memory_bytes_per_fuel fp) (memory_bytes_per_fuel_log2 fp) n)
      (\<lambda>st. Some (initialised_memory E i d (s + offset) n st)) st = Some (paying inject (rounded (memory_bytes_per_fuel fp) n) st (\<lambda>st'.
       if ?in then Inr (with_memory ?mem st', []) else Inl (MemoryOutOfBounds, st')))"
  proof (rule charged_paying [OF rate, where r = "\<lambda>st'. if ?in then Inr (with_memory ?mem st') else Inl MemoryOutOfBounds"])
    fix st' assume "st' = st \<or> pays (rounded (memory_bytes_per_fuel fp) n) st = Some st'"
    then have "memory_of st' = memory_of st" "live_bytes env i st' = live_bytes env i st"
      using pays_keeps [of _ st st'] by (auto simp: memory_of_def live_bytes_def)
    moreover have "length (live_bytes env i st) \<le> 2 ^ 32" using small(2) by (simp add: live_bytes_def)
    moreover have "(if flag_at (empty_data_segments st') i then [] else data_section (module E)) = live_bytes env i st'"
      by (simp add: E program_def live_bytes_def)
    ultimately show "Some (initialised_memory E i d (s + offset) n st') =
        Some (if ?in then Inr (with_memory ?mem st') else Inl MemoryOutOfBounds)"
      using small(1) by (auto simp: initialised_memory_def usize_slice) (simp_all add: in_range_def usize_small)
  qed simp
  from program_memory_init [OF E this len] show ?thesis by (simp only: checked_outcome_def)
qed

section \<open>A check that wraps\<close>

text \<open>An offset that is negative as a signed number passes the length check of the two \<open>init\<close> routines, whatever the segment.\<close>

lemma length_check_negative:
  assumes k: "unat n \<le> unat k" "unat k < 2 ^ 31" and len: "unat len < 2 ^ 31"
  shows "i32_gt_s (n + - k) len = 0"
proof -
  have "sint (n + - k) \<le> 0"
  proof (cases "n = k")
    case False
    then have lt: "unat n < unat k" using k(1) by (simp add: word_unat_eq_iff)
    then have "unat (n + - k) = 2 ^ 32 - (unat k - unat n)" using k(2) by (simp add: unat_sub_if' word_le_nat_alt)
    then show ?thesis using lt k(2) top_bit [of "n + - k"] by (simp add: sint_bit del: of_nat_unat)
  qed simp
  moreover have "0 \<le> sint len" using len by (simp add: sint_small del: of_nat_unat)
  ultimately show ?thesis by (simp add: i32_gt_s_def)
qed

end
