(* ===== verification/Instruction_Set.thy ===== *)
theory Instruction_Set
  imports Opcode
begin

text \<open>
  The instruction builder (\<open>src/isa/mod.rs\<close>) and the errors of the compiler
  (\<open>src/compiler/error.rs\<close>). An \<open>InstructionSet\<close> is the list of its opcodes; emitting
  appends. A compiler function gives an \<open>'a result\<close>: \<open>None\<close> when it panics, \<open>Inl\<close> the error
  it returns, \<open>Inr\<close> its value. The error of the WebAssembly parser is that of a third-party
  crate and stays abstract. Without the feature \<open>fpu\<close> every floating point emitter emits a
  trap.
\<close>

section \<open>Errors and results\<close>

typedecl binary_reader_error

datatype compilation_error =
    BranchOffsetOutOfBounds
  | BlockFuelOutOfBounds
  | NotSupportedExtension
  | DropKeepOutOfBounds
  | BranchTableTargetsOutOfBounds
  | MalformedWasmBinary binary_reader_error
  | NotSupportedImportType
  | NotSupportedFuncType
  | UnresolvedImportFunction
  | MalformedImportFunctionType
  | NonDefaultMemoryIndex
  | ConstEvaluationFailed
  | NotSupportedLocalType
  | NotSupportedGlobalType
  | MaxReadonlyDataReached
  | MissingEntrypoint
  | MalformedFuncType
  | MemorySegmentOutOfBounds
  | TableSegmentOutOfBounds
  | StartSectionsAreNotAllowed

type_synonym 'a result = "(compilation_error + 'a) option"

definition ok :: "'a \<Rightarrow> 'a result" where
  "ok x = Some (Inr x)"

definition err :: "compilation_error \<Rightarrow> 'a result" where
  "err e = Some (Inl e)"

definition panic :: "'a result" where
  "panic = None"

text \<open>The operator \<open>?\<close>: go on with the value, hand back the error.\<close>

definition and_then :: "'a result \<Rightarrow> ('a \<Rightarrow> 'b result) \<Rightarrow> 'b result" where
  "and_then r f = (case r of None \<Rightarrow> None | Some (Inl e) \<Rightarrow> Some (Inl e) | Some (Inr x) \<Rightarrow> f x)"

lemma and_then_simps [simp]:
  "and_then (ok x) f = f x" "and_then (err e) f = err e" "and_then panic f = panic"
  by (simp_all add: and_then_def ok_def err_def panic_def)

lemma and_then_ok_iff: "and_then r f = ok y \<longleftrightarrow> (\<exists>x. r = ok x \<and> f x = ok y)"
  by (auto simp: and_then_def ok_def split: option.splits sum.splits)

lemma ok_eq_iff [simp]: "ok x = ok y \<longleftrightarrow> x = y" "err e \<noteq> ok y" "panic \<noteq> ok y"
  by (simp_all add: ok_def err_def panic_def)

definition unwrap_or_panic :: "'a option \<Rightarrow> 'a result" where
  "unwrap_or_panic x = (case x of None \<Rightarrow> panic | Some v \<Rightarrow> ok v)"

definition ok_or :: "compilation_error \<Rightarrow> 'a option \<Rightarrow> 'a result" where
  "ok_or e x = (case x of None \<Rightarrow> err e | Some v \<Rightarrow> ok v)"

lemma option_results [simp]:
  "unwrap_or_panic (Some v) = ok v" "unwrap_or_panic None = panic"
  "ok_or e (Some v) = ok v" "ok_or e None = err e"
  by (simp_all add: unwrap_or_panic_def ok_or_def)

lemma option_results_ok [simp]:
  "unwrap_or_panic x = ok v \<longleftrightarrow> x = Some v" "ok_or e x = ok v \<longleftrightarrow> x = Some v"
  by (cases x; simp)+

section \<open>The builder\<close>

type_synonym instruction_set = "opcode list"

definition isa_loc :: "instruction_set \<Rightarrow> u32" where
  "isa_loc is = word_of_nat (length is)"

definition isa_push :: "opcode \<Rightarrow> instruction_set \<Rightarrow> u32 \<times> instruction_set" where
  "isa_push op is = (word_of_nat (length is), is @ [op])"

definition is_return_last :: "instruction_set \<Rightarrow> bool" where
  "is_return_last is =
     (case rev is of
        [] \<Rightarrow> False
      | op # _ \<Rightarrow>
          (case op of
             Return \<Rightarrow> True | ReturnCall _ \<Rightarrow> True | ReturnCallInternal _ \<Rightarrow> True
           | ReturnCallIndirect _ \<Rightarrow> True | _ \<Rightarrow> False))"

definition isa_finalize :: "bool \<Rightarrow> instruction_set \<Rightarrow> instruction_set" where
  "isa_finalize inject_return is =
     (if inject_return \<and> \<not> is_return_last is then is @ [Return] else is)"

text \<open>Editing in place: the position of \<open>last_nth_mut\<close>, and a change of one opcode that may panic.\<close>

definition last_nth :: "nat \<Rightarrow> instruction_set \<Rightarrow> nat option" where
  "last_nth offset is = (if offset < length is then Some (length is - 1 - offset) else None)"

definition patch_at :: "nat \<Rightarrow> (opcode \<Rightarrow> opcode option) \<Rightarrow> instruction_set \<Rightarrow> instruction_set result" where
  "patch_at i f is =
     (if i < length is then
        (case f (is ! i) of None \<Rightarrow> panic | Some op \<Rightarrow> ok (is[i := op]))
      else panic)"

definition bump_fuel_consumption :: "u32 \<Rightarrow> u32 \<Rightarrow> instruction_set \<Rightarrow> instruction_set result" where
  "bump_fuel_consumption instr delta is =
     (if unat instr < length is then
        (case is ! unat instr of
           ConsumeFuel fuel \<Rightarrow>
             and_then (ok_or BlockFuelOutOfBounds (checked_add fuel delta))
               (\<lambda>fuel. ok (is[unat instr := ConsumeFuel fuel]))
         | _ \<Rightarrow> panic)
      else panic)"

text \<open>A floating point emitter, without the feature.\<close>

definition emit_fpu :: "fpu_opcode \<Rightarrow> instruction_set \<Rightarrow> instruction_set" where
  "emit_fpu op is = is @ [Trap IllegalOpcode]"

section \<open>Facts\<close>

lemma finalize_returns: "is_return_last (isa_finalize True is)"
  by (simp add: isa_finalize_def is_return_last_def)

lemma finalize_idem: "isa_finalize inject (isa_finalize inject is) = isa_finalize inject is"
  by (auto simp: isa_finalize_def is_return_last_def)

lemma patch_at_ok:
  "patch_at i f is = ok is' \<longleftrightarrow> i < length is \<and> (\<exists>op. f (is ! i) = Some op \<and> is' = is[i := op])"
  by (auto simp: patch_at_def split: option.splits)

lemma bump_fuel_ok:
  assumes "bump_fuel_consumption i d is = ok is'"
  obtains fuel where "unat i < length is" "is ! unat i = ConsumeFuel fuel"
    "unat fuel + unat d < 2 ^ 32" "is' = is[unat i := ConsumeFuel (fuel + d)]"
proof -
  from assms have i: "unat i < length is"
    by (simp add: bump_fuel_consumption_def split: if_splits)
  show thesis
  proof (cases "is ! unat i")
    case (ConsumeFuel fuel)
    with assms i show ?thesis
      by (intro that [of fuel]) (auto simp: bump_fuel_consumption_def and_then_ok_iff
          checked_add_def split: if_splits)
  qed (use assms i in \<open>simp_all add: bump_fuel_consumption_def\<close>)
qed

lemma bump_fuel_length: "bump_fuel_consumption i d is = ok is' \<Longrightarrow> length is' = length is"
  by (auto elim: bump_fuel_ok)

end
