(* ===== verification/Drop_Keep.thy ===== *)
theory Drop_Keep
  imports Instruction_Set Local_Code
begin

text \<open>
  The emulated height of the value stack (\<open>src/compiler/value_stack.rs\<close>), the number of
  registered locals (\<open>src/compiler/locals_registry.rs\<close>) and the code of a branch that
  drops and keeps values (\<open>src/compiler/drop_keep.rs\<close>). The heights are \<open>u32\<close> and wrap, as
  in a release build, where the debug assertion of \<open>pop_n\<close> is gone as well.

  \<open>translate_drop_keep_correct\<close> runs the emitted code: on a stack with the kept words above
  the dropped words it leaves the kept words in order, with one spare cell used when fewer
  words are dropped than kept.
\<close>

section \<open>The emulated stack height\<close>

record value_stack_height =
  height :: u32
  max_height :: u32

definition height_default :: value_stack_height where
  "height_default = \<lparr>height = 0, max_height = 0\<rparr>"

definition update_max_height :: "value_stack_height \<Rightarrow> value_stack_height" where
  "update_max_height h = h\<lparr>max_height := max (height h) (max_height h)\<rparr>"

definition push_n :: "u32 \<Rightarrow> value_stack_height \<Rightarrow> value_stack_height" where
  "push_n amount h = update_max_height (h\<lparr>height := height h + amount\<rparr>)"

definition pop_n :: "u32 \<Rightarrow> value_stack_height \<Rightarrow> value_stack_height" where
  "pop_n amount h = h\<lparr>height := height h - amount\<rparr>"

definition type_width :: "val_type \<Rightarrow> u32" where
  "type_width t = (case t of
     TI32 \<Rightarrow> 1 | TF32 \<Rightarrow> 1 | TI64 \<Rightarrow> 2 | TF64 \<Rightarrow> 2 | TV128 \<Rightarrow> 4 | TFuncRef \<Rightarrow> 1 | TExternRef \<Rightarrow> 1)"

definition push_type :: "val_type \<Rightarrow> value_stack_height \<Rightarrow> value_stack_height" where
  "push_type t = push_n (type_width t)"

definition pop_type :: "val_type \<Rightarrow> value_stack_height \<Rightarrow> value_stack_height" where
  "pop_type t = pop_n (type_width t)"

definition shrink_to :: "u32 \<Rightarrow> value_stack_height \<Rightarrow> value_stack_height result" where
  "shrink_to new_height h =
     (if new_height \<le> height h then ok (h\<lparr>height := new_height\<rparr>) else panic)"

text \<open>\<open>LocalsRegistry\<close>: a checked sum.\<close>

definition register_locals :: "u32 \<Rightarrow> u32 \<Rightarrow> u32 result" where
  "register_locals amount len_registered =
     (if amount = 0 then ok len_registered
      else unwrap_or_panic (checked_add len_registered amount))"

lemma height_push_pop [simp]:
  "height (push_n a h) = height h + a" "height (pop_n a h) = height h - a"
  by (simp_all add: push_n_def pop_n_def update_max_height_def)

lemma max_height_push_pop [simp]:
  "max_height (push_n a h) = max (height h + a) (max_height h)" "max_height (pop_n a h) = max_height h"
  by (simp_all add: push_n_def pop_n_def update_max_height_def)

lemma pop_push [simp]: "height (pop_n a (push_n a h)) = height h"
  by simp

lemma register_locals_ok:
  "register_locals a l = ok l' \<longleftrightarrow> unat l + unat a < 2 ^ 32 \<and> l' = l + a"
  using unat_less [of l] by (auto simp: register_locals_def checked_add_def)

section \<open>Drop and keep\<close>

record drop_keep =
  dk_drop :: u16
  dk_keep :: u16

definition drop_keep_none :: drop_keep where
  "drop_keep_none = \<lparr>dk_drop = 0, dk_keep = 0\<rparr>"

definition is_noop :: "drop_keep \<Rightarrow> bool" where
  "is_noop dk \<longleftrightarrow> dk_drop dk = 0"

definition add_keep :: "u16 \<Rightarrow> drop_keep \<Rightarrow> drop_keep" where
  "add_keep delta dk = dk\<lparr>dk_keep := dk_keep dk + delta\<rparr>"

definition drop_keep_new :: "nat \<Rightarrow> nat \<Rightarrow> drop_keep result" where
  "drop_keep_new d k =
     (if 2 ^ 16 \<le> k then err DropKeepOutOfBounds
      else if 2 ^ 16 \<le> d then err DropKeepOutOfBounds
      else ok \<lparr>dk_drop = word_of_nat d, dk_keep = word_of_nat k\<rparr>)"

definition translate_drop_keep ::
  "drop_keep \<Rightarrow> instruction_set \<Rightarrow> value_stack_height \<Rightarrow> instruction_set \<times> value_stack_height \<times> nat" where
  "translate_drop_keep dk is h =
     (let d = dk_drop dk; k = dk_keep dk in
      if d = 0 then (is, h, 0)
      else if d \<ge> k then
        (is @ replicate (unat k) (LocalSet (ucast d)) @ [BulkDrop (ucast (d - k))], h, unat k + 1)
      else
        (is @ concat (map (\<lambda>i. [LocalGet (ucast k - word_of_nat i),
                                LocalSet (ucast k + ucast d - word_of_nat i)]) [0..<unat k]) @
           [BulkDrop (ucast d)],
         pop_n 1 (push_n 1 h), 2 * unat k + 1))"

definition drop_keep_code :: "drop_keep \<Rightarrow> opcode list" where
  "drop_keep_code dk = fst (translate_drop_keep dk [] height_default)"

lemma translate_drop_keep_appends:
  "fst (translate_drop_keep dk is h) = is @ drop_keep_code dk"
  "snd (snd (translate_drop_keep dk is h)) = length (drop_keep_code dk)"
proof -
  have "length (concat (map (\<lambda>i. [LocalGet (f i), LocalSet (g i)]) [0..<n])) = 2 * n" for f g n
    by (induction n) simp_all
  then show "fst (translate_drop_keep dk is h) = is @ drop_keep_code dk"
    "snd (snd (translate_drop_keep dk is h)) = length (drop_keep_code dk)"
    by (simp_all add: drop_keep_code_def translate_drop_keep_def Let_def)
qed

section \<open>What the code does\<close>

lemma unat_ucast_u16 [simp]: "unat (ucast (x :: u16) :: u32) = unat x"
proof -
  have "unat x < 2 ^ LENGTH(32)" using unat_less [of x] by simp
  then have "take_bit LENGTH(32) (unat x) = unat x" by (rule take_bit_nat_eq_self)
  then show ?thesis by (simp only: unsigned_ucast_eq)
qed

text \<open>More words dropped than kept: each kept word overwrites a dropped one.\<close>

lemma fwd_local_sets:
  assumes "length ks \<le> length ds" and "unat d = length ds"
  shows "fwd (replicate (length ks) (LocalSet d) @ c) st (ks @ ds @ s) r =
    fwd c st (take (length ds - length ks) ds @ ks @ s) (r + length ks)"
  using assms
proof (induction ks arbitrary: ds r)
  case (Cons k ks)
  let ?i = "length ds - Suc (length ks)"
  let ?ds = "ds[?i := k]"
  have i: "?i < length ds" "unat d - 1 = length ks + ?i" "0 < unat d" "unat d \<le> length ks + length ds"
    using Cons.prems by auto
  have set: "(ks @ ds @ s)[unat d - 1 := k] = ks @ ?ds @ s"
    unfolding i(2) using i(1) by (simp add: list_update_append)
  have "take (length ?ds - length ks) ?ds = take ?i ds @ [k]"
  proof -
    have "length ds - length ks = Suc ?i" using Cons.prems by simp
    then show ?thesis using i(1) by (simp add: take_Suc_conv_app_nth)
  qed
  then have "fwd (replicate (length ks) (LocalSet d) @ c) st (ks @ ?ds @ s) (r + 1) =
      fwd c st (take ?i ds @ k # ks @ s) (r + Suc (length ks))"
    using Cons.IH [of ?ds "r + 1"] Cons.prems by simp
  then show ?case
    using i(3,4) set by (simp add: fwd_locals)
qed simp

text \<open>More words kept than dropped: the kept words are copied down, the lowest first.\<close>

lemma fwd_moves:
  fixes k d :: u16
  assumes "length ks = unat k" and "length ds = unat d" and "j \<le> unat k"
  shows "fwd (concat (map (\<lambda>i. [LocalGet (ucast k - word_of_nat i),
        LocalSet (ucast k + ucast d - word_of_nat i)]) [0..<j]) @ c) st (ks @ ds @ s) (Suc r) =
    fwd c st (take (unat k + unat d - j) (ks @ ds) @ drop (unat k - j) ks @ s) (Suc r)"
  using assms(3)
proof (induction j arbitrary: c)
  case (Suc j)
  let ?n = "unat k + unat d - j" and ?v = "ks ! (unat k - Suc j)"
  let ?L = "take ?n (ks @ ds) @ drop (unat k - j) ks @ s"
  have bounds: "unat k < 2 ^ 16" "unat d < 2 ^ 16"
    using unat_less [of k] unat_less [of d] by simp_all
  then have j: "unat (word_of_nat j :: u32) = j" and kd: "unat (ucast k + ucast d :: u32) = unat k + unat d"
    using Suc.prems by (simp_all add: unat_of_nat unat_word_ariths)
  have get: "unat (ucast k - word_of_nat j :: u32) = unat k - j"
    using Suc.prems j by (simp add: unat_sub word_le_nat_alt)
  have set: "unat (ucast k + ucast d - word_of_nat j :: u32) = ?n"
    using Suc.prems j kd by (simp add: unat_sub word_le_nat_alt)
  have n: "0 < ?n" "?n \<le> length (ks @ ds)" "unat k - Suc j < ?n"
    using Suc.prems assms by auto
  have read: "?L ! (unat k - Suc j) = ?v"
    using n Suc.prems assms(1) by (simp add: nth_append)
  have "take ?n (ks @ ds) = take (?n - 1) (ks @ ds) @ [(ks @ ds) ! (?n - 1)]"
    using n by (metis Suc_diff_1 Suc_le_eq take_Suc_conv_app_nth)
  moreover have "length (take (?n - 1) (ks @ ds)) = ?n - 1" using n by simp
  ultimately have written: "?L[?n - 1 := ?v] = take (?n - 1) (ks @ ds) @ ?v # drop (unat k - j) ks @ s"
    by (metis append.assoc append_Cons append_Nil list_update_length)
  have "?v # drop (unat k - j) ks = drop (unat k - Suc j) ks"
    using Suc.prems assms(1) by (metis Cons_nth_drop_Suc Suc_diff_Suc Suc_le_lessD diff_Suc_less less_le_trans zero_less_Suc)
  then have moved: "?L[?n - 1 := ?v] = take (unat k + unat d - Suc j) (ks @ ds) @ drop (unat k - Suc j) ks @ s"
    unfolding written by simp
  have "?n \<le> length ?L" "unat k - j \<le> length ?L" using n assms by auto
  then have "fwd (LocalGet (ucast k - word_of_nat j) # LocalSet (ucast k + ucast d - word_of_nat j) # c) st L (Suc r) =
      fwd c st (L[?n - 1 := ?v]) (Suc r)" if "L = ?L" for L
    unfolding that [symmetric] using n(1) Suc.prems read [folded that]
    by (simp add: fwd_locals get set)
  then show ?case
    using Suc.IH [of "LocalGet (ucast k - word_of_nat j) # LocalSet (ucast k + ucast d - word_of_nat j) # c"]
      Suc.prems moved by simp
qed (use assms in simp)

text \<open>Both cases together; no spare cell is needed in the first.\<close>

lemma translate_drop_keep_correct:
  assumes ks: "length ks = unat (dk_keep dk)" and ds: "length ds = unat (dk_drop dk)"
    and room: "unat (dk_drop dk) < unat (dk_keep dk) \<longrightarrow> 0 < r"
  shows "fwd (drop_keep_code dk @ c) st (ks @ ds @ s) r = fwd c st (ks @ s) (r + length ds)"
proof -
  let ?d = "dk_drop dk" and ?k = "dk_keep dk"
  consider "?d = 0" | "?d \<noteq> 0" "?k \<le> ?d" | "?d \<noteq> 0" "?d < ?k" by force
  then show ?thesis
  proof cases
    case 1
    then show ?thesis using ds by (simp add: drop_keep_code_def translate_drop_keep_def)
  next
    case 2
    then have le: "unat ?k \<le> unat ?d" by (simp add: word_le_nat_alt)
    then have rest: "unat (?d - ?k) = unat ?d - unat ?k"
      using 2 by (simp add: unat_sub)
    have "drop_keep_code dk = replicate (length ks) (LocalSet (ucast ?d)) @ [BulkDrop (ucast (?d - ?k))]"
      using 2 ks by (simp add: drop_keep_code_def translate_drop_keep_def Let_def)
    then show ?thesis
      using fwd_local_sets [of ks ds "ucast ?d" "BulkDrop (ucast (?d - ?k)) # c" st s r] ks ds le
      by (simp add: fwd_bulk rest trans_le_add1)
  next
    case 3
    then have lt: "unat ?d < unat ?k" by (simp add: word_less_nat_alt)
    then obtain q where q: "r = Suc q" using room by (cases r) auto
    have code: "drop_keep_code dk = concat (map (\<lambda>i. [LocalGet (ucast ?k - word_of_nat i),
        LocalSet (ucast ?k + ucast ?d - word_of_nat i)]) [0..<unat ?k]) @ [BulkDrop (ucast ?d)]"
      using 3 by (auto simp: drop_keep_code_def translate_drop_keep_def Let_def not_le [symmetric])
    have "fwd (drop_keep_code dk @ c) st (ks @ ds @ s) r =
        fwd (BulkDrop (ucast ?d) # c) st (take (unat ?d) (ks @ ds) @ ks @ s) r"
      unfolding code q append.assoc
      by (subst fwd_moves [OF ks ds order.refl]) simp
    also have "\<dots> = fwd c st (ks @ s) (r + length ds)"
      using lt ks ds by (simp add: fwd_bulk)
    finally show ?thesis .
  qed
qed

end
