(* ===== verification/Labels.thy ===== *)
theory Labels
  imports Instruction_Set
begin

text \<open>
  The label registry of the translator (\<open>src/compiler/labels.rs\<close>) and the patching of the
  branches at the end of a function (\<open>finish\<close> in \<open>src/compiler/translator.rs\<close>). A label is
  pinned once to an instruction; a branch to a label that is not pinned yet is registered
  as a user and gets its offset at the end. \<open>resolve_branches_ok\<close> shows that every user then
  lands on the instruction its label was pinned to, and that nothing else is changed.
\<close>

datatype label = Pinned u32 | Unpinned

record label_user =
  user_label :: u32
  user_instr :: u32

record label_registry =
  labels :: "label list"
  users :: "label_user list"

datatype label_error = AlreadyPinned u32 u32 | LabelUnpinned u32

definition labels_reset :: label_registry where
  "labels_reset = \<lparr>labels = [], users = []\<rparr>"

definition new_label :: "label_registry \<Rightarrow> (u32 \<times> label_registry) result" where
  "new_label reg =
     (if length (labels reg) < 2 ^ 32
      then ok (word_of_nat (length (labels reg)), reg\<lparr>labels := labels reg @ [Unpinned]\<rparr>)
      else panic)"

definition get_label :: "u32 \<Rightarrow> label_registry \<Rightarrow> label option" where
  "get_label l reg = (if unat l < length (labels reg) then Some (labels reg ! unat l) else None)"

definition set_label :: "u32 \<Rightarrow> u32 \<Rightarrow> label_registry \<Rightarrow> label_registry" where
  "set_label l instr reg = reg\<lparr>labels := (labels reg)[unat l := Pinned instr]\<rparr>"

text \<open>\<open>pin_label\<close>; an index outside the registry panics.\<close>

definition pin_label :: "u32 \<Rightarrow> u32 \<Rightarrow> label_registry \<Rightarrow> (label_error + label_registry) option" where
  "pin_label l instr reg =
     (case get_label l reg of
        None \<Rightarrow> None
      | Some (Pinned pinned) \<Rightarrow> Some (Inl (AlreadyPinned l pinned))
      | Some Unpinned \<Rightarrow> Some (Inr (set_label l instr reg)))"

definition try_pin_label :: "u32 \<Rightarrow> u32 \<Rightarrow> label_registry \<Rightarrow> label_registry option" where
  "try_pin_label l instr reg =
     (case get_label l reg of
        None \<Rightarrow> None
      | Some (Pinned _) \<Rightarrow> Some reg
      | Some Unpinned \<Rightarrow> Some (set_label l instr reg))"

definition try_resolve_label :: "u32 \<Rightarrow> u32 \<Rightarrow> label_registry \<Rightarrow> (branch_offset \<times> label_registry) result" where
  "try_resolve_label l user reg =
     (case get_label l reg of
        None \<Rightarrow> panic
      | Some (Pinned target) \<Rightarrow>
          and_then (ok_or BranchOffsetOutOfBounds (from_src_to_dst user target)) (\<lambda>off. ok (off, reg))
      | Some Unpinned \<Rightarrow>
          ok (0, reg\<lparr>users := users reg @ [\<lparr>user_label = l, user_instr = user\<rparr>]\<rparr>))"

definition resolve_label :: "u32 \<Rightarrow> label_registry \<Rightarrow> (label_error + u32) option" where
  "resolve_label l reg =
     (case get_label l reg of
        None \<Rightarrow> None
      | Some (Pinned instr) \<Rightarrow> Some (Inr instr)
      | Some Unpinned \<Rightarrow> Some (Inl (LabelUnpinned l)))"

text \<open>One step of the iterator over the users: it panics on a label that is not pinned.\<close>

definition resolved_user :: "label_registry \<Rightarrow> label_user \<Rightarrow> branch_offset result" where
  "resolved_user reg u =
     (case resolve_label (user_label u) reg of
        Some (Inr dst) \<Rightarrow> ok_or BranchOffsetOutOfBounds (from_src_to_dst (user_instr u) dst)
      | _ \<Rightarrow> panic)"

text \<open>The loop over \<open>resolved_users\<close> that patches the branches.\<close>

fun resolve_branches :: "label_registry \<Rightarrow> label_user list \<Rightarrow> instruction_set \<Rightarrow> instruction_set result" where
  "resolve_branches reg [] is = ok is"
| "resolve_branches reg (u # us) is =
     and_then (resolved_user reg u) (\<lambda>off.
       and_then (patch_at (unat (user_instr u)) (\<lambda>op. update_branch_offset op off) is)
         (resolve_branches reg us))"

section \<open>Pinning\<close>

lemma get_new_label:
  "new_label reg = ok (l, reg') \<Longrightarrow>
   get_label l reg = None \<and> get_label l reg' = Some Unpinned \<and>
   (\<forall>k. k \<noteq> l \<longrightarrow> get_label k reg' = get_label k reg) \<and> users reg' = users reg"
  by (auto simp: new_label_def get_label_def unat_of_nat nth_append less_Suc_eq word_unat_eq_iff
      split: if_splits)

lemma get_set_label:
  "unat l < length (labels reg) \<Longrightarrow>
   get_label k (set_label l i reg) = (if k = l then Some (Pinned i) else get_label k reg)"
  by (auto simp: get_label_def set_label_def word_unat_eq_iff)

lemma get_label_bound: "get_label l reg = Some x \<Longrightarrow> unat l < length (labels reg)"
  by (simp add: get_label_def split: if_splits)

text \<open>A pin is never changed.\<close>

lemma pin_label_keeps:
  assumes "pin_label l i reg = Some (Inr reg')"
  shows "get_label l reg = Some Unpinned" "get_label l reg' = Some (Pinned i)"
    "get_label k reg = Some (Pinned j) \<Longrightarrow> get_label k reg' = Some (Pinned j)" "users reg' = users reg"
  using assms get_label_bound [of l reg]
  by (auto simp: pin_label_def get_set_label set_label_def [of l i] split: option.splits label.splits)
    (auto simp: set_label_def [symmetric] get_set_label)

lemma try_pin_label_keeps:
  assumes "try_pin_label l i reg = Some reg'"
  shows "get_label k reg = Some (Pinned j) \<Longrightarrow> get_label k reg' = Some (Pinned j)"
    "\<exists>j. get_label l reg' = Some (Pinned j)" "users reg' = users reg"
  using assms get_label_bound [of l reg]
  by (auto simp: try_pin_label_def get_set_label split: option.splits label.splits)
    (simp_all add: set_label_def)

section \<open>Every resolved branch lands on its label\<close>

text \<open>The offset a branch instruction carries.\<close>

definition branch_target_offset :: "opcode \<Rightarrow> branch_offset option" where
  "branch_target_offset op = (case op of
     Br off \<Rightarrow> Some off | BrIfEqz off \<Rightarrow> Some off | BrIfNez off \<Rightarrow> Some off | _ \<Rightarrow> None)"

lemma update_branch_offset_target:
  "update_branch_offset op off = Some op' \<Longrightarrow> branch_target_offset op' = Some off"
  by (cases op) (auto simp: update_branch_offset_def branch_target_offset_def)

definition lands :: "instruction_set \<Rightarrow> u32 \<Rightarrow> u32 \<Rightarrow> bool" where
  "lands is user target \<longleftrightarrow>
     (\<exists>off. unat user < length is \<and> branch_target_offset (is ! unat user) = Some off \<and>
        int (unat user) + sint off = int (unat target))"

lemma resolved_user_ok:
  "resolved_user reg u = ok off \<longleftrightarrow>
   (\<exists>t. get_label (user_label u) reg = Some (Pinned t) \<and> from_src_to_dst (user_instr u) t = Some off)"
  by (auto simp: resolved_user_def resolve_label_def split: option.splits label.splits)

lemma resolve_branches_ok:
  assumes "resolve_branches reg us is = ok is'" and "distinct (map user_instr us)"
  shows "length is' = length is \<and>
    (\<forall>i < length is. i \<notin> (unat \<circ> user_instr) ` set us \<longrightarrow> is' ! i = is ! i) \<and>
    (\<forall>u \<in> set us. \<exists>t. get_label (user_label u) reg = Some (Pinned t) \<and> lands is' (user_instr u) t)"
  using assms
proof (induction us arbitrary: "is")
  case (Cons u us)
  from Cons.prems(1) obtain off is1 where off: "resolved_user reg u = ok off"
    and is1: "patch_at (unat (user_instr u)) (\<lambda>op. update_branch_offset op off) is = ok is1"
    and rest: "resolve_branches reg us is1 = ok is'"
    by (auto simp: and_then_ok_iff)
  have dist: "distinct (map user_instr us)" and new: "user_instr u \<notin> user_instr ` set us"
    using Cons.prems(2) by auto
  obtain op where op: "unat (user_instr u) < length is" "is1 = is[unat (user_instr u) := op]"
    "branch_target_offset op = Some off"
    using is1 update_branch_offset_target by (auto simp: patch_at_ok)
  obtain t where t: "get_label (user_label u) reg = Some (Pinned t)" "from_src_to_dst (user_instr u) t = Some off"
    using off by (auto simp: resolved_user_ok)
  note IH = Cons.IH [OF rest dist]
  have "unat (user_instr u) \<notin> (unat \<circ> user_instr) ` set us"
    using new by (auto simp: word_unat_eq_iff [symmetric])
  then have "is' ! unat (user_instr u) = op"
    using IH op by simp
  then have "lands is' (user_instr u) t"
    using op IH from_src_to_dst_sint [OF t(2)] by (auto simp: lands_def)
  then show ?case using IH t(1) op by auto
qed simp_all

text \<open>A branch to a label that is pinned already gets its offset at once.\<close>

lemma try_resolve_label_ok:
  assumes "try_resolve_label l user reg = ok (off, reg')"
  shows "(\<exists>t. get_label l reg = Some (Pinned t) \<and> reg' = reg \<and> int (unat user) + sint off = int (unat t)) \<or>
    (get_label l reg = Some Unpinned \<and> off = 0 \<and> labels reg' = labels reg \<and>
      users reg' = users reg @ [\<lparr>user_label = l, user_instr = user\<rparr>])"
  using assms from_src_to_dst_sint
  by (auto simp: try_resolve_label_def and_then_ok_iff split: option.splits label.splits)

end
