(* ===== verification/Func_Types.thy ===== *)
theory Func_Types
  imports Instruction_Set Value_Stack
begin

text \<open>
  The registry of function types (\<open>src/compiler/func_type_registry.rs\<close>): every type is kept
  as written and with its 64-bit parameters and results split into two words, and has a
  signature index, the first position of an equal type. \<open>signatures_canonical\<close> shows that two
  types have the same signature index exactly when they are equal, which is what the
  signature check of an indirect call compares.

  \<open>func_type\<close> and \<open>block_type\<close> are the types of the parser crate with the parts the sources
  use.
\<close>

datatype func_type = FuncType (ft_params: "val_type list") (ft_results: "val_type list")

datatype block_type = BlockEmpty | BlockType val_type | BlockFuncType u32

record func_type_registry =
  original_func_types :: "func_type list"
  func_types :: "func_type list"
  original_signatures :: "u32 list"

definition registry_default :: func_type_registry where
  "registry_default = \<lparr>original_func_types = [], func_types = [], original_signatures = []\<rparr>"

fun adjusted_types :: "val_type list \<Rightarrow> val_type list result" where
  "adjusted_types [] = ok []"
| "adjusted_types (x # xs) =
     (case x of
        TI64 \<Rightarrow> and_then (adjusted_types xs) (\<lambda>ys. ok (TI32 # TI32 # ys))
      | TF64 \<Rightarrow> and_then (adjusted_types xs) (\<lambda>ys. ok (TI32 # TI32 # ys))
      | TV128 \<Rightarrow> err NotSupportedFuncType
      | _ \<Rightarrow> and_then (adjusted_types xs) (\<lambda>ys. ok (x # ys)))"

fun position :: "'a \<Rightarrow> 'a list \<Rightarrow> nat option" where
  "position a [] = None"
| "position a (x # xs) = (if x = a then Some 0 else map_option Suc (position a xs))"

definition alloc_func_type :: "func_type \<Rightarrow> func_type_registry \<Rightarrow> (u32 \<times> func_type_registry) result" where
  "alloc_func_type ft reg =
     and_then (adjusted_types (ft_params ft)) (\<lambda>adjusted_params.
     and_then (adjusted_types (ft_results ft)) (\<lambda>adjusted_result.
       let next_func_type_index = length (original_func_types reg);
           dedup_type_position =
             (case position ft (original_func_types reg) of
                Some i \<Rightarrow> i | None \<Rightarrow> next_func_type_index)
       in ok (word_of_nat next_func_type_index,
          \<lparr>original_func_types = original_func_types reg @ [ft],
           func_types = func_types reg @ [FuncType adjusted_params adjusted_result],
           original_signatures = original_signatures reg @ [word_of_nat dedup_type_position]\<rparr>)))"

fun alloc_func_types :: "func_type list \<Rightarrow> func_type_registry \<Rightarrow> func_type_registry result" where
  "alloc_func_types [] reg = ok reg"
| "alloc_func_types (ft # fts) reg =
     and_then (alloc_func_type ft reg) (\<lambda>(_, reg). alloc_func_types fts reg)"

definition registry_new :: "func_type list \<Rightarrow> func_type_registry result" where
  "registry_new fts = alloc_func_types fts registry_default"

definition resolve_func_type :: "u32 \<Rightarrow> func_type_registry \<Rightarrow> func_type option" where
  "resolve_func_type i reg =
     (if unat i < length (func_types reg) then Some (func_types reg ! unat i) else None)"

definition resolve_original_func_type :: "u32 \<Rightarrow> func_type_registry \<Rightarrow> func_type option" where
  "resolve_original_func_type i reg =
     (if unat i < length (original_func_types reg) then Some (original_func_types reg ! unat i) else None)"

definition resolve_func_type_signature :: "u32 \<Rightarrow> func_type_registry \<Rightarrow> u32 option" where
  "resolve_func_type_signature i reg =
     (if unat i < length (original_signatures reg) then Some (original_signatures reg ! unat i) else None)"

text \<open>The number of words of the parameters and results of a block.\<close>

definition resolve_func_params_len_type_by_block :: "block_type \<Rightarrow> func_type_registry \<Rightarrow> nat option" where
  "resolve_func_params_len_type_by_block bt reg =
     (case bt of
        BlockFuncType i \<Rightarrow> do { ft \<leftarrow> resolve_func_type i reg; Some (length (ft_params ft)) }
      | BlockEmpty \<Rightarrow> Some 0
      | BlockType _ \<Rightarrow> Some 0)"

definition resolve_func_results_len_type_by_block :: "block_type \<Rightarrow> func_type_registry \<Rightarrow> nat option" where
  "resolve_func_results_len_type_by_block bt reg =
     (case bt of
        BlockFuncType i \<Rightarrow> do { ft \<leftarrow> resolve_func_type i reg; Some (length (ft_results ft)) }
      | BlockType ty \<Rightarrow> Some (case ty of TI64 \<Rightarrow> 2 | TF64 \<Rightarrow> 2 | _ \<Rightarrow> 1)
      | BlockEmpty \<Rightarrow> Some 0)"

section \<open>Splitting\<close>

text \<open>The number of 32-bit words of a value of a type, and of a list of types.\<close>

definition words_of :: "val_type \<Rightarrow> nat" where
  "words_of t = (if t = TI64 \<or> t = TF64 then 2 else 1)"

definition words_of_all :: "val_type list \<Rightarrow> nat" where
  "words_of_all ts = sum_list (map words_of ts)"

lemma words_of_all_simps [simp]:
  "words_of_all [] = 0" "words_of_all (t # ts) = words_of t + words_of_all ts"
  "words_of_all (ts @ us) = words_of_all ts + words_of_all us"
  by (simp_all add: words_of_all_def)

lemma adjusted_types_ok:
  "adjusted_types ts = ok us \<Longrightarrow> length us = words_of_all ts \<and> set us \<inter> {TI64, TF64, TV128} = {}"
proof (induction ts arbitrary: us)
  case (Cons t ts)
  then show ?case
    by (cases t) (fastforce simp: and_then_ok_iff words_of_def)+
qed simp

lemma adjusted_types_total: "TV128 \<notin> set ts \<Longrightarrow> \<exists>us. adjusted_types ts = ok us"
proof (induction ts)
  case (Cons t ts)
  then show ?case by (cases t) auto
qed simp

lemma adjusted_types_vector: "TV128 \<in> set ts \<Longrightarrow> adjusted_types ts = err NotSupportedFuncType"
proof (induction ts)
  case (Cons t ts)
  then show ?case by (cases t) auto
qed simp

section \<open>Signatures\<close>

lemma position_Some_iff:
  "position a xs = Some i \<longleftrightarrow> i < length xs \<and> xs ! i = a \<and> (\<forall>j < i. xs ! j \<noteq> a)"
proof (induction xs arbitrary: i)
  case (Cons x xs)
  show ?case
  proof (cases "x = a")
    case False
    then show ?thesis using Cons
      by (cases i) (auto simp: All_less_Suc2)
  qed auto
qed simp

lemma position_None_iff: "position a xs = None \<longleftrightarrow> a \<notin> set xs"
  by (induction xs) auto

text \<open>The invariant: the three lists go together, and a signature is the first position.\<close>

definition registry_wf :: "func_type_registry \<Rightarrow> bool" where
  "registry_wf reg \<longleftrightarrow>
     length (func_types reg) = length (original_func_types reg) \<and>
     length (original_signatures reg) = length (original_func_types reg) \<and>
     (\<forall>i < length (original_func_types reg).
        adjusted_types (ft_params (original_func_types reg ! i)) = ok (ft_params (func_types reg ! i)) \<and>
        adjusted_types (ft_results (original_func_types reg ! i)) = ok (ft_results (func_types reg ! i)) \<and>
        (\<exists>k. position (original_func_types reg ! i) (original_func_types reg) = Some k \<and>
           original_signatures reg ! i = word_of_nat k))"

lemma registry_default_wf: "registry_wf registry_default"
  by (simp add: registry_wf_def registry_default_def)

lemma position_snoc:
  "position a (xs @ [y]) =
     (case position a xs of Some i \<Rightarrow> Some i | None \<Rightarrow> if y = a then Some (length xs) else None)"
  by (induction xs) (auto split: option.split)

lemma alloc_func_type_wf:
  assumes wf: "registry_wf reg" and alloc: "alloc_func_type ft reg = ok (i, reg')"
  shows "registry_wf reg' \<and> i = word_of_nat (length (original_func_types reg)) \<and>
    original_func_types reg' = original_func_types reg @ [ft]"
proof -
  from alloc obtain ps rs where ps: "adjusted_types (ft_params ft) = ok ps"
    and rs: "adjusted_types (ft_results ft) = ok rs"
    and reg': "i = word_of_nat (length (original_func_types reg))"
      "reg' = \<lparr>original_func_types = original_func_types reg @ [ft],
         func_types = func_types reg @ [FuncType ps rs],
         original_signatures = original_signatures reg @ [word_of_nat
           (case position ft (original_func_types reg) of Some i \<Rightarrow> i
            | None \<Rightarrow> length (original_func_types reg))]\<rparr>"
    by (auto simp: alloc_func_type_def and_then_ok_iff Let_def)
  have old: "position t (original_func_types reg @ [ft]) = Some k"
    if "position t (original_func_types reg) = Some k" for t k
    using that by (simp add: position_snoc)
  show ?thesis
    using wf ps rs old unfolding reg' registry_wf_def
    by (auto simp: nth_append less_Suc_eq position_snoc split: option.splits)
qed

lemma alloc_func_types_wf:
  "registry_wf reg \<Longrightarrow> alloc_func_types fts reg = ok reg' \<Longrightarrow>
   registry_wf reg' \<and> original_func_types reg' = original_func_types reg @ fts"
proof (induction fts arbitrary: reg)
  case (Cons ft fts)
  then obtain i reg1 where reg1: "alloc_func_type ft reg = ok (i, reg1)" "alloc_func_types fts reg1 = ok reg'"
    by (auto simp: and_then_ok_iff)
  then show ?case using Cons.IH [of reg1] alloc_func_type_wf [OF Cons.prems(1) reg1(1)]
    by simp
qed simp

text \<open>Equal signatures mean equal types.\<close>

lemma signatures_canonical:
  assumes wf: "registry_wf reg" and bound: "length (original_func_types reg) \<le> 2 ^ 32"
    and i: "resolve_func_type_signature i reg = Some s" and j: "resolve_func_type_signature j reg = Some t"
  shows "s = t \<longleftrightarrow> resolve_original_func_type i reg = resolve_original_func_type j reg"
proof -
  let ?ts = "original_func_types reg"
  have ij: "unat i < length ?ts" "unat j < length ?ts"
    using i j wf by (auto simp: resolve_func_type_signature_def registry_wf_def split: if_splits)
  obtain k where k: "position (?ts ! unat i) ?ts = Some k" "s = word_of_nat k"
    using i wf ij by (auto simp: resolve_func_type_signature_def registry_wf_def)
  obtain l where l: "position (?ts ! unat j) ?ts = Some l" "t = word_of_nat l"
    using j wf ij by (auto simp: resolve_func_type_signature_def registry_wf_def)
  have "k < 2 ^ 32" "l < 2 ^ 32" "?ts ! k = ?ts ! unat i" "?ts ! l = ?ts ! unat j"
    using k(1) l(1) bound by (auto simp: position_Some_iff)
  then have "s = t \<longleftrightarrow> k = l"
    by (simp add: k(2) l(2) of_nat_inverse word_unat_eq_iff unat_of_nat)
  also have "\<dots> \<longleftrightarrow> ?ts ! unat i = ?ts ! unat j"
    using k(1) l(1) \<open>?ts ! k = ?ts ! unat i\<close> \<open>?ts ! l = ?ts ! unat j\<close> by auto
  finally show ?thesis
    using ij by (simp add: resolve_original_func_type_def)
qed

end
