(* ===== verification/Control_Flow.thy ===== *)
theory Control_Flow
  imports Func_Types
begin

text \<open>
  The control flow frames of the translator (\<open>src/compiler/control_flow.rs\<close>): one record per
  kind of frame, the stack of frames with the innermost last, and the accessors. A result
  \<open>None\<close> is a panic: an empty stack, a depth beyond it, an accessor on an unreachable frame.
\<close>

section \<open>Frames\<close>

record block_control_frame =
  block_block_type :: block_type
  block_stack_height :: u32
  block_end_label :: u32
  block_consume_fuel :: "u32 option"
  block_len_branches :: nat

definition block_frame_new :: "block_type \<Rightarrow> u32 \<Rightarrow> u32 \<Rightarrow> u32 option \<Rightarrow> block_control_frame" where
  "block_frame_new bt end_label h fuel =
     \<lparr>block_block_type = bt, block_stack_height = h, block_end_label = end_label,
      block_consume_fuel = fuel, block_len_branches = 0\<rparr>"

record loop_control_frame =
  loop_block_type :: block_type
  loop_stack_height :: u32
  loop_head_label :: u32
  loop_consume_fuel :: "u32 option"
  loop_len_branches :: nat

definition loop_frame_new :: "block_type \<Rightarrow> u32 \<Rightarrow> u32 \<Rightarrow> u32 option \<Rightarrow> loop_control_frame" where
  "loop_frame_new bt head_label h fuel =
     \<lparr>loop_block_type = bt, loop_stack_height = h, loop_head_label = head_label,
      loop_consume_fuel = fuel, loop_len_branches = 0\<rparr>"

record if_control_frame =
  if_block_type :: block_type
  if_stack_height :: u32
  if_end_label :: u32
  if_else_label :: u32
  if_end_of_then_is_reachable :: "bool option"
  if_consume_fuel :: "u32 option"
  if_len_branches :: nat

definition if_frame_new :: "block_type \<Rightarrow> u32 \<Rightarrow> u32 \<Rightarrow> u32 \<Rightarrow> u32 option \<Rightarrow> if_control_frame option" where
  "if_frame_new bt end_label else_label h fuel =
     (if end_label = else_label then None
      else Some \<lparr>if_block_type = bt, if_stack_height = h, if_end_label = end_label,
        if_else_label = else_label, if_end_of_then_is_reachable = None, if_consume_fuel = fuel,
        if_len_branches = 0\<rparr>)"

definition update_end_of_then_reachability :: "bool \<Rightarrow> if_control_frame \<Rightarrow> if_control_frame option" where
  "update_end_of_then_reachability reachable f =
     (if if_end_of_then_is_reachable f = None
      then Some (f\<lparr>if_end_of_then_is_reachable := Some reachable\<rparr>) else None)"

datatype control_frame_kind = KindBlock | KindLoop | KindIf

record unreachable_control_frame =
  unreachable_block_type :: block_type
  unreachable_kind :: control_frame_kind

definition unreachable_frame_new :: "control_frame_kind \<Rightarrow> block_type \<Rightarrow> unreachable_control_frame" where
  "unreachable_frame_new k bt = \<lparr>unreachable_block_type = bt, unreachable_kind = k\<rparr>"

datatype control_frame =
    FrameBlock block_control_frame
  | FrameLoop loop_control_frame
  | FrameIf if_control_frame
  | FrameUnreachable unreachable_control_frame

section \<open>Accessors\<close>

definition frame_kind :: "control_frame \<Rightarrow> control_frame_kind" where
  "frame_kind f = (case f of
     FrameBlock _ \<Rightarrow> KindBlock | FrameLoop _ \<Rightarrow> KindLoop | FrameIf _ \<Rightarrow> KindIf
   | FrameUnreachable u \<Rightarrow> unreachable_kind u)"

definition branch_destination :: "control_frame \<Rightarrow> u32 option" where
  "branch_destination f = (case f of
     FrameBlock b \<Rightarrow> Some (block_end_label b)
   | FrameLoop l \<Rightarrow> Some (loop_head_label l)
   | FrameIf i \<Rightarrow> Some (if_end_label i)
   | FrameUnreachable _ \<Rightarrow> None)"

definition frame_end_label :: "control_frame \<Rightarrow> u32 option" where
  "frame_end_label f = (case f of
     FrameBlock b \<Rightarrow> Some (block_end_label b)
   | FrameIf i \<Rightarrow> Some (if_end_label i)
   | FrameLoop _ \<Rightarrow> None
   | FrameUnreachable _ \<Rightarrow> None)"

definition frame_stack_height :: "control_frame \<Rightarrow> u32 option" where
  "frame_stack_height f = (case f of
     FrameBlock b \<Rightarrow> Some (block_stack_height b)
   | FrameLoop l \<Rightarrow> Some (loop_stack_height l)
   | FrameIf i \<Rightarrow> Some (if_stack_height i)
   | FrameUnreachable _ \<Rightarrow> None)"

definition frame_block_type :: "control_frame \<Rightarrow> block_type" where
  "frame_block_type f = (case f of
     FrameBlock b \<Rightarrow> block_block_type b
   | FrameLoop l \<Rightarrow> loop_block_type l
   | FrameIf i \<Rightarrow> if_block_type i
   | FrameUnreachable u \<Rightarrow> unreachable_block_type u)"

definition frame_is_reachable :: "control_frame \<Rightarrow> bool" where
  "frame_is_reachable f \<longleftrightarrow> (case f of FrameUnreachable _ \<Rightarrow> False | _ \<Rightarrow> True)"

definition consume_fuel_instr :: "control_frame \<Rightarrow> u32 option" where
  "consume_fuel_instr f = (case f of
     FrameBlock b \<Rightarrow> block_consume_fuel b
   | FrameLoop l \<Rightarrow> loop_consume_fuel l
   | FrameIf i \<Rightarrow> if_consume_fuel i
   | FrameUnreachable _ \<Rightarrow> None)"

definition bump_branches :: "control_frame \<Rightarrow> control_frame" where
  "bump_branches f = (case f of
     FrameBlock b \<Rightarrow> FrameBlock (b\<lparr>block_len_branches := block_len_branches b + 1\<rparr>)
   | FrameLoop l \<Rightarrow> FrameLoop (l\<lparr>loop_len_branches := loop_len_branches l + 1\<rparr>)
   | FrameIf i \<Rightarrow> FrameIf (i\<lparr>if_len_branches := if_len_branches i + 1\<rparr>)
   | FrameUnreachable u \<Rightarrow> FrameUnreachable u)"

definition is_branched_to :: "control_frame \<Rightarrow> bool" where
  "is_branched_to f \<longleftrightarrow> (case f of
     FrameBlock b \<Rightarrow> block_len_branches b > 0
   | FrameLoop l \<Rightarrow> loop_len_branches l > 0
   | FrameIf i \<Rightarrow> if_len_branches i > 0
   | FrameUnreachable _ \<Rightarrow> False)"

text \<open>The fuel instruction is only replaced when there was one.\<close>

definition update_consume_fuel_instr :: "u32 \<Rightarrow> control_frame \<Rightarrow> control_frame option" where
  "update_consume_fuel_instr instr f = (case f of
     FrameBlock b \<Rightarrow>
       if block_consume_fuel b = None then None
       else Some (FrameBlock (b\<lparr>block_consume_fuel := Some instr\<rparr>))
   | FrameLoop l \<Rightarrow>
       if loop_consume_fuel l = None then None
       else Some (FrameLoop (l\<lparr>loop_consume_fuel := Some instr\<rparr>))
   | FrameIf i \<Rightarrow>
       if if_consume_fuel i = None then None
       else Some (FrameIf (i\<lparr>if_consume_fuel := Some instr\<rparr>))
   | FrameUnreachable u \<Rightarrow> Some (FrameUnreachable u))"

section \<open>The stack of frames\<close>

type_synonym control_flow_stack = "control_frame list"

definition is_root :: "u32 \<Rightarrow> control_flow_stack \<Rightarrow> bool" where
  "is_root relative_depth frames \<longleftrightarrow> unat relative_depth = length frames - 1"

definition pop_frame :: "control_flow_stack \<Rightarrow> (control_frame \<times> control_flow_stack) option" where
  "pop_frame frames = (if frames = [] then None else Some (last frames, butlast frames))"

definition last_frame :: "control_flow_stack \<Rightarrow> control_frame option" where
  "last_frame frames = (if frames = [] then None else Some (last frames))"

definition frame_nth_back :: "u32 \<Rightarrow> control_flow_stack \<Rightarrow> control_frame option" where
  "frame_nth_back depth frames =
     (if unat depth < length frames then Some (frames ! (length frames - 1 - unat depth)) else None)"

definition set_frame_nth_back :: "u32 \<Rightarrow> control_frame \<Rightarrow> control_flow_stack \<Rightarrow> control_flow_stack" where
  "set_frame_nth_back depth f frames = frames[length frames - 1 - unat depth := f]"

text \<open>\<open>max_depth\<close> of the translator: the depth of the outermost frame.\<close>

definition max_depth :: "control_flow_stack \<Rightarrow> u32 option" where
  "max_depth frames = (if frames = [] then None else Some (word_of_nat (length frames - 1)))"

lemma pop_frame_push: "pop_frame frames = Some (f, fs) \<longleftrightarrow> frames = fs @ [f]"
  by (cases frames rule: rev_cases) (auto simp: pop_frame_def)

lemma last_frame_snoc [simp]: "last_frame (fs @ [f]) = Some f" "last_frame [] = None"
  by (simp_all add: last_frame_def)

lemma last_frame_nth_back: "frames \<noteq> [] \<Longrightarrow> last_frame frames = frame_nth_back 0 frames"
  by (simp add: last_frame_def frame_nth_back_def last_conv_nth)

lemma bump_branches_keeps [simp]:
  "frame_stack_height (bump_branches f) = frame_stack_height f"
  "frame_block_type (bump_branches f) = frame_block_type f"
  "frame_kind (bump_branches f) = frame_kind f"
  "consume_fuel_instr (bump_branches f) = consume_fuel_instr f"
  "branch_destination (bump_branches f) = branch_destination f"
  "frame_is_reachable (bump_branches f) = frame_is_reachable f"
  by (auto simp: bump_branches_def frame_stack_height_def frame_block_type_def frame_kind_def
      consume_fuel_instr_def branch_destination_def frame_is_reachable_def split: control_frame.split)

lemma update_fuel_keeps:
  assumes "update_consume_fuel_instr i f = Some f'"
  shows "frame_stack_height f' = frame_stack_height f" "frame_block_type f' = frame_block_type f"
    "frame_kind f' = frame_kind f" "branch_destination f' = branch_destination f"
    "frame_is_reachable f' = frame_is_reachable f"
  using assms
  by (auto simp: update_consume_fuel_instr_def frame_stack_height_def frame_block_type_def frame_kind_def
      branch_destination_def frame_is_reachable_def split: control_frame.splits if_splits)

lemma update_fuel_instr:
  "update_consume_fuel_instr i f = Some f' \<Longrightarrow> frame_is_reachable f \<Longrightarrow> consume_fuel_instr f' = Some i"
  by (auto simp: update_consume_fuel_instr_def consume_fuel_instr_def frame_is_reachable_def
      split: control_frame.splits if_splits)

end
