(* ===== verification/Segment_Builder.thy ===== *)
theory Segment_Builder
  imports Isa_Init Func_Types
begin

text \<open>
  The builder of the module's sections (\<open>src/compiler/segment_builder.rs\<close>): all data segments
  are merged into one section and all element segments into another; the entrypoint code
  sets the globals, grows the memory and the tables, copies the active segments and drops
  them. \<open>active_memory_initialises\<close> and \<open>active_elements_initialise\<close> run the code emitted for
  an active segment.

  \<open>global_variable\<close> and \<open>table_type\<close> hold the parts of the parser's types that are used.
\<close>

declare split_paired_Ex [simp del] split_paired_All [simp del]

record global_variable =
  content_type :: val_type
  global_mutable :: bool
  default_value :: u64

record table_type =
  element_type :: val_type
  table_initial :: u32
  table_maximum :: "u32 option"

record segment_builder =
  global_memory_section :: "u8 list"
  memory_sections :: "u32 \<rightharpoonup> u32 \<times> u32"
  global_element_section :: "u32 list"
  element_sections :: "u32 \<rightharpoonup> u32 \<times> u32"
  total_allocated_pages :: u32
  entrypoint_bytecode :: instruction_set

definition segment_builder_default :: segment_builder where
  "segment_builder_default =
     \<lparr>global_memory_section = [], memory_sections = Map.empty, global_element_section = [],
      element_sections = Map.empty, total_allocated_pages = 0, entrypoint_bytecode = [StackCheck 5]\<rparr>"

definition emit_entry :: "opcode list \<Rightarrow> segment_builder \<Rightarrow> segment_builder" where
  "emit_entry ops b = b\<lparr>entrypoint_bytecode := entrypoint_bytecode b @ ops\<rparr>"

definition add_global_variable :: "u32 \<Rightarrow> global_variable \<Rightarrow> segment_builder \<Rightarrow> segment_builder result" where
  "add_global_variable global_idx g b =
     (let v = default_value g in
      case content_type g of
        TI32 \<Rightarrow> ok (emit_entry [I32Const (lo32 v), GlobalSet (global_idx * 2)] b)
      | TF32 \<Rightarrow> ok (emit_entry [I32Const (lo32 v), GlobalSet (global_idx * 2)] b)
      | TI64 \<Rightarrow> ok (emit_entry [I32Const (lo32 v), I32Const (hi32 v), GlobalSet (global_idx * 2),
                  GlobalSet (global_idx * 2 + 1)] b)
      | TF64 \<Rightarrow> ok (emit_entry [I32Const (lo32 v), I32Const (hi32 v), GlobalSet (global_idx * 2),
                  GlobalSet (global_idx * 2 + 1)] b)
      | TFuncRef \<Rightarrow> ok (emit_entry [RefFunc (lo32 v), GlobalSet (global_idx * 2)] b)
      | TExternRef \<Rightarrow> ok (emit_entry [RefFunc (lo32 v), GlobalSet (global_idx * 2)] b)
      | TV128 \<Rightarrow> err NotSupportedGlobalType)"

definition add_memory_pages :: "fuel_policy \<Rightarrow> u32 \<Rightarrow> u32 \<Rightarrow> segment_builder \<Rightarrow> segment_builder result" where
  "add_memory_pages fp initial_pages max_pages b =
     (let next_pages = saturating_add (total_allocated_pages b) initial_pages in
      if next_pages \<ge> max_pages then err MaxReadonlyDataReached
      else
        let b = (if initial_pages > 0
                 then emit_entry ([I32Const initial_pages] @ op_memory_grow_checked fp None False @ [Drop]) b
                 else b)
        in ok (b\<lparr>total_allocated_pages := next_pages\<rparr>))"

definition emit_table_segment :: "u16 \<Rightarrow> table_type \<Rightarrow> segment_builder \<Rightarrow> segment_builder" where
  "emit_table_segment table_index t b =
     emit_entry [RefFunc 0, I32Const (table_initial t), TableGrow table_index, Drop] b"

text \<open>The test that a segment leaves the pages allocated so far; it is false when the sums
  overflow.\<close>

definition has_memory_overflow :: "u32 \<Rightarrow> u32 \<Rightarrow> u32 \<Rightarrow> bool" where
  "has_memory_overflow offset len pages =
     (case checked_add offset len of
        None \<Rightarrow> False
      | Some n \<Rightarrow>
          (case checked_add n (N_BYTES_PER_MEMORY_PAGE - 1) of
             None \<Rightarrow> False
           | Some n \<Rightarrow> n div N_BYTES_PER_MEMORY_PAGE > pages))"

definition add_active_memory :: "u32 \<Rightarrow> u32 \<Rightarrow> u8 list \<Rightarrow> segment_builder \<Rightarrow> segment_builder" where
  "add_active_memory segment_idx offset bytes b =
     (let data_offset = length (global_memory_section b);
          data_length = length bytes;
          b = b\<lparr>global_memory_section := global_memory_section b @ bytes\<rparr>;
          n = (if has_memory_overflow offset (word_of_nat data_length) (total_allocated_pages b)
               then 0xFFFFFFFF else word_of_nat data_length);
          b = emit_entry [I32Const offset, I32Const (word_of_nat data_offset), I32Const n,
                MemoryInit 0, DataDrop (segment_idx + 1)] b
      in b\<lparr>memory_sections := (memory_sections b)(segment_idx \<mapsto> (offset, word_of_nat data_length))\<rparr>)"

definition add_passive_memory :: "u32 \<Rightarrow> u8 list \<Rightarrow> segment_builder \<Rightarrow> segment_builder" where
  "add_passive_memory segment_idx bytes b =
     (let data_offset = word_of_nat (length (global_memory_section b));
          data_length = word_of_nat (length bytes)
      in b\<lparr>global_memory_section := global_memory_section b @ bytes,
           memory_sections := (memory_sections b)(segment_idx \<mapsto> (data_offset, data_length))\<rparr>)"

definition add_active_elements :: "u32 \<Rightarrow> u32 \<Rightarrow> u16 \<Rightarrow> u32 list \<Rightarrow> segment_builder \<Rightarrow> segment_builder" where
  "add_active_elements segment_idx offset table_idx elements b =
     (let segment_offset = length (global_element_section b);
          b = b\<lparr>global_element_section := global_element_section b @ elements\<rparr>;
          segment_length = length (global_element_section b) - segment_offset;
          b = emit_entry [I32Const offset, I32Const (word_of_nat segment_offset),
                I32Const (word_of_nat segment_length), TableInit (segment_idx + 1), TableGet table_idx,
                ElemDrop (segment_idx + 1)] b
      in b\<lparr>element_sections := (element_sections b)(segment_idx \<mapsto> (offset, word_of_nat segment_length))\<rparr>)"

definition add_passive_elements :: "u32 \<Rightarrow> u32 list \<Rightarrow> segment_builder \<Rightarrow> segment_builder" where
  "add_passive_elements segment_idx elements b =
     (let segment_offset = word_of_nat (length (global_element_section b));
          b = b\<lparr>global_element_section := global_element_section b @ elements\<rparr>;
          segment_length = word_of_nat (length (global_element_section b)) - segment_offset
      in b\<lparr>element_sections := (element_sections b)(segment_idx \<mapsto> (segment_offset, segment_length))\<rparr>)"

section \<open>The entrypoint code of an active segment\<close>

definition dropped :: "u32 \<Rightarrow> bool list \<Rightarrow> bool list" where
  "dropped i flags = (vec_resize (unat i + 1) False flags)[unat i := True]"

lemma computes_data_drop:
  assumes "bitvec_resize env = vec_resize"
  shows "computes env [DataDrop i] msh st [] (Inr (st\<lparr>empty_data_segments := dropped i (empty_data_segments st)\<rparr>, []))"
proof (rule computes_follows)
  fix x t r k
  assume x: "code_at (code_section (module env)) k [DataDrop i]" "ip x = int k" "store x = st" "repr (stack_of x) ([] @ t) r"
  then show "follows x (exec_step env x) (case Inr (st\<lparr>empty_data_segments := dropped i (empty_data_segments st)\<rparr>, []) of
      Inr (st', outs) \<Rightarrow> Goto (int (length [DataDrop i])) st' (outs @ t) (r + length ([] :: u32 list) - length outs)
    | Inl (c, st') \<Rightarrow> Trapping c st')"
    using fetch_at [OF x(1)] assms
    by (auto simp: exec_step_def step_def visit_data_drop_def mark_dropped_def dropped_def follow_defs
        Let_def stack_of_def set_stack_def intro!: exI [of _ "stack_of x"])
qed

lemma computes_elem_drop:
  assumes "bitvec_resize env = vec_resize"
  shows "computes env [ElemDrop i] msh st [] (Inr (st\<lparr>empty_elem_segments := dropped i (empty_elem_segments st)\<rparr>, []))"
proof (rule computes_follows)
  fix x t r k
  assume x: "code_at (code_section (module env)) k [ElemDrop i]" "ip x = int k" "store x = st" "repr (stack_of x) ([] @ t) r"
  then show "follows x (exec_step env x) (case Inr (st\<lparr>empty_elem_segments := dropped i (empty_elem_segments st)\<rparr>, []) of
      Inr (st', outs) \<Rightarrow> Goto (int (length [ElemDrop i])) st' (outs @ t) (r + length ([] :: u32 list) - length outs)
    | Inl (c, st') \<Rightarrow> Trapping c st')"
    using fetch_at [OF x(1)] assms
    by (auto simp: exec_step_def step_def visit_element_drop_def mark_dropped_def dropped_def follow_defs
        Let_def stack_of_def set_stack_def intro!: exI [of _ "stack_of x"])
qed

lemma computes_three_consts:
  "computes env [I32Const a, I32Const b, I32Const c] 3 st [] (Inr (st, [c, b, a]))"
  by (rule computes_fwd [where r' = 0]) (simp add: exec_simps)

lemma i32_as_usize_small: "unat v < 2 ^ 31 \<Longrightarrow> i32_as_usize v = unat v"
proof -
  assume v: "unat v < 2 ^ 31"
  have "unat (word_of_nat (unat v) :: u64) = unat v"
    using v by (subst unat_of_nat) simp
  then show ?thesis
    using sint_small [OF v] by (simp add: i32_as_usize_def scast_eq)
qed

lemma small_memory_covers:
  assumes mem: "length (memory_of st) = 65536 * unat pages" and n: "has_memory_overflow offset len pages"
    and offset: "unat offset < 2 ^ 31" and len: "unat len < 2 ^ 31"
  shows "length (memory_of st) < unat offset + unat len"
proof -
  from n obtain m k where m: "checked_add offset len = Some m"
    "checked_add m (N_BYTES_PER_MEMORY_PAGE - 1) = Some k" "k div N_BYTES_PER_MEMORY_PAGE > pages"
    by (auto simp: has_memory_overflow_def split: option.splits)
  then have "unat m = unat offset + unat len" "unat k = unat m + 65535" "unat pages < unat k div 65536"
    by (auto simp: checked_add_Some_iff N_BYTES_PER_MEMORY_PAGE_def word_less_nat_alt unat_div)
  then have "unat pages < (unat offset + unat len + 65535) div 65536" by simp
  then have "65536 * unat pages < unat offset + unat len" by linarith
  then show ?thesis by (simp add: mem)
qed

text \<open>An active segment is copied to its offset and dropped, or the entrypoint traps when the
  segment leaves the memory that the previous entries have allocated.\<close>

lemma active_memory_initialises:
  fixes env :: "'h env"
  assumes b': "b' = add_active_memory i offset bytes b"
    and data: "data_section (module env) = global_memory_section b' @ trailing"
    and small: "length (global_memory_section b') < 2 ^ 31" "unat offset < 2 ^ 31"
    and mem: "length (memory_of st) = 65536 * unat (total_allocated_pages b)"
    and live: "\<not> flag_at (empty_data_segments st) 0" and resize: "bitvec_resize env = vec_resize"
    and code: "entrypoint_bytecode b' = entrypoint_bytecode b @ code"
  shows "computes env code 3 st []
      (if unat offset + length bytes \<le> length (memory_of st) then
         Inr ((with_memory (overwrite (memory_of st) (unat offset) bytes) st)
               \<lparr>empty_data_segments := dropped (i + 1) (empty_data_segments st)\<rparr>, [])
       else Inl (MemoryOutOfBounds, st))"
proof -
  let ?len = "word_of_nat (length bytes) :: u32" and ?off = "word_of_nat (length (global_memory_section b)) :: u32"
  let ?over = "has_memory_overflow offset ?len (total_allocated_pages b)"
  let ?n = "if ?over then 0xFFFFFFFF else ?len"
  let ?fits = "unat offset + length bytes \<le> length (memory_of st)"
  have len: "unat ?len = length bytes" "unat ?off = length (global_memory_section b)"
    "length bytes < 2 ^ 31" "length (global_memory_section b) < 2 ^ 31"
    using small(1) by (simp_all add: b' add_active_memory_def emit_entry_def Let_def unat_of_nat)
  have over: "?over \<Longrightarrow> \<not> ?fits"
    using small_memory_covers [OF mem _ small(2)] len by fastforce
  have huge: "i32_as_usize 0xFFFFFFFF = 2 ^ 64 - 1" by (simp add: i32_as_usize_def unsigned_minus_1_eq_mask mask_eq_exp_minus_1)
  have addr: "i32_as_usize offset = unat offset" "i32_as_usize ?len = length bytes"
    "i32_as_usize ?off = length (global_memory_section b)"
    using i32_as_usize_small small(2) len by simp_all
  have bytes: "slice_get (data_section (module env)) (length (global_memory_section b)) (length bytes) = Some bytes"
    by (simp add: data b' add_active_memory_def emit_entry_def Let_def slice_get_def)
  have pages: "length (memory_of st) < 2 ^ 64 - 1"
    using unat_less [of "total_allocated_pages b"] by (simp add: mem)
  have init: "initialised_memory env 0 offset ?off ?n st =
      (if ?fits then Inr (with_memory (overwrite (memory_of st) (unat offset) bytes) st) else Inl MemoryOutOfBounds)"
    using over live pages
    by (auto simp: initialised_memory_def addr huge bytes slice_get_Some_iff slice_get_None_iff split: option.split)
  let ?code = "[I32Const offset, I32Const ?off, I32Const ?n, MemoryInit 0, DataDrop (i + 1)]"
  have first: "computes env ([I32Const offset, I32Const ?off, I32Const ?n] @ [MemoryInit 0]) 3 st []
      (outcome st (initialised_memory env 0 offset ?off ?n st))"
    by (rule computes_append [OF computes_three_consts computes_memory_init [of env 0 0]]) simp
  have "computes env ?code 3 st []
      (if ?fits then
         Inr ((with_memory (overwrite (memory_of st) (unat offset) bytes) st)
               \<lparr>empty_data_segments := dropped (i + 1) (empty_data_segments st)\<rparr>, [])
       else Inl (MemoryOutOfBounds, st))"
  proof (cases ?fits)
    case True
    with first have "computes env ([I32Const offset, I32Const ?off, I32Const ?n] @ [MemoryInit 0]) 3 st []
        (Inr (with_memory (overwrite (memory_of st) (unat offset) bytes) st, []))"
      by (simp add: init outcome_def)
    from computes_append [OF this computes_data_drop [OF resize, of "i + 1" 0]] True
    show ?thesis by (simp add: with_memory_def)
  next
    case False
    with first have "computes env ([I32Const offset, I32Const ?off, I32Const ?n] @ [MemoryInit 0]) 3 st []
        (Inl (MemoryOutOfBounds, st))"
      by (simp add: init outcome_def)
    from computes_append_trap [OF this, of "[DataDrop (i + 1)]"] False show ?thesis by simp
  qed
  moreover have "code = ?code"
    using code by (simp add: b' add_active_memory_def emit_entry_def Let_def)
  ultimately show ?thesis by simp
qed

text \<open>An active element segment is written to its table and dropped, or the entrypoint traps when
  the segment leaves the table.\<close>

lemma init_untyped_section:
  assumes "length es < 2 ^ 32" and "unat off = length pre" and "section = pre @ es @ post"
  shows "init_untyped d section off (word_of_nat (length es)) t = init_untyped d es 0 (word_of_nat (length es)) t"
  using assms by (simp add: init_untyped_def slice_get_def unat_of_nat split: option.split)

lemma active_elements_initialise:
  fixes env :: "'h env"
  assumes b': "b' = add_active_elements i offset table_idx elements b"
    and elems: "elem_section (module env) = global_element_section b' @ trailing"
    and small: "length (global_element_section b') < 2 ^ 32" and tab: "tables st table_idx = Some t"
    and live: "\<not> flag_at (empty_elem_segments st) (i + 1)" and resize: "bitvec_resize env = vec_resize"
    and code: "entrypoint_bytecode b' = entrypoint_bytecode b @ code"
  shows "computes env code 3 st []
      (case init_untyped offset elements 0 (word_of_nat (length elements)) t of
         Inl c \<Rightarrow> Inl (c, st)
       | Inr t' \<Rightarrow>
           Inr ((with_table table_idx t' st)
                 \<lparr>empty_elem_segments := dropped (i + 1) (empty_elem_segments st)\<rparr>, []))"
proof -
  let ?len = "word_of_nat (length elements) :: u32"
    and ?off = "word_of_nat (length (global_element_section b)) :: u32"
  let ?init = "init_untyped offset elements 0 ?len t"
  have off: "unat ?off = length (global_element_section b)" "length elements < 2 ^ 32"
    using small by (simp_all add: b' add_active_elements_def emit_entry_def Let_def unat_of_nat)
  have "elem_section (module env) = global_element_section b @ elements @ trailing"
    by (simp add: elems b' add_active_elements_def emit_entry_def Let_def)
  then have init: "initialised_table env (i + 1) table_idx offset ?off ?len st =
      Some (updated_table table_idx ?init st)"
    using live tab init_untyped_section [OF off(2,1)] by (simp add: initialised_table_def)
  let ?operands = "[I32Const offset, I32Const ?off, I32Const ?len]"
  have first: "computes env (?operands @ [TableInit (i + 1), TableGet table_idx]) 3 st []
      (outcome st (updated_table table_idx ?init st))"
    by (rule computes_append [OF computes_three_consts computes_table_init [OF init, of 0]]) simp
  let ?code = "?operands @ [TableInit (i + 1), TableGet table_idx, ElemDrop (i + 1)]"
  have "computes env ?code 3 st []
      (case ?init of Inl c \<Rightarrow> Inl (c, st)
       | Inr t' \<Rightarrow> Inr ((with_table table_idx t' st)
           \<lparr>empty_elem_segments := dropped (i + 1) (empty_elem_segments st)\<rparr>, []))"
  proof (cases ?init)
    case (Inl c)
    with first have "computes env (?operands @ [TableInit (i + 1), TableGet table_idx]) 3 st [] (Inl (c, st))"
      by (simp add: outcome_def updated_table_def)
    from computes_append_trap [OF this, of "[ElemDrop (i + 1)]"] Inl show ?thesis by simp
  next
    case (Inr t')
    with first have "computes env (?operands @ [TableInit (i + 1), TableGet table_idx]) 3 st []
        (Inr (with_table table_idx t' st, []))"
      by (simp add: outcome_def updated_table_def)
    from computes_append [OF this computes_elem_drop [OF resize, of "i + 1" 0]] Inr
    show ?thesis by (simp add: with_table_def)
  qed
  moreover have "code = ?code"
    using code by (simp add: b' add_active_elements_def emit_entry_def Let_def)
  ultimately show ?thesis by simp
qed

lemma active_segments_append:
  "\<exists>code. entrypoint_bytecode (add_active_memory i offset bytes b) = entrypoint_bytecode b @ code"
  "\<exists>code. entrypoint_bytecode (add_active_elements i offset table_idx elements b) = entrypoint_bytecode b @ code"
  by (simp_all add: add_active_memory_def add_active_elements_def emit_entry_def Let_def)

end
