(* ===== verification/Isa_Rem_U.thy ===== *)
theory Isa_Rem_U
  imports Isa_Loops
begin

text \<open>
  The lowered unsigned remainder (\<open>src/isa/rem_u.rs\<close>): the check of the divisor, the path for a
  divisor below \<open>2 ^ 31\<close> (two 32-bit loops that read two bits per iteration), the path for
  any other divisor (one 64-bit loop) and the reassembling of the remainder.
\<close>

section \<open>The routine\<close>

definition MSH_I64_REM_U :: u32 where "MSH_I64_REM_U = 20"

definition i64_rem_u_entry :: "opcode list" where
  "i64_rem_u_entry =
    [I32Const 0, I32Const 0, I32Const 0, I32Const 0, I32Const 0, I32Const 0, LocalGet 7,
     BrIfNez 144, LocalGet 8, BrIfNez 2, Trap IntegerDivisionByZero, LocalGet 8, I32Const 0,
     I32LtS, BrIfNez 137]"

definition i64_rem_u_high_init :: "opcode list" where
  "i64_rem_u_high_init =
    [I32Const 64, LocalSet 6, I32Const 0, LocalSet 5]"

definition i64_rem_u_high_bits :: "opcode list" where
  "i64_rem_u_high_bits =
    [LocalGet 6, I32Const 32, I32GtU, LocalSet 7, LocalGet 6, I32Const 4294967295, I32Add,
     LocalSet 4, I32Const 0, LocalGet 10, LocalGet 8, I32Const 4294967294, I32Add, LocalTee 9,
     I32ShrU, I32Const 1, I32And, LocalGet 6, I32Const 32, I32GtU, Select, I32Const 0,
     LocalGet 11, LocalGet 7, I32ShrU, I32Const 1, I32And, LocalGet 10, Select, LocalGet 7,
     I32Const 1, I32Shl, I32Or, LocalTee 7, I32Const 0, LocalGet 11, LocalGet 9, LocalGet 13,
     I32LtU, Select, I32Sub]"

definition i64_rem_u_high_second :: "opcode list" where
  "i64_rem_u_high_second =
    [I32Const 1, I32Shl, I32Or, LocalTee 6, I32Const 0, LocalGet 10, LocalGet 8, LocalGet 12,
     I32LtU, Select, I32Sub, LocalSet 5, LocalGet 4, I32Const 1, I32Ne, BrIfNez (- 56)]"

definition i64_rem_u_low_init :: "opcode list" where
  "i64_rem_u_low_init =
    [I32Const 95, LocalSet 6, I32Const 0, LocalSet 4]"

definition i64_rem_u_low_bits :: "opcode list" where
  "i64_rem_u_low_bits =
    [LocalGet 5, LocalGet 7, I32Const 4294967295, I32Add, I32Const 30, I32And, I32ShrU,
     LocalGet 11, LocalGet 8, I32Const 4294967263, I32Add, LocalTee 12, I32ShrU, LocalGet 8,
     I32Const 4294967264, I32Add, LocalTee 10, I32Const 32, I32GtU, Select, I32Const 1, I32And,
     LocalGet 6, LocalGet 8, I32ShrU, LocalGet 12, LocalGet 10, I32ShrU, LocalGet 9,
     I32Const 4294967265, I32Add, I32Const 32, I32GtU, Select, I32Const 1, I32And, LocalGet 6,
     I32Const 1, I32Shl, I32Or, LocalTee 6, I32Const 0, LocalGet 11, LocalGet 8, LocalGet 13,
     I32LtU, Select, I32Sub]"

definition i64_rem_u_low_second :: "opcode list" where
  "i64_rem_u_low_second =
    [I32Const 1, I32Shl, I32Or, LocalTee 5, I32Const 0, LocalGet 10, LocalGet 7, LocalGet 12,
     I32LtU, Select, I32Sub, LocalSet 4, LocalGet 6, I32Const 4294967294, I32Add, LocalSet 6,
     LocalGet 9, BrIfNez (- 65)]"

definition i64_rem_u_low_exit :: "opcode list" where
  "i64_rem_u_low_exit =
    [I32Const 0, I32Const 0, LocalSet 3, LocalSet 3, Br 182]"

definition i64_rem_u_wide_init :: "opcode list" where
  "i64_rem_u_wide_init =
    [I32Const 0, LocalSet 6, I32Const 64, LocalSet 1, I32Const 0, LocalSet 4]"

definition i64_rem_u_wide_shift :: "opcode list" where
  "i64_rem_u_wide_shift =
    [LocalGet 4, I32Const 1, I32Shl, LocalGet 10, I32Const 31, I32ShrU, I32Or, LocalSet 5,
     LocalGet 6, I32Const 1, I32Shl, LocalGet 5, I32Const 31, I32ShrU, I32Or]"

definition i64_rem_u_wide_subtract :: "opcode list" where
  "i64_rem_u_wide_subtract =
    [LocalTee 7, LocalGet 8, I32GtU, BrIfNez 12, LocalGet 6, LocalGet 8, I32Ne, BrIfNez 5,
     LocalGet 5, LocalGet 9, I32GeU, BrIfNez 4, LocalGet 5, LocalSet 4, Br 13, LocalGet 6,
     LocalGet 8, I32Sub, LocalGet 6, LocalGet 10, I32LtU, I32Sub, LocalSet 6, LocalGet 5,
     LocalGet 9, I32Sub, LocalSet 4, LocalGet 9, I32Const 1, I32Shl, LocalGet 11, I32Const 31,
     I32ShrU, I32Or, LocalSet 9, LocalGet 10, I32Const 1, I32Shl, LocalSet 10, LocalGet 1,
     I32Const 4294967295, I32Add, LocalTee 2, BrIfNez (- 58)]"

definition i64_rem_u_wide_exit :: "opcode list" where
  "i64_rem_u_wide_exit =
    [LocalGet 6, I32Const 0, I32Const 32, I32Const 0, I32Const 0, I32Const 0, LocalGet 4,
     I32Const 63, I32And, LocalTee 3, BrIfNez 4, LocalGet 6, LocalSet 1, Br 44, LocalGet 2,
     I32Const 32, I32Eq, BrIfNez 36, LocalGet 2, I32Const 4294967295, I32Add, I32Const 31,
     I32LtU, BrIfNez 10, I32Const 0, LocalSet 1, LocalGet 2, I32Const 32, I32GtU, BrIfNez 19,
     I32Const 0, LocalSet 5, Br 25, LocalGet 5, LocalGet 5, I32Shl, LocalGet 7, I32Const 0,
     LocalGet 7, I32Sub, I32ShrU, I32Or, LocalSet 5, LocalGet 6, LocalGet 5, I32Shl,
     LocalSet 1, Br 10, LocalGet 6, LocalGet 5, I32Shl, LocalSet 5, Br 5, I32Const 0,
     LocalSet 1, LocalGet 6, LocalSet 5, LocalGet 5, I32Const 0, I32Const 32, I32Const 0,
     LocalGet 2, I32Const 63, I32And, LocalSet 2, LocalGet 2, BrIfEqz 32, LocalGet 2,
     I32Const 31, I32GtU, BrIfEqz 10, LocalGet 4, LocalGet 3, I32Const 32, I32Sub, I32Shl,
     LocalSet 3, I32Const 0, LocalSet 4, Br 19, LocalGet 4, LocalGet 3, I32Shl, LocalSet 4,
     LocalGet 3, LocalGet 3, I32Shl, LocalSet 3, LocalGet 4, I32Const 32, LocalGet 4,
     I32Const 31, I32And, I32Sub, I32ShrU, LocalGet 4, I32Or, LocalSet 3, Drop, Drop,
     LocalGet 3, I32Const 0, LocalGet 3, I32Or, LocalSet 2, LocalGet 3, I32Or, LocalSet 2,
     LocalSet 6, LocalSet 6, Drop, Drop, Drop, Drop, LocalSet 3, LocalSet 3]"

definition i64_rem_u_exit :: "opcode list" where
  "i64_rem_u_exit =
    [LocalGet 3, LocalGet 3, LocalGet 6, I32Const 0, LocalGet 3, I32Or, LocalSet 2, LocalGet 3,
     I32Or, LocalSet 2, LocalSet 10, LocalSet 10, Drop, Drop, Drop, Drop, Drop, Drop, Drop,
     Drop]"

definition op_i64_rem_u :: "opcode list" where
  "op_i64_rem_u = i64_rem_u_entry @ i64_rem_u_high_init @ i64_rem_u_high_bits @ i64_rem_u_high_second @ i64_rem_u_low_init @ i64_rem_u_low_bits @ i64_rem_u_low_second @ i64_rem_u_low_exit @ i64_rem_u_wide_init @ i64_rem_u_wide_shift @ i64_rem_u_wide_subtract @ i64_rem_u_wide_exit @ i64_rem_u_exit"

end
