(* ===== verification/Isa_Div_S.thy ===== *)
theory Isa_Div_S
  imports Isa_Loops
begin

text \<open>
  The lowered signed division (\<open>src/isa/div_s.rs\<close>): the checks for a zero divisor and for the
  overflow, the magnitudes of the operands, the 64-bit division loop, the sign of the
  quotient and the reassembling of its two words.
\<close>

section \<open>The routine\<close>

definition MSH_I64_DIV_S :: u32 where "MSH_I64_DIV_S = 17"

definition i64_div_s_entry :: "opcode list" where
  "i64_div_s_entry =
    [I32Const 0, I32Const 0, I32Const 0, I32Const 0, I32Const 0, I32Const 0, I32Const 0,
     I32Const 0, I32Const 0, LocalGet 10, LocalGet 12, I32Or, BrIfNez 2,
     Trap IntegerDivisionByZero, LocalGet 12, I32Const (- 2147483648), I32Ne, BrIfNez 12,
     LocalGet 10, I32Const (- 1), I32Ne, BrIfNez 8, LocalGet 13, BrIfNez 43, LocalGet 11,
     I32Const (- 1), I32Ne, BrIfNez 39, Trap IntegerOverflow]"

definition i64_div_s_magnitudes :: "opcode list" where
  "i64_div_s_magnitudes =
    [LocalGet 12, I32Const (- 1), I32GtS, BrIfNez 17, I32Const 0, LocalGet 14, I32Sub,
     LocalSet 9, LocalGet 13, I32Eqz, LocalGet 13, I32Const (- 1), I32Xor, I32Add, LocalSet 8,
     LocalGet 10, I32Const 0, I32LtS, BrIfNez 28, Br 13, LocalGet 13, LocalSet 9, LocalGet 12,
     LocalSet 8, LocalGet 10, I32Const (- 1), I32LeS, BrIfNez 19, LocalGet 13, LocalSet 9,
     LocalGet 12, LocalSet 8, LocalGet 10, LocalSet 7, LocalGet 11, LocalSet 6, Br 21,
     I32Const 2147483647, I32Const (- 2147483648), LocalGet 15, Select, LocalSet 8, I32Const 0,
     LocalGet 14, I32Sub, LocalSet 9, I32Const 0, LocalGet 12, I32Sub, LocalSet 6, LocalGet 11,
     I32Eqz, LocalGet 11, I32Const (- 1), I32Xor, I32Add, LocalSet 7]"

definition i64_div_s_init :: "opcode list" where
  "i64_div_s_init =
    [I32Const 0, LocalSet 11, I32Const 64, LocalSet 5, I32Const 0, LocalSet 4, I32Const 0,
     LocalSet 3, I32Const 0, LocalSet 2]"

definition i64_div_s_shift :: "opcode list" where
  "i64_div_s_shift =
    [LocalGet 4, I32Const 1, I32Shl, LocalGet 9, I32Const 31, I32ShrU, I32Or, LocalSet 13,
     LocalGet 11, I32Const 1, I32Shl, LocalGet 5, I32Const 31, I32ShrU, I32Or]"

definition i64_div_s_subtract :: "opcode list" where
  "i64_div_s_subtract =
    [LocalTee 12, LocalGet 8, I32GtU, BrIfNez 14, I32Const 0, LocalSet 1, LocalGet 11,
     LocalGet 8, I32Ne, BrIfNez 5, LocalGet 13, LocalGet 7, I32GeU, BrIfNez 4, LocalGet 13,
     LocalSet 4, Br 15, LocalGet 11, LocalGet 8, I32Sub, LocalGet 14, LocalGet 8, I32LtU,
     I32Sub, LocalSet 11, LocalGet 13, LocalGet 7, I32Sub, LocalSet 4, I32Const 1, LocalSet 1,
     LocalGet 8, I32Const 1, I32Shl, LocalGet 10, I32Const 31, I32ShrU, I32Or, LocalSet 8,
     LocalGet 9, I32Const 1, I32Shl, LocalSet 9, LocalGet 3, I32Const 1, I32Shl, LocalGet 3,
     I32Const 31, I32ShrU, I32Or, LocalSet 3, LocalGet 1, LocalGet 3, I32Const 1, I32Shl,
     I32Or, LocalSet 2, LocalGet 5, I32Const (- 1), I32Add, LocalTee 6, BrIfNez (- 76)]"

definition i64_div_s_exit :: "opcode list" where
  "i64_div_s_exit =
    [LocalGet 10, LocalGet 13, I32Xor, I32Const (- 1), I32LeS, BrIfNez 4, LocalGet 2,
     LocalSet 11, Br 12, I32Const 0, LocalGet 3, I32Sub, LocalSet 11, LocalGet 2, I32Eqz,
     LocalGet 4, I32Const (- 1), I32Xor, I32Add, LocalSet 3, LocalGet 3, I32Const 0,
     I32Const 32, I32Const 0, LocalGet 2, I32Const 63, I32And, LocalSet 2, LocalGet 2,
     BrIfEqz 32, LocalGet 2, I32Const 31, I32GtU, BrIfEqz 10, LocalGet 4, LocalGet 3,
     I32Const 32, I32Sub, I32Shl, LocalSet 3, I32Const 0, LocalSet 4, Br 19, LocalGet 4,
     LocalGet 3, I32Shl, LocalSet 4, LocalGet 3, LocalGet 3, I32Shl, LocalSet 3, LocalGet 4,
     I32Const 32, LocalGet 4, I32Const 31, I32And, I32Sub, I32ShrU, LocalGet 4, I32Or,
     LocalSet 3, Drop, Drop, LocalGet 13, I32Const 0, LocalGet 3, I32Or, LocalSet 2,
     LocalGet 3, I32Or, LocalSet 2, LocalSet 13, LocalSet 13, Drop, Drop, Drop, Drop, Drop,
     Drop, Drop, Drop, Drop, Drop, Drop]"

definition op_i64_div_s :: "opcode list" where
  "op_i64_div_s = i64_div_s_entry @ i64_div_s_magnitudes @ i64_div_s_init @ i64_div_s_shift @ i64_div_s_subtract @ i64_div_s_exit"

end
