(* ===== verification/Isa_Rem_S.thy ===== *)
theory Isa_Rem_S
  imports Isa_Loops
begin

text \<open>
  The lowered signed remainder (\<open>src/isa/rem_s.rs\<close>): the check for a zero divisor, one 64-bit
  division loop for each combination of the signs of the operands, the sign of the remainder
  and the reassembling of its two words.
\<close>

section \<open>The routine\<close>

definition MSH_I64_REM_S :: u32 where "MSH_I64_REM_S = 12"

definition i64_rem_s_entry :: "opcode list" where
  "i64_rem_s_entry =
    [I32Const 0, I32Const 0, I32Const 0, I32Const 0, LocalGet 5, LocalGet 7, I32Or, BrIfNez 2,
     Trap IntegerDivisionByZero, LocalGet 7, I32Const (- 1), I32LeS, BrIfNez 147]"

definition i64_rem_s_pp_init :: "opcode list" where
  "i64_rem_s_pp_init =
    [I32Const 0, LocalSet 4, LocalGet 5, I32Const 0, I32LtS, BrIfNez 67, I32Const 0,
     LocalSet 4, I32Const 64, LocalSet 3, I32Const 0, LocalSet 2]"

definition i64_rem_s_pp_shift :: "opcode list" where
  "i64_rem_s_pp_shift =
    [LocalGet 2, I32Const 1, I32Shl, LocalGet 8, I32Const 31, I32ShrU, I32Or, LocalSet 1,
     LocalGet 4, I32Const 1, I32Shl, LocalGet 3, I32Const 31, I32ShrU, I32Or]"

definition i64_rem_s_pp_subtract :: "opcode list" where
  "i64_rem_s_pp_subtract =
    [LocalTee 5, LocalGet 6, I32GtU, BrIfNez 12, LocalGet 4, LocalGet 6, I32Ne, BrIfNez 5,
     LocalGet 1, LocalGet 7, I32GeU, BrIfNez 4, LocalGet 1, LocalSet 2, Br 13, LocalGet 4,
     LocalGet 6, I32Sub, LocalGet 2, LocalGet 8, I32LtU, I32Sub, LocalSet 4, LocalGet 1,
     LocalGet 7, I32Sub, LocalSet 2, LocalGet 7, I32Const 1, I32Shl, LocalGet 9, I32Const 31,
     I32ShrU, I32Or, LocalSet 7, LocalGet 8, I32Const 1, I32Shl, LocalSet 8, LocalGet 3,
     I32Const (- 1), I32Add, LocalTee 4, BrIfNez (- 58), Br 240]"

definition i64_rem_s_pn_init :: "opcode list" where
  "i64_rem_s_pn_init =
    [I32Const 0, LocalGet 7, I32Sub, LocalTee 4, I32Eqz, LocalGet 6, I32Const (- 1), I32Xor,
     I32Add, LocalSet 6, I32Const 64, LocalSet 1, I32Const 0, LocalSet 2]"

definition i64_rem_s_pn_shift :: "opcode list" where
  "i64_rem_s_pn_shift =
    [LocalGet 2, I32Const 1, I32Shl, LocalGet 8, I32Const 31, I32ShrU, I32Or, LocalSet 5,
     LocalGet 4, I32Const 1, I32Shl, LocalGet 3, I32Const 31, I32ShrU, I32Or]"

definition i64_rem_s_pn_subtract :: "opcode list" where
  "i64_rem_s_pn_subtract =
    [LocalTee 5, LocalGet 7, I32GtU, BrIfNez 12, LocalGet 4, LocalGet 7, I32Ne, BrIfNez 5,
     LocalGet 5, LocalGet 4, I32GeU, BrIfNez 4, LocalGet 5, LocalSet 2, Br 13, LocalGet 4,
     LocalGet 7, I32Sub, LocalGet 6, LocalGet 5, I32LtU, I32Sub, LocalSet 4, LocalGet 5,
     LocalGet 4, I32Sub, LocalSet 2, LocalGet 7, I32Const 1, I32Shl, LocalGet 9, I32Const 31,
     I32ShrU, I32Or, LocalSet 7, LocalGet 8, I32Const 1, I32Shl, LocalSet 8, LocalGet 1,
     I32Const (- 1), I32Add, LocalTee 2, BrIfNez (- 58), Br 166]"

definition i64_rem_s_negative :: "opcode list" where
  "i64_rem_s_negative =
    [I32Const 0, LocalSet 4, I32Const 0, LocalGet 9, I32Sub, LocalTee 3, I32Eqz, LocalGet 8,
     I32Const (- 1), I32Xor, I32Add, LocalSet 8, LocalGet 5, I32Const 0, I32LtS, BrIfNez 67]"

definition i64_rem_s_np_init :: "opcode list" where
  "i64_rem_s_np_init =
    [I32Const 0, LocalSet 4, I32Const 64, LocalSet 3, I32Const 0, LocalSet 7]"

definition i64_rem_s_np_shift :: "opcode list" where
  "i64_rem_s_np_shift =
    [LocalGet 7, I32Const 1, I32Shl, LocalGet 9, I32Const 31, I32ShrU, I32Or, LocalSet 1,
     LocalGet 4, I32Const 1, I32Shl, LocalGet 8, I32Const 31, I32ShrU, I32Or]"

definition i64_rem_s_np_subtract :: "opcode list" where
  "i64_rem_s_np_subtract =
    [LocalTee 5, LocalGet 6, I32GtU, BrIfNez 12, LocalGet 4, LocalGet 6, I32Ne, BrIfNez 5,
     LocalGet 1, LocalGet 7, I32GeU, BrIfNez 4, LocalGet 1, LocalSet 7, Br 13, LocalGet 4,
     LocalGet 6, I32Sub, LocalGet 2, LocalGet 8, I32LtU, I32Sub, LocalSet 4, LocalGet 1,
     LocalGet 7, I32Sub, LocalSet 7, LocalGet 8, I32Const 1, I32Shl, LocalGet 3, I32Const 31,
     I32ShrU, I32Or, LocalSet 8, LocalGet 2, I32Const 1, I32Shl, LocalSet 2, LocalGet 3,
     I32Const (- 1), I32Add, LocalTee 4, BrIfNez (- 58), Br 74]"

definition i64_rem_s_nn_init :: "opcode list" where
  "i64_rem_s_nn_init =
    [I32Const 0, LocalGet 7, I32Sub, LocalTee 4, I32Eqz, LocalGet 6, I32Const (- 1), I32Xor,
     I32Add, LocalSet 6, I32Const 64, LocalSet 1, I32Const 0, LocalSet 7]"

definition i64_rem_s_nn_shift :: "opcode list" where
  "i64_rem_s_nn_shift =
    [LocalGet 7, I32Const 1, I32Shl, LocalGet 9, I32Const 31, I32ShrU, I32Or, LocalSet 5,
     LocalGet 4, I32Const 1, I32Shl, LocalGet 8, I32Const 31, I32ShrU, I32Or]"

definition i64_rem_s_nn_subtract :: "opcode list" where
  "i64_rem_s_nn_subtract =
    [LocalTee 5, LocalGet 7, I32GtU, BrIfNez 12, LocalGet 4, LocalGet 7, I32Ne, BrIfNez 5,
     LocalGet 5, LocalGet 4, I32GeU, BrIfNez 4, LocalGet 5, LocalSet 7, Br 13, LocalGet 4,
     LocalGet 7, I32Sub, LocalGet 6, LocalGet 5, I32LtU, I32Sub, LocalSet 4, LocalGet 5,
     LocalGet 4, I32Sub, LocalSet 7, LocalGet 8, I32Const 1, I32Shl, LocalGet 3, I32Const 31,
     I32ShrU, I32Or, LocalSet 8, LocalGet 2, I32Const 1, I32Shl, LocalSet 2, LocalGet 1,
     I32Const (- 1), I32Add, LocalTee 2, BrIfNez (- 58)]"

definition i64_rem_s_negate :: "opcode list" where
  "i64_rem_s_negate =
    [I32Const 0, LocalGet 8, I32Sub, LocalTee 3, I32Eqz, LocalGet 5, I32Const (- 1), I32Xor,
     I32Add, LocalSet 4]"

definition i64_rem_s_exit :: "opcode list" where
  "i64_rem_s_exit =
    [LocalGet 4, I32Const 0, I32Const 32, I32Const 0, LocalGet 2, I32Const 63, I32And,
     LocalSet 2, LocalGet 2, BrIfEqz 32, LocalGet 2, I32Const 31, I32GtU, BrIfEqz 10,
     LocalGet 4, LocalGet 3, I32Const 32, I32Sub, I32Shl, LocalSet 3, I32Const 0, LocalSet 4,
     Br 19, LocalGet 4, LocalGet 3, I32Shl, LocalSet 4, LocalGet 3, LocalGet 3, I32Shl,
     LocalSet 3, LocalGet 4, I32Const 32, LocalGet 4, I32Const 31, I32And, I32Sub, I32ShrU,
     LocalGet 4, I32Or, LocalSet 3, Drop, Drop, LocalGet 4, I32Const 0, LocalGet 3, I32Or,
     LocalSet 2, LocalGet 3, I32Or, LocalSet 2, LocalSet 8, LocalSet 8, Drop, Drop, Drop, Drop,
     Drop, Drop]"

definition op_i64_rem_s :: "opcode list" where
  "op_i64_rem_s = i64_rem_s_entry @ i64_rem_s_pp_init @ i64_rem_s_pp_shift @ i64_rem_s_pp_subtract @ i64_rem_s_pn_init @ i64_rem_s_pn_shift @ i64_rem_s_pn_subtract @ i64_rem_s_negative @ i64_rem_s_np_init @ i64_rem_s_np_shift @ i64_rem_s_np_subtract @ i64_rem_s_nn_init @ i64_rem_s_nn_shift @ i64_rem_s_nn_subtract @ i64_rem_s_negate @ i64_rem_s_exit"

end
