(* ===== verification/Snippets.thy ===== *)
theory Snippets
  imports Isa_Arith Isa_Shift Isa_Div_U Isa_Rem_U Isa_Div_S Isa_Rem_S Func_Types
begin

text \<open>
  The code snippets (\<open>src/compiler/snippets.rs\<close>): the 64-bit operations that the translator either
  inlines or calls as a function of the module, with their emitter, the stack height the
  emitted code needs and their type.
  \<open>snippet_words\<close> ties the two types of a snippet together.
\<close>

datatype snippet =
    I64Eq | I64Ne | I64LtS | I64LtU | I64GtS | I64GtU | I64LeS | I64LeU | I64GeS | I64GeU
  | I64Add | I64Sub | I64Mul | I64DivS | I64DivU | I64RemS | I64RemU
  | I64Shl | I64ShrS | I64ShrU | I64RotL | I64RotR

record snippet_definition =
  snippet_emitter :: "opcode list"
  snippet_max_stack_height :: u32
  orig_params :: "val_type list"
  orig_results :: "val_type list"

definition define_snippet ::
  "opcode list \<Rightarrow> u32 \<Rightarrow> val_type list \<Rightarrow> val_type list \<Rightarrow> snippet_definition" where
  "define_snippet code msh params results =
     \<lparr>snippet_emitter = code, snippet_max_stack_height = msh, orig_params = params, orig_results = results\<rparr>"

definition definition_of :: "snippet \<Rightarrow> snippet_definition" where
  "definition_of s = (case s of
     I64Eq \<Rightarrow> define_snippet op_i64_eq MSH_I64_EQ [TI64, TI64] [TI32]
   | I64Ne \<Rightarrow> define_snippet op_i64_ne MSH_I64_NE [TI64, TI64] [TI32]
   | I64LtS \<Rightarrow> define_snippet op_i64_lt_s MSH_I64_LT_S [TI64, TI64] [TI32]
   | I64LtU \<Rightarrow> define_snippet op_i64_lt_u MSH_I64_LT_U [TI64, TI64] [TI32]
   | I64GtS \<Rightarrow> define_snippet op_i64_gt_s MSH_I64_GT_S [TI64, TI64] [TI32]
   | I64GtU \<Rightarrow> define_snippet op_i64_gt_u MSH_I64_GT_U [TI64, TI64] [TI32]
   | I64LeS \<Rightarrow> define_snippet op_i64_le_s MSH_I64_LE_S [TI64, TI64] [TI32]
   | I64LeU \<Rightarrow> define_snippet op_i64_le_u MSH_I64_LE_U [TI64, TI64] [TI32]
   | I64GeS \<Rightarrow> define_snippet op_i64_ge_s MSH_I64_GE_S [TI64, TI64] [TI32]
   | I64GeU \<Rightarrow> define_snippet op_i64_ge_u MSH_I64_GE_U [TI64, TI64] [TI32]
   | I64Add \<Rightarrow> define_snippet op_i64_add MSH_I64_ADD [TI64, TI64] [TI64]
   | I64Sub \<Rightarrow> define_snippet op_i64_sub MSH_I64_SUB [TI64, TI64] [TI64]
   | I64Mul \<Rightarrow> define_snippet op_i64_mul MSH_I64_MUL [TI64, TI64] [TI64]
   | I64DivS \<Rightarrow> define_snippet op_i64_div_s MSH_I64_DIV_S [TI64, TI64] [TI64]
   | I64DivU \<Rightarrow> define_snippet op_i64_div_u MSH_I64_DIV_U [TI64, TI64] [TI64]
   | I64RemS \<Rightarrow> define_snippet op_i64_rem_s MSH_I64_REM_S [TI64, TI64] [TI64]
   | I64RemU \<Rightarrow> define_snippet op_i64_rem_u MSH_I64_REM_U [TI64, TI64] [TI64]
   | I64Shl \<Rightarrow> define_snippet op_i64_shl MSH_I64_SHL [TI64, TI64] [TI64]
   | I64ShrS \<Rightarrow> define_snippet op_i64_shr_s MSH_I64_SHR_S [TI64, TI64] [TI64]
   | I64ShrU \<Rightarrow> define_snippet op_i64_shr_u MSH_I64_SHR_U [TI64, TI64] [TI64]
   | I64RotL \<Rightarrow> define_snippet op_i64_rotl MSH_I64_ROTL [TI64, TI64] [TI64]
   | I64RotR \<Rightarrow> define_snippet op_i64_rotr MSH_I64_ROTR [TI64, TI64] [TI64])"

definition emitter :: "snippet \<Rightarrow> opcode list" where
  "emitter s = snippet_emitter (definition_of s)"

definition snippet_msh :: "snippet \<Rightarrow> u32" where
  "snippet_msh s = snippet_max_stack_height (definition_of s)"

fun expand_i64_to_i32 :: "val_type list \<Rightarrow> val_type list" where
  "expand_i64_to_i32 [] = []"
| "expand_i64_to_i32 (t # ts) =
     (case t of
        TI64 \<Rightarrow> TI32 # TI32 # expand_i64_to_i32 ts
      | TF64 \<Rightarrow> TI32 # TI32 # expand_i64_to_i32 ts
      | _ \<Rightarrow> t # expand_i64_to_i32 ts)"

definition orig_func_type :: "snippet \<Rightarrow> func_type" where
  "orig_func_type s = FuncType (orig_params (definition_of s)) (orig_results (definition_of s))"

definition snippet_func_type :: "snippet \<Rightarrow> func_type" where
  "snippet_func_type s =
     FuncType (expand_i64_to_i32 (orig_params (definition_of s)))
       (expand_i64_to_i32 (orig_results (definition_of s)))"

record snippet_call =
  called_snippet :: snippet
  call_loc :: u32

text \<open>The expanded type of a snippet has one \<open>i32\<close> per word; it is the type that the registry
  would give to the original one.\<close>

lemma expand_adjusts: "adjusted_types ts = ok us \<Longrightarrow> expand_i64_to_i32 ts = us"
proof (induction ts arbitrary: us)
  case (Cons t ts)
  then show ?case by (cases t) (auto simp: and_then_ok_iff)
qed simp

lemma length_expand: "length (expand_i64_to_i32 ts) = words_of_all ts"
proof (induction ts)
  case (Cons t ts)
  then show ?case by (cases t) (simp_all add: words_of_def)
qed simp

lemma snippet_types [simp]:
  "orig_params (definition_of s) = [TI64, TI64]"
  "orig_results (definition_of s) \<in> {[TI32], [TI64]}"
  by (cases s; simp add: definition_of_def define_snippet_def)+

lemma snippet_words:
  "length (ft_params (snippet_func_type s)) = 4"
  "length (ft_results (snippet_func_type s)) = words_of_all (ft_results (orig_func_type s))"
  by (simp_all add: snippet_func_type_def orig_func_type_def length_expand words_of_def)

end
