(* ===== verification/Translator.thy ===== *)
theory Translator
  imports Drop_Keep Labels Control_Flow Segment_Builder Snippets Import_Linker
begin

text \<open>
  The state of the function translator and its helpers (the first half of
  \<open>src/compiler/translator.rs\<close>). \<open>InstructionTranslator\<close> and its allocations are one record;
  \<open>exported_funcs\<close>, \<open>start_func\<close> and \<open>constructor_params\<close>, which only the parser uses, are left
  out. An action takes the state and gives the next one, an error or a panic (\<open>None\<close>).

  Debug assertions are left out, as in a release build. The stack of types has its top at the
  end, as the vector.
\<close>

section \<open>State\<close>

record memory_type =
  memory_maximum :: "u64 option"

record translator =
  reachable :: bool
  control_frames :: control_flow_stack
  label_reg :: label_registry
  instructions :: instruction_set
  br_table_branches :: instruction_set
  stack_types :: "val_type list"
  segments :: segment_builder
  func_reg :: func_type_registry
  compiled_funcs :: "u32 list"
  table_types :: "table_type list"
  memory_types :: "memory_type list"
  globals :: "global_variable list"
  func_offsets :: "u32 list"
  snippet_calls :: "snippet_call list"
  intrinsics :: "(u32 \<times> intrinsic) list"
  stack_height :: value_stack_height
  with_consume_fuel :: bool
  consume_fuel_for_params_and_locals :: bool
  locals_registered :: u32
  with_code_snippets :: bool
  consume_fuel_for_bulk_ops :: bool
  memory_page_limit :: u32

type_synonym action = "translator \<Rightarrow> translator result"

text \<open>\<open>reset\<close> of the allocations, before the next function.\<close>

definition alloc_reset :: "translator \<Rightarrow> translator" where
  "alloc_reset t = t\<lparr>control_frames := [], label_reg := labels_reset, br_table_branches := [], stack_types := []\<rparr>"

text \<open>The translator of a function: the allocations are those of the one before.\<close>

definition translator_new :: "translator \<Rightarrow> bool \<Rightarrow> bool \<Rightarrow> bool \<Rightarrow> bool \<Rightarrow> u32 \<Rightarrow> translator" where
  "translator_new alloc fuel snippets bulk locals_fuel limit =
     alloc\<lparr>reachable := True, stack_height := height_default, with_consume_fuel := fuel,
       locals_registered := 0, with_code_snippets := snippets, consume_fuel_for_bulk_ops := bulk,
       consume_fuel_for_params_and_locals := locals_fuel, memory_page_limit := limit\<rparr>"

section \<open>Actions\<close>

text \<open>One action after another.\<close>

fun steps :: "action list \<Rightarrow> action" where
  "steps [] t = ok t"
| "steps (a # as) t = and_then (a t) (steps as)"

definition emit :: "opcode list \<Rightarrow> action" where
  "emit ops t = ok (t\<lparr>instructions := instructions t @ ops\<rparr>)"

definition change_height :: "(value_stack_height \<Rightarrow> value_stack_height) \<Rightarrow> action" where
  "change_height f t = ok (t\<lparr>stack_height := f (stack_height t)\<rparr>)"

definition push_stack_type :: "val_type \<Rightarrow> action" where
  "push_stack_type ty t = ok (t\<lparr>stack_types := stack_types t @ [ty]\<rparr>)"

text \<open>\<open>stack_types.pop().unwrap()\<close>, with the popped type handed on.\<close>

definition pop_stack_type :: "(val_type \<Rightarrow> action) \<Rightarrow> action" where
  "pop_stack_type f t =
     (if stack_types t = [] then panic
      else f (last (stack_types t)) (t\<lparr>stack_types := butlast (stack_types t)\<rparr>))"

definition drop_stack_type :: action where
  "drop_stack_type = pop_stack_type (\<lambda>_. ok)"

definition set_reachable :: "bool \<Rightarrow> action" where
  "set_reachable r t = ok (t\<lparr>reachable := r\<rparr>)"

definition translate_if_reachable :: "action \<Rightarrow> action" where
  "translate_if_reachable f t = (if reachable t then f t else ok t)"

text \<open>The state read by the rest of an action, and an action that a test guards.\<close>

definition inspecting :: "(translator \<Rightarrow> 'a result) \<Rightarrow> ('a \<Rightarrow> action) \<Rightarrow> action" where
  "inspecting r f t = and_then (r t) (\<lambda>x. f x t)"

definition whenever :: "bool \<Rightarrow> action \<Rightarrow> action" where
  "whenever c f = (if c then f else ok)"

section \<open>Helpers\<close>

definition resolve_func_type_index :: "u32 \<Rightarrow> translator \<Rightarrow> u32 result" where
  "resolve_func_type_index func_idx t =
     (if unat func_idx < length (compiled_funcs t) then ok (compiled_funcs t ! unat func_idx) else panic)"

definition func_type_of :: "u32 \<Rightarrow> translator \<Rightarrow> func_type result" where
  "func_type_of i t = unwrap_or_panic (resolve_func_type i (func_reg t))"

definition original_func_type_of :: "u32 \<Rightarrow> translator \<Rightarrow> func_type result" where
  "original_func_type_of i t = unwrap_or_panic (resolve_original_func_type i (func_reg t))"

definition signature_of :: "u32 \<Rightarrow> translator \<Rightarrow> u32 result" where
  "signature_of i t = unwrap_or_panic (resolve_func_type_signature i (func_reg t))"

text \<open>The code of a call: the first intrinsic registered for the function, or a call.\<close>

definition function_call_code :: "u32 \<Rightarrow> bool \<Rightarrow> func_type \<Rightarrow> translator \<Rightarrow> opcode list result" where
  "function_call_code function_index is_return_call ft t =
     (case map_of (intrinsics t) function_index of
        Some (Replace opcodes) \<Rightarrow> ok opcodes
      | Some Remove \<Rightarrow>
          if ft_results ft \<noteq> [] then panic else ok (replicate (length (ft_params ft)) Drop)
      | None \<Rightarrow>
          ok (if is_return_call then [ReturnCallInternal (function_index + 1)]
              else [CallInternal (function_index + 1)]))"

definition emit_function_call :: "u32 \<Rightarrow> bool \<Rightarrow> bool \<Rightarrow> action" where
  "emit_function_call function_index is_entrypoint is_return_call =
     inspecting (resolve_func_type_index function_index) (\<lambda>i.
     inspecting (func_type_of i) (\<lambda>ft.
     inspecting (function_call_code function_index is_return_call ft) (\<lambda>code.
       if is_entrypoint then (\<lambda>t. ok (t\<lparr>segments := emit_entry code (segments t)\<rparr>)) else emit code)))"

definition current_pc :: "translator \<Rightarrow> u32 result" where
  "current_pc t =
     (if length (instructions t) < 2 ^ 32 then ok (word_of_nat (length (instructions t))) else panic)"

text \<open>Labels.\<close>

definition new_label_ref :: "(u32 \<Rightarrow> action) \<Rightarrow> action" where
  "new_label_ref f t =
     and_then (new_label (label_reg t)) (\<lambda>(l, reg). f l (t\<lparr>label_reg := reg\<rparr>))"

definition pin_label_here :: "u32 \<Rightarrow> action" where
  "pin_label_here l = inspecting current_pc (\<lambda>pc t.
     case pin_label l pc (label_reg t) of
       Some (Inr reg) \<Rightarrow> ok (t\<lparr>label_reg := reg\<rparr>)
     | _ \<Rightarrow> panic)"

definition try_pin_label_here :: "u32 \<Rightarrow> action" where
  "try_pin_label_here l = inspecting current_pc (\<lambda>pc t.
     and_then (unwrap_or_panic (try_pin_label l pc (label_reg t))) (\<lambda>reg. ok (t\<lparr>label_reg := reg\<rparr>)))"

definition try_resolve_label_for :: "u32 \<Rightarrow> u32 \<Rightarrow> (branch_offset \<Rightarrow> action) \<Rightarrow> action" where
  "try_resolve_label_for l instr f t =
     and_then (try_resolve_label l instr (label_reg t)) (\<lambda>(off, reg). f off (t\<lparr>label_reg := reg\<rparr>))"

text \<open>\<open>branch_offset\<close>: the offset to a label from the current instruction.\<close>

definition branch_offset_to :: "u32 \<Rightarrow> (branch_offset \<Rightarrow> action) \<Rightarrow> action" where
  "branch_offset_to l f = inspecting current_pc (\<lambda>pc. try_resolve_label_for l pc f)"

text \<open>Fuel.\<close>

definition push_consume_fuel_empty :: "(u32 \<Rightarrow> action) \<Rightarrow> action" where
  "push_consume_fuel_empty f t = f (isa_loc (instructions t)) (t\<lparr>instructions := instructions t @ [ConsumeFuel 0]\<rparr>)"

text \<open>\<open>is_fuel_metering_enabled().then(|| push_consume_fuel_empty())\<close>.\<close>

definition metered_consume_fuel :: "(u32 option \<Rightarrow> action) \<Rightarrow> action" where
  "metered_consume_fuel f t =
     (if with_consume_fuel t then push_consume_fuel_empty (\<lambda>instr. f (Some instr)) t else f None t)"

definition bump_fuel :: "u32 \<Rightarrow> action" where
  "bump_fuel delta t =
     and_then (unwrap_or_panic (last_frame (control_frames t))) (\<lambda>frame.
       case consume_fuel_instr frame of
         None \<Rightarrow> ok t
       | Some instr \<Rightarrow>
           if \<not> with_consume_fuel t then ok t
           else and_then (bump_fuel_consumption instr delta (instructions t))
             (\<lambda>is. ok (t\<lparr>instructions := is\<rparr>)))"

definition inject_fuel_check :: "translator \<Rightarrow> bool" where
  "inject_fuel_check t \<longleftrightarrow> consume_fuel_for_bulk_ops t \<and> with_consume_fuel t"

text \<open>Frames.\<close>

definition push_frame :: "control_frame \<Rightarrow> action" where
  "push_frame f t = ok (t\<lparr>control_frames := control_frames t @ [f]\<rparr>)"

definition pop_control_frame :: "(control_frame \<Rightarrow> action) \<Rightarrow> action" where
  "pop_control_frame f t =
     (case pop_frame (control_frames t) of
        None \<Rightarrow> panic
      | Some (frame, frames) \<Rightarrow> f frame (t\<lparr>control_frames := frames\<rparr>))"

definition last_control_frame :: "translator \<Rightarrow> control_frame result" where
  "last_control_frame t = unwrap_or_panic (last_frame (control_frames t))"

text \<open>A new fuel instruction for the innermost frame.\<close>

definition refresh_consume_fuel :: action where
  "refresh_consume_fuel =
     push_consume_fuel_empty (\<lambda>instr.
       pop_control_frame (\<lambda>frame t.
         and_then (unwrap_or_panic (update_consume_fuel_instr instr frame)) (\<lambda>frame. push_frame frame t)))"

definition frame_stack_height_for :: "block_type \<Rightarrow> translator \<Rightarrow> u32 result" where
  "frame_stack_height_for bt t =
     and_then (unwrap_or_panic (resolve_func_params_len_type_by_block bt (func_reg t))) (\<lambda>len.
       let len_params = word_of_nat len :: u32; h = height (stack_height t) in
       if len_params \<le> h then ok (h - len_params) else panic)"

definition add_branch :: "u32 \<Rightarrow> action" where
  "add_branch relative_depth t =
     (case frame_nth_back relative_depth (control_frames t) of
        None \<Rightarrow> panic
      | Some (FrameUnreachable _) \<Rightarrow> panic
      | Some frame \<Rightarrow>
          ok (t\<lparr>control_frames := set_frame_nth_back relative_depth (bump_branches frame) (control_frames t)\<rparr>))"

section \<open>Branch targets\<close>

definition height_diff :: "u32 \<Rightarrow> translator \<Rightarrow> u32 result" where
  "height_diff depth t =
     and_then (unwrap_or_panic (frame_nth_back depth (control_frames t))) (\<lambda>frame.
     and_then (unwrap_or_panic (frame_stack_height frame)) (\<lambda>origin.
       if origin \<le> height (stack_height t) then ok (height (stack_height t) - origin) else panic))"

definition compute_drop_keep :: "u32 \<Rightarrow> translator \<Rightarrow> drop_keep result" where
  "compute_drop_keep depth t =
     and_then (unwrap_or_panic (frame_nth_back depth (control_frames t))) (\<lambda>frame.
     and_then (unwrap_or_panic
         (case frame_kind frame of
            KindLoop \<Rightarrow> resolve_func_params_len_type_by_block (frame_block_type frame) (func_reg t)
          | _ \<Rightarrow> resolve_func_results_len_type_by_block (frame_block_type frame) (func_reg t))) (\<lambda>len.
     and_then (height_diff depth t) (\<lambda>diff.
       let k = word_of_nat len :: u32 in
       if k \<le> diff then drop_keep_new (unat (diff - k)) (unat k) else panic)))"

definition drop_keep_return :: "translator \<Rightarrow> drop_keep result" where
  "drop_keep_return t =
     and_then (unwrap_or_panic (max_depth (control_frames t))) (\<lambda>depth.
     and_then (compute_drop_keep depth t) (\<lambda>dk.
       drop_keep_new (unat (dk_drop dk) + unat (locals_registered t)) (unat (dk_keep dk))))"

definition drop_keep_return_call :: "func_type \<Rightarrow> translator \<Rightarrow> drop_keep result" where
  "drop_keep_return_call callee_type t =
     and_then (unwrap_or_panic (max_depth (control_frames t))) (\<lambda>depth.
     and_then (height_diff depth t) (\<lambda>diff.
       let k = word_of_nat (length (ft_params callee_type)) :: u32 in
       if k \<le> diff then drop_keep_new (unat (diff - k + locals_registered t)) (unat k) else panic))"

datatype acquired_target = BranchTarget u32 drop_keep | ReturnTarget drop_keep

definition acquire_target :: "u32 \<Rightarrow> translator \<Rightarrow> acquired_target result" where
  "acquire_target relative_depth t =
     (if is_root relative_depth (control_frames t) then
        and_then (drop_keep_return t) (\<lambda>dk. ok (ReturnTarget dk))
      else
        and_then (unwrap_or_panic (frame_nth_back relative_depth (control_frames t))) (\<lambda>frame.
        and_then (unwrap_or_panic (branch_destination frame)) (\<lambda>l.
        and_then (compute_drop_keep relative_depth t) (\<lambda>dk. ok (BranchTarget l dk)))))"

text \<open>The code of a drop and keep; the number of opcodes is handed on.\<close>

definition emit_drop_keep :: "drop_keep \<Rightarrow> (nat \<Rightarrow> action) \<Rightarrow> action" where
  "emit_drop_keep dk f t =
     (case translate_drop_keep dk (instructions t) (stack_height t) of
        (is, h, n) \<Rightarrow> f n (t\<lparr>instructions := is, stack_height := h\<rparr>))"

section \<open>Locals and calls\<close>

definition relative_local_depth :: "u32 \<Rightarrow> translator \<Rightarrow> u32 result" where
  "relative_local_depth local_idx t =
     (let len = word_of_nat (length (stack_types t)) :: u32 in
      if local_idx \<le> len then ok (len - local_idx) else panic)"

definition get_expressed_depth :: "u32 \<Rightarrow> translator \<Rightarrow> u32" where
  "get_expressed_depth depth t =
     sum_list (map (\<lambda>ty. if ty = TI64 \<or> ty = TF64 then 2 else 1)
       (take (unat depth) (rev (stack_types t))))"

fun pop_types :: "val_type list \<Rightarrow> action" where
  "pop_types [] = ok"
| "pop_types (ty # tys) = pop_stack_type (\<lambda>popped. if popped = ty then pop_types tys else (\<lambda>_. panic))"

fun push_types :: "val_type list \<Rightarrow> action" where
  "push_types [] = ok"
| "push_types (ty # tys) = (\<lambda>t. and_then (push_stack_type ty t) (push_types tys))"

definition adjust_value_stack_for_call :: "u32 \<Rightarrow> action" where
  "adjust_value_stack_for_call func_type_idx =
     inspecting (func_type_of func_type_idx) (\<lambda>ft.
     inspecting (original_func_type_of func_type_idx) (\<lambda>original.
       steps
        [change_height (pop_n (word_of_nat (length (ft_params ft)))),
         change_height (push_n (word_of_nat (length (ft_results ft)))),
         pop_types (rev (ft_params original)),
         push_types (ft_results original)]))"

definition global_type_of :: "u32 \<Rightarrow> translator \<Rightarrow> val_type result" where
  "global_type_of i t = (if unat i < length (globals t) then ok (content_type (globals t ! unat i)) else panic)"

definition memory_type_of :: "u32 \<Rightarrow> translator \<Rightarrow> memory_type result" where
  "memory_type_of i t = (if unat i < length (memory_types t) then ok (memory_types t ! unat i) else panic)"

definition table_type_of :: "u32 \<Rightarrow> translator \<Rightarrow> table_type result" where
  "table_type_of i t = (if unat i < length (table_types t) then ok (table_types t ! unat i) else panic)"

end
