(* ===== verification/Translator_Control.thy ===== *)
theory Translator_Control
  imports Translator
begin

text \<open>
  The translation of the control operators (\<open>visit_block\<close> to \<open>visit_return_call_indirect\<close> in
  \<open>src/compiler/translator.rs\<close>), and the beginning and end of a function (\<open>prepare\<close>, \<open>finish\<close>).
  The loops that shrink the stack of types when a frame ends panic when the stack is empty.
\<close>

section \<open>Structured control\<close>

definition visit_unreachable :: action where
  "visit_unreachable = translate_if_reachable (steps [emit [Unreachable], set_reachable False])"

definition visit_nop :: action where
  "visit_nop = ok"

definition unreachable_frame :: "control_frame_kind \<Rightarrow> block_type \<Rightarrow> action" where
  "unreachable_frame k bt = push_frame (FrameUnreachable (unreachable_frame_new k bt))"

definition visit_block :: "block_type \<Rightarrow> action" where
  "visit_block bt t =
     (if reachable t then
        inspecting last_control_frame (\<lambda>frame.
        inspecting (frame_stack_height_for bt) (\<lambda>h.
          new_label_ref (\<lambda>end_label.
            push_frame (FrameBlock (block_frame_new bt end_label h (consume_fuel_instr frame)))))) t
      else unreachable_frame KindBlock bt t)"

definition visit_loop :: "block_type \<Rightarrow> action" where
  "visit_loop bt t =
     (if reachable t then
        inspecting (frame_stack_height_for bt) (\<lambda>h.
          new_label_ref (\<lambda>header.
            steps [pin_label_here header,
              metered_consume_fuel (\<lambda>fuel.
                push_frame (FrameLoop (loop_frame_new bt header h fuel)))])) t
      else unreachable_frame KindLoop bt t)"

definition visit_if :: "fuel_policy \<Rightarrow> block_type \<Rightarrow> action" where
  "visit_if fp bt t =
     (if reachable t then
        steps
         [change_height (pop_n 1),
          (\<lambda>t. ok (t\<lparr>stack_types := butlast (stack_types t)\<rparr>)),
          inspecting (frame_stack_height_for bt) (\<lambda>h.
            new_label_ref (\<lambda>else_label.
              new_label_ref (\<lambda>end_label.
                steps
                 [bump_fuel (cost_base fp),
                  branch_offset_to else_label (\<lambda>off. emit [BrIfEqz off]),
                  metered_consume_fuel (\<lambda>fuel.
                    case if_frame_new bt end_label else_label h fuel of
                      None \<Rightarrow> (\<lambda>_. panic)
                    | Some frame \<Rightarrow> push_frame (FrameIf frame))])))] t
      else unreachable_frame KindIf bt t)"

text \<open>Popping types until the height \<open>target\<close> is reached; the list has the top first.\<close>

fun shrink_types :: "u32 \<Rightarrow> u32 \<Rightarrow> val_type list \<Rightarrow> val_type list option" where
  "shrink_types old target [] = (if old > target then None else Some [])"
| "shrink_types old target (ty # tys) =
     (if old > target
      then shrink_types (old - (if ty = TI64 \<or> ty = TF64 then 2 else 1)) target tys
      else Some (ty # tys))"

definition shrink_stack_to :: "u32 \<Rightarrow> action" where
  "shrink_stack_to target t =
     (let old = height (stack_height t) in
      and_then (shrink_to target (stack_height t)) (\<lambda>h.
      and_then (unwrap_or_panic (shrink_types old target (rev (stack_types t)))) (\<lambda>tys.
        ok (t\<lparr>stack_height := h, stack_types := rev tys\<rparr>))))"

text \<open>The values of a block on the emulated stack: two words for a 64-bit type.\<close>

definition push_block_value :: "val_type \<Rightarrow> action" where
  "push_block_value ty =
     steps [change_height (push_n (if ty = TI64 \<or> ty = TF64 then 2 else 1)), push_stack_type ty]"

definition visit_else :: action where
  "visit_else =
     pop_control_frame (\<lambda>frame.
       case frame of
         FrameIf if_frame \<Rightarrow>
           inspecting (\<lambda>t. unwrap_or_panic (update_end_of_then_reachability (reachable t) if_frame)) (\<lambda>if_frame.
             steps
              [(\<lambda>t. if reachable t then branch_offset_to (if_end_label if_frame) (\<lambda>off. emit [Br off]) t else ok t),
               pin_label_here (if_else_label if_frame),
               metered_consume_fuel (\<lambda>fuel.
                 inspecting
                   (\<lambda>_. case fuel of
                      None \<Rightarrow> ok (FrameIf if_frame)
                    | Some instr \<Rightarrow> unwrap_or_panic (update_consume_fuel_instr instr (FrameIf if_frame)))
                   (\<lambda>frame.
                     steps
                      [shrink_stack_to (if_stack_height if_frame),
                       (case if_block_type if_frame of
                          BlockFuncType i \<Rightarrow>
                            inspecting (original_func_type_of i) (\<lambda>ft. steps (map push_block_value (ft_params ft)))
                        | _ \<Rightarrow> ok),
                       push_frame frame,
                       set_reachable True]))])
       | FrameUnreachable u \<Rightarrow>
           (if unreachable_kind u = KindIf then push_frame frame else (\<lambda>_. panic))
       | _ \<Rightarrow> (\<lambda>_. panic))"

definition visit_return :: action where
  "visit_return = translate_if_reachable
     (inspecting drop_keep_return (\<lambda>dk.
        emit_drop_keep dk (\<lambda>_. steps [emit [Return], set_reachable False])))"

definition pin_frame_labels :: "control_frame \<Rightarrow> action" where
  "pin_frame_labels frame =
     steps
      [(case frame of FrameIf f \<Rightarrow> try_pin_label_here (if_else_label f) | _ \<Rightarrow> ok),
       (if frame_is_reachable frame \<and> frame_kind frame \<noteq> KindLoop
        then inspecting (\<lambda>_. unwrap_or_panic (frame_end_label frame)) pin_label_here
        else ok)]"

definition push_block_results :: "block_type \<Rightarrow> action" where
  "push_block_results bt = (case bt of
     BlockFuncType i \<Rightarrow>
       inspecting (original_func_type_of i) (\<lambda>ft. steps (map push_block_value (ft_results ft)))
   | BlockType ty \<Rightarrow> push_block_value ty
   | BlockEmpty \<Rightarrow> ok)"

definition visit_end :: action where
  "visit_end =
     inspecting last_control_frame (\<lambda>frame.
       steps
        [pin_frame_labels frame,
         (\<lambda>t. if length (control_frames t) = 1 then visit_return t
              else set_reachable (frame_is_reachable frame) t),
         (case frame_stack_height frame of None \<Rightarrow> ok | Some h \<Rightarrow> shrink_stack_to h),
         pop_control_frame (\<lambda>frame. push_block_results (frame_block_type frame)),
         (\<lambda>t. if with_consume_fuel t \<and> control_frames t \<noteq> [] then refresh_consume_fuel t else ok t)])"

section \<open>Branches\<close>

definition visit_br :: "fuel_policy \<Rightarrow> u32 \<Rightarrow> action" where
  "visit_br fp relative_depth = translate_if_reachable
     (steps
       [add_branch relative_depth,
        inspecting (acquire_target relative_depth) (\<lambda>target.
          case target of
            BranchTarget end_label dk \<Rightarrow>
              steps
               [bump_fuel (cost_base fp),
                emit_drop_keep dk (\<lambda>_. branch_offset_to end_label (\<lambda>off. emit [Br off]))]
          | ReturnTarget _ \<Rightarrow> steps [bump_fuel (cost_base fp), visit_return]),
        set_reachable False])"

text \<open>A conditional branch over the code of a drop and keep: the offset of the opcode \<open>n\<close> before
  the end is set to \<open>n + 2\<close>.\<close>

definition patch_skip :: "nat \<Rightarrow> action" where
  "patch_skip n t =
     and_then (unwrap_or_panic (last_nth n (instructions t))) (\<lambda>i.
     and_then (patch_at i (\<lambda>op. update_branch_offset op (word_of_nat n + 2)) (instructions t)) (\<lambda>is.
       ok (t\<lparr>instructions := is\<rparr>)))"

definition visit_br_if :: "fuel_policy \<Rightarrow> u32 \<Rightarrow> action" where
  "visit_br_if fp relative_depth = translate_if_reachable
     (steps
       [change_height (pop_n 1),
        drop_stack_type,
        add_branch relative_depth,
        inspecting (acquire_target relative_depth) (\<lambda>target.
          case target of
            BranchTarget end_label dk \<Rightarrow>
              steps
               [bump_fuel (cost_base fp),
                (if is_noop dk then branch_offset_to end_label (\<lambda>off. emit [BrIfNez off])
                 else
                   steps
                    [emit [BrIfEqz 0],
                     emit_drop_keep dk (\<lambda>n.
                       steps [patch_skip n, branch_offset_to end_label (\<lambda>off. emit [Br off])])])]
          | ReturnTarget dk \<Rightarrow>
              steps
               [bump_fuel (cost_base fp),
                emit [BrIfEqz 0],
                emit_drop_keep dk (\<lambda>n. steps [patch_skip n, emit [Return]])]),
        (\<lambda>t. if with_consume_fuel t then refresh_consume_fuel t else ok t)])"

text \<open>\<open>encode_br_table_target\<close>: two opcodes in the table, and the code of a drop and keep in the
  trampolines behind it, to which the table entry jumps.\<close>

definition push_br_table_branches :: "opcode list \<Rightarrow> action" where
  "push_br_table_branches ops t = ok (t\<lparr>br_table_branches := br_table_branches t @ ops\<rparr>)"

definition encode_br_table_target ::
  "acquired_target \<Rightarrow> opcode list \<Rightarrow> nat \<Rightarrow> translator \<Rightarrow> (opcode list \<times> translator) result" where
  "encode_br_table_target target tramps final_len t =
     (let len = length (br_table_branches t);
          to_tramp = word_of_nat (final_len - len + length tramps) :: branch_offset in
      case target of
        ReturnTarget dk \<Rightarrow>
          if is_noop dk then
            and_then (push_br_table_branches [Return, Return] t) (\<lambda>t. ok (tramps, t))
          else
            and_then (push_br_table_branches [Br to_tramp, Return] t) (\<lambda>t.
              case translate_drop_keep dk tramps (stack_height t) of
                (is, h, _) \<Rightarrow> ok (is @ [Return], t\<lparr>stack_height := h\<rparr>))
      | BranchTarget l dk \<Rightarrow>
          and_then (current_pc t) (\<lambda>base.
            if is_noop dk then
              and_then (try_resolve_label_for l (base + word_of_nat (len + 1))
                  (\<lambda>off. push_br_table_branches [Br off, Return]) t) (\<lambda>t. ok (tramps, t))
            else
              and_then (push_br_table_branches [Br to_tramp, Return] t) (\<lambda>t.
                case translate_drop_keep dk tramps (stack_height t) of
                  (is, h, _) \<Rightarrow>
                    and_then (try_resolve_label l (base + word_of_nat (final_len + length is + 1)) (label_reg t))
                      (\<lambda>(off, reg). ok (is @ [Br off], t\<lparr>stack_height := h, label_reg := reg\<rparr>)))))"

definition br_table_target ::
  "nat \<Rightarrow> u32 \<Rightarrow> opcode list \<Rightarrow> translator \<Rightarrow> (opcode list \<times> translator) result" where
  "br_table_target final_len depth tramps t =
     and_then (add_branch depth t) (\<lambda>t.
     and_then (acquire_target depth t) (\<lambda>target. encode_br_table_target target tramps final_len t))"

fun br_table_targets ::
  "nat \<Rightarrow> u32 list \<Rightarrow> opcode list \<Rightarrow> translator \<Rightarrow> (opcode list \<times> translator) result" where
  "br_table_targets final_len [] tramps t = ok (tramps, t)"
| "br_table_targets final_len (d # ds) tramps t =
     and_then (br_table_target final_len d tramps t) (\<lambda>(tramps, t). br_table_targets final_len ds tramps t)"

definition visit_br_table :: "fuel_policy \<Rightarrow> u32 list \<Rightarrow> u32 \<Rightarrow> action" where
  "visit_br_table fp targets default_depth = translate_if_reachable
     (steps
       [bump_fuel (cost_base fp),
        change_height (pop_n 1),
        drop_stack_type,
        (\<lambda>t. ok (t\<lparr>br_table_branches := []\<rparr>)),
        (\<lambda>t. let target_len = (length targets + 1) * 2 in
          and_then (br_table_targets target_len targets [] t) (\<lambda>(tramps, t).
          let len_branches = length (br_table_branches t) div 2 in
          and_then (add_branch default_depth t) (\<lambda>t.
          and_then (acquire_target default_depth t) (\<lambda>target.
          and_then (if len_branches + 1 < 2 ^ 32 then ok (word_of_nat (len_branches + 1) :: u32)
                    else err BranchTableTargetsOutOfBounds) (\<lambda>len_targets.
          and_then (encode_br_table_target target tramps target_len t) (\<lambda>(tramps, t).
            ok (t\<lparr>instructions := instructions t @ [BrTable len_targets] @ br_table_branches t @ tramps,
                  br_table_branches := []\<rparr>))))))),
        set_reachable False])"

section \<open>Calls\<close>

definition table_idx_of :: "u32 \<Rightarrow> u16 result" where
  "table_idx_of i = (if unat i < 2 ^ 16 then ok (ucast i) else panic)"

definition visit_call :: "fuel_policy \<Rightarrow> u32 \<Rightarrow> action" where
  "visit_call fp function_index = translate_if_reachable
     (steps
       [bump_fuel (cost_call fp),
        inspecting (resolve_func_type_index function_index) adjust_value_stack_for_call,
        emit_function_call function_index False False])"

definition visit_call_indirect :: "fuel_policy \<Rightarrow> u32 \<Rightarrow> u32 \<Rightarrow> action" where
  "visit_call_indirect fp func_type_index table_index = translate_if_reachable
     (steps
       [bump_fuel (cost_call fp),
        change_height (pop_n 1),
        drop_stack_type,
        adjust_value_stack_for_call func_type_index,
        inspecting (signature_of func_type_index) (\<lambda>s. emit [CallIndirect s]),
        inspecting (\<lambda>_. table_idx_of table_index) (\<lambda>i. emit [TableGet i])])"

definition visit_return_call :: "fuel_policy \<Rightarrow> u32 \<Rightarrow> action" where
  "visit_return_call fp function_index = translate_if_reachable
     (inspecting (resolve_func_type_index function_index) (\<lambda>i.
      inspecting (func_type_of i) (\<lambda>ft.
      inspecting (drop_keep_return_call ft) (\<lambda>dk.
        steps
         [bump_fuel (cost_call fp),
          emit_drop_keep dk (\<lambda>_. emit_function_call function_index False True),
          set_reachable False]))))"

definition visit_return_call_indirect :: "fuel_policy \<Rightarrow> u32 \<Rightarrow> u32 \<Rightarrow> action" where
  "visit_return_call_indirect fp func_type_index table_index = translate_if_reachable
     (inspecting (func_type_of func_type_index) (\<lambda>ft.
        steps
         [change_height (pop_n 1),
          drop_stack_type,
          inspecting (drop_keep_return_call ft) (\<lambda>dk.
            steps
             [bump_fuel (cost_call fp),
              emit_drop_keep (add_keep 1 dk) (\<lambda>_. ok),
              inspecting (signature_of func_type_index) (\<lambda>s. emit [ReturnCallIndirect s]),
              inspecting (\<lambda>_. table_idx_of table_index) (\<lambda>i. emit [TableGet i]),
              set_reachable False])]))"

section \<open>The beginning and the end of a function\<close>

text \<open>A failure to charge for the parameters panics.\<close>

definition or_panic :: "'a result \<Rightarrow> 'a result" where
  "or_panic r = (case r of Some (Inr x) \<Rightarrow> ok x | _ \<Rightarrow> panic)"

definition init_func_body_block :: "fuel_policy \<Rightarrow> u32 \<Rightarrow> action" where
  "init_func_body_block fp func_idx =
     inspecting (resolve_func_type_index func_idx) (\<lambda>i.
       new_label_ref (\<lambda>end_label.
         steps
          [inspecting (signature_of i) (\<lambda>s. emit [SignatureCheck s]),
           metered_consume_fuel (\<lambda>fuel.
             push_frame (FrameBlock (block_frame_new (BlockFuncType i) end_label 0 fuel))),
           inspecting (original_func_type_of i) (\<lambda>ft t. ok (t\<lparr>stack_types := stack_types t @ ft_params ft\<rparr>)),
           inspecting (func_type_of i) (\<lambda>ft.
             inspecting (\<lambda>t. register_locals (word_of_nat (length (ft_params ft))) (locals_registered t)) (\<lambda>n t.
               ok (t\<lparr>locals_registered := n\<rparr>))),
           (\<lambda>t. if consume_fuel_for_params_and_locals t
                then or_panic (bump_fuel (fuel_for_locals fp (locals_registered t)) t) else ok t)]))"

definition prepare :: "fuel_policy \<Rightarrow> u32 \<Rightarrow> action" where
  "prepare fp func_idx =
     steps
      [(\<lambda>t. ok (alloc_reset t)),
       (\<lambda>t. ok (t\<lparr>func_offsets := func_offsets t @ [isa_loc (instructions t)]\<rparr>)),
       init_func_body_block fp func_idx]"

text \<open>The stack check of the function gets the height that the translation has computed. It is
  searched among the first \<open>n\<close> opcodes from \<open>i\<close>; another opcode before it panics.\<close>

fun patch_stack_check :: "nat \<Rightarrow> nat \<Rightarrow> u32 \<Rightarrow> instruction_set \<Rightarrow> instruction_set result" where
  "patch_stack_check 0 i h is = ok is"
| "patch_stack_check (Suc n) i h is =
     (if i < length is then
        (case is ! i of
           ConsumeFuel _ \<Rightarrow> patch_stack_check n (i + 1) h is
         | SignatureCheck _ \<Rightarrow> patch_stack_check n (i + 1) h is
         | StackCheck _ \<Rightarrow> ok (is[i := StackCheck h])
         | _ \<Rightarrow> panic)
      else ok is)"

definition finish :: action where
  "finish t =
     and_then (resolve_branches (label_reg t) (users (label_reg t)) (instructions t)) (\<lambda>is.
       if func_offsets t = [] then panic
       else
         and_then (patch_stack_check (if with_consume_fuel t then 3 else 2)
             (unat (last (func_offsets t))) (max_height (stack_height t)) is) (\<lambda>is.
           ok (t\<lparr>instructions := is\<rparr>)))"

end
