(* ===== verification/Translator_Visits.thy ===== *)
theory Translator_Visits
  imports Translator_Control
begin

text \<open>
  The translation of the operators without control flow (the rest of
  \<open>src/compiler/translator.rs\<close>). The operators whose visit only passes a type, an emitter and a
  stack height to a common function are grouped in datatypes, with one table of these
  arguments per group; the constructors are the names of the visits without \<open>visit\<close>.
\<close>

section \<open>The common functions\<close>

definition translate_load :: "fuel_policy \<Rightarrow> val_type \<Rightarrow> opcode list \<Rightarrow> u32 \<Rightarrow> action" where
  "translate_load fp loaded_type code msh = translate_if_reachable
     (steps
       [bump_fuel (cost_load fp),
        pop_stack_type (\<lambda>addr_type.
          steps
           [change_height (push_n msh),
            change_height (pop_type addr_type),
            change_height (push_type loaded_type),
            change_height (pop_n msh)]),
        push_stack_type loaded_type,
        emit code])"

definition translate_store :: "fuel_policy \<Rightarrow> opcode list \<Rightarrow> u32 \<Rightarrow> action" where
  "translate_store fp code msh = translate_if_reachable
     (steps
       [bump_fuel (cost_store fp),
        change_height (push_n msh),
        pop_stack_type (\<lambda>value_type. change_height (pop_type value_type)),
        pop_stack_type (\<lambda>addr_type. change_height (pop_type addr_type)),
        change_height (pop_n msh),
        emit code])"

definition translate_conversion :: "fuel_policy \<Rightarrow> val_type \<Rightarrow> val_type \<Rightarrow> opcode list \<Rightarrow> u32 \<Rightarrow> action" where
  "translate_conversion fp input_type output_type code msh = translate_if_reachable
     (steps
       [bump_fuel (cost_base fp),
        whenever (msh > 0) (change_height (push_n msh)),
        drop_stack_type,
        push_stack_type output_type,
        change_height (pop_type input_type),
        change_height (push_type output_type),
        whenever (msh > 0) (change_height (pop_n msh)),
        emit code])"

definition visit_reinterpret :: "fuel_policy \<Rightarrow> val_type \<Rightarrow> val_type \<Rightarrow> action" where
  "visit_reinterpret fp input_type output_type = translate_if_reachable
     (steps
       [drop_stack_type,
        bump_fuel (cost_base fp),
        push_stack_type output_type,
        change_height (pop_type input_type),
        change_height (push_type output_type)])"

definition translate_binary :: "fuel_policy \<Rightarrow> opcode list \<Rightarrow> u32 \<Rightarrow> action" where
  "translate_binary fp code msh = translate_if_reachable
     (steps
       [bump_fuel (cost_base fp),
        pop_stack_type (\<lambda>lhs_type. pop_stack_type (\<lambda>rhs_type.
          steps
           [push_stack_type lhs_type,
            whenever (msh > 0) (change_height (push_n msh)),
            change_height (pop_type lhs_type),
            change_height (pop_type lhs_type),
            change_height (push_type lhs_type)])),
        whenever (msh > 0) (change_height (pop_n msh)),
        emit code])"

definition translate_binary_compare :: "fuel_policy \<Rightarrow> opcode list \<Rightarrow> u32 \<Rightarrow> action" where
  "translate_binary_compare fp code msh = translate_if_reachable
     (steps
       [bump_fuel (cost_base fp),
        pop_stack_type (\<lambda>lhs_type. pop_stack_type (\<lambda>rhs_type.
          steps
           [push_stack_type TI32,
            whenever (msh > 0) (change_height (push_n msh)),
            change_height (pop_type lhs_type),
            change_height (pop_type rhs_type),
            change_height (push_type TI32)])),
        whenever (msh > 0) (change_height (pop_n msh)),
        emit code])"

definition translate_unary :: "fuel_policy \<Rightarrow> opcode list \<Rightarrow> u32 \<Rightarrow> action" where
  "translate_unary fp code msh = translate_if_reachable
     (steps
       [bump_fuel (cost_base fp),
        pop_stack_type (\<lambda>lhs_type.
          steps
           [push_stack_type lhs_type,
            change_height (push_n msh),
            change_height (pop_type lhs_type),
            change_height (push_type lhs_type),
            change_height (pop_n msh)]),
        emit code])"

definition translate_unary_compare :: "fuel_policy \<Rightarrow> opcode list \<Rightarrow> u32 \<Rightarrow> action" where
  "translate_unary_compare fp code msh = translate_if_reachable
     (steps
       [bump_fuel (cost_base fp),
        pop_stack_type (\<lambda>lhs_type.
          steps
           [push_stack_type TI32,
            change_height (push_n msh),
            change_height (pop_type lhs_type),
            change_height (push_type TI32),
            change_height (pop_n msh)]),
        emit code])"

text \<open>A snippet is inlined as a binary operation, or called; the index of the function is filled in
  at the end of the module.\<close>

definition SNIPPET_FUNC_IDX_UNRESOLVED :: u32 where
  "SNIPPET_FUNC_IDX_UNRESOLVED = 0xFFFFFFFF"

definition translate_to_snippet_call :: "fuel_policy \<Rightarrow> snippet \<Rightarrow> action" where
  "translate_to_snippet_call fp s t =
     (if \<not> with_code_snippets t then translate_binary fp (emitter s) (snippet_msh s) t
      else translate_if_reachable
       (steps
         [bump_fuel (cost_base fp),
          change_height (pop_n (word_of_nat (length (ft_params (snippet_func_type s))))),
          change_height (push_n (word_of_nat (length (ft_results (snippet_func_type s))))),
          pop_types (rev (ft_params (orig_func_type s))),
          push_types (ft_results (orig_func_type s)),
          (\<lambda>t. ok (t\<lparr>instructions := instructions t @ [CallInternal SNIPPET_FUNC_IDX_UNRESOLVED],
             snippet_calls := snippet_calls t @
               [\<lparr>called_snippet = s, call_loc = isa_loc (instructions t)\<rparr>]\<rparr>))]) t)"

section \<open>Parametric and variable operators\<close>

definition is_wide :: "val_type \<Rightarrow> bool" where
  "is_wide ty \<longleftrightarrow> ty = TI64 \<or> ty = TF64"

definition visit_drop :: action where
  "visit_drop = translate_if_reachable
     (steps
       [change_height (pop_n 1),
        pop_stack_type (\<lambda>item_type.
          steps
           [emit [Drop],
            whenever (is_wide item_type) (steps [change_height (pop_n 1), emit [Drop]])])])"

definition visit_select :: "fuel_policy \<Rightarrow> action" where
  "visit_select fp = translate_if_reachable
     (steps
       [bump_fuel (cost_base fp),
        change_height (pop_n 3),
        change_height (push_n 1),
        drop_stack_type,
        pop_stack_type (\<lambda>item.
          if is_wide item then
            steps [change_height (pop_n 1), emit [BrIfEqz 4, Drop, Drop, Br 3, LocalSet 2, LocalSet 2]]
          else emit [Select])])"

definition visit_typed_select :: "fuel_policy \<Rightarrow> val_type \<Rightarrow> action" where
  "visit_typed_select fp ty = visit_select fp"

definition visit_local_get :: "fuel_policy \<Rightarrow> u32 \<Rightarrow> action" where
  "visit_local_get fp local_index = translate_if_reachable
     (steps
       [bump_fuel (cost_base fp),
        inspecting (relative_local_depth local_index) (\<lambda>depth.
        inspecting (\<lambda>t. let n = length (stack_types t) in
            if 0 < unat depth \<and> unat depth \<le> n then ok (stack_types t ! (n - unat depth)) else panic) (\<lambda>ty.
        inspecting (\<lambda>t. ok (get_expressed_depth depth t)) (\<lambda>e.
          steps
           [emit [LocalGet e],
            change_height (push_n 1),
            whenever (is_wide ty) (steps [emit [LocalGet e], change_height (push_n 1)]),
            push_stack_type ty])))])"

definition visit_local_set :: "fuel_policy \<Rightarrow> u32 \<Rightarrow> action" where
  "visit_local_set fp local_index = translate_if_reachable
     (steps
       [bump_fuel (cost_base fp),
        change_height (pop_n 1),
        pop_stack_type (\<lambda>ty.
          inspecting (relative_local_depth local_index) (\<lambda>depth.
          inspecting (\<lambda>t. ok (get_expressed_depth depth t)) (\<lambda>e.
            steps
             [emit [LocalSet e],
              whenever (is_wide ty) (steps [emit [LocalSet e], change_height (pop_n 1)])])))])"

definition visit_local_tee :: "fuel_policy \<Rightarrow> u32 \<Rightarrow> action" where
  "visit_local_tee fp local_index = translate_if_reachable
     (steps
       [bump_fuel (cost_base fp),
        inspecting (relative_local_depth local_index) (\<lambda>depth.
        inspecting (\<lambda>t. ok (get_expressed_depth depth t)) (\<lambda>e.
        inspecting (\<lambda>t. if stack_types t = [] then panic else ok (last (stack_types t))) (\<lambda>ty.
          if is_wide ty then
            steps
             [change_height (push_n 1),
              change_height (pop_n 1),
              emit [LocalTee (e - 1), LocalGet 2, LocalSet e]]
          else emit [LocalTee e])))])"

definition visit_global_get :: "fuel_policy \<Rightarrow> u32 \<Rightarrow> action" where
  "visit_global_get fp global_index = translate_if_reachable
     (steps
       [bump_fuel (cost_entity fp),
        inspecting (global_type_of global_index) (\<lambda>ty.
          steps
           [push_stack_type ty,
            (if is_wide ty
             then steps [emit [GlobalGet (global_index * 2 + 1), GlobalGet (global_index * 2)], change_height (push_n 2)]
             else steps [emit [GlobalGet (global_index * 2)], change_height (push_n 1)])])])"

definition visit_global_set :: "fuel_policy \<Rightarrow> u32 \<Rightarrow> action" where
  "visit_global_set fp global_index = translate_if_reachable
     (steps
       [bump_fuel (cost_entity fp),
        inspecting (global_type_of global_index) (\<lambda>ty.
          steps
           [drop_stack_type,
            emit [GlobalSet (global_index * 2)],
            change_height (pop_n 1),
            whenever (is_wide ty)
              (steps [emit [GlobalSet (global_index * 2 + 1)], change_height (pop_n 1)])])])"

section \<open>Constants and references\<close>

definition visit_i32_const :: "fuel_policy \<Rightarrow> u32 \<Rightarrow> action" where
  "visit_i32_const fp value = translate_if_reachable
     (steps [bump_fuel (cost_base fp), push_stack_type TI32, change_height (push_n 1), emit [I32Const value]])"

definition visit_i64_const :: "fuel_policy \<Rightarrow> u64 \<Rightarrow> action" where
  "visit_i64_const fp value = translate_if_reachable
     (steps [bump_fuel (cost_base fp), push_stack_type TI64, change_height (push_n 2), emit (op_i64_const value)])"

definition visit_f32_const :: "fuel_policy \<Rightarrow> u32 \<Rightarrow> action" where
  "visit_f32_const fp bits = translate_if_reachable
     (steps [bump_fuel (cost_base fp), push_stack_type TF32, change_height (push_n 1), emit [I32Const bits]])"

definition visit_f64_const :: "fuel_policy \<Rightarrow> u64 \<Rightarrow> action" where
  "visit_f64_const fp bits = translate_if_reachable
     (steps [bump_fuel (cost_base fp), push_stack_type TF64, change_height (push_n 2), emit (op_i64_const bits)])"

definition visit_ref_null :: "fuel_policy \<Rightarrow> val_type \<Rightarrow> action" where
  "visit_ref_null fp ty = translate_if_reachable
     (steps
       [bump_fuel (cost_base fp),
        (if ty = TFuncRef \<or> ty = TExternRef
         then steps [push_stack_type ty, change_height (push_n 1), emit [I32Const 0]]
         else (\<lambda>_. panic))])"

definition visit_i32_eqz :: "fuel_policy \<Rightarrow> action" where
  "visit_i32_eqz fp = translate_unary_compare fp [I32Eqz] 0"

definition visit_i64_eqz :: "fuel_policy \<Rightarrow> action" where
  "visit_i64_eqz fp = translate_unary_compare fp op_i64_eqz MSH_I64_EQZ"

definition visit_ref_is_null :: "fuel_policy \<Rightarrow> action" where
  "visit_ref_is_null fp = visit_i32_eqz fp"

definition visit_ref_func :: "fuel_policy \<Rightarrow> u32 \<Rightarrow> action" where
  "visit_ref_func fp function_index = translate_if_reachable
     (steps
       [bump_fuel (cost_base fp), push_stack_type TFuncRef, change_height (push_n 1),
        emit [RefFunc (function_index + 1)]])"

definition visit_i32_wrap_i64 :: "fuel_policy \<Rightarrow> action" where
  "visit_i32_wrap_i64 fp = translate_if_reachable
     (steps
       [bump_fuel (cost_base fp), drop_stack_type, push_stack_type TI32, emit op_i32_wrap_i64,
        change_height (pop_n 1)])"

section \<open>Tables of the remaining numeric and memory operators\<close>

datatype (plugins only: code size) load_op =
    W_i32_load | W_i64_load | W_f32_load | W_f64_load | W_i32_load8_s | W_i32_load8_u |
    W_i32_load16_s | W_i32_load16_u | W_i64_load8_s | W_i64_load8_u | W_i64_load16_s |
    W_i64_load16_u | W_i64_load32_s | W_i64_load32_u

definition load_row :: "load_op \<Rightarrow> u32 \<Rightarrow> val_type \<times> opcode list \<times> u32" where
  "load_row op off = (case op of
     W_i32_load \<Rightarrow> (TI32, [I32Load off], 0)
   | W_i64_load \<Rightarrow> (TI64, op_i64_load off, MSH_I64_LOAD)
   | W_f32_load \<Rightarrow> (TF32, emit_fpu (F32Load off) [], 0)
   | W_f64_load \<Rightarrow> (TF64, emit_fpu (F64Load off) [], 0)
   | W_i32_load8_s \<Rightarrow> (TI32, [I32Load8S off], 0)
   | W_i32_load8_u \<Rightarrow> (TI32, [I32Load8U off], 0)
   | W_i32_load16_s \<Rightarrow> (TI32, [I32Load16S off], 0)
   | W_i32_load16_u \<Rightarrow> (TI32, [I32Load16U off], 0)
   | W_i64_load8_s \<Rightarrow> (TI64, op_i64_load8_s off, MSH_I64_LOAD8_S)
   | W_i64_load8_u \<Rightarrow> (TI64, op_i64_load8_u off, MSH_I64_LOAD8_U)
   | W_i64_load16_s \<Rightarrow> (TI64, op_i64_load16_s off, MSH_I64_LOAD16_S)
   | W_i64_load16_u \<Rightarrow> (TI64, op_i64_load16_u off, MSH_I64_LOAD16_U)
   | W_i64_load32_s \<Rightarrow> (TI64, op_i64_load32_s off, MSH_I64_LOAD32_S)
   | W_i64_load32_u \<Rightarrow> (TI64, op_i64_load32_u off, MSH_I64_LOAD32_U))"

datatype (plugins only: code size) store_op =
    W_i32_store | W_i64_store | W_f32_store | W_f64_store | W_i32_store8 | W_i32_store16 |
    W_i64_store8 | W_i64_store16 | W_i64_store32

definition store_row :: "store_op \<Rightarrow> u32 \<Rightarrow> val_type \<times> opcode list \<times> u32" where
  "store_row op off = (case op of
     W_i32_store \<Rightarrow> (TI32, [I32Store off], 0)
   | W_i64_store \<Rightarrow> (TI64, op_i64_store off, MSH_I64_STORE)
   | W_f32_store \<Rightarrow> (TF32, emit_fpu (F32Store off) [], 0)
   | W_f64_store \<Rightarrow> (TF64, emit_fpu (F64Store off) [], 0)
   | W_i32_store8 \<Rightarrow> (TI32, [I32Store8 off], 0)
   | W_i32_store16 \<Rightarrow> (TI32, [I32Store16 off], 0)
   | W_i64_store8 \<Rightarrow> (TI64, op_i64_store8 off, 0)
   | W_i64_store16 \<Rightarrow> (TI64, op_i64_store16 off, 0)
   | W_i64_store32 \<Rightarrow> (TI64, op_i64_store32 off, 0))"

datatype (plugins only: code size) i32_relop =
    W_i32_eq | W_i32_ne | W_i32_lt_s | W_i32_lt_u | W_i32_gt_s | W_i32_gt_u | W_i32_le_s |
    W_i32_le_u | W_i32_ge_s | W_i32_ge_u

definition i32_relop_row :: "i32_relop \<Rightarrow> opcode list \<times> u32" where
  "i32_relop_row op = (case op of
     W_i32_eq \<Rightarrow> ([I32Eq], 0)
   | W_i32_ne \<Rightarrow> ([I32Ne], 0)
   | W_i32_lt_s \<Rightarrow> ([I32LtS], 0)
   | W_i32_lt_u \<Rightarrow> ([I32LtU], 0)
   | W_i32_gt_s \<Rightarrow> ([I32GtS], 0)
   | W_i32_gt_u \<Rightarrow> ([I32GtU], 0)
   | W_i32_le_s \<Rightarrow> ([I32LeS], 0)
   | W_i32_le_u \<Rightarrow> ([I32LeU], 0)
   | W_i32_ge_s \<Rightarrow> ([I32GeS], 0)
   | W_i32_ge_u \<Rightarrow> ([I32GeU], 0))"

datatype (plugins only: code size) float_relop =
    W_f32_eq | W_f32_ne | W_f32_lt | W_f32_gt | W_f32_le | W_f32_ge | W_f64_eq | W_f64_ne |
    W_f64_lt | W_f64_gt | W_f64_le | W_f64_ge

definition float_relop_row :: "float_relop \<Rightarrow> opcode list \<times> u32" where
  "float_relop_row op = (case op of
     W_f32_eq \<Rightarrow> (emit_fpu F32Eq [], 0)
   | W_f32_ne \<Rightarrow> (emit_fpu F32Ne [], 0)
   | W_f32_lt \<Rightarrow> (emit_fpu F32Lt [], 0)
   | W_f32_gt \<Rightarrow> (emit_fpu F32Gt [], 0)
   | W_f32_le \<Rightarrow> (emit_fpu F32Le [], 0)
   | W_f32_ge \<Rightarrow> (emit_fpu F32Ge [], 0)
   | W_f64_eq \<Rightarrow> (emit_fpu F64Eq [], 0)
   | W_f64_ne \<Rightarrow> (emit_fpu F64Ne [], 0)
   | W_f64_lt \<Rightarrow> (emit_fpu F64Lt [], 0)
   | W_f64_gt \<Rightarrow> (emit_fpu F64Gt [], 0)
   | W_f64_le \<Rightarrow> (emit_fpu F64Le [], 0)
   | W_f64_ge \<Rightarrow> (emit_fpu F64Ge [], 0))"

datatype (plugins only: code size) i32_unop =
    W_i32_clz | W_i32_ctz | W_i32_popcnt

definition i32_unop_row :: "i32_unop \<Rightarrow> opcode list \<times> u32" where
  "i32_unop_row op = (case op of
     W_i32_clz \<Rightarrow> ([I32Clz], 0)
   | W_i32_ctz \<Rightarrow> ([I32Ctz], 0)
   | W_i32_popcnt \<Rightarrow> ([I32Popcnt], 0))"

datatype (plugins only: code size) i32_binop =
    W_i32_add | W_i32_sub | W_i32_mul | W_i32_div_s | W_i32_div_u | W_i32_rem_s | W_i32_rem_u |
    W_i32_and | W_i32_or | W_i32_xor | W_i32_shl | W_i32_shr_s | W_i32_shr_u | W_i32_rotl |
    W_i32_rotr

definition i32_binop_row :: "i32_binop \<Rightarrow> opcode list \<times> u32" where
  "i32_binop_row op = (case op of
     W_i32_add \<Rightarrow> ([I32Add], 0)
   | W_i32_sub \<Rightarrow> ([I32Sub], 0)
   | W_i32_mul \<Rightarrow> ([I32Mul], 0)
   | W_i32_div_s \<Rightarrow> ([I32DivS], 0)
   | W_i32_div_u \<Rightarrow> ([I32DivU], 0)
   | W_i32_rem_s \<Rightarrow> ([I32RemS], 0)
   | W_i32_rem_u \<Rightarrow> ([I32RemU], 0)
   | W_i32_and \<Rightarrow> ([I32And], 0)
   | W_i32_or \<Rightarrow> ([I32Or], 0)
   | W_i32_xor \<Rightarrow> ([I32Xor], 0)
   | W_i32_shl \<Rightarrow> ([I32Shl], 0)
   | W_i32_shr_s \<Rightarrow> ([I32ShrS], 0)
   | W_i32_shr_u \<Rightarrow> ([I32ShrU], 0)
   | W_i32_rotl \<Rightarrow> ([I32Rotl], 0)
   | W_i32_rotr \<Rightarrow> ([I32Rotr], 0))"

datatype (plugins only: code size) i64_unop =
    W_i64_clz | W_i64_ctz | W_i64_popcnt

definition i64_unop_row :: "i64_unop \<Rightarrow> opcode list \<times> u32" where
  "i64_unop_row op = (case op of
     W_i64_clz \<Rightarrow> (op_i64_clz, MSH_I64_CLZ)
   | W_i64_ctz \<Rightarrow> (op_i64_ctz, MSH_I64_CTZ)
   | W_i64_popcnt \<Rightarrow> (op_i64_popcnt, MSH_I64_POPCNT))"

datatype (plugins only: code size) i64_bitop =
    W_i64_and | W_i64_or | W_i64_xor

definition i64_bitop_row :: "i64_bitop \<Rightarrow> opcode list \<times> u32" where
  "i64_bitop_row op = (case op of
     W_i64_and \<Rightarrow> (op_i64_and, MSH_I64_AND)
   | W_i64_or \<Rightarrow> (op_i64_or, MSH_I64_OR)
   | W_i64_xor \<Rightarrow> (op_i64_xor, MSH_I64_XOR))"

datatype (plugins only: code size) f32_unop =
    W_f32_abs | W_f32_neg | W_f32_ceil | W_f32_floor | W_f32_trunc | W_f32_nearest | W_f32_sqrt

definition f32_unop_row :: "f32_unop \<Rightarrow> opcode list \<times> u32" where
  "f32_unop_row op = (case op of
     W_f32_abs \<Rightarrow> (emit_fpu F32Abs [], 0)
   | W_f32_neg \<Rightarrow> (emit_fpu F32Neg [], 0)
   | W_f32_ceil \<Rightarrow> (emit_fpu F32Ceil [], 0)
   | W_f32_floor \<Rightarrow> (emit_fpu F32Floor [], 0)
   | W_f32_trunc \<Rightarrow> (emit_fpu F32Trunc [], 0)
   | W_f32_nearest \<Rightarrow> (emit_fpu F32Nearest [], 0)
   | W_f32_sqrt \<Rightarrow> (emit_fpu F32Sqrt [], 0))"

datatype (plugins only: code size) f32_binop =
    W_f32_add | W_f32_sub | W_f32_mul | W_f32_div | W_f32_min | W_f32_max | W_f32_copysign

definition f32_binop_row :: "f32_binop \<Rightarrow> opcode list \<times> u32" where
  "f32_binop_row op = (case op of
     W_f32_add \<Rightarrow> (emit_fpu F32Add [], 0)
   | W_f32_sub \<Rightarrow> (emit_fpu F32Sub [], 0)
   | W_f32_mul \<Rightarrow> (emit_fpu F32Mul [], 0)
   | W_f32_div \<Rightarrow> (emit_fpu F32Div [], 0)
   | W_f32_min \<Rightarrow> (emit_fpu F32Min [], 0)
   | W_f32_max \<Rightarrow> (emit_fpu F32Max [], 0)
   | W_f32_copysign \<Rightarrow> (emit_fpu F32Copysign [], 0))"

datatype (plugins only: code size) f64_unop =
    W_f64_abs | W_f64_neg | W_f64_ceil | W_f64_floor | W_f64_trunc | W_f64_nearest | W_f64_sqrt

definition f64_unop_row :: "f64_unop \<Rightarrow> opcode list \<times> u32" where
  "f64_unop_row op = (case op of
     W_f64_abs \<Rightarrow> (emit_fpu F64Abs [], 0)
   | W_f64_neg \<Rightarrow> (emit_fpu F64Neg [], 0)
   | W_f64_ceil \<Rightarrow> (emit_fpu F64Ceil [], 0)
   | W_f64_floor \<Rightarrow> (emit_fpu F64Floor [], 0)
   | W_f64_trunc \<Rightarrow> (emit_fpu F64Trunc [], 0)
   | W_f64_nearest \<Rightarrow> (emit_fpu F64Nearest [], 0)
   | W_f64_sqrt \<Rightarrow> (emit_fpu F64Sqrt [], 0))"

datatype (plugins only: code size) f64_binop =
    W_f64_add | W_f64_sub | W_f64_mul | W_f64_div | W_f64_min | W_f64_max | W_f64_copysign

definition f64_binop_row :: "f64_binop \<Rightarrow> opcode list \<times> u32" where
  "f64_binop_row op = (case op of
     W_f64_add \<Rightarrow> (emit_fpu F64Add [], 0)
   | W_f64_sub \<Rightarrow> (emit_fpu F64Sub [], 0)
   | W_f64_mul \<Rightarrow> (emit_fpu F64Mul [], 0)
   | W_f64_div \<Rightarrow> (emit_fpu F64Div [], 0)
   | W_f64_min \<Rightarrow> (emit_fpu F64Min [], 0)
   | W_f64_max \<Rightarrow> (emit_fpu F64Max [], 0)
   | W_f64_copysign \<Rightarrow> (emit_fpu F64Copysign [], 0))"

datatype (plugins only: code size) int_conversion =
    W_i32_trunc_f32_s | W_i32_trunc_f32_u | W_i32_trunc_f64_s | W_i32_trunc_f64_u |
    W_i64_extend_i32_s | W_i64_extend_i32_u | W_i64_trunc_f32_s | W_i64_trunc_f32_u |
    W_i64_trunc_f64_s | W_i64_trunc_f64_u

definition int_conversion_row :: "int_conversion \<Rightarrow> val_type \<times> val_type \<times> opcode list \<times> u32" where
  "int_conversion_row op = (case op of
     W_i32_trunc_f32_s \<Rightarrow> (TF32, TI32, emit_fpu I32TruncF32S [], 0)
   | W_i32_trunc_f32_u \<Rightarrow> (TF32, TI32, emit_fpu I32TruncF32U [], 0)
   | W_i32_trunc_f64_s \<Rightarrow> (TF64, TI32, emit_fpu I32TruncF64S [], 0)
   | W_i32_trunc_f64_u \<Rightarrow> (TF64, TI32, emit_fpu I32TruncF64U [], 0)
   | W_i64_extend_i32_s \<Rightarrow> (TI32, TI64, op_i64_extend_i32_s, MSH_I64_EXTEND_I32_S)
   | W_i64_extend_i32_u \<Rightarrow> (TI32, TI64, op_i64_extend_i32_u, MSH_I64_EXTEND_I32_U)
   | W_i64_trunc_f32_s \<Rightarrow> (TF32, TI64, emit_fpu I64TruncF32S [], 0)
   | W_i64_trunc_f32_u \<Rightarrow> (TF32, TI64, emit_fpu I64TruncF32U [], 0)
   | W_i64_trunc_f64_s \<Rightarrow> (TF64, TI64, emit_fpu I64TruncF64S [], 0)
   | W_i64_trunc_f64_u \<Rightarrow> (TF64, TI64, emit_fpu I64TruncF64U [], 0))"

datatype (plugins only: code size) float_conversion =
    W_f32_convert_i32_s | W_f32_convert_i32_u | W_f32_convert_i64_s | W_f32_convert_i64_u |
    W_f32_demote_f64 | W_f64_convert_i32_s | W_f64_convert_i32_u | W_f64_convert_i64_s |
    W_f64_convert_i64_u | W_f64_promote_f32

definition float_conversion_row :: "float_conversion \<Rightarrow> val_type \<times> val_type \<times> opcode list \<times> u32" where
  "float_conversion_row op = (case op of
     W_f32_convert_i32_s \<Rightarrow> (TI32, TF32, emit_fpu F32ConvertI32S [], 0)
   | W_f32_convert_i32_u \<Rightarrow> (TI32, TF32, emit_fpu F32ConvertI32U [], 0)
   | W_f32_convert_i64_s \<Rightarrow> (TI64, TF32, emit_fpu F32ConvertI64S [], 0)
   | W_f32_convert_i64_u \<Rightarrow> (TI64, TF32, emit_fpu F32ConvertI64U [], 0)
   | W_f32_demote_f64 \<Rightarrow> (TF64, TF32, emit_fpu F32DemoteF64 [], 0)
   | W_f64_convert_i32_s \<Rightarrow> (TI32, TF64, emit_fpu F64ConvertI32S [], 0)
   | W_f64_convert_i32_u \<Rightarrow> (TI32, TF64, emit_fpu F64ConvertI32U [], 0)
   | W_f64_convert_i64_s \<Rightarrow> (TI64, TF64, emit_fpu F64ConvertI64S [], 0)
   | W_f64_convert_i64_u \<Rightarrow> (TI64, TF64, emit_fpu F64ConvertI64U [], 0)
   | W_f64_promote_f32 \<Rightarrow> (TF32, TF64, emit_fpu F64PromoteF32 [], 0))"

datatype (plugins only: code size) reinterpretation =
    W_i32_reinterpret_f32 | W_i64_reinterpret_f64 | W_f32_reinterpret_i32 |
    W_f64_reinterpret_i64

definition reinterpretation_row :: "reinterpretation \<Rightarrow> val_type \<times> val_type" where
  "reinterpretation_row op = (case op of
     W_i32_reinterpret_f32 \<Rightarrow> (TF32, TI32)
   | W_i64_reinterpret_f64 \<Rightarrow> (TF64, TI64)
   | W_f32_reinterpret_i32 \<Rightarrow> (TI32, TF32)
   | W_f64_reinterpret_i64 \<Rightarrow> (TI64, TF64))"

datatype (plugins only: code size) extension =
    W_i32_extend8_s | W_i32_extend16_s | W_i64_extend8_s | W_i64_extend16_s | W_i64_extend32_s

definition extension_row :: "extension \<Rightarrow> opcode list \<times> u32" where
  "extension_row op = (case op of
     W_i32_extend8_s \<Rightarrow> ([I32Extend8S], 0)
   | W_i32_extend16_s \<Rightarrow> ([I32Extend16S], 0)
   | W_i64_extend8_s \<Rightarrow> (op_i64_extend8_s, MSH_I64_EXTEND8_S)
   | W_i64_extend16_s \<Rightarrow> (op_i64_extend16_s, MSH_I64_EXTEND16_S)
   | W_i64_extend32_s \<Rightarrow> (op_i64_extend32_s, MSH_I64_EXTEND32_S))"

datatype (plugins only: code size) saturating_conversion =
    W_i32_trunc_sat_f32_s | W_i32_trunc_sat_f32_u | W_i32_trunc_sat_f64_s |
    W_i32_trunc_sat_f64_u | W_i64_trunc_sat_f32_s | W_i64_trunc_sat_f32_u |
    W_i64_trunc_sat_f64_s | W_i64_trunc_sat_f64_u

definition saturating_conversion_row :: "saturating_conversion \<Rightarrow> val_type \<times> val_type \<times> opcode list \<times> u32" where
  "saturating_conversion_row op = (case op of
     W_i32_trunc_sat_f32_s \<Rightarrow> (TF32, TI32, emit_fpu I32TruncSatF32S [], 0)
   | W_i32_trunc_sat_f32_u \<Rightarrow> (TF32, TI32, emit_fpu I32TruncSatF32U [], 0)
   | W_i32_trunc_sat_f64_s \<Rightarrow> (TF64, TI32, emit_fpu I32TruncSatF64S [], 0)
   | W_i32_trunc_sat_f64_u \<Rightarrow> (TF64, TI32, emit_fpu I32TruncSatF64U [], 0)
   | W_i64_trunc_sat_f32_s \<Rightarrow> (TF32, TI64, emit_fpu I64TruncSatF32S [], 0)
   | W_i64_trunc_sat_f32_u \<Rightarrow> (TF32, TI64, emit_fpu I64TruncSatF32U [], 0)
   | W_i64_trunc_sat_f64_s \<Rightarrow> (TF64, TI64, emit_fpu I64TruncSatF64S [], 0)
   | W_i64_trunc_sat_f64_u \<Rightarrow> (TF64, TI64, emit_fpu I64TruncSatF64U [], 0))"

section \<open>Memory and table operators\<close>

text \<open>Three operands popped; the spare cells of the emitted code are accounted for.\<close>

definition pop_three_types :: action where
  "pop_three_types = steps [drop_stack_type, drop_stack_type, drop_stack_type]"

definition spare_cells :: "u32 \<Rightarrow> action" where
  "spare_cells n = steps [change_height (push_n n), change_height (pop_n n)]"

definition visit_memory_size :: "fuel_policy \<Rightarrow> action" where
  "visit_memory_size fp = translate_if_reachable
     (steps [bump_fuel (cost_entity fp), push_stack_type TI32, change_height (push_n 1), emit [MemorySize]])"

definition memory_grow_limit :: "memory_type \<Rightarrow> u32 \<Rightarrow> u32" where
  "memory_grow_limit mt limit =
     (case memory_maximum mt of
        Some v \<Rightarrow> if unat v < 2 ^ 32 \<and> ucast v \<le> limit then ucast v else limit
      | None \<Rightarrow> limit)"

definition visit_memory_grow :: "fuel_policy \<Rightarrow> u32 \<Rightarrow> action" where
  "visit_memory_grow fp memory_index = translate_if_reachable
     (steps
       [bump_fuel (cost_entity fp),
        inspecting (memory_type_of memory_index) (\<lambda>mt t.
          emit (op_memory_grow_checked fp (Some (memory_grow_limit mt (memory_page_limit t))) (inject_fuel_check t)) t),
        pop_stack_type push_stack_type,
        spare_cells 2,
        change_height (pop_type TI32),
        change_height (push_type TI32)])"

definition visit_memory_init :: "fuel_policy \<Rightarrow> u32 \<Rightarrow> action" where
  "visit_memory_init fp data_segment_index = translate_if_reachable
     (steps
       [bump_fuel (cost_entity fp),
        pop_three_types,
        inspecting (\<lambda>t. ok_or MemorySegmentOutOfBounds (memory_sections (segments t) data_segment_index))
          (\<lambda>(offset, len). steps
           [spare_cells 2,
            change_height (pop_n 3),
            (\<lambda>t. emit (op_memory_init_checked fp (Some offset) (Some len) (data_segment_index + 1)
                   (inject_fuel_check t)) t)])])"

definition visit_data_drop :: "fuel_policy \<Rightarrow> u32 \<Rightarrow> action" where
  "visit_data_drop fp data_index = translate_if_reachable
     (steps [bump_fuel (cost_entity fp), emit [DataDrop (data_index + 1)]])"

definition visit_memory_copy :: "fuel_policy \<Rightarrow> action" where
  "visit_memory_copy fp = translate_if_reachable
     (steps
       [bump_fuel (cost_entity fp),
        spare_cells 2,
        change_height (pop_n 3),
        pop_three_types,
        (\<lambda>t. emit (op_memory_copy_checked fp (inject_fuel_check t)) t)])"

definition visit_memory_fill :: "fuel_policy \<Rightarrow> action" where
  "visit_memory_fill fp = translate_if_reachable
     (steps
       [bump_fuel (cost_entity fp),
        spare_cells 2,
        change_height (pop_n 3),
        pop_three_types,
        (\<lambda>t. emit (op_memory_fill_checked fp (inject_fuel_check t)) t)])"

definition visit_table_init :: "fuel_policy \<Rightarrow> u32 \<Rightarrow> u32 \<Rightarrow> action" where
  "visit_table_init fp segment_index table_index = translate_if_reachable
     (steps
       [bump_fuel (cost_entity fp),
        pop_three_types,
        inspecting (\<lambda>t. ok_or TableSegmentOutOfBounds (element_sections (segments t) segment_index))
          (\<lambda>(offset, len).
            inspecting (\<lambda>_. table_idx_of table_index) (\<lambda>i t.
              emit (op_table_init_checked fp (segment_index + 1) i len offset (inject_fuel_check t)) t)),
        spare_cells MSH_TABLE_INIT_CHECKED,
        change_height (pop_n 3)])"

definition visit_elem_drop :: "fuel_policy \<Rightarrow> u32 \<Rightarrow> action" where
  "visit_elem_drop fp segment_index = translate_if_reachable
     (steps [bump_fuel (cost_entity fp), emit [ElemDrop (segment_index + 1)]])"

definition visit_table_copy :: "fuel_policy \<Rightarrow> u32 \<Rightarrow> u32 \<Rightarrow> action" where
  "visit_table_copy fp dst_table src_table = translate_if_reachable
     (steps
       [bump_fuel (cost_entity fp),
        spare_cells MSH_TABLE_COPY_CHECKED,
        change_height (pop_n 3),
        pop_three_types,
        inspecting (\<lambda>_. table_idx_of dst_table) (\<lambda>d.
        inspecting (\<lambda>_. table_idx_of src_table) (\<lambda>s t.
          emit (op_table_copy_checked fp d s (inject_fuel_check t)) t))])"

definition visit_table_fill :: "fuel_policy \<Rightarrow> u32 \<Rightarrow> action" where
  "visit_table_fill fp table_index = translate_if_reachable
     (steps
       [bump_fuel (cost_entity fp),
        spare_cells MSH_TABLE_FILL_CHECKED,
        change_height (pop_n 3),
        pop_three_types,
        inspecting (\<lambda>_. table_idx_of table_index) (\<lambda>i t.
          emit (op_table_fill_checked fp i (inject_fuel_check t)) t)])"

definition visit_table_get :: "fuel_policy \<Rightarrow> u32 \<Rightarrow> action" where
  "visit_table_get fp table_index = translate_if_reachable
     (steps
       [bump_fuel (cost_entity fp),
        drop_stack_type,
        inspecting (\<lambda>_. table_idx_of table_index) (\<lambda>i. emit [TableGet i]),
        inspecting (table_type_of table_index) (\<lambda>tt. push_stack_type (element_type tt))])"

definition visit_table_set :: "fuel_policy \<Rightarrow> u32 \<Rightarrow> action" where
  "visit_table_set fp table_index = translate_if_reachable
     (steps
       [bump_fuel (cost_entity fp),
        change_height (pop_n 2),
        drop_stack_type,
        drop_stack_type,
        inspecting (\<lambda>_. table_idx_of table_index) (\<lambda>i. emit [TableSet i])])"

definition visit_table_grow :: "fuel_policy \<Rightarrow> u32 \<Rightarrow> action" where
  "visit_table_grow fp table_index = translate_if_reachable
     (steps
       [bump_fuel (cost_entity fp),
        drop_stack_type,
        drop_stack_type,
        push_stack_type TI32,
        inspecting (table_type_of table_index) (\<lambda>tt.
        inspecting (\<lambda>_. table_idx_of table_index) (\<lambda>i t.
          let max_table_elements = (case table_maximum tt of Some m \<Rightarrow> m | None \<Rightarrow> N_MAX_TABLE_SIZE) in
          emit (op_table_grow_checked fp i (Some max_table_elements) (inject_fuel_check t)) t)),
        spare_cells MSH_TABLE_GROW_CHECKED,
        change_height (pop_n 2),
        change_height (push_n 1)])"

definition visit_table_size :: "fuel_policy \<Rightarrow> u32 \<Rightarrow> action" where
  "visit_table_size fp table_index = translate_if_reachable
     (steps
       [bump_fuel (cost_entity fp),
        change_height (push_n 1),
        push_stack_type TI32,
        inspecting (\<lambda>_. table_idx_of table_index) (\<lambda>i. emit [TableSize i])])"

text \<open>The visits of the proposals that are not supported.\<close>

definition visit_unsupported :: action where
  "visit_unsupported t = err NotSupportedExtension"

section \<open>All operators\<close>

datatype (plugins only: code size) operator =
    W_unreachable | W_nop | W_block block_type | W_loop block_type | W_if block_type | W_else | W_end
  | W_br u32 | W_br_if u32 | W_br_table "u32 list" u32 | W_return | W_call u32 | W_call_indirect u32 u32
  | W_return_call u32 | W_return_call_indirect u32 u32
  | W_drop | W_select | W_typed_select val_type
  | W_local_get u32 | W_local_set u32 | W_local_tee u32 | W_global_get u32 | W_global_set u32
  | W_load load_op u64 | W_store store_op u64
  | W_i32_const u32 | W_i64_const u64 | W_f32_const u32 | W_f64_const u64
  | W_ref_null val_type | W_ref_is_null | W_ref_func u32
  | W_i32_eqz | W_i64_eqz | W_i32_relop i32_relop | W_snippet snippet | W_float_relop float_relop
  | W_i32_unop i32_unop | W_i32_binop i32_binop | W_i64_unop i64_unop | W_i64_bitop i64_bitop
  | W_f32_unop f32_unop | W_f32_binop f32_binop | W_f64_unop f64_unop | W_f64_binop f64_binop
  | W_i32_wrap_i64 | W_int_conversion int_conversion | W_float_conversion float_conversion
  | W_reinterpretation reinterpretation | W_extension extension
  | W_saturating_conversion saturating_conversion
  | W_memory_size u32 | W_memory_grow u32 | W_memory_init u32 u32 | W_data_drop u32 | W_memory_copy u32 u32
  | W_memory_fill u32 | W_table_init u32 u32 | W_elem_drop u32 | W_table_copy u32 u32 | W_table_fill u32
  | W_table_get u32 | W_table_set u32 | W_table_grow u32 | W_table_size u32
  | W_unsupported

definition visit_operator :: "fuel_policy \<Rightarrow> operator \<Rightarrow> action" where
  "visit_operator fp op = (case op of
     W_unreachable \<Rightarrow> visit_unreachable
   | W_nop \<Rightarrow> visit_nop
   | W_block bt \<Rightarrow> visit_block bt
   | W_loop bt \<Rightarrow> visit_loop bt
   | W_if bt \<Rightarrow> visit_if fp bt
   | W_else \<Rightarrow> visit_else
   | W_end \<Rightarrow> visit_end
   | W_br d \<Rightarrow> visit_br fp d
   | W_br_if d \<Rightarrow> visit_br_if fp d
   | W_br_table ds d \<Rightarrow> visit_br_table fp ds d
   | W_return \<Rightarrow> visit_return
   | W_call f \<Rightarrow> visit_call fp f
   | W_call_indirect ty tab \<Rightarrow> visit_call_indirect fp ty tab
   | W_return_call f \<Rightarrow> visit_return_call fp f
   | W_return_call_indirect ty tab \<Rightarrow> visit_return_call_indirect fp ty tab
   | W_drop \<Rightarrow> visit_drop
   | W_select \<Rightarrow> visit_select fp
   | W_typed_select ty \<Rightarrow> visit_typed_select fp ty
   | W_local_get i \<Rightarrow> visit_local_get fp i
   | W_local_set i \<Rightarrow> visit_local_set fp i
   | W_local_tee i \<Rightarrow> visit_local_tee fp i
   | W_global_get i \<Rightarrow> visit_global_get fp i
   | W_global_set i \<Rightarrow> visit_global_set fp i
   | W_load op off \<Rightarrow> (case load_row op (ucast off) of (ty, code, msh) \<Rightarrow> translate_load fp ty code msh)
   | W_store op off \<Rightarrow> (case store_row op (ucast off) of (ty, code, msh) \<Rightarrow> translate_store fp code msh)
   | W_i32_const v \<Rightarrow> visit_i32_const fp v
   | W_i64_const v \<Rightarrow> visit_i64_const fp v
   | W_f32_const v \<Rightarrow> visit_f32_const fp v
   | W_f64_const v \<Rightarrow> visit_f64_const fp v
   | W_ref_null ty \<Rightarrow> visit_ref_null fp ty
   | W_ref_is_null \<Rightarrow> visit_ref_is_null fp
   | W_ref_func f \<Rightarrow> visit_ref_func fp f
   | W_i32_eqz \<Rightarrow> visit_i32_eqz fp
   | W_i64_eqz \<Rightarrow> visit_i64_eqz fp
   | W_i32_relop op \<Rightarrow> (case i32_relop_row op of (code, msh) \<Rightarrow> translate_binary_compare fp code msh)
   | W_snippet s \<Rightarrow> translate_to_snippet_call fp s
   | W_float_relop op \<Rightarrow> (case float_relop_row op of (code, msh) \<Rightarrow> translate_binary_compare fp code msh)
   | W_i32_unop op \<Rightarrow> (case i32_unop_row op of (code, msh) \<Rightarrow> translate_unary fp code msh)
   | W_i32_binop op \<Rightarrow> (case i32_binop_row op of (code, msh) \<Rightarrow> translate_binary fp code msh)
   | W_i64_unop op \<Rightarrow> (case i64_unop_row op of (code, msh) \<Rightarrow> translate_unary fp code msh)
   | W_i64_bitop op \<Rightarrow> (case i64_bitop_row op of (code, msh) \<Rightarrow> translate_binary fp code msh)
   | W_f32_unop op \<Rightarrow> (case f32_unop_row op of (code, msh) \<Rightarrow> translate_unary fp code msh)
   | W_f32_binop op \<Rightarrow> (case f32_binop_row op of (code, msh) \<Rightarrow> translate_binary fp code msh)
   | W_f64_unop op \<Rightarrow> (case f64_unop_row op of (code, msh) \<Rightarrow> translate_unary fp code msh)
   | W_f64_binop op \<Rightarrow> (case f64_binop_row op of (code, msh) \<Rightarrow> translate_binary fp code msh)
   | W_i32_wrap_i64 \<Rightarrow> visit_i32_wrap_i64 fp
   | W_int_conversion op \<Rightarrow> (case int_conversion_row op of (i, out, code, msh) \<Rightarrow> translate_conversion fp i out code msh)
   | W_float_conversion op \<Rightarrow> (case float_conversion_row op of (i, out, code, msh) \<Rightarrow> translate_conversion fp i out code msh)
   | W_reinterpretation op \<Rightarrow> (case reinterpretation_row op of (i, out) \<Rightarrow> visit_reinterpret fp i out)
   | W_extension op \<Rightarrow> (case extension_row op of (code, msh) \<Rightarrow> translate_unary fp code msh)
   | W_saturating_conversion op \<Rightarrow>
       (case saturating_conversion_row op of (i, out, code, msh) \<Rightarrow> translate_conversion fp i out code msh)
   | W_memory_size _ \<Rightarrow> visit_memory_size fp
   | W_memory_grow i \<Rightarrow> visit_memory_grow fp i
   | W_memory_init i _ \<Rightarrow> visit_memory_init fp i
   | W_data_drop i \<Rightarrow> visit_data_drop fp i
   | W_memory_copy _ _ \<Rightarrow> visit_memory_copy fp
   | W_memory_fill _ \<Rightarrow> visit_memory_fill fp
   | W_table_init seg tab \<Rightarrow> visit_table_init fp seg tab
   | W_elem_drop i \<Rightarrow> visit_elem_drop fp i
   | W_table_copy d s \<Rightarrow> visit_table_copy fp d s
   | W_table_fill i \<Rightarrow> visit_table_fill fp i
   | W_table_get i \<Rightarrow> visit_table_get fp i
   | W_table_set i \<Rightarrow> visit_table_set fp i
   | W_table_grow i \<Rightarrow> visit_table_grow fp i
   | W_table_size i \<Rightarrow> visit_table_size fp i
   | W_unsupported \<Rightarrow> visit_unsupported)"

end
