(* ===== verification/Func_Builder.thy ===== *)
theory Func_Builder
  imports Translator_Visits
begin

text \<open>
  The translation of one function body (\<open>src/compiler/func_builder.rs\<close>). The reader of the
  binary and the validator belong to the parser crate: a body is the list of its local
  declarations and of its operators as the reader yields them, and the validator is a record
  of functions over a state of its own, the type variable \<open>'v\<close>. Each operator is validated
  before it is translated; the operators of proposals that are not supported are only
  validated.
\<close>

record 'v validator =
  define_locals :: "u32 \<Rightarrow> val_type \<Rightarrow> 'v \<Rightarrow> binary_reader_error + 'v"
  validate_operator :: "operator \<Rightarrow> 'v \<Rightarrow> binary_reader_error + 'v"
  finish_validation :: "'v \<Rightarrow> binary_reader_error + 'v"

record func_body =
  body_locals :: "(u32 \<times> val_type) list"
  body_operators :: "operator list"

type_synonym 'v building = "'v \<times> translator"

definition validated :: "binary_reader_error + 'v \<Rightarrow> 'v result" where
  "validated r = (case r of Inl e \<Rightarrow> err (MalformedWasmBinary e) | Inr v \<Rightarrow> ok v)"

section \<open>Locals\<close>

definition total_body_locals :: "(u32 \<times> val_type) list \<Rightarrow> u32" where
  "total_body_locals ls = fold (\<lambda>(n, _) total. saturating_add total n) ls 0"

definition charge_locals :: "fuel_policy \<Rightarrow> (u32 \<times> val_type) list \<Rightarrow> action" where
  "charge_locals fp ls t =
     (if consume_fuel_for_params_and_locals t then
        let cost = fuel_for_locals fp (total_body_locals ls) in
        if cost > 0 then bump_fuel cost t else ok t
      else ok t)"

text \<open>One group of locals: their types, the opcode that pushes their zeros, and the height.\<close>

definition translate_local_group :: "u32 \<Rightarrow> val_type \<Rightarrow> action" where
  "translate_local_group n ty =
     (if ty = TV128 then (\<lambda>_. err NotSupportedLocalType)
      else
        steps
         [(\<lambda>t. ok (t\<lparr>stack_types := stack_types t @ replicate (unat n) ty\<rparr>)),
          emit [BulkConst (n * (if is_wide ty then 2 else 1))],
          change_height (push_n n),
          whenever (is_wide ty) (change_height (push_n n))])"

fun translate_local_groups :: "'v validator \<Rightarrow> (u32 \<times> val_type) list \<Rightarrow> 'v building \<Rightarrow> 'v building result" where
  "translate_local_groups val [] b = ok b"
| "translate_local_groups val ((n, ty) # ls) (v, t) =
     and_then (validated (define_locals val n ty v)) (\<lambda>v.
     and_then (translate_local_group n ty t) (\<lambda>t. translate_local_groups val ls (v, t)))"

section \<open>Operators\<close>

definition validate_then_translate ::
  "'v validator \<Rightarrow> fuel_policy \<Rightarrow> operator \<Rightarrow> 'v building \<Rightarrow> 'v building result" where
  "validate_then_translate val fp op b =
     (case b of (v, t) \<Rightarrow>
        and_then (validated (validate_operator val op v)) (\<lambda>v.
          if op = W_unsupported then ok (v, t)
          else and_then (visit_operator fp op t) (\<lambda>t. ok (v, t))))"

fun translate_operators ::
  "'v validator \<Rightarrow> fuel_policy \<Rightarrow> operator list \<Rightarrow> 'v building \<Rightarrow> 'v building result" where
  "translate_operators val fp [] b = ok b"
| "translate_operators val fp (op # ops) b =
     and_then (validate_then_translate val fp op b) (translate_operators val fp ops)"

definition translate_stack_alloc :: action where
  "translate_stack_alloc = emit [StackCheck 0xFFFFFFFF]"

definition translate :: "'v validator \<Rightarrow> fuel_policy \<Rightarrow> u32 \<Rightarrow> func_body \<Rightarrow> 'v building \<Rightarrow> 'v building result" where
  "translate val fp func_idx body b =
     (case b of (v, t) \<Rightarrow>
        and_then (steps [prepare fp func_idx, bump_fuel (cost_base fp), translate_stack_alloc,
            charge_locals fp (body_locals body)] t) (\<lambda>t.
        and_then (translate_local_groups val (body_locals body) (v, t)) (\<lambda>b.
        and_then (translate_operators val fp (body_operators body) b) (\<lambda>(v, t).
        and_then (validated (finish_validation val v)) (\<lambda>v.
        and_then (finish t) (\<lambda>t. ok (v, t)))))))"

end
