(* ===== verification/Wasm_Semantics.thy ===== *)
theory Wasm_Semantics
  imports Translator_Visits Memory_Run
begin

text \<open>
  The reference for the operators without control flow: what WebAssembly specifies for a frame
  with typed local variables and a stack of typed values, given as a function of the operator,
  the store, the locals and the operands (the top first). It says \<open>None\<close> for an ill-typed
  stack and for the operators outside the reference: control flow, the floating point
  operators, which trap without the feature, tables and bulk memory. \<open>Straight_Line\<close> proves
  that the code the translator emits implements it.
\<close>

type_synonym 'h wasm_result = "(trap_code \<times> 'h store) + ('h store \<times> val list \<times> val list)"

definition i32_unop_sem :: "i32_unop \<Rightarrow> u32 \<Rightarrow> u32" where
  "i32_unop_sem op a = word_of_nat (case op of
     W_i32_clz \<Rightarrow> leading_zeros a | W_i32_ctz \<Rightarrow> trailing_zeros a | W_i32_popcnt \<Rightarrow> count_ones a)"

definition i64_unop_sem :: "i64_unop \<Rightarrow> u64 \<Rightarrow> u64" where
  "i64_unop_sem op a = word_of_nat (case op of
     W_i64_clz \<Rightarrow> leading_zeros a | W_i64_ctz \<Rightarrow> trailing_zeros a | W_i64_popcnt \<Rightarrow> count_ones a)"

definition i32_relop_sem :: "i32_relop \<Rightarrow> u32 \<Rightarrow> u32 \<Rightarrow> bool" where
  "i32_relop_sem op a b = (case op of
     W_i32_eq \<Rightarrow> a = b | W_i32_ne \<Rightarrow> a \<noteq> b
   | W_i32_lt_s \<Rightarrow> sint a < sint b | W_i32_lt_u \<Rightarrow> a < b
   | W_i32_gt_s \<Rightarrow> sint a > sint b | W_i32_gt_u \<Rightarrow> a > b
   | W_i32_le_s \<Rightarrow> sint a \<le> sint b | W_i32_le_u \<Rightarrow> a \<le> b
   | W_i32_ge_s \<Rightarrow> sint a \<ge> sint b | W_i32_ge_u \<Rightarrow> a \<ge> b)"

definition i32_binop_sem :: "i32_binop \<Rightarrow> u32 \<Rightarrow> u32 \<Rightarrow> trap_code + u32" where
  "i32_binop_sem op a b = (case op of
     W_i32_add \<Rightarrow> Inr (a + b) | W_i32_sub \<Rightarrow> Inr (a - b) | W_i32_mul \<Rightarrow> Inr (a * b)
   | W_i32_div_s \<Rightarrow> int_div_s a b | W_i32_div_u \<Rightarrow> int_div_u a b
   | W_i32_rem_s \<Rightarrow> int_rem_s a b | W_i32_rem_u \<Rightarrow> int_rem_u a b
   | W_i32_and \<Rightarrow> Inr (a AND b) | W_i32_or \<Rightarrow> Inr (a OR b) | W_i32_xor \<Rightarrow> Inr (a XOR b)
   | W_i32_shl \<Rightarrow> Inr (push_bit (unat b mod 32) a)
   | W_i32_shr_s \<Rightarrow> Inr (signed_drop_bit (unat b mod 32) a)
   | W_i32_shr_u \<Rightarrow> Inr (drop_bit (unat b mod 32) a)
   | W_i32_rotl \<Rightarrow> Inr (word_rotl (unat b mod 32) a)
   | W_i32_rotr \<Rightarrow> Inr (word_rotr (unat b mod 32) a))"

definition i64_bitop_sem :: "i64_bitop \<Rightarrow> u64 \<Rightarrow> u64 \<Rightarrow> u64" where
  "i64_bitop_sem op a b = (case op of
     W_i64_and \<Rightarrow> a AND b | W_i64_or \<Rightarrow> a OR b | W_i64_xor \<Rightarrow> a XOR b)"

text \<open>The 64-bit arithmetic that the translator takes from the snippets; the signed division and the
  two remainders are left out, and the comparisons have no place among the inlined ones.\<close>

definition i64_binop_sem :: "snippet \<Rightarrow> u64 \<Rightarrow> u64 \<Rightarrow> (trap_code + u64) option" where
  "i64_binop_sem s a b = (case s of
     I64Add \<Rightarrow> Some (Inr (a + b)) | I64Sub \<Rightarrow> Some (Inr (a - b)) | I64Mul \<Rightarrow> Some (Inr (a * b))
   | I64DivU \<Rightarrow> Some (int_div_u a b)
   | I64Shl \<Rightarrow> Some (Inr (push_bit (unat b mod 64) a))
   | I64ShrS \<Rightarrow> Some (Inr (signed_drop_bit (unat b mod 64) a))
   | I64ShrU \<Rightarrow> Some (Inr (drop_bit (unat b mod 64) a))
   | I64RotL \<Rightarrow> Some (Inr (word_rotl (unat b mod 64) a))
   | I64RotR \<Rightarrow> Some (Inr (word_rotr (unat b mod 64) a))
   | _ \<Rightarrow> None)"

definition conversion_sem :: "int_conversion \<Rightarrow> val \<Rightarrow> val option" where
  "conversion_sem op v = (case (op, v) of
     (W_i64_extend_i32_s, I32 a) \<Rightarrow> Some (I64 (scast a))
   | (W_i64_extend_i32_u, I32 a) \<Rightarrow> Some (I64 (ucast a))
   | _ \<Rightarrow> None)"

definition extension_sem :: "extension \<Rightarrow> val \<Rightarrow> val option" where
  "extension_sem op v = (case (op, v) of
     (W_i32_extend8_s, I32 a) \<Rightarrow> Some (I32 (scast (ucast a :: u8)))
   | (W_i32_extend16_s, I32 a) \<Rightarrow> Some (I32 (scast (ucast a :: u16)))
   | (W_i64_extend8_s, I64 a) \<Rightarrow> Some (I64 (scast (ucast a :: u8)))
   | (W_i64_extend16_s, I64 a) \<Rightarrow> Some (I64 (scast (ucast a :: u16)))
   | (W_i64_extend32_s, I64 a) \<Rightarrow> Some (I64 (scast (ucast a :: u32)))
   | _ \<Rightarrow> None)"

definition reinterpretation_sem :: "reinterpretation \<Rightarrow> val \<Rightarrow> val option" where
  "reinterpretation_sem op v = (case (op, v) of
     (W_i32_reinterpret_f32, F32 a) \<Rightarrow> Some (I32 a)
   | (W_i64_reinterpret_f64, F64 a) \<Rightarrow> Some (I64 a)
   | (W_f32_reinterpret_i32, I32 a) \<Rightarrow> Some (F32 a)
   | (W_f64_reinterpret_i64, I64 a) \<Rightarrow> Some (F64 a)
   | _ \<Rightarrow> None)"

text \<open>The address of an access is that of the operand plus the offset, as numbers.\<close>

definition i32_load_sem :: "nat \<Rightarrow> (u8 list \<Rightarrow> u32) \<Rightarrow> u8 list \<Rightarrow> u32 \<Rightarrow> u32 \<Rightarrow> trap_code + val" where
  "i32_load_sem n ext mem a off =
     (if in_memory n mem a off then Inr (I32 (ext (take n (drop (unat off + unat a) mem))))
      else Inl MemoryOutOfBounds)"

definition i64_load_sem :: "nat \<Rightarrow> (u8 list \<Rightarrow> u64) \<Rightarrow> u8 list \<Rightarrow> u32 \<Rightarrow> u32 \<Rightarrow> trap_code + val" where
  "i64_load_sem n ext mem a off = map_sum id I64 (wasm_load n ext mem a off)"

definition load_sem :: "load_op \<Rightarrow> u8 list \<Rightarrow> u32 \<Rightarrow> u32 \<Rightarrow> (trap_code + val) option" where
  "load_sem op mem a off = (case op of
     W_i32_load \<Rightarrow> Some (i32_load_sem 4 from_le_bytes mem a off)
   | W_i32_load8_s \<Rightarrow> Some (i32_load_sem 1 (\<lambda>bs. scast (from_le_bytes bs :: u8)) mem a off)
   | W_i32_load8_u \<Rightarrow> Some (i32_load_sem 1 (\<lambda>bs. ucast (from_le_bytes bs :: u8)) mem a off)
   | W_i32_load16_s \<Rightarrow> Some (i32_load_sem 2 (\<lambda>bs. scast (from_le_bytes bs :: u16)) mem a off)
   | W_i32_load16_u \<Rightarrow> Some (i32_load_sem 2 (\<lambda>bs. ucast (from_le_bytes bs :: u16)) mem a off)
   | W_i64_load \<Rightarrow> Some (i64_load_sem 8 from_le_bytes mem a off)
   | W_i64_load8_s \<Rightarrow> Some (i64_load_sem 1 (\<lambda>bs. scast (from_le_bytes bs :: u8)) mem a off)
   | W_i64_load8_u \<Rightarrow> Some (i64_load_sem 1 (\<lambda>bs. ucast (from_le_bytes bs :: u8)) mem a off)
   | W_i64_load16_s \<Rightarrow> Some (i64_load_sem 2 (\<lambda>bs. scast (from_le_bytes bs :: u16)) mem a off)
   | W_i64_load16_u \<Rightarrow> Some (i64_load_sem 2 (\<lambda>bs. ucast (from_le_bytes bs :: u16)) mem a off)
   | W_i64_load32_s \<Rightarrow> Some (i64_load_sem 4 (\<lambda>bs. scast (from_le_bytes bs :: u32)) mem a off)
   | W_i64_load32_u \<Rightarrow> Some (i64_load_sem 4 (\<lambda>bs. ucast (from_le_bytes bs :: u32)) mem a off)
   | _ \<Rightarrow> None)"

definition store_sem :: "store_op \<Rightarrow> val \<Rightarrow> u8 list option" where
  "store_sem op v = (case (op, v) of
     (W_i32_store, I32 w) \<Rightarrow> Some (to_le_bytes 4 w)
   | (W_i32_store8, I32 w) \<Rightarrow> Some (to_le_bytes 1 (ucast w :: u8))
   | (W_i32_store16, I32 w) \<Rightarrow> Some (to_le_bytes 2 (ucast w :: u16))
   | (W_i64_store, I64 w) \<Rightarrow> Some (to_le_bytes 8 w)
   | (W_i64_store8, I64 w) \<Rightarrow> Some (to_le_bytes 1 (ucast w :: u8))
   | (W_i64_store16, I64 w) \<Rightarrow> Some (to_le_bytes 2 (ucast w :: u16))
   | (W_i64_store32, I64 w) \<Rightarrow> Some (to_le_bytes 4 (lo32 w))
   | _ \<Rightarrow> None)"

section \<open>The operators\<close>

text \<open>The results of an operator that may trap, and of one that may not.\<close>

definition push_or_trap :: "'h store \<Rightarrow> val list \<Rightarrow> val list \<Rightarrow> trap_code + val \<Rightarrow> 'h wasm_result" where
  "push_or_trap st ls vs r = (case r of Inl t \<Rightarrow> Inl (t, st) | Inr v \<Rightarrow> Inr (st, ls, v # vs))"

definition pushing :: "'h store \<Rightarrow> val list \<Rightarrow> val list \<Rightarrow> val \<Rightarrow> 'h wasm_result option" where
  "pushing st ls vs v = Some (Inr (st, ls, v # vs))"

definition wasm_unary :: "(val \<Rightarrow> val option) \<Rightarrow> 'h store \<Rightarrow> val list \<Rightarrow> val list \<Rightarrow> 'h wasm_result option" where
  "wasm_unary f st ls vs = (case vs of
     v # vs \<Rightarrow> (case f v of Some w \<Rightarrow> pushing st ls vs w | None \<Rightarrow> None) | [] \<Rightarrow> None)"

definition wasm_binary ::
  "(val \<Rightarrow> val \<Rightarrow> (trap_code + val) option) \<Rightarrow> 'h store \<Rightarrow> val list \<Rightarrow> val list \<Rightarrow> 'h wasm_result option" where
  "wasm_binary f st ls vs = (case vs of
     w # v # vs \<Rightarrow> map_option (push_or_trap st ls vs) (f v w) | _ \<Rightarrow> None)"

definition on_i32 :: "(u32 \<Rightarrow> val) \<Rightarrow> val \<Rightarrow> val option" where
  "on_i32 f v = (case v of I32 a \<Rightarrow> Some (f a) | _ \<Rightarrow> None)"

definition on_i64 :: "(u64 \<Rightarrow> val) \<Rightarrow> val \<Rightarrow> val option" where
  "on_i64 f v = (case v of I64 a \<Rightarrow> Some (f a) | _ \<Rightarrow> None)"

definition on_i32s :: "(u32 \<Rightarrow> u32 \<Rightarrow> trap_code + val) \<Rightarrow> val \<Rightarrow> val \<Rightarrow> (trap_code + val) option" where
  "on_i32s f v w = (case (v, w) of (I32 a, I32 b) \<Rightarrow> Some (f a b) | _ \<Rightarrow> None)"

definition on_i64s ::
  "(u64 \<Rightarrow> u64 \<Rightarrow> (trap_code + val) option) \<Rightarrow> val \<Rightarrow> val \<Rightarrow> (trap_code + val) option" where
  "on_i64s f v w = (case (v, w) of (I64 a, I64 b) \<Rightarrow> f a b | _ \<Rightarrow> None)"

definition wasm_load_op :: "load_op \<Rightarrow> u32 \<Rightarrow> 'h store \<Rightarrow> val list \<Rightarrow> val list \<Rightarrow> 'h wasm_result option" where
  "wasm_load_op op off st ls vs = (case vs of
     I32 a # vs \<Rightarrow> map_option (push_or_trap st ls vs) (load_sem op (memory_of st) a off) | _ \<Rightarrow> None)"

definition wasm_store_op :: "store_op \<Rightarrow> u32 \<Rightarrow> 'h store \<Rightarrow> val list \<Rightarrow> val list \<Rightarrow> 'h wasm_result option" where
  "wasm_store_op op off st ls vs = (case vs of
     v # I32 a # vs \<Rightarrow>
       map_option (\<lambda>bytes.
         case wasm_store bytes (memory_of st) a off of
           Inl t \<Rightarrow> Inl (t, st)
         | Inr mem \<Rightarrow> Inr (with_memory mem st, ls, vs)) (store_sem op v)
   | _ \<Rightarrow> None)"

definition wasm_null :: "val_type \<Rightarrow> val option" where
  "wasm_null ty = (case ty of TFuncRef \<Rightarrow> Some (FuncRef 0) | TExternRef \<Rightarrow> Some (ExternRef 0) | _ \<Rightarrow> None)"

definition wasm_is_null :: "val \<Rightarrow> val option" where
  "wasm_is_null v = (case v of
     FuncRef r \<Rightarrow> Some (I32 (of_bool (r = 0))) | ExternRef r \<Rightarrow> Some (I32 (of_bool (r = 0))) | _ \<Rightarrow> None)"

definition wasm_op :: "operator \<Rightarrow> 'h store \<Rightarrow> val list \<Rightarrow> val list \<Rightarrow> 'h wasm_result option" where
  "wasm_op op st ls vs = (case op of
     W_nop \<Rightarrow> Some (Inr (st, ls, vs))
   | W_drop \<Rightarrow> (case vs of _ # vs \<Rightarrow> Some (Inr (st, ls, vs)) | [] \<Rightarrow> None)
   | W_select \<Rightarrow> (case vs of
       I32 c # b # a # vs \<Rightarrow>
         if val_ty a = val_ty b then Some (Inr (st, ls, (if c \<noteq> 0 then a else b) # vs)) else None
     | _ \<Rightarrow> None)
   | W_local_get i \<Rightarrow>
       if unat i < length ls then Some (Inr (st, ls, ls ! unat i # vs)) else None
   | W_local_set i \<Rightarrow> (case vs of
       v # vs \<Rightarrow>
         if unat i < length ls \<and> val_ty v = val_ty (ls ! unat i)
         then Some (Inr (st, ls[unat i := v], vs)) else None
     | [] \<Rightarrow> None)
   | W_local_tee i \<Rightarrow> (case vs of
       v # vs \<Rightarrow>
         if unat i < length ls \<and> val_ty v = val_ty (ls ! unat i)
         then Some (Inr (st, ls[unat i := v], v # vs)) else None
     | [] \<Rightarrow> None)
   | W_load op off \<Rightarrow> wasm_load_op op (ucast off) st ls vs
   | W_store op off \<Rightarrow> wasm_store_op op (ucast off) st ls vs
   | W_i32_const v \<Rightarrow> pushing st ls vs (I32 v)
   | W_i64_const v \<Rightarrow> pushing st ls vs (I64 v)
   | W_f32_const v \<Rightarrow> pushing st ls vs (F32 v)
   | W_f64_const v \<Rightarrow> pushing st ls vs (F64 v)
   | W_ref_null ty \<Rightarrow> (case wasm_null ty of Some v \<Rightarrow> pushing st ls vs v | None \<Rightarrow> None)
   | W_ref_func f \<Rightarrow> pushing st ls vs (FuncRef (f + 1))
   | W_ref_is_null \<Rightarrow> wasm_unary wasm_is_null st ls vs
   | W_i32_eqz \<Rightarrow> wasm_unary (on_i32 (\<lambda>a. I32 (of_bool (a = 0)))) st ls vs
   | W_i64_eqz \<Rightarrow> wasm_unary (on_i64 (\<lambda>a. I32 (of_bool (a = 0)))) st ls vs
   | W_i32_relop op \<Rightarrow>
       wasm_binary (on_i32s (\<lambda>a b. Inr (I32 (of_bool (i32_relop_sem op a b))))) st ls vs
   | W_i32_unop op \<Rightarrow> wasm_unary (on_i32 (\<lambda>a. I32 (i32_unop_sem op a))) st ls vs
   | W_i32_binop op \<Rightarrow> wasm_binary (on_i32s (\<lambda>a b. map_sum id I32 (i32_binop_sem op a b))) st ls vs
   | W_i64_unop op \<Rightarrow> wasm_unary (on_i64 (\<lambda>a. I64 (i64_unop_sem op a))) st ls vs
   | W_i64_bitop op \<Rightarrow>
       wasm_binary (on_i64s (\<lambda>a b. Some (Inr (I64 (i64_bitop_sem op a b))))) st ls vs
   | W_snippet s \<Rightarrow>
       wasm_binary (on_i64s (\<lambda>a b. map_option (map_sum id I64) (i64_binop_sem s a b))) st ls vs
   | W_i32_wrap_i64 \<Rightarrow> wasm_unary (on_i64 (\<lambda>a. I32 (ucast a))) st ls vs
   | W_int_conversion op \<Rightarrow> wasm_unary (conversion_sem op) st ls vs
   | W_reinterpretation op \<Rightarrow> wasm_unary (reinterpretation_sem op) st ls vs
   | W_extension op \<Rightarrow> wasm_unary (extension_sem op) st ls vs
   | W_memory_size _ \<Rightarrow> pushing st ls vs (I32 (current_pages (global_memory st)))
   | _ \<Rightarrow> None)"

text \<open>A sequence of operators stops at the first trap.\<close>

fun wasm_ops :: "operator list \<Rightarrow> 'h store \<Rightarrow> val list \<Rightarrow> val list \<Rightarrow> 'h wasm_result option" where
  "wasm_ops [] st ls vs = Some (Inr (st, ls, vs))"
| "wasm_ops (op # ops) st ls vs =
     (case wasm_op op st ls vs of
        None \<Rightarrow> None
      | Some (Inl e) \<Rightarrow> Some (Inl e)
      | Some (Inr (st, ls, vs)) \<Rightarrow> wasm_ops ops st ls vs)"

end
