(* ===== verification/Operator_Code.thy ===== *)
theory Operator_Code
  imports Wasm_Semantics
begin

text \<open>
  The contracts of the code in the tables of the translator: run on the words of the operands,
  with the spare cells the table declares, the code of an operator leaves the words of the
  result that \<open>Wasm_Semantics\<close> gives, or traps as it does.
\<close>

declare split_paired_Ex [simp del] split_paired_All [simp del]

section \<open>Weakening a contract\<close>

lemma computes_mono:
  assumes c: "computes env code m st ins res" and m: "unat m \<le> unat m'"
  shows "computes env code m' st ins res"
  unfolding computes_def
proof (intro allI impI)
  fix x k t r
  assume x: "code_at (code_section (module env)) k code" "ip x = int k" "store x = st"
    "repr (stack_of x) (ins @ t) r" "unat m' \<le> r"
  show "case res of
      Inr (st', outs) \<Rightarrow>
        \<exists>x'. exec_reaches env x x' \<and> moved x (int (length code)) st' (outs @ t) (r + length ins - length outs) x'
    | Inl (c, st') \<Rightarrow>
        \<exists>x' x''. exec_reaches env x x' \<and> exec_step env x' = Some (Trapped c x'') \<and>
          store x'' = st' \<and> call_stack x'' = call_stack x"
    using c [unfolded computes_def, rule_format, OF x(1-4)] x(5) m by simp
qed

lemma computes_frame:
  assumes "computes env code m st ins res"
  shows "computes env code m st (ins @ s) (case res of Inl e \<Rightarrow> Inl e | Inr (st', outs) \<Rightarrow> Inr (st', outs @ s))"
  unfolding computes_def
proof (intro allI impI)
  fix x k t r
  assume x: "code_at (code_section (module env)) k code" "ip x = int k" "store x = st"
    "repr (stack_of x) ((ins @ s) @ t) r" "unat m \<le> r"
  show "case (case res of Inl e \<Rightarrow> Inl e | Inr (st', outs) \<Rightarrow> Inr (st', outs @ s)) of
      Inr (st', outs) \<Rightarrow>
        \<exists>x'. exec_reaches env x x' \<and>
          moved x (int (length code)) st' (outs @ t) (r + length (ins @ s) - length outs) x'
    | Inl (c, st') \<Rightarrow>
        \<exists>x' x''. exec_reaches env x x' \<and> exec_step env x' = Some (Trapped c x'') \<and>
          store x'' = st' \<and> call_stack x'' = call_stack x"
    using assms [unfolded computes_def, rule_format, OF x(1-3), of "s @ t" r] x(4,5)
    by (auto split: sum.splits)
qed

lemmas computes_frame_result = computes_frame [where res = "Inr (st', outs)" for st' outs, simplified]
lemmas computes_frame_trap = computes_frame [where res = "Inl e" for e, simplified]

section \<open>32-bit operators\<close>

lemma shift_amount: "unat (b AND 0x1F :: u32) = unat b mod 32"
proof -
  have "b AND 0x1F = take_bit 5 b" by (simp add: take_bit_eq_mask mask_eq_exp_minus_1)
  then have "unat (b AND 0x1F) = take_bit 5 (unat b)" by (simp only: unsigned_take_bit_eq)
  then show ?thesis by (simp add: take_bit_eq_mod)
qed

lemma rotate_amount:
  "word_rotl (n mod 32) (a :: u32) = word_rotl n a" "word_rotr (n mod 32) (a :: u32) = word_rotr n a"
  by (rule bit_word_eqI, simp add: bit_word_rotl_iff bit_word_rotr_iff mod_simps)+

lemma i32_unop_computes:
  assumes "i32_unop_row op = (code, msh)"
  shows "computes env code msh st [a] (Inr (st, [i32_unop_sem op a]))"
  using assms
  by (cases op) (auto simp: i32_unop_row_def i32_unop_sem_def exec_simps i32_clz_def i32_ctz_def
      i32_popcnt_def intro!: computes_fwd [where r' = 0])

lemma i32_relop_computes:
  assumes "i32_relop_row op = (code, msh)"
  shows "computes env code msh st [b, a] (Inr (st, [of_bool (i32_relop_sem op a b)]))"
  using assms
  by (cases op) (auto simp: i32_relop_row_def i32_relop_sem_def exec_simps intro!: computes_fwd [where r' = 1])

lemma i32_binop_computes:
  assumes "i32_binop_row op = (code, msh)"
  shows "computes env code msh st [b, a]
    (case i32_binop_sem op a b of Inl t \<Rightarrow> Inl (t, st) | Inr v \<Rightarrow> Inr (st, [v]))"
proof (cases "i32_binop_sem op a b")
  case (Inl t)
  with assms have "fwd code st [b, a] (unat msh) = Trapping t st"
    by (cases op) (auto simp: i32_binop_row_def i32_binop_sem_def fwd_unfold
        i32_div_s_def i32_div_u_def i32_rem_s_def i32_rem_u_def)
  with Inl show ?thesis by (simp add: computes_fwd_trap)
next
  case (Inr v)
  with assms have "fwd code st [b, a] (unat msh) = Goto 0 st [v] 1"
    by (cases op) (auto simp: i32_binop_row_def i32_binop_sem_def fwd_unfold i32_arith_defs shift_amount
        rotate_amount i32_rotl_def i32_rotr_def i32_div_s_def i32_div_u_def i32_rem_s_def i32_rem_u_def)
  with Inr show ?thesis by (simp add: computes_fwd)
qed

section \<open>64-bit operators\<close>

lemma i64_unop_computes:
  assumes "i64_unop_row op = (code, msh)"
  shows "computes env code msh st [hi32 a, lo32 a]
    (Inr (st, [hi32 (i64_unop_sem op a), lo32 (i64_unop_sem op a)]))"
  using assms op_i64_clz_correct [of env a] op_i64_ctz_correct [of env a] op_i64_popcnt_correct [of env a]
  by (cases op) (auto simp: i64_unop_row_def i64_unop_sem_def)

lemma i64_bitop_computes:
  assumes "i64_bitop_row op = (code, msh)"
  shows "computes env code msh st [hi32 b, lo32 b, hi32 a, lo32 a]
    (Inr (st, [hi32 (i64_bitop_sem op a b), lo32 (i64_bitop_sem op a b)]))"
  using assms op_i64_and_correct [of env b a] op_i64_or_correct [of env b a] op_i64_xor_correct [of env b a]
  by (cases op) (auto simp: i64_bitop_row_def i64_bitop_sem_def)

lemma i64_shift_words:
  "push_bit (unat b mod 64) a = i64_shl a b" "drop_bit (unat b mod 64) a = i64_shr_u a b"
  "signed_drop_bit (unat b mod 64) a = i64_shr_s a b" "word_rotl (unat b mod 64) a = i64_rotl a b"
  "word_rotr (unat b mod 64) a = i64_rotr a b"
  by (simp_all add: i64_shl_def i64_shr_u_def i64_shr_s_def i64_rotl_def i64_rotr_def amount_mod)

lemma snippet_computes:
  assumes "i64_binop_sem s a b = Some r"
  shows "computes env (emitter s) (snippet_msh s) st [hi32 b, lo32 b, hi32 a, lo32 a]
    (case r of Inl t \<Rightarrow> Inl (t, st) | Inr v \<Rightarrow> Inr (st, [hi32 v, lo32 v]))"
proof (cases "s = I64DivU")
  case True
  then show ?thesis
    using assms op_i64_div_u_correct [of b env a] op_i64_div_u_zero [of env a]
    by (cases "b = 0") (auto simp: i64_binop_sem_def int_div_u_def emitter_def snippet_msh_def
        definition_of_def define_snippet_def)
next
  case False
  then show ?thesis
    using assms op_i64_add_correct [of env b a] op_i64_sub_correct [of env b a] op_i64_mul_correct [of env b a]
      op_i64_shl_correct [of env b a] op_i64_shr_s_correct [of env b a] op_i64_shr_u_correct [of env b a]
      op_i64_rotl_correct [of env b a] op_i64_rotr_correct [of env b a]
    by (cases s) (auto simp: i64_binop_sem_def i64_shift_words emitter_def snippet_msh_def
        definition_of_def define_snippet_def)
qed

lemma conversion_computes:
  assumes "int_conversion_row op = (i, out, code, msh)" and "conversion_sem op v = Some w"
  shows "val_ty v = i \<and> val_ty w = out \<and>
    computes env code msh st (rev (val_words v)) (Inr (st, rev (val_words w)))"
  using assms op_i64_extend_i32_s_correct [of env] op_i64_extend_i32_u_correct [of env]
  by (cases op; cases v)
    (auto simp: int_conversion_row_def conversion_sem_def val_ty_def val_words_def)

lemma extension_computes:
  assumes "extension_row op = (code, msh)" and "extension_sem op v = Some w"
  shows "val_ty w = val_ty v \<and> computes env code msh st (rev (val_words v)) (Inr (st, rev (val_words w)))"
proof -
  have "computes env [I32Extend8S] 0 st [a] (Inr (st, [scast (ucast a :: u8)]))"
    "computes env [I32Extend16S] 0 st [a] (Inr (st, [scast (ucast a :: u16)]))" for a :: u32
    by (auto simp: exec_simps i32_extend8_s_def i32_extend16_s_def intro!: computes_fwd [where r' = 0])
  then show ?thesis
    using assms op_i64_extend8_s_correct [of env] op_i64_extend16_s_correct [of env]
      op_i64_extend32_s_correct [of env]
    by (cases op; cases v)
      (auto simp: extension_row_def extension_sem_def val_ty_def val_words_def)
qed

section \<open>Memory accesses\<close>

lemma i32_load_computes:
  assumes mem: "length (memory_of st) \<le> 2 ^ 31" and op: "load_row op off = (TI32, code, msh)"
    and sem: "load_sem op (memory_of st) a off = Some r"
  shows "computes env code msh st [a]
    (case r of Inl t \<Rightarrow> Inl (t, st) | Inr v \<Rightarrow> Inr (st, rev (val_words v)))"
proof (cases r)
  case (Inl t)
  have "fwd code st [a] (unat msh) = Trapping t st"
    using op sem Inl
    by (cases op) (auto simp: load_row_def load_sem_def i32_load_sem_def exec_simps load_defs
        load_extend_eq [OF mem, unfolded memory_of_def] memory_of_def wasm_load_def split: if_splits)
  with Inl show ?thesis by (simp add: computes_fwd_trap)
next
  case (Inr v)
  have "fwd code st [a] (unat msh) = Goto 0 st (rev (val_words v)) 0"
    using op sem Inr
    by (cases op) (auto simp: load_row_def load_sem_def i32_load_sem_def exec_simps load_defs val_words_def
        load_extend_eq [OF mem, unfolded memory_of_def] memory_of_def wasm_load_def split: if_splits)
  with Inr show ?thesis by (simp add: computes_fwd)
qed

lemma i64_load_computes:
  assumes mem: "length (memory_of st) \<le> 2 ^ 31" and op: "load_row op off = (TI64, code, msh)"
    and sem: "load_sem op (memory_of st) a off = Some r"
  shows "computes env code (msh + 1) st [a]
    (case r of Inl t \<Rightarrow> Inl (t, st) | Inr v \<Rightarrow> Inr (st, rev (val_words v)))"
proof -
  have ext: "loaded st x = (case map_sum id I64 x of Inl t \<Rightarrow> Inl (t, st) | Inr v \<Rightarrow> Inr (st, rev (val_words v)))" for x
    by (simp add: loaded_def val_words_def map_sum_def split: sum.splits)
  have more: "computes env c m st [a] x \<Longrightarrow> m < 10 \<Longrightarrow> computes env c (m + 1) st [a] x" for c m x
    by (erule computes_mono) (simp add: unat_word_ariths word_less_nat_alt)
  note routines = op_i64_load8_s_correct [OF mem, of env off a] op_i64_load16_s_correct [OF mem, of env off a]
    op_i64_load32_s_correct [OF mem, of env off a]
    op_i64_load8_u_correct [OF mem, of env off a, THEN more] op_i64_load16_u_correct [OF mem, of env off a, THEN more]
    op_i64_load32_u_correct [OF mem, of env off a, THEN more] op_i64_load_correct [OF mem, of env off a, THEN more]
  show ?thesis
    using op sem routines
    by (cases op) (auto simp: load_row_def load_sem_def i64_load_sem_def ext [symmetric]
        MSH_I64_LOAD_def MSH_I64_LOAD8_U_def MSH_I64_LOAD16_U_def MSH_I64_LOAD32_U_def)
qed

lemma store_computes:
  assumes mem: "length (memory_of st) \<le> 2 ^ 31" and op: "store_row op off = (ty, code, msh)"
    and sem: "store_sem op v = Some bytes"
  shows "val_ty v = ty \<and> computes env code msh st (rev (val_words v) @ [a])
    (stored st (wasm_store bytes (memory_of st) a off))"
proof (cases v)
  case (I32 w)
  note simps = exec_simps store_defs store_wrap_eq [OF mem] to_le_bytes_not_Nil memory_of_def [symmetric]
  have "computes env code msh st [w, a] (stored st (wasm_store bytes (memory_of st) a off))"
    using op sem I32
    by (cases op; intro computes_stored) (auto simp: store_row_def store_sem_def simps)
  moreover have "ty = TI32" using op sem I32 by (cases op) (auto simp: store_row_def store_sem_def)
  ultimately show ?thesis by (simp add: I32 val_words_def val_ty_def)
next
  case (I64 w)
  then show ?thesis
    using op sem op_i64_store_correct [OF mem, of env off w a] op_i64_store_small_correct [OF mem, of env off w a]
    by (cases op) (auto simp: store_row_def store_sem_def val_words_def val_ty_def
        MSH_I64_STORE8_def MSH_I64_STORE16_def MSH_I64_STORE32_def)
qed (use sem in \<open>cases op; simp add: store_sem_def\<close>)+

end
