(* ===== verification/Stack_Tracking.thy ===== *)
theory Stack_Tracking
  imports Operator_Code
begin

text \<open>
  The relation between the translator and the typed values of a frame. \<open>tracks\<close>: the stack
  of types is that of the locals and the operands, and the emulated height is the number
  of their words. \<open>implements\<close>: the code an operator appends turns the words of the values
  into the words of the values that \<open>Wasm_Semantics\<close> gives, or traps as it does, within the
  stack height that the translator has recorded for the stack check. The lemmas lift the
  contract of a code fragment through the functions of the translator that the operators
  share, such as \<open>translate_binary\<close>.
\<close>

declare split_paired_Ex [simp del] split_paired_All [simp del]

section \<open>Values as words of the stack\<close>

text \<open>The words of a list of values with the top first.\<close>

definition wstack :: "val list \<Rightarrow> u32 list" where
  "wstack vs = concat (map (\<lambda>v. rev (val_words v)) vs)"

lemma wstack_simps [simp]:
  "wstack [] = []" "wstack (v # vs) = rev (val_words v) @ wstack vs"
  "wstack (vs @ ws) = wstack vs @ wstack ws"
  by (simp_all add: wstack_def)

definition width :: "val_type \<Rightarrow> nat" where
  "width ty = (if is_wide ty then 2 else 1)"

lemma length_val_words_width [simp]: "length (val_words v) = width (val_ty v)"
  by (cases v) (simp_all add: val_words_def val_ty_def width_def is_wide_def)

lemma length_wstack: "length (wstack vs) = sum_list (map (width \<circ> val_ty) vs)"
  by (induction vs) simp_all

lemma width_bounds: "0 < width ty" "width ty \<le> 2"
  by (simp_all add: width_def)

lemma type_width_val: "unat (type_width (val_ty v)) = width (val_ty v)"
  by (cases v) (simp_all add: val_ty_def type_width_def width_def is_wide_def)

text \<open>The words of a frame: the operands above the locals.\<close>

definition cells :: "val list \<Rightarrow> val list \<Rightarrow> u32 list" where
  "cells ls vs = wstack (vs @ rev ls)"

lemma cells_push [simp]: "cells ls (vs @ ws) = wstack vs @ cells ls ws"
  "cells ls (v # vs) = rev (val_words v) @ cells ls vs"
  by (simp_all add: cells_def)

section \<open>The emulated height\<close>

text \<open>The height moves from \<open>i\<close> words to \<open>o\<close> words, and \<open>m\<close> words above the old height have been
  accounted for.\<close>

definition height_change :: "value_stack_height \<Rightarrow> nat \<Rightarrow> nat \<Rightarrow> nat \<Rightarrow> value_stack_height \<Rightarrow> bool" where
  "height_change h i out m h' \<longleftrightarrow>
     unat (height h') + i = unat (height h) + out \<and> unat (height h) + m \<le> unat (max_height h') \<and>
     unat (max_height h) \<le> unat (max_height h') \<and> unat (height h') \<le> unat (max_height h')"

lemma unat_push_n:
  "unat (height h) + unat n < 2 ^ 32 \<Longrightarrow> unat (height (push_n n h)) = unat (height h) + unat n"
  "unat (height h) + unat n < 2 ^ 32 \<Longrightarrow>
   unat (max_height (push_n n h)) = max (unat (height h) + unat n) (unat (max_height h))"
  by (auto simp: unat_word_ariths max_def word_le_nat_alt)

lemma unat_pop_n:
  "unat n \<le> unat (height h) \<Longrightarrow> unat (height (pop_n n h)) = unat (height h) - unat n"
  "unat (max_height (pop_n n h)) = unat (max_height h)"
  by (simp_all add: unat_sub word_le_nat_alt)

lemmas height_steps = unat_push_n unat_pop_n push_type_def pop_type_def type_width_val
declare height_push_pop [simp del] max_height_push_pop [simp del]

section \<open>What an action of the translator emits\<close>

text \<open>Only the amounts of the fuel opcode of the innermost frame change in the code emitted before.\<close>

definition fuel_instr :: "translator \<Rightarrow> u32 option" where
  "fuel_instr t = (case last_frame (control_frames t) of None \<Rightarrow> None | Some f \<Rightarrow> consume_fuel_instr f)"

definition fuel_edit :: "translator \<Rightarrow> instruction_set \<Rightarrow> bool" where
  "fuel_edit t is \<longleftrightarrow> is = instructions t \<or>
     (\<exists>i f. fuel_instr t = Some i \<and> unat i < length (instructions t) \<and>
        is = (instructions t)[unat i := ConsumeFuel f])"

text \<open>Everything else is as before.\<close>

definition same_context :: "translator \<Rightarrow> translator \<Rightarrow> bool" where
  "same_context t t' \<longleftrightarrow>
     t'\<lparr>instructions := [], stack_types := [], stack_height := height_default\<rparr> =
     t\<lparr>instructions := [], stack_types := [], stack_height := height_default\<rparr>"

definition emits :: "translator \<Rightarrow> opcode list \<Rightarrow> val_type list \<Rightarrow> value_stack_height \<Rightarrow> translator \<Rightarrow> bool" where
  "emits t code tys h t' \<longleftrightarrow>
     (\<exists>is. fuel_edit t is \<and> instructions t' = is @ code) \<and> stack_types t' = tys \<and> stack_height t' = h \<and>
     same_context t t'"

lemma same_context_fields:
  assumes "same_context t t'"
  shows "reachable t' = reachable t" "control_frames t' = control_frames t"
    "locals_registered t' = locals_registered t" "with_code_snippets t' = with_code_snippets t"
  using arg_cong [OF assms [unfolded same_context_def], of reachable]
    arg_cong [OF assms [unfolded same_context_def], of control_frames]
    arg_cong [OF assms [unfolded same_context_def], of locals_registered]
    arg_cong [OF assms [unfolded same_context_def], of with_code_snippets]
  by simp_all

lemma bump_fuel_edits:
  assumes "bump_fuel d t = ok t'"
  shows "\<exists>is. fuel_edit t is \<and> t' = t\<lparr>instructions := is\<rparr>"
proof -
  obtain f where f: "last_frame (control_frames t) = Some f"
    using assms by (auto simp: bump_fuel_def and_then_ok_iff)
  show ?thesis
  proof (cases "consume_fuel_instr f")
    case None
    then have "t' = t\<lparr>instructions := instructions t\<rparr>" using assms f by (simp add: bump_fuel_def)
    then show ?thesis by (auto simp: fuel_edit_def)
  next
    case (Some i)
    then show ?thesis
    proof (cases "with_consume_fuel t")
      case True
      then obtain "is" where "is": "bump_fuel_consumption i d (instructions t) = ok is" "t' = t\<lparr>instructions := is\<rparr>"
        using assms f Some by (auto simp: bump_fuel_def and_then_ok_iff)
      from "is"(1) obtain c where "unat i < length (instructions t)" "is = (instructions t)[unat i := ConsumeFuel (c + d)]"
        by (elim bump_fuel_ok) blast
      then show ?thesis using f Some "is" by (auto simp: fuel_edit_def fuel_instr_def)
    next
      case False
      then have "t' = t\<lparr>instructions := instructions t\<rparr>" using assms f Some by (simp add: bump_fuel_def)
      then show ?thesis by (auto simp: fuel_edit_def)
    qed
  qed
qed

lemma fuel_edit_refl [simp]: "fuel_edit t (instructions t)"
  by (simp add: fuel_edit_def)

text \<open>Running the actions symbolically.\<close>

lemma steps_ok: "steps [] t = ok t' \<longleftrightarrow> t' = t" "steps (a # as) t = ok t' \<longleftrightarrow> (\<exists>t1. a t = ok t1 \<and> steps as t1 = ok t')"
  by (auto simp: and_then_ok_iff)

lemma after_bump:
  assumes "steps (bump_fuel d # as) t = ok t'"
  obtains "is" where "fuel_edit t is" "steps as (t\<lparr>instructions := is\<rparr>) = ok t'"
  using assms bump_fuel_edits [of d t] by (auto simp: steps_ok simp del: steps.simps)

lemmas action_simps = emit_def change_height_def push_stack_type_def pop_stack_type_def
  drop_stack_type_def whenever_def inspecting_def spare_cells_def pop_three_types_def set_reachable_def


lemma bumped:
  assumes "translate_if_reachable (steps (bump_fuel d # as)) t = ok t'" and "reachable t"
  shows "\<exists>is. fuel_edit t is \<and> steps as (t\<lparr>instructions := is\<rparr>) = ok t'"
  using assms bump_fuel_edits [of d t] by (auto simp: translate_if_reachable_def and_then_ok_iff)

text \<open>The bounds under which the emulated height does not wrap.\<close>

definition height_fits :: "translator \<Rightarrow> nat \<Rightarrow> nat \<Rightarrow> bool" where
  "height_fits t n m \<longleftrightarrow>
     n \<le> unat (height (stack_height t)) \<and> unat (height (stack_height t)) + m + 4 < 2 ^ 32 \<and>
     unat (height (stack_height t)) \<le> unat (max_height (stack_height t))"

lemma translate_binary_emits:
  assumes t': "translate_binary fp code msh t = ok t'" and t: "reachable t" "stack_types t = tys @ [val_ty v, val_ty w]"
    and h: "val_ty v = val_ty w" "height_fits t (2 * width (val_ty w)) (unat msh)"
  shows "\<exists>h'. emits t code (tys @ [val_ty w]) h' t' \<and>
    height_change (stack_height t) (2 * width (val_ty w)) (width (val_ty w)) (unat msh) h'"
proof -
  let ?w = "type_width (val_ty w)"
  let ?h1 = "push_n ?w (pop_n ?w (pop_n ?w (if msh > 0 then push_n msh (stack_height t) else stack_height t)))"
  let ?h = "if msh > 0 then pop_n msh ?h1 else ?h1"
  have "emits t code (tys @ [val_ty w]) ?h t'"
    using bumped [OF t' [unfolded translate_binary_def] t(1)] t(2)
    by (auto simp: emits_def same_context_def action_simps butlast_append pop_type_def push_type_def)
  moreover have "height_change (stack_height t) (2 * width (val_ty w)) (width (val_ty w)) (unat msh) ?h"
    using h width_bounds [of "val_ty w"]
    by (auto simp: height_fits_def height_change_def height_steps word_gt_0 unat_gt_0)
  ultimately show ?thesis by blast
qed

lemma translate_binary_compare_emits:
  assumes t': "translate_binary_compare fp code msh t = ok t'"
    and t: "reachable t" "stack_types t = tys @ [val_ty v, val_ty w]"
    and h: "val_ty v = val_ty w" "height_fits t (2 * width (val_ty w)) (unat msh)"
  shows "\<exists>h'. emits t code (tys @ [TI32]) h' t' \<and>
    height_change (stack_height t) (2 * width (val_ty w)) 1 (unat msh) h'"
proof -
  let ?w = "type_width (val_ty w)"
  let ?h1 = "push_n 1 (pop_n ?w (pop_n ?w (if msh > 0 then push_n msh (stack_height t) else stack_height t)))"
  let ?h = "if msh > 0 then pop_n msh ?h1 else ?h1"
  have "emits t code (tys @ [TI32]) ?h t'"
    using bumped [OF t' [unfolded translate_binary_compare_def] t(1)] t(2) h(1)
    by (auto simp: emits_def same_context_def action_simps butlast_append pop_type_def push_type_def type_width_def [of TI32])
  moreover have "height_change (stack_height t) (2 * width (val_ty w)) 1 (unat msh) ?h"
    using h width_bounds [of "val_ty w"]
    by (auto simp: height_fits_def height_change_def height_steps word_gt_0 unat_gt_0)
  ultimately show ?thesis by blast
qed

lemma translate_unary_emits:
  assumes t': "translate_unary fp code msh t = ok t'" and t: "reachable t" "stack_types t = tys @ [val_ty v]"
    and h: "height_fits t (width (val_ty v)) (unat msh)"
  shows "\<exists>h'. emits t code (tys @ [val_ty v]) h' t' \<and>
    height_change (stack_height t) (width (val_ty v)) (width (val_ty v)) (unat msh) h'"
proof -
  let ?w = "type_width (val_ty v)"
  let ?h = "pop_n msh (push_n ?w (pop_n ?w (push_n msh (stack_height t))))"
  have "emits t code (tys @ [val_ty v]) ?h t'"
    using bumped [OF t' [unfolded translate_unary_def] t(1)] t(2)
    by (auto simp: emits_def same_context_def action_simps butlast_append pop_type_def push_type_def)
  moreover have "height_change (stack_height t) (width (val_ty v)) (width (val_ty v)) (unat msh) ?h"
    using h width_bounds [of "val_ty v"]
    by (auto simp: height_fits_def height_change_def height_steps)
  ultimately show ?thesis by blast
qed

lemma translate_unary_compare_emits:
  assumes t': "translate_unary_compare fp code msh t = ok t'" and t: "reachable t" "stack_types t = tys @ [val_ty v]"
    and h: "height_fits t (width (val_ty v)) (unat msh)"
  shows "\<exists>h'. emits t code (tys @ [TI32]) h' t' \<and>
    height_change (stack_height t) (width (val_ty v)) 1 (unat msh) h'"
proof -
  let ?h = "pop_n msh (push_n 1 (pop_n (type_width (val_ty v)) (push_n msh (stack_height t))))"
  have "emits t code (tys @ [TI32]) ?h t'"
    using bumped [OF t' [unfolded translate_unary_compare_def] t(1)] t(2)
    by (auto simp: emits_def same_context_def action_simps butlast_append pop_type_def push_type_def type_width_def [of TI32])
  moreover have "height_change (stack_height t) (width (val_ty v)) 1 (unat msh) ?h"
    using h width_bounds [of "val_ty v"]
    by (auto simp: height_fits_def height_change_def height_steps)
  ultimately show ?thesis by blast
qed

lemma translate_conversion_emits:
  assumes t': "translate_conversion fp (val_ty v) (val_ty w) code msh t = ok t'"
    and t: "reachable t" "stack_types t = tys @ [val_ty v]"
    and h: "height_fits t (width (val_ty v)) (unat msh)"
  shows "\<exists>h'. emits t code (tys @ [val_ty w]) h' t' \<and>
    height_change (stack_height t) (width (val_ty v)) (width (val_ty w)) (unat msh) h'"
proof -
  let ?h1 = "push_n (type_width (val_ty w)) (pop_n (type_width (val_ty v))
    (if msh > 0 then push_n msh (stack_height t) else stack_height t))"
  let ?h = "if msh > 0 then pop_n msh ?h1 else ?h1"
  have "emits t code (tys @ [val_ty w]) ?h t'"
    using bumped [OF t' [unfolded translate_conversion_def] t(1)] t(2)
    by (auto simp: emits_def same_context_def action_simps butlast_append pop_type_def push_type_def)
  moreover have "height_change (stack_height t) (width (val_ty v)) (width (val_ty w)) (unat msh) ?h"
    using h width_bounds [of "val_ty v"] width_bounds [of "val_ty w"]
    by (auto simp: height_fits_def height_change_def height_steps word_gt_0 unat_gt_0)
  ultimately show ?thesis by blast
qed

text \<open>The cells of a load are those of the result above the constant: the height is that of the
  address when the constant has been added.\<close>

lemma translate_load_emits:
  assumes t': "translate_load fp (val_ty w) code msh t = ok t'"
    and t: "reachable t" "stack_types t = tys @ [TI32]" and h: "height_fits t 1 (unat msh)"
  shows "\<exists>h'. emits t code (tys @ [val_ty w]) h' t' \<and>
    height_change (stack_height t) 1 (width (val_ty w)) (unat msh + width (val_ty w) - 1) h'"
proof -
  let ?h = "pop_n msh (push_n (type_width (val_ty w)) (pop_n 1 (push_n msh (stack_height t))))"
  have "emits t code (tys @ [val_ty w]) ?h t'"
    using bumped [OF t' [unfolded translate_load_def] t(1)] t(2)
    by (auto simp: emits_def same_context_def action_simps butlast_append pop_type_def push_type_def type_width_def [of TI32])
  moreover have "height_change (stack_height t) 1 (width (val_ty w)) (unat msh + width (val_ty w) - 1) ?h"
    using h width_bounds [of "val_ty w"]
    by (auto simp: height_fits_def height_change_def height_steps)
  ultimately show ?thesis by blast
qed

lemma translate_store_emits:
  assumes t': "translate_store fp code msh t = ok t'"
    and t: "reachable t" "stack_types t = tys @ [TI32, val_ty w]"
    and h: "height_fits t (width (val_ty w) + 1) (unat msh)"
  shows "\<exists>h'. emits t code tys h' t' \<and>
    height_change (stack_height t) (width (val_ty w) + 1) 0 (unat msh) h'"
proof -
  let ?h = "pop_n msh (pop_n 1 (pop_n (type_width (val_ty w)) (push_n msh (stack_height t))))"
  have "emits t code (tys) ?h t'"
    using bumped [OF t' [unfolded translate_store_def] t(1)] t(2)
    by (auto simp: emits_def same_context_def action_simps butlast_append pop_type_def type_width_def [of TI32])
  moreover have "height_change (stack_height t) (width (val_ty w) + 1) 0 (unat msh) ?h"
    using h width_bounds [of "val_ty w"]
    by (auto simp: height_fits_def height_change_def height_steps)
  ultimately show ?thesis by blast
qed

section \<open>The simulation relation\<close>

definition tracks :: "translator \<Rightarrow> val list \<Rightarrow> val list \<Rightarrow> bool" where
  "tracks t ls vs \<longleftrightarrow>
     reachable t \<and> \<not> with_code_snippets t \<and> stack_types t = map val_ty ls @ rev (map val_ty vs) \<and>
     length (wstack vs) \<le> unat (height (stack_height t)) \<and>
     unat (height (stack_height t)) + unat (locals_registered t) = length (cells ls vs) \<and>
     unat (height (stack_height t)) \<le> unat (max_height (stack_height t))"

definition result_words :: "'h wasm_result \<Rightarrow> (trap_code \<times> 'h store) + ('h store \<times> u32 list)" where
  "result_words res = (case res of Inl e \<Rightarrow> Inl e | Inr (st, ls, vs) \<Rightarrow> Inr (st, cells ls vs))"

text \<open>The code runs within the height that is recorded when the operator has been translated.\<close>

definition implements ::
  "'h env \<Rightarrow> translator \<Rightarrow> opcode list \<Rightarrow> 'h store \<Rightarrow> val list \<Rightarrow> val list \<Rightarrow> 'h wasm_result \<Rightarrow> translator \<Rightarrow> bool"
where
  "implements env t code st ls vs res t' \<longleftrightarrow>
     (\<exists>is. fuel_edit t is \<and> instructions t' = is @ code) \<and> control_frames t' = control_frames t \<and>
     locals_registered t' = locals_registered t \<and>
     unat (max_height (stack_height t)) \<le> unat (max_height (stack_height t')) \<and>
     unat (height (stack_height t)) \<le> unat (max_height (stack_height t')) \<and>
     computes env code (max_height (stack_height t') - height (stack_height t)) st (cells ls vs) (result_words res) \<and>
     (case res of Inl _ \<Rightarrow> True | Inr (_, ls', vs') \<Rightarrow> tracks t' ls' vs')"

text \<open>An operator on the top of the operand stack.\<close>

lemma implements_stack:
  assumes t: "tracks t ls (vin @ vs)" and e: "emits t code (map val_ty ls @ rev (map val_ty (vout @ vs))) h' t'"
    and h': "height_change (stack_height t) (length (wstack vin)) (length (wstack vout)) m h'"
    and c: "computes env code msh st (wstack vin) (Inr (st', wstack vout))" and m: "unat msh \<le> m"
  shows "implements env t code st ls (vin @ vs) (Inr (st', ls, vout @ vs)) t'"
proof -
  let ?need = "max_height (stack_height t') - height (stack_height t)"
  have "stack_height t' = h'" using e by (simp add: emits_def)
  note height = h' [folded this, unfolded height_change_def]
  have "unat ?need = unat (max_height (stack_height t')) - unat (height (stack_height t))"
    using height by (simp add: unat_sub word_le_nat_alt)
  then have "unat msh \<le> unat ?need" using height m by linarith
  with c have "computes env code ?need st (cells ls (vin @ vs)) (Inr (st', cells ls (vout @ vs)))"
    by (auto intro: computes_frame_result computes_mono)
  moreover have "tracks t' ls (vout @ vs)"
    using t height e same_context_fields [of t t'] by (auto simp: tracks_def emits_def)
  ultimately show ?thesis
    using e height same_context_fields [of t t'] by (auto simp: implements_def result_words_def emits_def)
qed

lemma implements_trap:
  assumes e: "emits t code tys h' t'" and h': "height_change (stack_height t) i out m h'"
    and c: "computes env code msh st (wstack vin) (Inl e)" and m: "unat msh \<le> m"
  shows "implements env t code st ls (vin @ vs) (Inl e) t'"
proof -
  let ?need = "max_height (stack_height t') - height (stack_height t)"
  have "stack_height t' = h'" using assms(1) by (simp add: emits_def)
  note height = h' [folded this, unfolded height_change_def]
  have "unat ?need = unat (max_height (stack_height t')) - unat (height (stack_height t))"
    using height by (simp add: unat_sub word_le_nat_alt)
  then have "unat msh \<le> unat ?need" using height m by linarith
  with c have "computes env code ?need st (cells ls (vin @ vs)) (Inl e)"
    by (auto intro: computes_frame_trap computes_mono)
  then show ?thesis
    using assms(1) height same_context_fields [of t t'] by (auto simp: implements_def result_words_def emits_def)
qed

lemma tracks_fits:
  assumes "tracks t ls vs" and "length (cells ls vs) + m + 4 < 2 ^ 32" and "n \<le> length (wstack vs)"
  shows "height_fits t n m"
  using assms by (auto simp: tracks_def height_fits_def)

text \<open>The operators with one operand and with two.\<close>

lemma implements_unary:
  assumes t: "tracks t ls vs" and sem: "wasm_unary f st ls vs = Some res"
    and e: "\<And>v w vs'. vs = v # vs' \<Longrightarrow> f v = Some w \<Longrightarrow>
      \<exists>h'. emits t code ((map val_ty ls @ rev (map val_ty vs')) @ [val_ty w]) h' t' \<and>
        height_change (stack_height t) (width (val_ty v)) (width (val_ty w)) m h'"
    and c: "\<And>v w. f v = Some w \<Longrightarrow> computes env code msh st (rev (val_words v)) (Inr (st, rev (val_words w)))"
    and m: "unat msh \<le> m"
  shows "implements env t code st ls vs res t'"
proof -
  obtain v vs' w where v: "vs = [v] @ vs'" "f v = Some w" "res = Inr (st, ls, [w] @ vs')"
    using sem by (auto simp: wasm_unary_def pushing_def split: list.splits option.splits)
  obtain h' where h': "emits t code ((map val_ty ls @ rev (map val_ty vs')) @ [val_ty w]) h' t'"
    "height_change (stack_height t) (width (val_ty v)) (width (val_ty w)) m h'"
    using e [of v vs' w] v by auto
  show ?thesis
    unfolding v(1,3)
    by (rule implements_stack [OF t [unfolded v(1)] _ _ _ m]) (use h' c [OF v(2)] in simp_all)
qed

lemma implements_binary:
  assumes t: "tracks t ls vs" and sem: "wasm_binary f st ls vs = Some res"
    and e: "\<And>v w u vs'. vs = w # v # vs' \<Longrightarrow> f v w = Some u \<Longrightarrow>
      \<exists>h'. emits t code ((map val_ty ls @ rev (map val_ty vs')) @ [ty]) h' t' \<and>
        height_change (stack_height t) (width (val_ty v) + width (val_ty w)) (width ty) m h'"
    and ty: "\<And>v w u. f v w = Some (Inr u) \<Longrightarrow> val_ty u = ty"
    and c: "\<And>v w u. f v w = Some u \<Longrightarrow> computes env code msh st (rev (val_words w) @ rev (val_words v))
      (case u of Inl t \<Rightarrow> Inl (t, st) | Inr u \<Rightarrow> Inr (st, rev (val_words u)))"
    and m: "unat msh \<le> m"
  shows "implements env t code st ls vs res t'"
proof -
  obtain v w vs' u where v: "vs = [w, v] @ vs'" "f v w = Some u" "res = push_or_trap st ls vs' u"
    using sem by (auto simp: wasm_binary_def split: list.splits option.splits)
  obtain h' where h': "emits t code ((map val_ty ls @ rev (map val_ty vs')) @ [ty]) h' t'"
    "height_change (stack_height t) (width (val_ty v) + width (val_ty w)) (width ty) m h'"
    using e [of w v vs' u] v by auto
  show ?thesis
  proof (cases u)
    case (Inl tr)
    then show ?thesis
      unfolding v(1,3) using h' c [OF v(2)] m
      by (simp add: push_or_trap_def) (rule implements_trap [of t code _ h' t' _ _ m env msh st "[w, v]", simplified])
  next
    case (Inr x)
    then have "res = Inr (st, ls, [x] @ vs')" by (simp add: v(3) push_or_trap_def)
    then show ?thesis
      unfolding v(1)
      by (simp only:) (rule implements_stack [OF t [unfolded v(1)] _ _ _ m],
        use h' c [OF v(2)] ty [of v w x] v(2) Inr in \<open>simp_all add: add.commute\<close>)
  qed
qed

section \<open>The common functions implement their operators\<close>

definition room :: "val list \<Rightarrow> val list \<Rightarrow> bool" where
  "room ls vs \<longleftrightarrow> length (cells ls vs) + 64 < 2 ^ 32"

lemma tracks_types: "tracks t ls vs \<Longrightarrow> stack_types t = map val_ty ls @ rev (map val_ty vs)"
  and tracks_reachable: "tracks t ls vs \<Longrightarrow> reachable t"
  by (simp_all add: tracks_def)

lemma room_fits: "tracks t ls vs \<Longrightarrow> room ls vs \<Longrightarrow> n \<le> length (wstack vs) \<Longrightarrow> m \<le> 60 \<Longrightarrow> height_fits t n m"
  unfolding room_def by (rule tracks_fits, assumption, linarith, assumption)

lemma unary_implemented:
  assumes t: "tracks t ls vs" "room ls vs" and t': "translate_unary fp code msh t = ok t'"
    and sem: "wasm_unary f st ls vs = Some res" and msh: "unat msh \<le> 60"
    and f: "\<And>v w. f v = Some w \<Longrightarrow> val_ty w = val_ty v \<and>
      computes env code msh st (rev (val_words v)) (Inr (st, rev (val_words w)))"
  shows "implements env t code st ls vs res t'"
proof (rule implements_unary [OF t(1) sem, where msh = msh and m = "unat msh"])
  fix v w vs' assume v: "vs = v # vs'" "f v = Some w"
  show "\<exists>h'. emits t code ((map val_ty ls @ rev (map val_ty vs')) @ [val_ty w]) h' t' \<and>
      height_change (stack_height t) (width (val_ty v)) (width (val_ty w)) (unat msh) h'"
    using translate_unary_emits [OF t' tracks_reachable [OF t(1)], of "map val_ty ls @ rev (map val_ty vs')" v]
      room_fits [OF t] tracks_types [OF t(1)] v f [OF v(2)] msh by simp
qed (use f in simp_all)

lemma unary_compare_implemented:
  assumes t: "tracks t ls vs" "room ls vs" and t': "translate_unary_compare fp code msh t = ok t'"
    and sem: "wasm_unary f st ls vs = Some res" and msh: "unat msh \<le> 60"
    and f: "\<And>v w. f v = Some w \<Longrightarrow> val_ty w = TI32 \<and>
      computes env code msh st (rev (val_words v)) (Inr (st, rev (val_words w)))"
  shows "implements env t code st ls vs res t'"
proof (rule implements_unary [OF t(1) sem, where msh = msh and m = "unat msh"])
  fix v w vs' assume v: "vs = v # vs'" "f v = Some w"
  show "\<exists>h'. emits t code ((map val_ty ls @ rev (map val_ty vs')) @ [val_ty w]) h' t' \<and>
      height_change (stack_height t) (width (val_ty v)) (width (val_ty w)) (unat msh) h'"
    using translate_unary_compare_emits [OF t' tracks_reachable [OF t(1)], of "map val_ty ls @ rev (map val_ty vs')" v]
      room_fits [OF t] tracks_types [OF t(1)] v f [OF v(2)] msh by (simp add: width_def is_wide_def)
qed (use f in simp_all)

lemma conversion_implemented:
  assumes t: "tracks t ls vs" "room ls vs" and t': "translate_conversion fp i out code msh t = ok t'"
    and sem: "wasm_unary f st ls vs = Some res" and msh: "unat msh \<le> 60"
    and f: "\<And>v w. f v = Some w \<Longrightarrow> val_ty v = i \<and> val_ty w = out \<and>
      computes env code msh st (rev (val_words v)) (Inr (st, rev (val_words w)))"
  shows "implements env t code st ls vs res t'"
proof (rule implements_unary [OF t(1) sem, where msh = msh and m = "unat msh"])
  fix v w vs' assume v: "vs = v # vs'" "f v = Some w"
  show "\<exists>h'. emits t code ((map val_ty ls @ rev (map val_ty vs')) @ [val_ty w]) h' t' \<and>
      height_change (stack_height t) (width (val_ty v)) (width (val_ty w)) (unat msh) h'"
    using translate_conversion_emits [of fp v w code msh t t' "map val_ty ls @ rev (map val_ty vs')"] t'
      tracks_reachable [OF t(1)] room_fits [OF t] tracks_types [OF t(1)] v f [OF v(2)] msh by simp
qed (use f in simp_all)

lemma binary_implemented:
  assumes t: "tracks t ls vs" "room ls vs" and t': "translate_binary fp code msh t = ok t'"
    and sem: "wasm_binary f st ls vs = Some res" and msh: "unat msh \<le> 60"
    and f: "\<And>v w u. f v w = Some u \<Longrightarrow> val_ty v = ty \<and> val_ty w = ty \<and> (\<forall>x. u = Inr x \<longrightarrow> val_ty x = ty) \<and>
      computes env code msh st (rev (val_words w) @ rev (val_words v))
        (case u of Inl t \<Rightarrow> Inl (t, st) | Inr u \<Rightarrow> Inr (st, rev (val_words u)))"
  shows "implements env t code st ls vs res t'"
proof (rule implements_binary [OF t(1) sem, where msh = msh and m = "unat msh" and ty = ty])
  fix v w u vs' assume v: "vs = w # v # vs'" "f v w = Some u"
  show "\<exists>h'. emits t code ((map val_ty ls @ rev (map val_ty vs')) @ [ty]) h' t' \<and>
      height_change (stack_height t) (width (val_ty v) + width (val_ty w)) (width ty) (unat msh) h'"
    using translate_binary_emits [OF t' tracks_reachable [OF t(1)], of "map val_ty ls @ rev (map val_ty vs')" v w]
      room_fits [OF t] tracks_types [OF t(1)] v f [OF v(2)] msh by (auto simp: mult_2)
qed (use f in auto)

lemma binary_compare_implemented:
  assumes t: "tracks t ls vs" "room ls vs" and t': "translate_binary_compare fp code msh t = ok t'"
    and sem: "wasm_binary f st ls vs = Some res" and msh: "unat msh \<le> 60"
    and f: "\<And>v w u. f v w = Some u \<Longrightarrow> val_ty v = val_ty w \<and> (\<forall>x. u = Inr x \<longrightarrow> val_ty x = TI32) \<and>
      computes env code msh st (rev (val_words w) @ rev (val_words v))
        (case u of Inl t \<Rightarrow> Inl (t, st) | Inr u \<Rightarrow> Inr (st, rev (val_words u)))"
  shows "implements env t code st ls vs res t'"
proof (rule implements_binary [OF t(1) sem, where msh = msh and m = "unat msh" and ty = TI32])
  fix v w u vs' assume v: "vs = w # v # vs'" "f v w = Some u"
  show "\<exists>h'. emits t code ((map val_ty ls @ rev (map val_ty vs')) @ [TI32]) h' t' \<and>
      height_change (stack_height t) (width (val_ty v) + width (val_ty w)) (width TI32) (unat msh) h'"
    using translate_binary_compare_emits [OF t' tracks_reachable [OF t(1)], of "map val_ty ls @ rev (map val_ty vs')" v w]
      room_fits [OF t] tracks_types [OF t(1)] v f [OF v(2)] msh by (auto simp: mult_2 width_def is_wide_def)
qed (use f in auto)

end
