(* ===== verification/Operator_Refinement.thy ===== *)
theory Operator_Refinement
  imports Stack_Tracking
begin

text \<open>
  The translator implements the reference of \<open>Wasm_Semantics\<close> operator by operator:
  \<open>implements_operator\<close> puts together the contracts of the emitted code (\<open>Operator_Code\<close>) and
  the effects of the functions of the translator (\<open>Stack_Tracking\<close>), with the operators that
  do not go through a common function: the ones that push a value, \<open>drop\<close>, \<open>select\<close>, the
  accesses to local variables, whose depth is computed from the stack of types, and the
  conversions that move no code.
\<close>

declare split_paired_Ex [simp del] split_paired_All [simp del]

section \<open>Operators that push a value\<close>

lemma width_I32 [simp]: "width (val_ty (I32 c)) = 1"
  by (simp add: val_ty_def width_def is_wide_def)

definition push_action :: "u32 \<Rightarrow> val_type \<Rightarrow> opcode list \<Rightarrow> action" where
  "push_action d ty code = translate_if_reachable
     (steps [bump_fuel d, push_stack_type ty, change_height (push_n (type_width ty)), emit code])"

lemma push_actions:
  "visit_i32_const fp a = push_action (cost_base fp) TI32 [I32Const a]"
  "visit_i64_const fp b = push_action (cost_base fp) TI64 (op_i64_const b)"
  "visit_f32_const fp a = push_action (cost_base fp) TF32 [I32Const a]"
  "visit_f64_const fp b = push_action (cost_base fp) TF64 (op_i64_const b)"
  "Translator_Visits.visit_ref_func fp f = push_action (cost_base fp) TFuncRef [RefFunc (f + 1)]"
  "Translator_Visits.visit_memory_size fp = push_action (cost_entity fp) TI32 [MemorySize]"
  by (simp_all add: push_action_def visit_i32_const_def visit_i64_const_def visit_f32_const_def
      visit_f64_const_def visit_ref_func_def visit_memory_size_def type_width_def)

lemma visit_ref_null_ok:
  "visit_ref_null fp ty t = ok t' \<Longrightarrow> reachable t \<Longrightarrow>
   push_action (cost_base fp) ty [I32Const 0] t = ok t' \<and> (ty = TFuncRef \<or> ty = TExternRef)"
  by (auto simp: visit_ref_null_def push_action_def translate_if_reachable_def and_then_ok_iff
      type_width_def steps_ok simp del: steps.simps split: if_splits)

lemma push_implemented:
  assumes t: "tracks t ls vs" "room ls vs" and t': "push_action d (val_ty v) code t = ok t'"
    and c: "computes env code (type_width (val_ty v)) st [] (Inr (st, rev (val_words v)))"
  shows "implements env t code st ls vs (Inr (st, ls, v # vs)) t'"
proof -
  let ?h = "push_n (type_width (val_ty v)) (stack_height t)"
  have "emits t code ((map val_ty ls @ rev (map val_ty vs)) @ [val_ty v]) ?h t'"
    using bumped [OF t' [unfolded push_action_def]] tracks_types [OF t(1)] tracks_reachable [OF t(1)]
    by (auto simp: emits_def same_context_def action_simps)
  moreover have "height_change (stack_height t) 0 (width (val_ty v)) (width (val_ty v)) ?h"
    using room_fits [OF t, of 0 0] width_bounds [of "val_ty v"]
    by (auto simp: height_fits_def height_change_def height_steps)
  ultimately show ?thesis
    using implements_stack [of t ls "[]" vs code "[v]" ?h t' "width (val_ty v)" env "type_width (val_ty v)" st st] t c
    by (simp add: type_width_val)
qed

lemma push_computes:
  "computes env [I32Const a] 1 st [] (Inr (st, [a]))"
  "computes env [RefFunc f] 1 st [] (Inr (st, [f]))"
  "computes env [MemorySize] 1 st [] (Inr (st, [current_pages (global_memory st)]))"
  "computes env (op_i64_const b) 2 st [] (Inr (st, [hi32 b, lo32 b]))"
  using op_i64_const_correct [of env b]
  by (auto simp: exec_simps fwd_unfold MSH_I64_CONST_def intro!: computes_fwd [where r' = 0])

section \<open>Drop and select\<close>

lemma drop_implemented:
  assumes t: "tracks t ls (v # vs)" "room ls (v # vs)" and t': "Translator_Visits.visit_drop t = ok t'"
  shows "\<exists>code. implements env t code st ls (v # vs) (Inr (st, ls, vs)) t'"
proof -
  let ?code = "if is_wide (val_ty v) then [Drop, Drop] else [Drop]"
  let ?h1 = "pop_n 1 (stack_height t)"
  let ?h = "if is_wide (val_ty v) then pop_n 1 ?h1 else ?h1"
  have "emits t ?code (map val_ty ls @ rev (map val_ty vs)) ?h t'"
    using t' tracks_types [OF t(1)] tracks_reachable [OF t(1)]
    by (auto simp: visit_drop_def translate_if_reachable_def emits_def same_context_def action_simps
        and_then_ok_iff butlast_append split: if_splits)
  moreover have "height_change (stack_height t) (width (val_ty v)) 0 0 ?h"
    using room_fits [OF t, of "width (val_ty v)" 0]
    by (auto simp: height_fits_def height_change_def height_steps width_def)
  moreover have "computes env ?code 0 st (rev (val_words v)) (Inr (st, []))"
    by (cases v) (auto simp: val_words_def val_ty_def is_wide_def exec_simps intro!: computes_fwd [where r' = "width (val_ty v)"]
      simp: width_def)
  ultimately show ?thesis
    using implements_stack [of t ls "[v]" vs ?code "[]" ?h t' 0 env 0 st st] t by auto
qed

lemma select_computes:
  assumes "val_ty a = val_ty b"
  shows "computes env
    (if is_wide (val_ty a) then [BrIfEqz 4, Drop, Drop, Br 3, LocalSet 2, LocalSet 2] else [Select]) 0 st
    (c # rev (val_words b) @ rev (val_words a))
    (Inr (st, rev (val_words (if c \<noteq> 0 then a else b))))"
proof -
  have "fwd [BrIfEqz 4, Drop, Drop, Br 3, LocalSet 2, LocalSet 2] st [c, hi32 y, lo32 y, hi32 x, lo32 x] 0 =
      Goto 0 st (if c \<noteq> 0 then [hi32 x, lo32 x] else [hi32 y, lo32 y]) 3" for x y
    by (simp add: exec_simps jump_def)
  moreover have "fwd [Select] st [c, y, x] 0 = Goto 0 st [if c \<noteq> 0 then x else y] 2" for x y
    by (simp add: exec_simps)
  ultimately have "\<exists>r'. fwd (if is_wide (val_ty a) then [BrIfEqz 4, Drop, Drop, Br 3, LocalSet 2, LocalSet 2] else [Select]) st
      (c # rev (val_words b) @ rev (val_words a)) (unat (0 :: u32)) =
      Goto 0 st (rev (val_words (if c \<noteq> 0 then a else b))) r'"
    using assms by (cases a; cases b) (auto simp: val_words_def val_ty_def is_wide_def)
  then show ?thesis by (auto intro: computes_fwd)
qed

lemma select_implemented:
  assumes t: "tracks t ls (I32 c # b # a # vs)" "room ls (I32 c # b # a # vs)" and ty: "val_ty a = val_ty b"
    and t': "Translator_Visits.visit_select fp t = ok t'"
  shows "\<exists>code. implements env t code st ls (I32 c # b # a # vs) (Inr (st, ls, (if c \<noteq> 0 then a else b) # vs)) t'"
proof -
  let ?code = "if is_wide (val_ty a) then [BrIfEqz 4, Drop, Drop, Br 3, LocalSet 2, LocalSet 2] else [Select]"
  have fits: "height_fits t (1 + 2 * width (val_ty a)) 0"
    by (rule room_fits [OF t]) (simp_all add: ty mult_2)
  let ?h1 = "push_n 1 (pop_n 3 (stack_height t))"
  let ?h = "if is_wide (val_ty a) then pop_n 1 ?h1 else ?h1"
  have "emits t ?code (map val_ty ls @ rev (map val_ty vs) @ [val_ty a]) ?h t'"
    using bumped [OF t' [unfolded visit_select_def] tracks_reachable [OF t(1)]] tracks_types [OF t(1)] ty
    by (auto simp: emits_def same_context_def action_simps and_then_ok_iff butlast_append split: if_splits)
  moreover have "height_change (stack_height t) (1 + 2 * width (val_ty a)) (width (val_ty a)) 0 ?h"
    using fits by (auto simp: height_fits_def height_change_def height_steps width_def)
  ultimately show ?thesis
    using implements_stack [of t ls "[I32 c, b, a]" vs ?code "[if c \<noteq> 0 then a else b]" ?h t' 0 env 0 st st] t
      select_computes [OF ty, of env st c] ty
    by (auto simp: val_words_def [of "I32 c"] mult_2)
qed

section \<open>Locals\<close>

lemma implements_cells:
  assumes t: "tracks t ls vs" and e: "emits t code (map val_ty ls' @ rev (map val_ty vs')) h' t'"
    and h': "height_change (stack_height t) i out m h'"
    and len: "length (wstack vs') + i = length (wstack vs) + out" "length (cells ls' vs') + i = length (cells ls vs) + out"
    and c: "computes env code msh st (cells ls vs) (Inr (st', cells ls' vs'))" and m: "unat msh \<le> m"
  shows "implements env t code st ls vs (Inr (st', ls', vs')) t'"
proof -
  let ?need = "max_height (stack_height t') - height (stack_height t)"
  have "stack_height t' = h'" using e by (simp add: emits_def)
  note height = h' [folded this, unfolded height_change_def]
  have "unat ?need = unat (max_height (stack_height t')) - unat (height (stack_height t))"
    using height by (simp add: unat_sub word_le_nat_alt)
  then have "unat msh \<le> unat ?need" using height m by linarith
  with c have "computes env code ?need st (cells ls vs) (Inr (st', cells ls' vs'))"
    by (auto intro: computes_mono)
  moreover have "tracks t' ls' vs'"
    using t height e len same_context_fields [of t t'] by (auto simp: tracks_def emits_def)
  ultimately show ?thesis
    using e height same_context_fields [of t t'] by (auto simp: implements_def result_words_def emits_def)
qed

text \<open>The words above a local variable.\<close>

definition above :: "val list \<Rightarrow> val list \<Rightarrow> nat \<Rightarrow> u32 list" where
  "above ls vs i = wstack (vs @ rev (drop (Suc i) ls))"

lemma cells_at_local:
  "i < length ls \<Longrightarrow> cells ls vs = above ls vs i @ rev (val_words (ls ! i)) @ wstack (rev (take i ls))"
  unfolding cells_def above_def by (subst id_take_nth_drop [of i ls]) simp_all

lemma cells_set_local:
  "i < length ls \<Longrightarrow> cells (ls[i := v]) vs = above ls vs i @ rev (val_words v) @ wstack (rev (take i ls))"
  unfolding cells_def above_def by (subst upd_conv_take_nth_drop) simp_all

lemma values_fit:
  assumes "length (cells ls vs) < 2 ^ 32"
  shows "length ls + length vs < 2 ^ 32"
proof -
  have "length xs \<le> length (wstack xs)" for xs
  proof (induction xs)
    case (Cons x xs)
    then show ?case using width_bounds(1) [of "val_ty x"] by simp
  qed simp
  from this [of "vs @ rev ls"] show ?thesis using assms by (simp add: cells_def)
qed

lemma unat_word_small: "n < 2 ^ 32 \<Longrightarrow> unat (word_of_nat n :: u32) = n"
  by (simp add: unsigned_of_nat take_bit_nat_eq_self)

definition local_depth :: "val list \<Rightarrow> val list \<Rightarrow> nat \<Rightarrow> u32" where
  "local_depth ls vs i = word_of_nat (length ls + length vs - i)"

definition local_pos :: "val list \<Rightarrow> val list \<Rightarrow> nat \<Rightarrow> u32" where
  "local_pos ls vs i = word_of_nat (length (above ls vs i) + width (val_ty (ls ! i)))"

lemma unat_local_pos:
  assumes "length (cells ls vs) < 2 ^ 32" and "i < length ls"
  shows "unat (local_pos ls vs i) = length (above ls vs i) + width (val_ty (ls ! i))"
  unfolding local_pos_def using assms(1) cells_at_local [OF assms(2), of vs]
  by (intro unat_word_small) simp

text \<open>The translator finds a local variable by the types on its stack alone.\<close>

lemma expressed_depth:
  assumes room: "length (cells ls vs) < 2 ^ 32" and i: "i < length ls"
    and t: "stack_types t = map val_ty ls @ rev (map val_ty vs)"
  shows "relative_local_depth (word_of_nat i) t = ok (local_depth ls vs i)"
    and "get_expressed_depth (local_depth ls vs i) t = local_pos ls vs i"
proof -
  note len = values_fit [OF room]
  show "relative_local_depth (word_of_nat i) t = ok (local_depth ls vs i)"
  proof -
    have "(word_of_nat i :: u32) \<le> word_of_nat (length ls + length vs)"
      using len i by (simp add: word_le_nat_alt unsigned_of_nat take_bit_nat_eq_self del: of_nat_add)
    then show ?thesis
      using i by (simp add: t relative_local_depth_def Let_def of_nat_diff local_depth_def)
  qed
  let ?d = "length ls + length vs - i"
  have "take ?d (rev (stack_types t)) = map val_ty (vs @ rev (drop i ls))"
    using i by (simp add: t rev_map take_map take_rev)
  moreover have "unat (word_of_nat ?d :: u32) = ?d"
    using len by (intro unat_word_small) simp
  moreover have "sum_list (map ((\<lambda>ty. if ty = TI64 \<or> ty = TF64 then 2 else 1) \<circ> val_ty) xs) =
      (word_of_nat (length (wstack xs)) :: u32)" for xs
    by (induction xs) (auto simp: width_def is_wide_def)
  ultimately have "get_expressed_depth (word_of_nat ?d) t = word_of_nat (length (wstack (vs @ rev (drop i ls))))"
    by (simp add: get_expressed_depth_def)
  also have "wstack (vs @ rev (drop i ls)) = above ls vs i @ rev (val_words (ls ! i))"
    using i by (simp add: above_def Cons_nth_drop_Suc [symmetric])
  finally show "get_expressed_depth (local_depth ls vs i) t = local_pos ls vs i"
    by (simp add: local_pos_def local_depth_def)
qed

lemma local_type:
  assumes "length (cells ls vs) < 2 ^ 32" and "i < length ls"
  shows "unat (local_depth ls vs i) = length ls + length vs - i"
  unfolding local_depth_def using values_fit [OF assms(1)] by (intro unat_word_small) simp

text \<open>The words of a local variable, low word first from below, and how they are read and written.\<close>

lemma val_words_cases:
  obtains (narrow) a where "\<not> is_wide (val_ty v)" "val_words v = [a]" "width (val_ty v) = 1"
  | (wide) l h where "is_wide (val_ty v)" "val_words v = [l, h]" "width (val_ty v) = 2"
  by (cases v) (auto simp: val_words_def val_ty_def is_wide_def width_def)

lemma local_get_computes:
  assumes e: "unat e = length A + width (val_ty v)"
  shows "computes env (if is_wide (val_ty v) then [LocalGet e, LocalGet e] else [LocalGet e]) (type_width (val_ty v)) st
    (A @ rev (val_words v) @ B) (Inr (st, rev (val_words v) @ A @ rev (val_words v) @ B))"
  using e
  by (cases v rule: val_words_cases)
    (auto simp: exec_simps type_width_val nth_append nth_Cons' intro!: computes_fwd [where r' = 0])

lemma local_set_computes:
  assumes e: "unat e = length A + width (val_ty v)" and ty: "val_ty w = val_ty v"
  shows "computes env (if is_wide (val_ty v) then [LocalSet e, LocalSet e] else [LocalSet e]) 0 st
    (rev (val_words w) @ A @ rev (val_words v) @ B) (Inr (st, A @ rev (val_words w) @ B))"
  using e ty
  by (cases v rule: val_words_cases; cases w rule: val_words_cases)
    (auto simp: exec_simps list_update_append intro!: computes_fwd)

lemma local_tee_computes:
  assumes e: "unat e = width (val_ty v) + length A + width (val_ty v)" and ty: "val_ty w = val_ty v"
  shows "computes env (if is_wide (val_ty v) then [LocalTee (e - 1), LocalGet 2, LocalSet e] else [LocalTee e]) (type_width (val_ty v) - 1) st
    (rev (val_words w) @ A @ rev (val_words v) @ B) (Inr (st, rev (val_words w) @ A @ rev (val_words w) @ B))"
  using e ty
  by (cases v rule: val_words_cases; cases w rule: val_words_cases)
    (auto simp: exec_simps list_update_append unat_sub word_le_nat_alt type_width_def is_wide_def intro!: computes_fwd)

lemma room_cells: "room ls vs \<Longrightarrow> length (cells ls vs) < 2 ^ 32"
  by (simp add: room_def)

lemma local_get_implemented:
  assumes t: "tracks t ls vs" "room ls vs" and i: "i < length ls"
    and t': "Translator_Visits.visit_local_get fp (word_of_nat i) t = ok t'"
  shows "\<exists>code. implements env t code st ls vs (Inr (st, ls, ls ! i # vs)) t'"
proof -
  let ?v = "ls ! i" and ?e = "local_pos ls vs i"
  let ?code = "if is_wide (val_ty ?v) then [LocalGet ?e, LocalGet ?e] else [LocalGet ?e]"
  let ?h1 = "push_n 1 (stack_height t)"
  let ?h = "if is_wide (val_ty ?v) then push_n 1 ?h1 else ?h1"
  note len = room_cells [OF t(2)]
  have e: "emits t ?code (map val_ty ls @ rev (map val_ty (?v # vs))) ?h t'"
    using bumped [OF t' [unfolded visit_local_get_def] tracks_reachable [OF t(1)]]
      i tracks_types [OF t(1)] local_type [OF len i]
    by (cases "is_wide (val_ty ?v)") (auto simp: emits_def same_context_def action_simps and_then_ok_iff nth_append
        expressed_depth [OF len i] split: if_splits)
  have h: "height_change (stack_height t) 0 (width (val_ty ?v)) (width (val_ty ?v)) ?h"
    using room_fits [OF t, of 0 0]
    by (auto simp: height_fits_def height_change_def height_steps width_def)
  have "computes env ?code (type_width (val_ty ?v)) st (cells ls vs) (Inr (st, cells ls (?v # vs)))"
    using local_get_computes [OF unat_local_pos [OF len i], of env st "wstack (rev (take i ls))"]
      cells_at_local [OF i, of vs] by simp
  then show ?thesis
    by (intro exI [of _ ?code] implements_cells [OF t(1) e h, where msh = "type_width (val_ty ?v)"]) (simp_all add: type_width_val)
qed

lemma local_set_implemented:
  assumes t: "tracks t ls (v # vs)" "room ls (v # vs)" and i: "i < length ls" and ty: "val_ty v = val_ty (ls ! i)"
    and t': "Translator_Visits.visit_local_set fp (word_of_nat i) t = ok t'"
  shows "\<exists>code. implements env t code st ls (v # vs) (Inr (st, ls[i := v], vs)) t'"
proof -
  let ?v = "ls ! i" and ?e = "local_pos ls vs i"
  let ?code = "if is_wide (val_ty ?v) then [LocalSet ?e, LocalSet ?e] else [LocalSet ?e]"
  let ?h1 = "pop_n 1 (stack_height t)"
  let ?h = "if is_wide (val_ty ?v) then pop_n 1 ?h1 else ?h1"
  have len: "length (cells ls vs) < 2 ^ 32" using room_cells [OF t(2)] by simp
  have tys: "map val_ty (ls[i := v]) = map val_ty ls"
    using i ty by (metis list_update_id map_update nth_map)
  have e: "emits t ?code (map val_ty (ls[i := v]) @ rev (map val_ty vs)) ?h t'"
    using bumped [OF t' [unfolded visit_local_set_def] tracks_reachable [OF t(1)]]
      i tracks_types [OF t(1)] ty
    by (cases "is_wide (val_ty ?v)") (auto simp: tys emits_def same_context_def action_simps and_then_ok_iff butlast_append
        expressed_depth [OF len i] split: if_splits)
  have h: "height_change (stack_height t) (width (val_ty v)) 0 0 ?h"
    using room_fits [OF t, of "width (val_ty v)" 0] ty
    by (auto simp: height_fits_def height_change_def height_steps width_def)
  have "computes env ?code 0 st (cells ls (v # vs)) (Inr (st, cells (ls[i := v]) vs))"
    using local_set_computes [OF unat_local_pos [OF len i] ty, of env st "wstack (rev (take i ls))"]
      cells_at_local [OF i, of vs] cells_set_local [OF i, of v vs] by simp
  moreover have "length (cells (ls[i := v]) vs) = length (cells ls vs)"
    using cells_at_local [OF i, of vs] cells_set_local [OF i, of v vs] ty by simp
  ultimately show ?thesis
    by (intro exI [of _ ?code] implements_cells [OF t(1) e h, where msh = 0]) simp_all
qed

lemma local_tee_implemented:
  assumes t: "tracks t ls (v # vs)" "room ls (v # vs)" and i: "i < length ls" and ty: "val_ty v = val_ty (ls ! i)"
    and t': "Translator_Visits.visit_local_tee fp (word_of_nat i) t = ok t'"
  shows "\<exists>code. implements env t code st ls (v # vs) (Inr (st, ls[i := v], v # vs)) t'"
proof -
  let ?v = "ls ! i" and ?e = "local_pos ls (v # vs) i"
  let ?code = "if is_wide (val_ty ?v) then [LocalTee (?e - 1), LocalGet 2, LocalSet ?e] else [LocalTee ?e]"
  let ?h = "if is_wide (val_ty ?v) then pop_n 1 (push_n 1 (stack_height t)) else stack_height t"
  note len = room_cells [OF t(2)]
  have tys: "map val_ty (ls[i := v]) = map val_ty ls"
    using i ty by (metis list_update_id map_update nth_map)
  have e: "emits t ?code (map val_ty (ls[i := v]) @ rev (map val_ty (v # vs))) ?h t'"
    using bumped [OF t' [unfolded visit_local_tee_def] tracks_reachable [OF t(1)]]
      i tracks_types [OF t(1)] ty
    by (cases "is_wide (val_ty ?v)") (auto simp: tys emits_def same_context_def action_simps and_then_ok_iff
        expressed_depth [OF len i] split: if_splits)
  have h: "height_change (stack_height t) 0 0 (width (val_ty v) - 1) ?h"
    using room_fits [OF t, of 0 0] ty
    by (auto simp: height_fits_def height_change_def height_steps width_def)
  have pos: "unat ?e = width (val_ty ?v) + length (above ls vs i) + width (val_ty ?v)"
    using unat_local_pos [OF len i] ty by (simp add: above_def)
  have "computes env ?code (type_width (val_ty v) - 1) st (cells ls (v # vs)) (Inr (st, cells (ls[i := v]) (v # vs)))"
    using local_tee_computes [OF pos ty, of env st "wstack (rev (take i ls))"]
      cells_at_local [OF i, of vs] cells_set_local [OF i, of v vs] by (simp add: ty)
  moreover have "length (cells (ls[i := v]) vs) = length (cells ls vs)"
    using cells_at_local [OF i, of vs] cells_set_local [OF i, of v vs] ty by simp
  ultimately show ?thesis
    by (intro exI [of _ ?code] implements_cells [OF t(1) e h, where msh = "type_width (val_ty v) - 1"]) (simp_all add: unat_sub type_width_val width_bounds word_le_nat_alt Suc_le_eq)
qed

section \<open>Wrap, reinterpretations, loads and stores\<close>

lemma wrap_implemented:
  assumes t: "tracks t ls vs" "room ls vs" and t': "visit_i32_wrap_i64 fp t = ok t'"
    and sem: "wasm_unary (on_i64 (\<lambda>a. I32 (ucast a))) st ls vs = Some res"
  shows "implements env t op_i32_wrap_i64 st ls vs res t'"
proof (rule implements_unary [OF t(1) sem, where msh = MSH_I32_WRAP_I64 and m = 0])
  fix v w vs' assume v: "vs = v # vs'" "on_i64 (\<lambda>a. I32 (ucast a)) v = Some w"
  then have ty: "val_ty v = TI64" "val_ty w = TI32" by (auto simp: on_i64_def val_ty_def split: val.splits)
  have "emits t op_i32_wrap_i64 ((map val_ty ls @ rev (map val_ty vs')) @ [val_ty w]) (pop_n 1 (stack_height t)) t'"
    using bumped [OF t' [unfolded visit_i32_wrap_i64_def] tracks_reachable [OF t(1)]] tracks_types [OF t(1)] v ty
    by (auto simp: emits_def same_context_def action_simps butlast_append)
  moreover have "height_change (stack_height t) (width (val_ty v)) (width (val_ty w)) 0 (pop_n 1 (stack_height t))"
    using room_fits [OF t, of 2 0] ty v(1)
    by (auto simp: height_fits_def height_change_def height_steps width_def is_wide_def)
  ultimately show "\<exists>h'. emits t op_i32_wrap_i64 ((map val_ty ls @ rev (map val_ty vs')) @ [val_ty w]) h' t' \<and>
      height_change (stack_height t) (width (val_ty v)) (width (val_ty w)) 0 h'" by blast
next
  fix v w assume "on_i64 (\<lambda>a. I32 (ucast a)) v = Some w"
  then show "computes env op_i32_wrap_i64 MSH_I32_WRAP_I64 st (rev (val_words v)) (Inr (st, rev (val_words w)))"
    using op_i32_wrap_i64_correct [of env] by (auto simp: on_i64_def val_words_def split: val.splits)
qed (simp add: MSH_I32_WRAP_I64_def)

lemma fuel_edit_types [simp]: "fuel_edit (t\<lparr>stack_types := tys\<rparr>) is \<longleftrightarrow> fuel_edit t is"
  by (simp add: fuel_edit_def fuel_instr_def)

lemma reinterpret_implemented:
  assumes t: "tracks t ls vs" "room ls vs" and row: "reinterpretation_row op = (i, out)"
    and t': "visit_reinterpret fp i out t = ok t'"
    and sem: "wasm_unary (reinterpretation_sem op) st ls vs = Some res"
  shows "implements env t [] st ls vs res t'"
proof (rule implements_unary [OF t(1) sem, where msh = 0 and m = 0])
  fix v w vs' assume v: "vs = v # vs'" "reinterpretation_sem op v = Some w"
  then have ty: "val_ty v = i" "val_ty w = out" "width i = width out"
    using row by (cases op; cases v; auto simp: reinterpretation_sem_def reinterpretation_row_def val_ty_def width_def is_wide_def)+
  let ?h = "push_type out (pop_type i (stack_height t))"
  obtain t1 where t1: "bump_fuel (cost_base fp) (t\<lparr>stack_types := butlast (stack_types t)\<rparr>) = ok t1"
    "steps [push_stack_type out, change_height (pop_type i), change_height (push_type out)] t1 = ok t'"
    using t' tracks_reachable [OF t(1)] tracks_types [OF t(1)] v(1)
    by (auto simp: visit_reinterpret_def translate_if_reachable_def drop_stack_type_def pop_stack_type_def and_then_ok_iff)
  have "emits t [] ((map val_ty ls @ rev (map val_ty vs')) @ [val_ty w]) ?h t'"
    using bump_fuel_edits [OF t1(1)] t1(2) tracks_types [OF t(1)] v ty
    by (auto simp: emits_def same_context_def action_simps butlast_append)
  moreover have "height_change (stack_height t) (width (val_ty v)) (width (val_ty w)) 0 ?h"
    using room_fits [OF t, of "width i" 0] ty v(1) type_width_val [of v] type_width_val [of w]
      width_bounds [of i]
    by (auto simp: height_fits_def height_change_def height_steps)
  ultimately show "\<exists>h'. emits t [] ((map val_ty ls @ rev (map val_ty vs')) @ [val_ty w]) h' t' \<and>
      height_change (stack_height t) (width (val_ty v)) (width (val_ty w)) 0 h'" by blast
next
  fix v w assume "reinterpretation_sem op v = Some w"
  then have "val_words v = val_words w"
    by (cases op; cases v) (auto simp: reinterpretation_sem_def val_words_def)
  then show "computes env [] 0 st (rev (val_words v)) (Inr (st, rev (val_words w)))"
    by (auto simp: exec_simps intro!: computes_fwd)
qed simp

lemma implements_result:
  assumes t: "tracks t ls (vin @ vs)"
    and e: "emits t code (map val_ty ls @ rev (map val_ty vs) @ [ty]) h' t'"
    and h: "height_change (stack_height t) (length (wstack vin)) (width ty) m h'"
    and c: "computes env code msh st (wstack vin) (case r of Inl c \<Rightarrow> Inl (c, st) | Inr v \<Rightarrow> Inr (st, rev (val_words v)))"
    and ty: "\<And>v. r = Inr v \<Longrightarrow> val_ty v = ty" and m: "unat msh \<le> m"
  shows "implements env t code st ls (vin @ vs) (push_or_trap st ls vs r) t'"
proof (cases r)
  case (Inl c)
  then show ?thesis using implements_trap [OF e h, of env msh st vin] c m by (simp add: push_or_trap_def)
next
  case (Inr v)
  then show ?thesis
    using implements_stack [OF t, of code "[v]" h' t' m env msh st st] e h c m ty by (simp add: push_or_trap_def)
qed

lemma load_row_types:
  "load_row op off = (ty, code, msh) \<Longrightarrow> load_sem op mem a off' = Some (Inr v) \<Longrightarrow> val_ty v = ty"
  "load_row op off = (ty, code, msh) \<Longrightarrow> load_sem op mem a off' = Some r \<Longrightarrow> ty = TI32 \<or> ty = TI64"
  "load_row op off = (ty, code, msh) \<Longrightarrow> unat msh \<le> 10"
  by (cases op; auto simp: load_row_def load_sem_def i32_load_sem_def i64_load_sem_def val_ty_def wasm_load_def
      MSH_I64_LOAD_def MSH_I64_LOAD8_S_def MSH_I64_LOAD8_U_def MSH_I64_LOAD16_S_def MSH_I64_LOAD16_U_def
      MSH_I64_LOAD32_S_def MSH_I64_LOAD32_U_def split: if_splits)+

lemma load_implemented:
  assumes t: "tracks t ls vs" "room ls vs" and mem: "length (memory_of st) \<le> 2 ^ 31"
    and row: "load_row op off = (ty, code, msh)" and t': "translate_load fp ty code msh t = ok t'"
    and sem: "wasm_load_op op off st ls vs = Some res"
  shows "implements env t code st ls vs res t'"
proof -
  obtain a vs' r where v: "vs = [I32 a] @ vs'" "load_sem op (memory_of st) a off = Some r" "res = push_or_trap st ls vs' r"
    using sem by (auto simp: wasm_load_op_def split: list.splits val.splits)
  obtain w where w: "val_ty w = ty" "is_wide ty \<longleftrightarrow> ty = TI64" "\<not> is_wide ty \<longleftrightarrow> ty = TI32"
    using load_row_types(2) [OF row v(2)] by (auto simp: val_ty_def is_wide_def intro: that [of "I32 0"] that [of "I64 0"])
  obtain h' where e: "emits t code ((map val_ty ls @ rev (map val_ty vs')) @ [ty]) h' t'"
    "height_change (stack_height t) 1 (width ty) (unat msh + width ty - 1) h'"
    using translate_load_emits [of fp w code msh t t' "map val_ty ls @ rev (map val_ty vs')"] t' w(1)
      tracks_reachable [OF t(1)] tracks_types [OF t(1)] v(1) room_fits [OF t, of 1 "unat msh"] load_row_types(3) [OF row]
    by (auto simp: val_ty_def [of "I32 a"] width_def [of TI32] is_wide_def)
  let ?msh = "if ty = TI64 then msh + 1 else msh"
  have c: "computes env code ?msh st (wstack [I32 a]) (case r of Inl c \<Rightarrow> Inl (c, st) | Inr v \<Rightarrow> Inr (st, rev (val_words v)))"
    using row v(2) w i32_load_computes [OF mem, of op off code msh a r env] i64_load_computes [OF mem, of op off code msh a r env]
    by (auto simp: val_words_def)
  have m: "unat ?msh \<le> unat msh + width ty - 1"
    using w load_row_types(3) [OF row] by (auto simp: width_def unat_word_ariths)
  show ?thesis
    unfolding v(1,3)
    by (rule implements_result [OF t(1) [unfolded v(1)] _ _ c _ m, where ty = ty])
      (use e load_row_types(1) [OF row] v(2) in auto)
qed

lemma store_implemented:
  assumes t: "tracks t ls vs" "room ls vs" and mem: "length (memory_of st) \<le> 2 ^ 31"
    and row: "store_row op off = (ty, code, msh)" and t': "translate_store fp code msh t = ok t'"
    and sem: "wasm_store_op op off st ls vs = Some res"
  shows "implements env t code st ls vs res t'"
proof -
  obtain v a vs' bytes where v: "vs = [v, I32 a] @ vs'" "store_sem op v = Some bytes"
    "res = (case wasm_store bytes (memory_of st) a off of
       Inl t \<Rightarrow> Inl (t, st) | Inr mem \<Rightarrow> Inr (with_memory mem st, ls, vs'))"
    using sem by (auto simp: wasm_store_op_def split: list.splits val.splits)
  have msh: "unat msh \<le> 10"
    using row by (cases op) (auto simp: store_row_def MSH_I64_STORE_def)
  obtain h' where e: "emits t code (map val_ty ls @ rev (map val_ty vs')) h' t'"
    and h: "height_change (stack_height t) (width (val_ty v) + 1) 0 (unat msh) h'"
    using translate_store_emits [OF t' tracks_reachable [OF t(1)], of "map val_ty ls @ rev (map val_ty vs')" v]
      tracks_types [OF t(1)] v(1) room_fits [OF t, of "width (val_ty v) + 1" "unat msh"] msh
    by (auto simp: val_ty_def [of "I32 a"] width_def [of TI32] is_wide_def [of TI32])
  have c: "computes env code msh st (wstack [v, I32 a]) (stored st (wasm_store bytes (memory_of st) a off))"
    using store_computes [OF mem row v(2), of env a] by (simp add: val_words_def [of "I32 a"])
  have h: "height_change (stack_height t) (length (wstack [v, I32 a])) (length (wstack [])) (unat msh) h'"
    using h by simp
  show ?thesis
  proof (cases "wasm_store bytes (memory_of st) a off")
    case (Inl tr)
    then show ?thesis
      unfolding v(1,3) using implements_trap [OF e h, of env msh st "[v, I32 a]"] c by (simp add: stored_def)
  next
    case (Inr mem')
    then show ?thesis
      unfolding v(1,3) using implements_stack [OF t(1) [unfolded v(1)] _ h, where code = code and env = env and msh = msh and st = st] e c
      by (simp add: stored_def)
  qed
qed

section \<open>Every operator of the reference\<close>

lemma on_i32_Some: "on_i32 f v = Some w \<longleftrightarrow> (\<exists>a. v = I32 a \<and> w = f a)"
  and on_i64_Some: "on_i64 g v = Some w \<longleftrightarrow> (\<exists>b. v = I64 b \<and> w = g b)"
  and on_i32s_Some: "on_i32s h v v' = Some u \<longleftrightarrow> (\<exists>a b. v = I32 a \<and> v' = I32 b \<and> u = h a b)"
  and on_i64s_Some: "on_i64s k v v' = Some u \<longleftrightarrow> (\<exists>a b. v = I64 a \<and> v' = I64 b \<and> k a b = Some u)"
  by (auto simp: on_i32_def on_i64_def on_i32s_def on_i64s_def split: val.splits)

lemmas on_operands = on_i32_Some on_i64_Some on_i32s_Some on_i64s_Some

lemma val_ty_I [simp]: "val_ty (I32 a) = TI32" "val_ty (I64 b) = TI64"
  by (simp_all add: val_ty_def)

lemma val_words_I [simp]: "val_words (I32 a) = [a]" "val_words (I64 b) = [lo32 b, hi32 b]"
  by (simp_all add: val_words_def)

lemma rows_small:
  "i32_binop_row bop = (code, msh) \<Longrightarrow> unat msh \<le> 60" "i32_relop_row rop = (code, msh) \<Longrightarrow> unat msh \<le> 60"
  "i32_unop_row uop = (code, msh) \<Longrightarrow> unat msh \<le> 60" "i64_unop_row wop = (code, msh) \<Longrightarrow> unat msh \<le> 60"
  "i64_bitop_row bitop = (code, msh) \<Longrightarrow> unat msh \<le> 60" "extension_row eop = (code, msh) \<Longrightarrow> unat msh \<le> 60"
  "int_conversion_row cop = (i, out, code, msh) \<Longrightarrow> unat msh \<le> 60" "unat (snippet_msh s) \<le> 60"
  "unat MSH_I64_EQZ \<le> 60"
proof -
  show "i32_binop_row bop = (code, msh) \<Longrightarrow> unat msh \<le> 60" by (cases bop) (auto simp: i32_binop_row_def)
  show "i32_relop_row rop = (code, msh) \<Longrightarrow> unat msh \<le> 60" by (cases rop) (auto simp: i32_relop_row_def)
  show "i32_unop_row uop = (code, msh) \<Longrightarrow> unat msh \<le> 60" by (cases uop) (auto simp: i32_unop_row_def)
  show "i64_unop_row wop = (code, msh) \<Longrightarrow> unat msh \<le> 60"
    by (cases wop) (auto simp: i64_unop_row_def MSH_I64_CLZ_def MSH_I64_CTZ_def MSH_I64_POPCNT_def)
  show "i64_bitop_row bitop = (code, msh) \<Longrightarrow> unat msh \<le> 60"
    by (cases bitop) (auto simp: i64_bitop_row_def MSH_I64_AND_def MSH_I64_OR_def MSH_I64_XOR_def)
  show "extension_row eop = (code, msh) \<Longrightarrow> unat msh \<le> 60"
    by (cases eop) (auto simp: extension_row_def MSH_I64_EXTEND8_S_def MSH_I64_EXTEND16_S_def MSH_I64_EXTEND32_S_def)
  show "int_conversion_row cop = (i, out, code, msh) \<Longrightarrow> unat msh \<le> 60"
    by (cases cop) (auto simp: int_conversion_row_def MSH_I64_EXTEND_I32_S_def MSH_I64_EXTEND_I32_U_def)
  show "unat (snippet_msh s) \<le> 60"
    by (cases s) (simp_all add: snippet_msh_def definition_of_def define_snippet_def MSH_I64_EQ_def MSH_I64_NE_def
      MSH_I64_LT_S_def MSH_I64_LT_U_def MSH_I64_GT_S_def MSH_I64_GT_U_def MSH_I64_LE_S_def MSH_I64_LE_U_def
      MSH_I64_GE_S_def MSH_I64_GE_U_def MSH_I64_ADD_def MSH_I64_SUB_def MSH_I64_MUL_def MSH_I64_DIV_S_def
      MSH_I64_DIV_U_def MSH_I64_REM_S_def MSH_I64_REM_U_def MSH_I64_SHL_def MSH_I64_SHR_S_def MSH_I64_SHR_U_def
      MSH_I64_ROTL_def MSH_I64_ROTR_def)
  show "unat MSH_I64_EQZ \<le> 60" by (simp add: MSH_I64_EQZ_def)
qed

lemma i32_binop_implemented:
  assumes t: "tracks t ls vs" "room ls vs" and row: "i32_binop_row op = (code, msh)"
    and t': "translate_binary fp code msh t = ok t'"
    and sem: "wasm_binary (on_i32s (\<lambda>a b. map_sum id I32 (i32_binop_sem op a b))) st ls vs = Some res"
  shows "implements env t code st ls vs res t'"
proof (rule binary_implemented [OF t t' sem rows_small(1) [OF row], where ty = TI32])
  fix v w u assume "on_i32s (\<lambda>a b. map_sum id I32 (i32_binop_sem op a b)) v w = Some u"
  then obtain a b where u: "v = I32 a" "w = I32 b" "u = map_sum id I32 (i32_binop_sem op a b)"
    by (auto simp: on_operands)
  show "val_ty v = TI32 \<and> val_ty w = TI32 \<and> (\<forall>x. u = Inr x \<longrightarrow> val_ty x = TI32) \<and>
      computes env code msh st (rev (val_words w) @ rev (val_words v))
        (case u of Inl t \<Rightarrow> Inl (t, st) | Inr u \<Rightarrow> Inr (st, rev (val_words u)))"
    using i32_binop_computes [OF row, of env st b a]
    by (cases "i32_binop_sem op a b") (simp_all add: u)
qed

lemma i32_relop_implemented:
  assumes t: "tracks t ls vs" "room ls vs" and row: "i32_relop_row op = (code, msh)"
    and t': "translate_binary_compare fp code msh t = ok t'"
    and sem: "wasm_binary (on_i32s (\<lambda>a b. Inr (I32 (of_bool (i32_relop_sem op a b))))) st ls vs = Some res"
  shows "implements env t code st ls vs res t'"
proof (rule binary_compare_implemented [OF t t' sem rows_small(2) [OF row]])
  fix v w u assume "on_i32s (\<lambda>a b. Inr (I32 (of_bool (i32_relop_sem op a b)))) v w = Some u"
  then obtain a b where u: "v = I32 a" "w = I32 b" "u = Inr (I32 (of_bool (i32_relop_sem op a b)))"
    by (auto simp: on_operands)
  show "val_ty v = val_ty w \<and> (\<forall>x. u = Inr x \<longrightarrow> val_ty x = TI32) \<and>
      computes env code msh st (rev (val_words w) @ rev (val_words v))
        (case u of Inl t \<Rightarrow> Inl (t, st) | Inr u \<Rightarrow> Inr (st, rev (val_words u)))"
    using i32_relop_computes [OF row, of env st b a] by (simp add: u)
qed

lemma snippet_implemented:
  assumes t: "tracks t ls vs" "room ls vs" and t': "translate_to_snippet_call fp s t = ok t'"
    and sem: "wasm_binary (on_i64s (\<lambda>a b. map_option (map_sum id I64) (i64_binop_sem s a b))) st ls vs = Some res"
  shows "implements env t (emitter s) st ls vs res t'"
proof (rule binary_implemented [OF t _ sem rows_small(8), where ty = TI64])
  show "translate_binary fp (emitter s) (snippet_msh s) t = ok t'"
    using t' t(1) by (simp add: translate_to_snippet_call_def tracks_def)
  fix v w u assume "on_i64s (\<lambda>a b. map_option (map_sum id I64) (i64_binop_sem s a b)) v w = Some u"
  then obtain a b r where u: "v = I64 a" "w = I64 b" "i64_binop_sem s a b = Some r" "u = map_sum id I64 r"
    by (auto simp: on_operands)
  show "val_ty v = TI64 \<and> val_ty w = TI64 \<and> (\<forall>x. u = Inr x \<longrightarrow> val_ty x = TI64) \<and>
      computes env (emitter s) (snippet_msh s) st (rev (val_words w) @ rev (val_words v))
        (case u of Inl t \<Rightarrow> Inl (t, st) | Inr u \<Rightarrow> Inr (st, rev (val_words u)))"
    using snippet_computes [OF u(3), of env st] by (cases r) (simp_all add: u)
qed

lemma i64_bitop_implemented:
  assumes t: "tracks t ls vs" "room ls vs" and row: "i64_bitop_row op = (code, msh)"
    and t': "translate_binary fp code msh t = ok t'"
    and sem: "wasm_binary (on_i64s (\<lambda>a b. Some (Inr (I64 (i64_bitop_sem op a b))))) st ls vs = Some res"
  shows "implements env t code st ls vs res t'"
proof (rule binary_implemented [OF t t' sem rows_small(5) [OF row], where ty = TI64])
  fix v w u assume "on_i64s (\<lambda>a b. Some (Inr (I64 (i64_bitop_sem op a b)))) v w = Some u"
  then obtain a b where u: "v = I64 a" "w = I64 b" "u = Inr (I64 (i64_bitop_sem op a b))"
    by (auto simp: on_operands)
  show "val_ty v = TI64 \<and> val_ty w = TI64 \<and> (\<forall>x. u = Inr x \<longrightarrow> val_ty x = TI64) \<and>
      computes env code msh st (rev (val_words w) @ rev (val_words v))
        (case u of Inl t \<Rightarrow> Inl (t, st) | Inr u \<Rightarrow> Inr (st, rev (val_words u)))"
    using i64_bitop_computes [OF row, of env st b a] by (simp add: u)
qed

lemma tests_implemented:
  assumes t: "tracks t ls vs" "room ls vs"
  shows "visit_i32_eqz fp t = ok t' \<Longrightarrow>
      wasm_unary (on_i32 (\<lambda>a. I32 (of_bool (a = 0)))) st ls vs = Some res \<Longrightarrow> implements env t [I32Eqz] st ls vs res t'"
    and "visit_ref_is_null fp t = ok t' \<Longrightarrow> wasm_unary wasm_is_null st ls vs = Some res \<Longrightarrow>
      implements env t [I32Eqz] st ls vs res t'"
    and "visit_i64_eqz fp t = ok t' \<Longrightarrow>
      wasm_unary (on_i64 (\<lambda>a. I32 (of_bool (a = 0)))) st ls vs = Some res \<Longrightarrow> implements env t op_i64_eqz st ls vs res t'"
proof -
  have eqz: "computes env [I32Eqz] 0 st [a] (Inr (st, [of_bool (a = 0)]))" for a
    by (auto simp: exec_simps intro!: computes_fwd [where r' = 0])
  show "implements env t [I32Eqz] st ls vs res t'"
    if "visit_i32_eqz fp t = ok t'" "wasm_unary (on_i32 (\<lambda>a. I32 (of_bool (a = 0)))) st ls vs = Some res"
    by (rule unary_compare_implemented [OF t that(1) [unfolded visit_i32_eqz_def] that(2)])
      (use eqz in \<open>auto simp: on_operands\<close>)
  show "implements env t [I32Eqz] st ls vs res t'"
    if "visit_ref_is_null fp t = ok t'" "wasm_unary wasm_is_null st ls vs = Some res"
    by (rule unary_compare_implemented [OF t that(1) [unfolded visit_ref_is_null_def visit_i32_eqz_def] that(2)])
      (use eqz in \<open>auto simp: wasm_is_null_def val_words_def split: val.splits\<close>)
  show "implements env t op_i64_eqz st ls vs res t'"
    if "visit_i64_eqz fp t = ok t'" "wasm_unary (on_i64 (\<lambda>a. I32 (of_bool (a = 0)))) st ls vs = Some res"
    by (rule unary_compare_implemented [OF t that(1) [unfolded visit_i64_eqz_def] that(2) rows_small(9)])
      (use op_i64_eqz_correct [of env] in \<open>auto simp: on_operands\<close>)
qed

lemma unops_implemented:
  assumes t: "tracks t ls vs" "room ls vs" and t': "translate_unary fp code msh t = ok t'"
  shows "i32_unop_row op = (code, msh) \<Longrightarrow> wasm_unary (on_i32 (\<lambda>a. I32 (i32_unop_sem op a))) st ls vs = Some res \<Longrightarrow>
      implements env t code st ls vs res t'"
    and "i64_unop_row wop = (code, msh) \<Longrightarrow> wasm_unary (on_i64 (\<lambda>a. I64 (i64_unop_sem wop a))) st ls vs = Some res \<Longrightarrow>
      implements env t code st ls vs res t'"
    and "extension_row eop = (code, msh) \<Longrightarrow> wasm_unary (extension_sem eop) st ls vs = Some res \<Longrightarrow>
      implements env t code st ls vs res t'"
proof -
  show "implements env t code st ls vs res t'"
    if "i32_unop_row op = (code, msh)" "wasm_unary (on_i32 (\<lambda>a. I32 (i32_unop_sem op a))) st ls vs = Some res"
    by (rule unary_implemented [OF t t' that(2) rows_small(3) [OF that(1)]])
      (use i32_unop_computes [OF that(1), of env st] in \<open>auto simp: on_operands\<close>)
  show "implements env t code st ls vs res t'"
    if "i64_unop_row wop = (code, msh)" "wasm_unary (on_i64 (\<lambda>a. I64 (i64_unop_sem wop a))) st ls vs = Some res"
    by (rule unary_implemented [OF t t' that(2) rows_small(4) [OF that(1)]])
      (use i64_unop_computes [OF that(1), of env st] in \<open>auto simp: on_operands\<close>)
  show "implements env t code st ls vs res t'"
    if "extension_row eop = (code, msh)" "wasm_unary (extension_sem eop) st ls vs = Some res"
    by (rule unary_implemented [OF t t' that(2) rows_small(6) [OF that(1)]])
      (use extension_computes [OF that(1)] in blast)
qed

lemma int_conversion_implemented:
  assumes t: "tracks t ls vs" "room ls vs" and row: "int_conversion_row op = (i, out, code, msh)"
    and t': "translate_conversion fp i out code msh t = ok t'"
    and sem: "wasm_unary (conversion_sem op) st ls vs = Some res"
  shows "implements env t code st ls vs res t'"
  by (rule conversion_implemented [OF t t' sem rows_small(7) [OF row]])
    (use conversion_computes [OF row] in blast)

lemma nop_implemented:
  assumes "tracks t ls vs"
  shows "implements env t [] st ls vs (Inr (st, ls, vs)) t"
  using assms
  by (auto simp: implements_def result_words_def tracks_def exec_simps intro!: exI [of _ "instructions t"] computes_fwd)

lemma push_operators:
  assumes t: "tracks t ls vs" "room ls vs"
  shows "visit_i32_const fp a t = ok t' \<Longrightarrow> implements env t [I32Const a] st ls vs (Inr (st, ls, I32 a # vs)) t'"
    and "visit_i64_const fp b t = ok t' \<Longrightarrow> implements env t (op_i64_const b) st ls vs (Inr (st, ls, I64 b # vs)) t'"
    and "visit_f32_const fp a t = ok t' \<Longrightarrow> implements env t [I32Const a] st ls vs (Inr (st, ls, F32 a # vs)) t'"
    and "visit_f64_const fp b t = ok t' \<Longrightarrow> implements env t (op_i64_const b) st ls vs (Inr (st, ls, F64 b # vs)) t'"
    and "Translator_Visits.visit_ref_func fp f t = ok t' \<Longrightarrow>
      implements env t [RefFunc (f + 1)] st ls vs (Inr (st, ls, FuncRef (f + 1) # vs)) t'"
    and "Translator_Visits.visit_memory_size fp t = ok t' \<Longrightarrow>
      implements env t [MemorySize] st ls vs (Inr (st, ls, I32 (current_pages (global_memory st)) # vs)) t'"
    and "visit_ref_null fp ty t = ok t' \<Longrightarrow> wasm_null ty = Some v \<Longrightarrow>
      implements env t [I32Const 0] st ls vs (Inr (st, ls, v # vs)) t'"
proof -
  note rule = push_implemented [OF t]
  show "visit_i32_const fp a t = ok t' \<Longrightarrow> implements env t [I32Const a] st ls vs (Inr (st, ls, I32 a # vs)) t'"
    by (rule rule [of "cost_base fp"]) (simp_all add: push_actions push_computes type_width_def)
  show "visit_i64_const fp b t = ok t' \<Longrightarrow> implements env t (op_i64_const b) st ls vs (Inr (st, ls, I64 b # vs)) t'"
    by (rule rule [of "cost_base fp"]) (simp_all add: push_actions push_computes type_width_def)
  show "visit_f32_const fp a t = ok t' \<Longrightarrow> implements env t [I32Const a] st ls vs (Inr (st, ls, F32 a # vs)) t'"
    by (rule rule [of "cost_base fp"]) (simp_all add: push_actions push_computes type_width_def val_ty_def val_words_def)
  show "visit_f64_const fp b t = ok t' \<Longrightarrow> implements env t (op_i64_const b) st ls vs (Inr (st, ls, F64 b # vs)) t'"
    by (rule rule [of "cost_base fp"]) (simp_all add: push_actions push_computes type_width_def val_ty_def val_words_def)
  show "Translator_Visits.visit_ref_func fp f t = ok t' \<Longrightarrow>
      implements env t [RefFunc (f + 1)] st ls vs (Inr (st, ls, FuncRef (f + 1) # vs)) t'"
    by (rule rule [of "cost_base fp"]) (simp_all add: push_actions push_computes type_width_def val_ty_def val_words_def)
  show "Translator_Visits.visit_memory_size fp t = ok t' \<Longrightarrow>
      implements env t [MemorySize] st ls vs (Inr (st, ls, I32 (current_pages (global_memory st)) # vs)) t'"
    by (rule rule [of "cost_entity fp"]) (simp_all add: push_actions push_computes type_width_def val_ty_def val_words_def)
  show "implements env t [I32Const 0] st ls vs (Inr (st, ls, v # vs)) t'"
    if "visit_ref_null fp ty t = ok t'" "wasm_null ty = Some v"
    using visit_ref_null_ok [OF that(1) tracks_reachable [OF t(1)]] that(2)
    by (intro rule [of "cost_base fp"])
      (auto simp: push_computes type_width_def val_ty_def val_words_def wasm_null_def)
qed

text \<open>One operator, by its case.\<close>

lemma implements_operator:
  assumes t: "tracks t ls vs" "room ls vs" and mem: "length (memory_of st) \<le> 2 ^ 31"
    and sem: "wasm_op op st ls vs = Some res" and t': "visit_operator fp op t = ok t'"
  shows "\<exists>code. implements env t code st ls vs res t'"
proof (cases op)
  case W_nop
  then show ?thesis using assms nop_implemented [OF t(1)] by (auto simp: wasm_op_def visit_operator_def visit_nop_def)
next
  case W_drop
  then show ?thesis
    using sem t' t drop_implemented by (auto simp: wasm_op_def visit_operator_def split: list.splits)
next
  case W_select
  with sem obtain c b a vs' where v: "vs = I32 c # b # a # vs'" "val_ty a = val_ty b"
    "res = Inr (st, ls, (if c \<noteq> 0 then a else b) # vs')"
    by (auto simp: wasm_op_def split: list.splits val.splits if_splits)
  show ?thesis
    unfolding v(1,3) using t' W_select
    by (intro select_implemented [OF t [unfolded v(1)] v(2)]) (simp add: visit_operator_def)
next
  case (W_local_get i)
  then show ?thesis
    using sem t' local_get_implemented [OF t, of "unat i" fp t' env st]
    by (auto simp: wasm_op_def visit_operator_def split: if_splits)
next
  case (W_local_set i)
  then show ?thesis
    using sem t' t local_set_implemented [of t ls _ _ "unat i" fp t' env st]
    by (auto simp: wasm_op_def visit_operator_def split: list.splits if_splits)
next
  case (W_local_tee i)
  then show ?thesis
    using sem t' t local_tee_implemented [of t ls _ _ "unat i" fp t' env st]
    by (auto simp: wasm_op_def visit_operator_def split: list.splits if_splits)
next
  case (W_load lop off)
  obtain ty code msh where row: "load_row lop (ucast off) = (ty, code, msh)"
    by (cases "load_row lop (ucast off)")
  show ?thesis
    using W_load sem t' row load_implemented [OF t mem row, of fp t' res env]
    by (auto simp: wasm_op_def visit_operator_def)
next
  case (W_store sop off)
  obtain ty code msh where row: "store_row sop (ucast off) = (ty, code, msh)"
    by (cases "store_row sop (ucast off)")
  show ?thesis
    using W_store sem t' row store_implemented [OF t mem row, of fp t' res env]
    by (auto simp: wasm_op_def visit_operator_def)
next
  case (W_i32_relop rop)
  then show ?thesis
    using sem t' by (auto simp: wasm_op_def visit_operator_def split: prod.splits) (blast intro: i32_relop_implemented [OF t])
next
  case (W_i32_binop bop)
  then show ?thesis
    using sem t' by (auto simp: wasm_op_def visit_operator_def split: prod.splits) (blast intro: i32_binop_implemented [OF t])
next
  case (W_i32_unop uop)
  then show ?thesis
    using sem t' by (auto simp: wasm_op_def visit_operator_def split: prod.splits) (blast intro: unops_implemented(1) [OF t])
next
  case (W_i64_unop uop)
  then show ?thesis
    using sem t' by (auto simp: wasm_op_def visit_operator_def split: prod.splits) (blast intro: unops_implemented(2) [OF t])
next
  case (W_i64_bitop bop)
  then show ?thesis
    using sem t' by (auto simp: wasm_op_def visit_operator_def split: prod.splits) (blast intro: i64_bitop_implemented [OF t])
next
  case (W_snippet s)
  then show ?thesis
    using sem t' by (auto simp: wasm_op_def visit_operator_def) (blast intro: snippet_implemented [OF t])
next
  case (W_extension eop)
  then show ?thesis
    using sem t' by (auto simp: wasm_op_def visit_operator_def split: prod.splits) (blast intro: unops_implemented(3) [OF t])
next
  case (W_int_conversion cop)
  then show ?thesis
    using sem t' by (auto simp: wasm_op_def visit_operator_def split: prod.splits) (blast intro: int_conversion_implemented [OF t])
next
  case (W_reinterpretation rop)
  then show ?thesis
    using sem t' by (auto simp: wasm_op_def visit_operator_def split: prod.splits) (blast intro: reinterpret_implemented [OF t])
next
  case W_i32_wrap_i64
  then show ?thesis
    using sem t' by (auto simp: wasm_op_def visit_operator_def) (blast intro: wrap_implemented [OF t])
qed (use sem t' in \<open>auto simp: wasm_op_def visit_operator_def pushing_def split: option.splits\<close>,
  (blast intro: push_operators [OF t] tests_implemented [OF t])+)

end
