(* ===== verification/Straight_Line.thy ===== *)
theory Straight_Line
  imports Operator_Refinement
begin

text \<open>
  Sequences of operators without control flow. \<open>extending\<close>: translating such an operator only
  appends code, changes nothing before it but the amount of the block's fuel opcode, and
  never lowers the recorded height. \<open>implements_operators\<close>: the code of a sequence does what
  the reference does, also when it traps on the way.
\<close>

declare split_paired_Ex [simp del] split_paired_All [simp del]

section \<open>Translation only appends\<close>

definition fuel_behind :: "translator \<Rightarrow> bool" where
  "fuel_behind t \<longleftrightarrow> (\<forall>i. fuel_instr t = Some i \<longrightarrow> unat i < length (instructions t))"

text \<open>What the translation of a straight sequence does not touch.\<close>

definition fixed :: "translator \<Rightarrow> label_registry \<times> u32 list \<times> func_type_registry \<times> u32 list \<times> bool \<times> bool" where
  [simp]: "fixed t = (label_reg t, func_offsets t, func_reg t, compiled_funcs t, with_consume_fuel t, reachable t)"

definition extends :: "translator \<Rightarrow> translator \<Rightarrow> bool" where
  "extends t t' \<longleftrightarrow>
     (\<exists>code is. fuel_edit t is \<and> instructions t' = is @ code) \<and> control_frames t' = control_frames t \<and>
     locals_registered t' = locals_registered t \<and> fixed t' = fixed t \<and>
     unat (max_height (stack_height t)) \<le> unat (max_height (stack_height t'))"

definition extending :: "action \<Rightarrow> bool" where
  "extending a \<longleftrightarrow> (\<forall>t t'. fuel_behind t \<longrightarrow> a t = ok t' \<longrightarrow> extends t t')"

lemma extendingI: "(\<And>t t'. fuel_behind t \<Longrightarrow> a t = ok t' \<Longrightarrow> extends t t') \<Longrightarrow> extending a"
  by (simp add: extending_def)

lemma extendingD: "extending a \<Longrightarrow> fuel_behind t \<Longrightarrow> a t = ok t' \<Longrightarrow> extends t t'"
  by (simp add: extending_def)

lemma fuel_edit_length: "fuel_edit t is \<Longrightarrow> length is = length (instructions t)"
  by (auto simp: fuel_edit_def)

lemma fuel_instr_frames: "control_frames t' = control_frames t \<Longrightarrow> fuel_instr t' = fuel_instr t"
  by (simp add: fuel_instr_def)

text \<open>A later edit reaches only what was there at first.\<close>

lemma fuel_edit_later:
  assumes "fuel_behind t" "control_frames t' = control_frames t"
    and "instructions t' = is @ code" "fuel_edit t is" "fuel_edit t' is'"
  shows "\<exists>is''. fuel_edit t is'' \<and> is' = is'' @ code"
proof (cases "is' = instructions t'")
  case True
  then show ?thesis using assms(3,4) by blast
next
  case False
  then obtain i f where i: "fuel_instr t' = Some i" "is' = (instructions t')[unat i := ConsumeFuel f]"
    using assms(5) by (auto simp: fuel_edit_def)
  then have "fuel_instr t = Some i" using fuel_instr_frames [OF assms(2)] by simp
  moreover have "unat i < length is"
    using assms(1) calculation fuel_edit_length [OF assms(4)] by (simp add: fuel_behind_def)
  ultimately show ?thesis
    using assms(3,4) i(2) by (auto simp: list_update_append fuel_edit_def)
qed

lemma extends_behind: "extends t t' \<Longrightarrow> fuel_behind t \<Longrightarrow> fuel_behind t'"
  using fuel_instr_frames [of t' t]
  by (fastforce simp: extends_def fuel_behind_def dest: fuel_edit_length)

lemma extends_trans:
  assumes "fuel_behind t" "extends t t1" "extends t1 t2"
  shows "extends t t2"
proof -
  obtain is1 code1 where 1: "fuel_edit t is1" "instructions t1 = is1 @ code1"
    using assms(2) by (auto simp: extends_def)
  obtain is2 code2 where 2: "fuel_edit t1 is2" "instructions t2 = is2 @ code2"
    using assms(3) by (auto simp: extends_def)
  obtain "is" where "fuel_edit t is" "is2 = is @ code1"
    using fuel_edit_later [OF assms(1) _ 1(2,1) 2(1)] assms(2) by (auto simp: extends_def)
  with 2(2) assms(2,3) show ?thesis by (fastforce simp: extends_def)
qed

lemma extends_refl [simp]: "extends t t"
  by (auto simp: extends_def intro: exI [of _ "[]"])

named_theorems extending "actions that only append"

lemma extending_ok [extending]: "extending ok" "extending (\<lambda>_. panic)" "extending (\<lambda>_. err e)"
  by (auto simp: extending_def)

lemma extending_steps [extending]: "extending (steps [])"
  "extending a \<Longrightarrow> extending (steps as) \<Longrightarrow> extending (steps (a # as))"
proof -
  show "extending (steps (a # as))" if "extending a" "extending (steps as)"
  proof (rule extendingI)
    fix t t' assume t: "fuel_behind t" "steps (a # as) t = ok t'"
    then obtain t1 where "a t = ok t1" "steps as t1 = ok t'" by (auto simp: steps_ok simp del: steps.simps)
    then show "extends t t'"
      using that t(1) by (metis extendingD extends_behind extends_trans)
  qed
qed (simp add: extending_def steps_ok del: steps.simps)

lemma extends_append:
  "instructions t' = instructions t @ code \<Longrightarrow> control_frames t' = control_frames t \<Longrightarrow>
   locals_registered t' = locals_registered t \<Longrightarrow> fixed t' = fixed t \<Longrightarrow>
   unat (max_height (stack_height t)) \<le> unat (max_height (stack_height t')) \<Longrightarrow> extends t t'"
  unfolding extends_def using fuel_edit_refl by blast

lemma extending_emit [extending]: "extending (\<lambda>t. emit (f t) t)" "extending (emit code)"
  by (auto simp: extending_def emit_def intro: extends_append)

lemma extends_context:
  "instructions t' = instructions t \<Longrightarrow> control_frames t' = control_frames t \<Longrightarrow>
   locals_registered t' = locals_registered t \<Longrightarrow> fixed t' = fixed t \<Longrightarrow>
   unat (max_height (stack_height t)) \<le> unat (max_height (stack_height t')) \<Longrightarrow> extends t t'"
  by (rule extends_append [where code = "[]"]) simp_all

lemma max_height_steps:
  "unat (max_height h) \<le> unat (max_height (push_n n h))" "unat (max_height h) \<le> unat (max_height (pop_n n h))"
  by (simp_all add: height_push_pop max_height_push_pop word_le_nat_alt [symmetric])

lemma extending_height [extending]:
  "extending (change_height (push_n n))" "extending (change_height (pop_n n))"
  "extending (change_height (push_type ty))" "extending (change_height (pop_type ty))"
  by (auto simp: extending_def change_height_def push_type_def pop_type_def max_height_steps intro!: extends_context)

lemma extending_types [extending]:
  "extending (push_stack_type ty)" "extending drop_stack_type"
  "(\<And>ty. extending (f ty)) \<Longrightarrow> extending (pop_stack_type f)"
proof -
  have types: "extends t (t\<lparr>stack_types := tys\<rparr>)" for t tys
    by (rule extends_context) simp_all
  then show "extending (push_stack_type ty)" by (auto simp: extending_def push_stack_type_def)
  show pop: "extending (pop_stack_type f)" if "\<And>ty. extending (f ty)" for f
  proof (rule extendingI)
    fix t t' assume t: "fuel_behind t" "pop_stack_type f t = ok t'"
    let ?t1 = "t\<lparr>stack_types := butlast (stack_types t)\<rparr>"
    have "f (last (stack_types t)) ?t1 = ok t'" using t(2) by (auto simp: pop_stack_type_def split: if_splits)
    then show "extends t t'"
      using that extends_trans [OF t(1) types] extendingD extends_behind [OF types t(1)] by blast
  qed
  then show "extending drop_stack_type" by (simp add: drop_stack_type_def extending_ok)
qed

lemma extending_control [extending]:
  "extending a \<Longrightarrow> extending (whenever c a)" "extending a \<Longrightarrow> extending (translate_if_reachable a)"
  "(\<And>x. extending (g x)) \<Longrightarrow> extending (inspecting q g)"
  "extending a \<Longrightarrow> extending b \<Longrightarrow> extending (if c then a else b)"
  by (auto simp: extending_def whenever_def translate_if_reachable_def inspecting_def and_then_ok_iff)

lemma extending_bump_fuel [extending]: "extending (bump_fuel d)"
proof (rule extendingI)
  fix t t' assume "bump_fuel d t = ok t'"
  from bump_fuel_edits [OF this] show "extends t t'"
    by (auto simp: extends_def) (metis append_Nil2)
qed

lemma push_types_steps: "push_types tys = steps (map push_stack_type tys)"
  by (induction tys) auto

lemma extending_pop_push_types [extending]: "extending (pop_types tys)" "extending (push_types tys)"
proof -
  show "extending (pop_types tys)"
    by (induction tys) (simp_all only: pop_types.simps, (intro extending, assumption?)+)
  have "extending (steps (map push_stack_type tys))"
    by (induction tys) (simp_all only: list.map, (intro extending, assumption?)+)
  then show "extending (push_types tys)" by (simp add: push_types_steps)
qed

section \<open>Which operators\<close>

text \<open>Everything but blocks, branches, calls and \<open>unreachable\<close>.\<close>

definition straight :: "operator \<Rightarrow> bool" where
  "straight op = (case op of
     W_unreachable \<Rightarrow> False | W_block _ \<Rightarrow> False | W_loop _ \<Rightarrow> False | W_if _ \<Rightarrow> False | W_else \<Rightarrow> False
   | W_end \<Rightarrow> False | W_br _ \<Rightarrow> False | W_br_if _ \<Rightarrow> False | W_br_table _ _ \<Rightarrow> False | W_return \<Rightarrow> False
   | W_call _ \<Rightarrow> False | W_call_indirect _ _ \<Rightarrow> False | W_return_call _ \<Rightarrow> False
   | W_return_call_indirect _ _ \<Rightarrow> False | _ \<Rightarrow> True)"

lemma extending_shared [extending]:
  "extending (translate_load fp ty code msh)" "extending (translate_store fp code msh)"
  "extending (translate_conversion fp i out code msh)" "extending (visit_reinterpret fp i out)"
  "extending (translate_binary fp code msh)" "extending (translate_binary_compare fp code msh)"
  "extending (translate_unary fp code msh)" "extending (translate_unary_compare fp code msh)"
  unfolding translate_load_def translate_store_def translate_conversion_def visit_reinterpret_def
    translate_binary_def translate_binary_compare_def translate_unary_def translate_unary_compare_def
  by (intro extending)+

lemma extending_snippet [extending]: "extending (translate_to_snippet_call fp s)"
proof (rule extendingI)
  fix t t' assume t: "fuel_behind t" "translate_to_snippet_call fp s t = ok t'"
  have "extending (\<lambda>t. ok (t\<lparr>instructions := instructions t @ [CallInternal SNIPPET_FUNC_IDX_UNRESOLVED],
      snippet_calls := snippet_calls t @ [\<lparr>called_snippet = s, call_loc = isa_loc (instructions t)\<rparr>]\<rparr>))"
    by (auto simp: extending_def intro: extends_append)
  then have "extending (translate_if_reachable (steps
       [bump_fuel (cost_base fp),
        change_height (pop_n (word_of_nat (length (ft_params (snippet_func_type s))))),
        change_height (push_n (word_of_nat (length (ft_results (snippet_func_type s))))),
        pop_types (rev (ft_params (orig_func_type s))),
        push_types (ft_results (orig_func_type s)),
        (\<lambda>t. ok (t\<lparr>instructions := instructions t @ [CallInternal SNIPPET_FUNC_IDX_UNRESOLVED],
           snippet_calls := snippet_calls t @
             [\<lparr>called_snippet = s, call_loc = isa_loc (instructions t)\<rparr>]\<rparr>))]))"
    by (intro extending)
  with t show "extends t t'"
    using extendingD [OF extending_shared(5) t(1)]
    by (auto simp: translate_to_snippet_call_def extending_def split: if_splits)
qed

lemmas visit_defs = visit_nop_def visit_drop_def visit_select_def visit_typed_select_def visit_local_get_def
  visit_local_set_def visit_local_tee_def visit_global_get_def visit_global_set_def visit_i32_const_def
  visit_i64_const_def visit_f32_const_def visit_f64_const_def visit_ref_null_def visit_i32_eqz_def
  visit_i64_eqz_def visit_ref_is_null_def visit_ref_func_def visit_i32_wrap_i64_def visit_memory_size_def
  visit_memory_grow_def visit_memory_init_def visit_data_drop_def visit_memory_copy_def visit_memory_fill_def
  visit_table_init_def visit_elem_drop_def visit_table_copy_def visit_table_fill_def visit_table_get_def
  visit_table_set_def visit_table_grow_def visit_table_size_def visit_unsupported_def
  spare_cells_def pop_three_types_def

lemma extending_visits [extending]:
  "extending visit_nop" "extending Translator_Visits.visit_drop" "extending (Translator_Visits.visit_select fp)"
  "extending (visit_typed_select fp ty)" "extending (Translator_Visits.visit_local_get fp i)"
  "extending (Translator_Visits.visit_local_set fp i)" "extending (Translator_Visits.visit_local_tee fp i)"
  "extending (Translator_Visits.visit_global_get fp i)" "extending (Translator_Visits.visit_global_set fp i)"
  "extending (visit_i32_const fp a)" "extending (visit_i64_const fp b)" "extending (visit_f32_const fp a)"
  "extending (visit_f64_const fp b)" "extending (visit_ref_null fp ty)" "extending (visit_i32_eqz fp)"
  "extending (visit_i64_eqz fp)" "extending (visit_ref_is_null fp)"
  "extending (Translator_Visits.visit_ref_func fp f)" "extending (visit_i32_wrap_i64 fp)"
  unfolding visit_defs by (intro extending)+

lemma extending_memory_visits [extending]:
  "extending (Translator_Visits.visit_memory_size fp)" "extending (Translator_Visits.visit_memory_grow fp i)"
  "extending (Translator_Visits.visit_memory_init fp i)" "extending (Translator_Visits.visit_data_drop fp i)"
  "extending (Translator_Visits.visit_memory_copy fp)" "extending (Translator_Visits.visit_memory_fill fp)"
  "extending (Translator_Visits.visit_table_init fp i j)" "extending (Translator_Visits.visit_elem_drop fp i)"
  "extending (Translator_Visits.visit_table_copy fp i j)" "extending (Translator_Visits.visit_table_fill fp i)"
  "extending (Translator_Visits.visit_table_get fp i)" "extending (Translator_Visits.visit_table_set fp i)"
  "extending (Translator_Visits.visit_table_grow fp i)" "extending (Translator_Visits.visit_table_size fp i)"
  "extending visit_unsupported"
  unfolding visit_defs by (intro extending | simp only: split_def Let_def)+

lemma extending_operator:
  assumes "straight op"
  shows "extending (visit_operator fp op)"
  using assms
  by (cases op) (simp_all add: straight_def visit_operator_def extending split_def)

section \<open>Sequences\<close>

fun visit_operators :: "fuel_policy \<Rightarrow> operator list \<Rightarrow> action" where
  "visit_operators fp [] = ok"
| "visit_operators fp (op # ops) = (\<lambda>t. and_then (visit_operator fp op t) (visit_operators fp ops))"

lemma visit_operators_Cons_ok:
  "visit_operators fp (op # ops) t = ok t' \<longleftrightarrow>
   (\<exists>t1. visit_operator fp op t = ok t1 \<and> visit_operators fp ops t1 = ok t')"
  by (auto simp: and_then_ok_iff)

lemma extending_operators: "list_all straight ops \<Longrightarrow> extending (visit_operators fp ops)"
proof (induction ops)
  case (Cons op ops)
  then have ex: "extending (visit_operator fp op)" "extending (visit_operators fp ops)"
    by (simp_all add: extending_operator)
  show ?case
  proof (rule extendingI)
    fix t t' assume t: "fuel_behind t" "visit_operators fp (op # ops) t = ok t'"
    obtain t1 where t1: "visit_operator fp op t = ok t1" "visit_operators fp ops t1 = ok t'"
      using t(2) unfolding visit_operators_Cons_ok by blast
    note one = extendingD [OF ex(1) t(1) t1(1)]
    show "extends t t'"
      by (rule extends_trans [OF t(1) one extendingD [OF ex(2) extends_behind [OF one t(1)] t1(2)]])
  qed
qed (simp add: extending_ok)

text \<open>What an operator can push, and the memory it leaves.\<close>

lemma wstack_set_local:
  "i < length ls \<Longrightarrow> val_ty v = val_ty (ls ! i) \<Longrightarrow> length (cells (ls[i := v]) vs) = length (cells ls vs)"
  using cells_at_local [of i ls vs] cells_set_local [of i ls v vs] by simp

lemma width_le: "width ty \<le> 2" "width ty \<le> 2 + n" "width ty \<le> Suc (Suc n)"
  using width_bounds(2) [of ty] by simp_all

definition modest :: "'h store \<Rightarrow> val list \<Rightarrow> val list \<Rightarrow> 'h store \<times> val list \<times> val list \<Rightarrow> bool" where
  "modest st ls vs res = (case res of (st', ls', vs') \<Rightarrow>
     length (memory_of st') = length (memory_of st) \<and> length (cells ls' vs') \<le> length (cells ls vs) + 2)"

lemma push_or_trap_modest:
  assumes "push_or_trap st ls vs r = Inr res" and "length (wstack vs) \<le> length (wstack vs0)"
  shows "modest st ls vs0 res"
proof -
  obtain v where "res = (st, ls, v # vs)" using assms(1) by (auto simp: push_or_trap_def split: sum.splits)
  then show ?thesis using assms(2) width_bounds(2) [of "val_ty v"] by (simp add: modest_def cells_def)
qed

lemma wasm_modest:
  "pushing st ls vs v = Some (Inr res) \<Longrightarrow> modest st ls vs res"
  "wasm_unary f st ls vs = Some (Inr res) \<Longrightarrow> modest st ls vs res"
  "wasm_binary g st ls vs = Some (Inr res) \<Longrightarrow> modest st ls vs res"
  "wasm_load_op lop off st ls vs = Some (Inr res) \<Longrightarrow> modest st ls vs res"
  "wasm_store_op sop off st ls vs = Some (Inr res) \<Longrightarrow> modest st ls vs res"
proof -
  have push: "modest st ls vs0 (st, ls, v # vs)" if "length (wstack vs) \<le> length (wstack vs0)" for v vs vs0
    using that push_or_trap_modest [of st ls vs "Inr v"] by (simp add: push_or_trap_def)
  show "modest st ls vs res" if "pushing st ls vs v = Some (Inr res)"
    using that push by (auto simp: pushing_def)
  show "modest st ls vs res" if "wasm_unary f st ls vs = Some (Inr res)"
    using that push by (auto simp: wasm_unary_def pushing_def split: list.splits option.splits)
  show "modest st ls vs res" if "wasm_binary g st ls vs = Some (Inr res)"
    using that by (auto simp: wasm_binary_def split: list.splits intro: push_or_trap_modest)
  show "modest st ls vs res" if "wasm_load_op lop off st ls vs = Some (Inr res)"
    using that by (auto simp: wasm_load_op_def split: list.splits val.splits intro: push_or_trap_modest)
  show "modest st ls vs res" if sem: "wasm_store_op sop off st ls vs = Some (Inr res)"
  proof -
    obtain v a vs' bytes where v: "vs = v # I32 a # vs'" "(case wasm_store bytes (memory_of st) a off of
        Inl t \<Rightarrow> Inl (t, st) | Inr mem \<Rightarrow> Inr (with_memory mem st, ls, vs')) = Inr res"
      using sem by (auto simp: wasm_store_op_def split: list.splits val.splits)
    then obtain mem where mem: "wasm_store bytes (memory_of st) a off = Inr mem" "res = (with_memory mem st, ls, vs')"
      by (auto split: sum.splits)
    then have "length mem = length (memory_of st)"
      by (auto simp: wasm_store_def in_memory_def split: if_splits)
    then show ?thesis using v(1) mem(2) by (simp add: modest_def memory_of_def with_memory_def)
  qed
qed

lemma wasm_op_modest:
  assumes sem: "wasm_op op st ls vs = Some (Inr res)"
  shows "modest st ls vs res"
proof (cases op)
  case W_nop
  then show ?thesis using sem by (auto simp: wasm_op_def modest_def)
next
  case W_drop
  then show ?thesis using sem by (auto simp: wasm_op_def modest_def split: list.splits)
next
  case W_select
  then show ?thesis
    using sem by (auto simp: wasm_op_def modest_def split: list.splits val.splits if_splits)
next
  case (W_local_get i)
  then show ?thesis using sem by (auto simp: wasm_op_def modest_def width_le split: if_splits)
next
  case (W_local_set i)
  then show ?thesis using sem by (auto simp: wasm_op_def modest_def wstack_set_local split: list.splits if_splits)
next
  case (W_local_tee i)
  then show ?thesis using sem by (auto simp: wasm_op_def modest_def wstack_set_local split: list.splits if_splits)
qed (use sem in \<open>auto simp: wasm_op_def split: option.splits intro: wasm_modest\<close>)

text \<open>One fragment after the other, and what is translated behind a trap.\<close>

lemma appended_code:
  assumes "fuel_behind t" "control_frames t1 = control_frames t"
    and "\<exists>is. fuel_edit t is \<and> instructions t1 = is @ code1" "\<exists>is. fuel_edit t1 is \<and> instructions t2 = is @ code2"
  shows "\<exists>is. fuel_edit t is \<and> instructions t2 = is @ (code1 @ code2)"
proof -
  obtain is1 is2 where edits: "fuel_edit t is1" "instructions t1 = is1 @ code1"
    "fuel_edit t1 is2" "instructions t2 = is2 @ code2"
    using assms(3,4) by blast
  obtain "is" where "fuel_edit t is" "is2 = is @ code1"
    using fuel_edit_later [OF assms(1,2) edits(2,1,3)] by (elim exE conjE)
  then show ?thesis using edits(4) by auto
qed

lemma computes_need:
  assumes "computes env code (max_height h1 - height h) st ins res"
    and "unat (max_height h1) \<le> unat (max_height h2)" "unat (height h) \<le> unat (max_height h1)"
  shows "computes env code (max_height h2 - height h) st ins res"
  by (rule computes_mono [OF assms(1)]) (use assms(2,3) in \<open>simp add: unat_sub word_le_nat_alt\<close>)

lemma implements_then_trap:
  assumes t: "fuel_behind t" and c: "implements env t code st ls vs (Inl e) t1" and ex: "extends t1 t2"
  shows "\<exists>code. implements env t code st ls vs (Inl e) t2"
proof -
  obtain code2 where code2: "\<exists>is. fuel_edit t1 is \<and> instructions t2 = is @ code2"
    using ex by (auto simp: extends_def)
  obtain tr st' where e: "e = (tr, st')" by (cases e)
  have "computes env (code @ code2) (max_height (stack_height t2) - height (stack_height t)) st (cells ls vs) (Inl e)"
    unfolding e
  proof (rule computes_append_trap, rule computes_need [of env code "stack_height t1"])
    show "computes env code (max_height (stack_height t1) - height (stack_height t)) st (cells ls vs) (Inl (tr, st'))"
      using c by (simp add: implements_def result_words_def e)
    show "unat (height (stack_height t)) \<le> unat (max_height (stack_height t1))"
      using c by (simp add: implements_def)
    show "unat (max_height (stack_height t1)) \<le> unat (max_height (stack_height t2))"
      using ex by (simp add: extends_def)
  qed
  then show ?thesis
    using appended_code [OF t _ _ code2, of code] c ex
    by (intro exI [of _ "code @ code2"]) (auto simp: implements_def extends_def result_words_def)
qed

lemma implements_append:
  assumes t: "fuel_behind t" "tracks t ls vs" and c1: "implements env t code1 st ls vs (Inr (st1, ls1, vs1)) t1"
    and c2: "implements env t1 code2 st1 ls1 vs1 res t2"
  shows "implements env t (code1 @ code2) st ls vs res t2"
proof -
  note d1 = c1 [unfolded implements_def] and d2 = c2 [unfolded implements_def]
  have tr: "tracks t1 ls1 vs1" using d1 by simp
  have a: "computes env code1 (max_height (stack_height t2) - height (stack_height t)) st (cells ls vs)
      (Inr (st1, cells ls1 vs1))"
    by (rule computes_need [of env code1 "stack_height t1"]) (use d1 d2 in \<open>simp_all add: result_words_def\<close>)
  have "unat (height (stack_height t)) + length (cells ls1 vs1) =
      unat (height (stack_height t1)) + length (cells ls vs)"
    using t(2) tr d1 by (simp add: tracks_def)
  then have "computes env (code1 @ code2) (max_height (stack_height t2) - height (stack_height t)) st (cells ls vs)
      (result_words res)"
    using d1 d2 by (intro computes_append [OF a]) (auto simp: unat_sub word_le_nat_alt)
  then show ?thesis
    using appended_code [OF t(1), of t1 code1 t2 code2] d1 d2 by (auto simp: implements_def)
qed

text \<open>The operators one after the other.\<close>

lemma implements_operators:
  assumes t: "tracks t ls vs" "fuel_behind t" and straight: "list_all straight ops"
    and room: "length (cells ls vs) + 2 * length ops + 64 < 2 ^ 32" and mem: "length (memory_of st) \<le> 2 ^ 31"
    and sem: "wasm_ops ops st ls vs = Some res" and t': "visit_operators fp ops t = ok t'"
  shows "\<exists>code. implements env t code st ls vs res t'"
  using assms
proof (induction ops arbitrary: t ls vs st)
  case Nil
  then show ?case using nop_implemented [of t ls vs env st] by auto
next
  case (Cons op ops)
  obtain t1 where t1: "visit_operator fp op t = ok t1" "visit_operators fp ops t1 = ok t'"
    using Cons.prems(7) by (auto simp: visit_operators_Cons_ok simp del: visit_operators.simps)
  obtain res1 where res1: "wasm_op op st ls vs = Some res1" using Cons.prems(6) by (auto split: option.splits)
  obtain code1 where c1: "implements env t code1 st ls vs res1 t1"
    using implements_operator [OF Cons.prems(1) _ Cons.prems(5) res1 t1(1)] Cons.prems(4) by (auto simp: room_def)
  have ex1: "extends t t1"
    using extendingD [OF extending_operator Cons.prems(2) t1(1)] Cons.prems(3) by simp
  note behind = extends_behind [OF ex1 Cons.prems(2)]
  show ?case
  proof (cases res1)
    case (Inl e)
    have "extends t1 t'"
      using extendingD [OF extending_operators behind t1(2)] Cons.prems(3) by simp
    moreover have "res = Inl e" using Cons.prems(6) res1 Inl by simp
    ultimately show ?thesis using implements_then_trap [OF Cons.prems(2) c1 [unfolded Inl]] by blast
  next
    case (Inr r1)
    obtain st1 ls1 vs1 where r1: "r1 = (st1, ls1, vs1)" by (cases r1)
    have next_sem: "wasm_ops ops st1 ls1 vs1 = Some res" using Cons.prems(6) res1 Inr r1 by simp
    have modest: "modest st ls vs (st1, ls1, vs1)" using wasm_op_modest res1 Inr r1 by blast
    have tr1: "tracks t1 ls1 vs1" using c1 by (simp add: implements_def Inr r1)
    obtain code2 where c2: "implements env t1 code2 st1 ls1 vs1 res t'"
      using Cons.IH [OF tr1 behind _ _ _ next_sem t1(2)] modest Cons.prems(3,4,5) by (auto simp: modest_def)
    show ?thesis
      using implements_append [OF Cons.prems(2,1) c1 [unfolded Inr r1] c2] by blast
  qed
qed

end
