(* ===== verification/Block_Fuel.thy ===== *)
theory Block_Fuel
  imports Isa_Init Instruction_Set
begin

text \<open>
  The fuel that the trampoline of an imported function charges before the call
  (\<open>src/compiler/block_fuel.rs\<close>): nothing, a constant, an amount linear in the words of a length
  parameter, or one with a quadratic part. The lengths are read from the parameters of the
  function, which are on top of the value stack.
  \<open>compile_block_params_charges\<close> runs the emitted code; \<open>linear_charge_exact\<close> and
  \<open>quadratic_charge_exact\<close> say when the 32-bit arithmetic of the charge does not wrap.
\<close>

definition word_count_of :: "u32 \<Rightarrow> opcode list" where
  "word_count_of depth = [LocalGet depth, I32Const 31, I32Add, I32Const 32, I32DivU]"

definition length_guard :: "u32 \<Rightarrow> u32 \<Rightarrow> opcode list" where
  "length_guard depth limit =
     [LocalGet depth, I32Const limit, I32GtU, BrIfEqz 2, Trap IntegerOverflow]"

definition compile_block_params :: "fuel_policy \<Rightarrow> syscall_fuel_params \<Rightarrow> instruction_set \<Rightarrow> instruction_set" where
  "compile_block_params fp p is = is @
     (case p of
        FuelNone \<Rightarrow> []
      | FuelConst base \<Rightarrow> [ConsumeFuel (ucast base)]
      | LinearFuel param base cost \<Rightarrow>
          length_guard param (fuel_max_linear_x fp) @
          word_count_of param @ [I32Const cost, I32Mul] @
          (if base \<noteq> 0 then [I32Const base, I32Add] else []) @
          [ConsumeFuelStack]
      | QuadraticFuel depth cost dv rate \<Rightarrow>
          length_guard depth (fuel_max_quadratic_x fp) @
          word_count_of depth @ [I32Const cost, I32Mul] @
          word_count_of (depth + 1) @
          word_count_of (depth + 2) @
          [I32Mul, I32Const dv, I32DivU, I32Add, I32Const rate, I32Mul, ConsumeFuelStack])"

section \<open>The charge\<close>

definition words_in :: "u32 \<Rightarrow> u32" where
  "words_in x = (x + 31) div 32"

definition param_at :: "u32 \<Rightarrow> u32 list \<Rightarrow> u32 option" where
  "param_at depth ins = (if 0 < unat depth \<and> unat depth \<le> length ins then Some (ins ! (unat depth - 1)) else None)"

definition linear_charge :: "u32 \<Rightarrow> u32 \<Rightarrow> u32 \<Rightarrow> u32" where
  "linear_charge base cost x = words_in x * cost + base"

definition quadratic_charge :: "u32 \<Rightarrow> u32 \<Rightarrow> u32 \<Rightarrow> u32 \<Rightarrow> u32" where
  "quadratic_charge cost dv rate x = (words_in x * cost + words_in x * words_in x div dv) * rate"

text \<open>What is charged for the parameters \<open>ins\<close>: a trap, nothing, or an amount.\<close>

definition block_charge :: "fuel_policy \<Rightarrow> syscall_fuel_params \<Rightarrow> u32 list \<Rightarrow> (trap_code + u32 option) option" where
  "block_charge fp p ins = (case p of
     FuelNone \<Rightarrow> Some (Inr None)
   | FuelConst base \<Rightarrow> Some (Inr (Some (ucast base)))
   | LinearFuel param base cost \<Rightarrow> do { x \<leftarrow> param_at param ins;
       Some (if x > fuel_max_linear_x fp then Inl IntegerOverflow else Inr (Some (linear_charge base cost x))) }
   | QuadraticFuel depth cost dv rate \<Rightarrow> do { x \<leftarrow> param_at depth ins;
       Some (if x > fuel_max_quadratic_x fp then Inl IntegerOverflow
             else if dv = 0 then Inl IntegerDivisionByZero
             else Inr (Some (quadratic_charge cost dv rate x))) })"

definition charged_block ::
  "trap_code + u32 option \<Rightarrow> 'h store \<Rightarrow> u32 list \<Rightarrow> (trap_code \<times> 'h store) + ('h store \<times> u32 list)" where
  "charged_block c st ins = (case c of
     Inl t \<Rightarrow> Inl (t, st)
   | Inr None \<Rightarrow> Inr (st, ins)
   | Inr (Some n) \<Rightarrow> (case try_consume_fuel (ucast n) st of Inl t \<Rightarrow> Inl (t, st) | Inr st' \<Rightarrow> Inr (st', ins)))"

lemma fwd_div_u [exec_simps]:
  "fwd (I32DivU # c) st (b # a # s) r =
    (if b = 0 then Trapping IntegerDivisionByZero st else fwd c st (a div b # s) (r + 1))"
  by (simp add: fwd_unfold i32_div_u_def int_div_u_def)

lemmas block_code = compile_block_params_def length_guard_def word_count_of_def

lemma compile_block_params_charges:
  assumes c: "block_charge fp p ins = Some c" and len: "length ins < 2 ^ 31"
  shows "computes env (compile_block_params fp p []) 4 st ins (charged_block c st ins)"
proof (cases p)
  case FuelNone
  with c show ?thesis
    by (intro computes_result) (auto simp: block_code block_charge_def charged_block_def exec_simps)
next
  case (FuelConst base)
  with c show ?thesis
    by (intro computes_result)
      (auto simp: block_code block_charge_def charged_block_def exec_simps split: sum.split)
next
  case (LinearFuel param base cost)
  with c show ?thesis
    by (intro computes_result)
      (auto simp: block_code block_charge_def charged_block_def param_at_def linear_charge_def words_in_def
        exec_simps jump_def split: sum.split if_splits)
next
  case (QuadraticFuel depth cost dv rate)
  then have d: "0 < unat depth" "unat depth \<le> length ins"
    using c by (auto simp: block_charge_def param_at_def bind_eq_Some_conv split: if_splits)
  then have next_depth: "unat (depth + 1) = unat depth + 1" "unat (depth + 2) = unat depth + 2"
    using len by (simp_all add: unat_word_ariths)
  from QuadraticFuel c d show ?thesis
    by (intro computes_result)
      (auto simp: block_code block_charge_def charged_block_def param_at_def quadratic_charge_def words_in_def
        next_depth exec_simps jump_def split: sum.split if_splits)
qed

text \<open>The charge as a number, when its 32-bit arithmetic does not wrap.\<close>

definition word_total :: "nat \<Rightarrow> nat" where
  "word_total n = (n + 31) div 32"

lemma unat_words_in: "unat x + 31 < 2 ^ 32 \<Longrightarrow> unat (words_in x) = word_total (unat x)"
  by (simp add: words_in_def word_total_def unat_div unat_word_ariths)

lemma linear_charge_exact:
  assumes "unat x + 31 < 2 ^ 32" and "word_total (unat x) * unat w + unat base < 2 ^ 32"
  shows "unat (linear_charge base w x) = word_total (unat x) * unat w + unat base"
  using assms unat_words_in [OF assms(1)] by (simp add: linear_charge_def unat_word_ariths)

lemma quadratic_charge_exact:
  assumes "unat x + 31 < 2 ^ 32" and "word_total (unat x) ^ 2 < 2 ^ 32"
    and sum: "(word_total (unat x) * unat w + word_total (unat x) ^ 2 div unat dv) * unat rate < 2 ^ 32" "0 < rate"
  shows "unat (quadratic_charge w dv rate x) =
    (word_total (unat x) * unat w + word_total (unat x) ^ 2 div unat dv) * unat rate"
proof -
  have "1 \<le> unat rate" using sum(2) by (simp add: word_less_nat_alt)
  then have "n \<le> n * unat rate" for n by (cases "unat rate") auto
  then have "word_total (unat x) * unat w + word_total (unat x) ^ 2 div unat dv < 2 ^ 32"
    using le_less_trans [OF _ sum(1)] by blast
  then show ?thesis
    using assms unat_words_in [OF assms(1)]
    by (simp add: quadratic_charge_def unat_word_ariths unat_div power2_eq_square)
qed

end
