(* ===== verification/Compiled_Expr.thy ===== *)
theory Compiled_Expr
  imports Translator_Visits
begin

text \<open>
  Constant expressions (\<open>src/compiler/compiled_expr.rs\<close>): the initialisers of globals and the
  offsets of segments are compiled from their operators to a tree and evaluated with the globals
  and functions known so far. Values are \<open>i64\<close>, here \<open>u64\<close> words; the closure of a compound
  expression is a function of the context. The operators are those that the reader yields; a
  missing end, an operand that is missing and an operator that is not constant panic.

  \<open>compiled_expr_evaluates\<close>: for an expression that a typed stack machine evaluates, the compiled
  one has the same value, 32-bit results in the low word.
\<close>

section \<open>The tree\<close>

record eval_context =
  get_global :: "u32 \<Rightarrow> val option"
  get_func :: "u32 \<Rightarrow> u32 option"

definition empty_eval_context :: eval_context where
  "empty_eval_context = \<lparr>get_global = (\<lambda>_. None), get_func = (\<lambda>_. None)\<rparr>"

datatype const_op =
    OpConst u64
  | OpGlobal u32
  | OpFuncRef u32
  | OpExpr "eval_context \<Rightarrow> u64 option"

text \<open>A global's value as \<open>i64\<close>, and a constant's: they extend floats and references differently.\<close>

definition global_bits :: "val \<Rightarrow> u64" where
  "global_bits v = (case v of
     I32 x \<Rightarrow> scast x | I64 x \<Rightarrow> x | F32 x \<Rightarrow> ucast x | F64 x \<Rightarrow> x
   | FuncRef x \<Rightarrow> scast x | ExternRef x \<Rightarrow> scast x)"

definition op_constant :: "val \<Rightarrow> const_op" where
  "op_constant v = OpConst (case v of
     I32 x \<Rightarrow> scast x | I64 x \<Rightarrow> x | F32 x \<Rightarrow> scast x | F64 x \<Rightarrow> x
   | FuncRef x \<Rightarrow> ucast x | ExternRef x \<Rightarrow> ucast x)"

definition eval_op :: "const_op \<Rightarrow> eval_context \<Rightarrow> u64 option" where
  "eval_op op ctx = (case op of
     OpConst v \<Rightarrow> Some v
   | OpGlobal i \<Rightarrow> map_option global_bits (get_global ctx i)
   | OpFuncRef i \<Rightarrow> map_option ucast (get_func ctx i)
   | OpExpr f \<Rightarrow> f ctx)"

definition expr_of :: "(u64 \<Rightarrow> u64 \<Rightarrow> u64) \<Rightarrow> const_op \<Rightarrow> const_op \<Rightarrow> const_op" where
  "expr_of f lhs rhs = OpExpr (\<lambda>ctx. do { l \<leftarrow> eval_op lhs ctx; r \<leftarrow> eval_op rhs ctx; Some (f l r) })"

section \<open>Compilation\<close>

definition expr_op :: "(u64 \<Rightarrow> u64 \<Rightarrow> u64) \<Rightarrow> const_op list \<Rightarrow> const_op list option" where
  "expr_op f stack = (case stack of rhs # lhs # rest \<Rightarrow> Some (expr_of f lhs rhs # rest) | _ \<Rightarrow> None)"

definition narrow :: "(u32 \<Rightarrow> u32 \<Rightarrow> u32) \<Rightarrow> u64 \<Rightarrow> u64 \<Rightarrow> u64" where
  "narrow f a b = scast (f (ucast a) (ucast b))"

definition compile_step :: "operator \<Rightarrow> const_op list \<Rightarrow> const_op list option" where
  "compile_step op stack = (case op of
     W_i32_const v \<Rightarrow> Some (op_constant (I32 v) # stack)
   | W_i64_const v \<Rightarrow> Some (op_constant (I64 v) # stack)
   | W_f32_const v \<Rightarrow> Some (op_constant (F32 v) # stack)
   | W_f64_const v \<Rightarrow> Some (op_constant (F64 v) # stack)
   | W_global_get i \<Rightarrow> Some (OpGlobal i # stack)
   | W_ref_null ty \<Rightarrow>
       (case ty of
          TFuncRef \<Rightarrow> Some (op_constant (FuncRef NULL_FUNC_IDX) # stack)
        | TExternRef \<Rightarrow> Some (op_constant (ExternRef NULL_FUNC_IDX) # stack)
        | _ \<Rightarrow> None)
   | W_ref_func i \<Rightarrow> Some (OpFuncRef i # stack)
   | W_i32_binop W_i32_add \<Rightarrow> expr_op (narrow (+)) stack
   | W_i32_binop W_i32_sub \<Rightarrow> expr_op (narrow (-)) stack
   | W_i32_binop W_i32_mul \<Rightarrow> expr_op (narrow (*)) stack
   | W_snippet I64Add \<Rightarrow> expr_op (+) stack
   | W_snippet I64Sub \<Rightarrow> expr_op (-) stack
   | W_snippet I64Mul \<Rightarrow> expr_op (*) stack
   | _ \<Rightarrow> None)"

fun compile_const_ops :: "operator list \<Rightarrow> const_op list \<Rightarrow> const_op option" where
  "compile_const_ops [] stack = None"
| "compile_const_ops (op # ops) stack =
     (if op = W_end then (case (ops, stack) of ([], [e]) \<Rightarrow> Some e | _ \<Rightarrow> None)
      else do { stack \<leftarrow> compile_step op stack; compile_const_ops ops stack })"

text \<open>\<open>CompiledExpr::new\<close>.\<close>

definition compiled_expr :: "operator list \<Rightarrow> const_op option" where
  "compiled_expr ops = compile_const_ops ops []"

definition expr_funcref :: "const_op \<Rightarrow> u32 option" where
  "expr_funcref e = (case e of OpFuncRef i \<Rightarrow> Some i | _ \<Rightarrow> None)"

definition expr_global :: "const_op \<Rightarrow> u32 option" where
  "expr_global e = (case e of OpGlobal i \<Rightarrow> Some i | _ \<Rightarrow> None)"

definition expr_zero :: const_op where "expr_zero = OpConst 0"
definition expr_from_const :: "u64 \<Rightarrow> const_op" where "expr_from_const v = OpConst v"
definition expr_new_funcref :: "u32 \<Rightarrow> const_op" where "expr_new_funcref i = OpFuncRef i"

definition expr_eval_const :: "const_op \<Rightarrow> u64 option" where
  "expr_eval_const e = eval_op e empty_eval_context"

definition eval_with_context :: "(u32 \<Rightarrow> val option) \<Rightarrow> (u32 \<Rightarrow> u32 option) \<Rightarrow> const_op \<Rightarrow> u64 option" where
  "eval_with_context global_get func_get e = eval_op e \<lparr>get_global = global_get, get_func = func_get\<rparr>"

section \<open>A typed reference\<close>

text \<open>The stack machine of the WebAssembly text: values carry their types.\<close>

definition push_const :: "val option \<Rightarrow> val list \<Rightarrow> val list option" where
  "push_const v vs = map_option (\<lambda>v. v # vs) v"

definition ref_i32 :: "(u32 \<Rightarrow> u32 \<Rightarrow> u32) \<Rightarrow> val list \<Rightarrow> val list option" where
  "ref_i32 f vs = (case vs of I32 b # I32 a # rest \<Rightarrow> Some (I32 (f a b) # rest) | _ \<Rightarrow> None)"

definition ref_i64 :: "(u64 \<Rightarrow> u64 \<Rightarrow> u64) \<Rightarrow> val list \<Rightarrow> val list option" where
  "ref_i64 f vs = (case vs of I64 b # I64 a # rest \<Rightarrow> Some (I64 (f a b) # rest) | _ \<Rightarrow> None)"

definition ref_step :: "eval_context \<Rightarrow> operator \<Rightarrow> val list \<Rightarrow> val list option" where
  "ref_step ctx op vs = (case op of
     W_i32_const v \<Rightarrow> push_const (Some (I32 v)) vs
   | W_i64_const v \<Rightarrow> push_const (Some (I64 v)) vs
   | W_f32_const v \<Rightarrow> push_const (Some (F32 v)) vs
   | W_f64_const v \<Rightarrow> push_const (Some (F64 v)) vs
   | W_global_get i \<Rightarrow> push_const (get_global ctx i) vs
   | W_ref_null TFuncRef \<Rightarrow> push_const (Some (FuncRef NULL_FUNC_IDX)) vs
   | W_ref_null TExternRef \<Rightarrow> push_const (Some (ExternRef NULL_FUNC_IDX)) vs
   | W_ref_func i \<Rightarrow> push_const (map_option FuncRef (get_func ctx i)) vs
   | W_i32_binop W_i32_add \<Rightarrow> ref_i32 (+) vs
   | W_i32_binop W_i32_sub \<Rightarrow> ref_i32 (-) vs
   | W_i32_binop W_i32_mul \<Rightarrow> ref_i32 (*) vs
   | W_snippet I64Add \<Rightarrow> ref_i64 (+) vs
   | W_snippet I64Sub \<Rightarrow> ref_i64 (-) vs
   | W_snippet I64Mul \<Rightarrow> ref_i64 (*) vs
   | _ \<Rightarrow> None)"

fun ref_eval :: "eval_context \<Rightarrow> operator list \<Rightarrow> val list \<Rightarrow> val option" where
  "ref_eval ctx [] vs = None"
| "ref_eval ctx (op # ops) vs =
     (if op = W_end then (case (ops, vs) of ([], [v]) \<Rightarrow> Some v | _ \<Rightarrow> None)
      else do { vs \<leftarrow> ref_step ctx op vs; ref_eval ctx ops vs })"

text \<open>What the compiled value says of a typed one: all of a number, the low word otherwise.\<close>

definition stands_for :: "u64 \<Rightarrow> val \<Rightarrow> bool" where
  "stands_for e v = (case v of
     I32 x \<Rightarrow> e = scast x | I64 x \<Rightarrow> e = x | F32 x \<Rightarrow> lo32 e = x | F64 x \<Rightarrow> e = x
   | FuncRef x \<Rightarrow> lo32 e = x | ExternRef x \<Rightarrow> lo32 e = x)"

definition expr_denotes :: "eval_context \<Rightarrow> const_op \<Rightarrow> val \<Rightarrow> bool" where
  "expr_denotes ctx e v \<longleftrightarrow> (\<exists>x. eval_op e ctx = Some x \<and> stands_for x v)"

lemma lo32_casts: "lo32 (ucast (x :: u32)) = x" "lo32 (scast (x :: u32)) = x"
  by (rule bit_word_eqI, auto simp: bit_simps)+

lemma ucast_scast_word: "ucast (scast (x :: u32) :: u64) = x"
  by (rule bit_word_eqI) (auto simp: bit_simps)

lemma narrow_stands: "narrow f (scast a) (scast b) = scast (f a b)"
  by (simp add: narrow_def ucast_scast_word)

lemma constant_denotes: "expr_denotes ctx (op_constant v) v"
  by (cases v) (simp_all add: expr_denotes_def op_constant_def eval_op_def stands_for_def lo32_casts)

lemma global_denotes: "get_global ctx i = Some v \<Longrightarrow> expr_denotes ctx (OpGlobal i) v"
  by (cases v) (simp_all add: expr_denotes_def eval_op_def global_bits_def stands_for_def lo32_casts)

lemma funcref_denotes: "get_func ctx i = Some r \<Longrightarrow> expr_denotes ctx (OpFuncRef i) (FuncRef r)"
  by (simp add: expr_denotes_def eval_op_def stands_for_def lo32_casts)

lemma expr_of_denotes:
  "expr_denotes ctx a (I32 x) \<Longrightarrow> expr_denotes ctx b (I32 y) \<Longrightarrow> expr_denotes ctx (expr_of (narrow f) a b) (I32 (f x y))"
  "expr_denotes ctx a (I64 u) \<Longrightarrow> expr_denotes ctx b (I64 w) \<Longrightarrow> expr_denotes ctx (expr_of g a b) (I64 (g u w))"
  by (simp_all add: expr_denotes_def stands_for_def expr_of_def eval_op_def [of "OpExpr _"] narrow_stands)

lemmas denotes_intros = constant_denotes global_denotes funcref_denotes expr_of_denotes

lemma ref_i32_step:
  assumes "list_all2 (expr_denotes ctx) stack vs" "ref_i32 f vs = Some vs'"
  shows "\<exists>stack'. expr_op (narrow f) stack = Some stack' \<and> list_all2 (expr_denotes ctx) stack' vs'"
  using assms
  by (auto simp: ref_i32_def expr_op_def list_all2_Cons2 denotes_intros split: list.splits val.splits)

lemma ref_i64_step:
  assumes "list_all2 (expr_denotes ctx) stack vs" "ref_i64 f vs = Some vs'"
  shows "\<exists>stack'. expr_op f stack = Some stack' \<and> list_all2 (expr_denotes ctx) stack' vs'"
  using assms
  by (auto simp: ref_i64_def expr_op_def list_all2_Cons2 denotes_intros split: list.splits val.splits)

lemma compile_step_simulates:
  assumes st: "list_all2 (expr_denotes ctx) stack vs" and ref: "ref_step ctx op vs = Some vs'"
  shows "\<exists>stack'. compile_step op stack = Some stack' \<and> list_all2 (expr_denotes ctx) stack' vs'"
proof (cases op)
  case (W_i32_binop b)
  then show ?thesis
    using ref ref_i32_step [OF st] by (cases b) (simp_all add: ref_step_def compile_step_def)
next
  case (W_snippet n)
  then show ?thesis
    using ref ref_i64_step [OF st] by (cases n) (simp_all add: ref_step_def compile_step_def)
next
  case (W_ref_null ty)
  then show ?thesis
    using ref st by (cases ty) (auto simp: ref_step_def compile_step_def push_const_def denotes_intros)
qed (use ref st in \<open>auto simp: ref_step_def compile_step_def push_const_def denotes_intros\<close>)

lemma compile_simulates:
  "ref_eval ctx ops vs = Some v \<Longrightarrow> list_all2 (expr_denotes ctx) stack vs \<Longrightarrow>
   \<exists>e. compile_const_ops ops stack = Some e \<and> expr_denotes ctx e v"
proof (induction ctx ops vs arbitrary: stack rule: ref_eval.induct)
  case (2 ctx op ops vs)
  show ?case
  proof (cases "op = W_end")
    case True
    with "2.prems" show ?thesis
      by (auto simp: list_all2_Cons2 split: list.splits)
  next
    case False
    with "2.prems"(1) obtain vs' where vs': "ref_step ctx op vs = Some vs'" "ref_eval ctx ops vs' = Some v"
      by (auto simp: bind_eq_Some_conv)
    with compile_step_simulates [OF "2.prems"(2)] obtain stack' where
      "compile_step op stack = Some stack'" "list_all2 (expr_denotes ctx) stack' vs'" by blast
    with "2.IH" [OF False vs'(1,2)] False show ?thesis by simp
  qed
qed simp

lemma compiled_expr_evaluates:
  assumes "ref_eval ctx ops [] = Some v"
  shows "\<exists>e x. compiled_expr ops = Some e \<and> eval_op e ctx = Some x \<and> stands_for x v"
  using compile_simulates [OF assms, of "[]"] by (auto simp: compiled_expr_def expr_denotes_def)

end
