(* ===== verification/Compilation_Config.thy ===== *)
theory Compilation_Config
  imports Import_Linker Fuel_Policy Linear_Memory
begin

text \<open>
  The options of the compiler (\<open>src/compiler/config.rs\<close>) with their setters. The import linker
  carries the fuel parameters of the policy crate. Which proposals of WebAssembly the validator
  accepts is left to the validator.
\<close>

record state_router =
  router_states :: "(string \<times> u32) list"
  router_opcode :: "opcode option"

record compilation_config =
  router :: "state_router option"
  entrypoint_name :: "string option"
  linker :: "syscall_fuel_params import_linker option"
  allow_malformed_entrypoint_func_type :: bool
  builtins_consume_fuel :: bool
  default_imported_global_value :: "u64 option"
  meter_fuel :: bool
  code_snippets :: bool
  meter_bulk_ops :: bool
  meter_params_and_locals :: bool
  allow_func_ref_function_types :: bool
  allow_start_section :: bool
  max_allowed_pages :: u32

definition config_default :: compilation_config where
  "config_default =
     \<lparr>router = None, entrypoint_name = None, linker = None, allow_malformed_entrypoint_func_type = False,
      builtins_consume_fuel = False, default_imported_global_value = None, meter_fuel = True,
      code_snippets = True, meter_bulk_ops = True, meter_params_and_locals = True,
      allow_func_ref_function_types = False, allow_start_section = False,
      max_allowed_pages = N_DEFAULT_MAX_MEMORY_PAGES\<rparr>"

definition with_state_router :: "state_router \<Rightarrow> compilation_config \<Rightarrow> compilation_config" where
  "with_state_router r c = c\<lparr>router := Some r\<rparr>"

definition with_entrypoint_name :: "string \<Rightarrow> compilation_config \<Rightarrow> compilation_config" where
  "with_entrypoint_name n c = c\<lparr>entrypoint_name := Some n\<rparr>"

definition with_import_linker :: "syscall_fuel_params import_linker \<Rightarrow> compilation_config \<Rightarrow> compilation_config" where
  "with_import_linker l c = c\<lparr>linker := Some l\<rparr>"

definition with_allow_malformed_entrypoint_func_type :: "bool \<Rightarrow> compilation_config \<Rightarrow> compilation_config" where
  "with_allow_malformed_entrypoint_func_type b c = c\<lparr>allow_malformed_entrypoint_func_type := b\<rparr>"

definition with_builtins_consume_fuel :: "bool \<Rightarrow> compilation_config \<Rightarrow> compilation_config" where
  "with_builtins_consume_fuel b c = c\<lparr>builtins_consume_fuel := b\<rparr>"

definition with_default_imported_global_value :: "u64 \<Rightarrow> compilation_config \<Rightarrow> compilation_config" where
  "with_default_imported_global_value v c = c\<lparr>default_imported_global_value := Some v\<rparr>"

text \<open>Switching the metering off switches the other charges off; the setter of the bulk charges
  respects it, the others do not.\<close>

definition config_with_consume_fuel :: "bool \<Rightarrow> compilation_config \<Rightarrow> compilation_config" where
  "config_with_consume_fuel b c =
     (let c = c\<lparr>meter_fuel := b\<rparr> in
      if b then c
      else c\<lparr>meter_bulk_ops := False, meter_params_and_locals := False, builtins_consume_fuel := False\<rparr>)"

definition with_consume_fuel_for_bulk_ops :: "bool \<Rightarrow> compilation_config \<Rightarrow> compilation_config" where
  "with_consume_fuel_for_bulk_ops b c = c\<lparr>meter_bulk_ops := meter_fuel c \<and> b\<rparr>"

definition with_consume_fuel_for_params_and_locals :: "bool \<Rightarrow> compilation_config \<Rightarrow> compilation_config" where
  "with_consume_fuel_for_params_and_locals b c = c\<lparr>meter_params_and_locals := b\<rparr>"

definition config_with_code_snippets :: "bool \<Rightarrow> compilation_config \<Rightarrow> compilation_config" where
  "config_with_code_snippets b c = c\<lparr>code_snippets := b\<rparr>"

definition with_allow_func_ref_function_types :: "bool \<Rightarrow> compilation_config \<Rightarrow> compilation_config" where
  "with_allow_func_ref_function_types b c = c\<lparr>allow_func_ref_function_types := b\<rparr>"

definition with_allow_start_section :: "bool \<Rightarrow> compilation_config \<Rightarrow> compilation_config" where
  "with_allow_start_section b c = c\<lparr>allow_start_section := b\<rparr>"

definition with_max_allowed_memory_pages :: "u32 \<Rightarrow> compilation_config \<Rightarrow> compilation_config" where
  "with_max_allowed_memory_pages n c = c\<lparr>max_allowed_pages := n\<rparr>"

end
