(* ===== verification/Verification.thy ===== *)
theory Verification
  imports Interpreter
begin

text \<open>
  The structural verifier of a module (\<open>src/module/verification.rs\<close>) and its soundness for the
  interpreter: in a verified module every branch, branch table and internal call goes to an
  instruction of the code section, and the table operand of an indirect call or of
  \<open>table.init\<close> is there. Indices are natural numbers: a code section has fewer than \<open>2 ^ 62\<close>
  instructions, so that the checked additions of the source on \<open>usize\<close> and \<open>i64\<close> succeed.
\<close>

section \<open>The verifier\<close>

datatype verification_error =
    EmptyCodeSection
  | SourcePcOutOfBounds (err_source_pc: u32) (err_code_len: nat)
  | BranchTargetOutOfBounds (err_pc: nat) (err_offset: int) (err_len: nat)
  | ZeroBranchOffset nat
  | BranchTableTargetsOutOfBounds nat u32 nat
  | CallTargetOutOfBounds nat u32 nat
  | ElementTargetOutOfBounds nat u32 nat
  | LocalDepthOutOfBounds nat u32
  | DataSegmentOutOfBounds nat u32
  | ElementSegmentOutOfBounds nat u32
  | TableIndexOutOfBounds nat u16
  | MissingTableIndexPayload nat
  | InvalidTableIndexPayload nat

type_synonym verdict = "verification_error + unit"

definition verified :: verdict where
  "verified = Inr ()"

text \<open>One check after the other; the first error is the result.\<close>

definition also_verify :: "verdict \<Rightarrow> verdict \<Rightarrow> verdict" where
  "also_verify a b = (case a of Inl e \<Rightarrow> Inl e | Inr _ \<Rightarrow> b)"

definition refuse_if :: "bool \<Rightarrow> verification_error \<Rightarrow> verdict" where
  "refuse_if c e = (if c then Inl e else verified)"

definition N_MAX_DATA_SEGMENTS :: nat where "N_MAX_DATA_SEGMENTS = 100000"
definition N_MAX_ELEM_SEGMENTS :: nat where "N_MAX_ELEM_SEGMENTS = 100000"
definition N_MAX_TABLES :: nat where "N_MAX_TABLES = 100"

definition verify_branch_target :: "nat \<Rightarrow> nat \<Rightarrow> int \<Rightarrow> verdict" where
  "verify_branch_target code_len pc offset =
     (if offset = 0 then Inl (ZeroBranchOffset pc)
      else let target = int pc + offset in
        refuse_if (target < 0 \<or> int code_len \<le> target) (BranchTargetOutOfBounds pc offset code_len))"

definition verify_branch_table :: "nat \<Rightarrow> nat \<Rightarrow> u32 \<Rightarrow> verdict" where
  "verify_branch_table code_len pc targets =
     refuse_if (targets = 0 \<or> code_len \<le> pc + unat targets * 2) (BranchTableTargetsOutOfBounds pc targets code_len)"

definition verify_code_target :: "nat \<Rightarrow> nat \<Rightarrow> u32 \<Rightarrow> verdict" where
  "verify_code_target code_len pc target =
     refuse_if (code_len \<le> unat target) (CallTargetOutOfBounds pc target code_len)"

definition verify_table_index :: "nat \<Rightarrow> u16 \<Rightarrow> verdict" where
  "verify_table_index pc table = refuse_if (N_MAX_TABLES \<le> unat table) (TableIndexOutOfBounds pc table)"

definition verify_table_index_payload :: "opcode list \<Rightarrow> nat \<Rightarrow> verdict" where
  "verify_table_index_payload code pc =
     (if pc + 1 < length code then
        (case code ! (pc + 1) of
           TableGet table \<Rightarrow> verify_table_index pc table
         | _ \<Rightarrow> Inl (InvalidTableIndexPayload pc))
      else Inl (MissingTableIndexPayload pc))"

definition verify_opcode :: "opcode list \<Rightarrow> nat \<Rightarrow> opcode \<Rightarrow> verdict" where
  "verify_opcode code pc op = (case op of
     Br offset \<Rightarrow> verify_branch_target (length code) pc (sint offset)
   | BrIfEqz offset \<Rightarrow> verify_branch_target (length code) pc (sint offset)
   | BrIfNez offset \<Rightarrow> verify_branch_target (length code) pc (sint offset)
   | BrTable targets \<Rightarrow> verify_branch_table (length code) pc targets
   | CallInternal target \<Rightarrow> verify_code_target (length code) pc target
   | ReturnCallInternal target \<Rightarrow> verify_code_target (length code) pc target
   | RefFunc target \<Rightarrow> if target = 0 then verified else verify_code_target (length code) pc target
   | CallIndirect _ \<Rightarrow> verify_table_index_payload code pc
   | ReturnCallIndirect _ \<Rightarrow> verify_table_index_payload code pc
   | LocalGet depth \<Rightarrow> refuse_if (depth = 0) (LocalDepthOutOfBounds pc depth)
   | LocalSet depth \<Rightarrow> refuse_if (depth = 0) (LocalDepthOutOfBounds pc depth)
   | LocalTee depth \<Rightarrow> refuse_if (depth = 0) (LocalDepthOutOfBounds pc depth)
   | MemoryInit segment \<Rightarrow> refuse_if (N_MAX_DATA_SEGMENTS \<le> unat segment) (DataSegmentOutOfBounds pc segment)
   | DataDrop segment \<Rightarrow> refuse_if (N_MAX_DATA_SEGMENTS \<le> unat segment) (DataSegmentOutOfBounds pc segment)
   | TableInit segment \<Rightarrow>
       also_verify (refuse_if (N_MAX_ELEM_SEGMENTS \<le> unat segment) (ElementSegmentOutOfBounds pc segment))
         (verify_table_index_payload code pc)
   | ElemDrop segment \<Rightarrow> refuse_if (N_MAX_ELEM_SEGMENTS \<le> unat segment) (ElementSegmentOutOfBounds pc segment)
   | TableSize table \<Rightarrow> verify_table_index pc table
   | TableGrow table \<Rightarrow> verify_table_index pc table
   | TableFill table \<Rightarrow> verify_table_index pc table
   | TableGet table \<Rightarrow> verify_table_index pc table
   | TableSet table \<Rightarrow> verify_table_index pc table
   | TableCopy dst src \<Rightarrow> also_verify (verify_table_index pc dst) (verify_table_index pc src)
   | _ \<Rightarrow> verified)"

text \<open>The two loops, over the elements and over the opcodes.\<close>

fun verify_elements :: "nat \<Rightarrow> nat \<Rightarrow> u32 list \<Rightarrow> verdict" where
  "verify_elements code_len index [] = verified"
| "verify_elements code_len index (target # targets) =
     also_verify
       (refuse_if (target \<noteq> 0 \<and> code_len \<le> unat target) (ElementTargetOutOfBounds index target code_len))
       (verify_elements code_len (index + 1) targets)"

fun verify_opcodes :: "opcode list \<Rightarrow> nat \<Rightarrow> opcode list \<Rightarrow> verdict" where
  "verify_opcodes code pc [] = verified"
| "verify_opcodes code pc (op # ops) = also_verify (verify_opcode code pc op) (verify_opcodes code (pc + 1) ops)"

definition verify_module :: "rwasm_module \<Rightarrow> verdict" where
  "verify_module m =
     (let code = code_section m in
      if code = [] then Inl EmptyCodeSection
      else if length code \<le> unat (source_pc m) then Inl (SourcePcOutOfBounds (source_pc m) (length code))
      else also_verify (verify_elements (length code) 0 (elem_section m)) (verify_opcodes code 0 code))"

section \<open>What is checked\<close>

lemma also_verify_ok: "also_verify a b = verified \<longleftrightarrow> a = verified \<and> b = verified"
  by (auto simp: also_verify_def verified_def split: sum.splits)

lemma refuse_if_ok: "refuse_if c e = verified \<longleftrightarrow> \<not> c"
  by (simp add: refuse_if_def verified_def)

lemma Inl_not_verified [simp]: "Inl e \<noteq> verified" "verified \<noteq> Inl e"
  by (simp_all add: verified_def)

lemmas verify_ok = also_verify_ok refuse_if_ok

lemma verify_elements_ok:
  "verify_elements n i es = verified \<longleftrightarrow> (\<forall>e \<in> set es. e = 0 \<or> unat e < n)"
  by (induction es arbitrary: i) (auto simp: verify_ok)

lemma verify_opcodes_ok:
  "verify_opcodes code pc ops = verified \<longleftrightarrow> (\<forall>i < length ops. verify_opcode code (pc + i) (ops ! i) = verified)"
proof (induction ops arbitrary: pc)
  case (Cons op ops)
  then show ?case by (simp add: verify_ok All_less_Suc2)
qed simp

lemma verify_module_ok:
  "verify_module m = verified \<longleftrightarrow>
     unat (source_pc m) < length (code_section m) \<and>
     (\<forall>e \<in> set (elem_section m). e = 0 \<or> unat e < length (code_section m)) \<and>
     (\<forall>i < length (code_section m). verify_opcode (code_section m) i (code_section m ! i) = verified)"
  by (auto simp: verify_module_def Let_def verify_ok verify_elements_ok verify_opcodes_ok)

section \<open>Where an instruction goes\<close>

text \<open>\<open>goes d s r\<close>: an instruction that goes on moves the instruction pointer by \<open>d\<close> and leaves the
  call stack.\<close>

definition goes :: "int \<Rightarrow> 'h exec \<Rightarrow> 'h exec flow option \<Rightarrow> bool" where
  "goes d s r \<longleftrightarrow> (\<forall>u. r = Some (Next u) \<longrightarrow> ip u = ip s + d \<and> call_stack u = call_stack s)"

lemmas parts = on_stack_def from_stack_def next_instr_def ip_add_def set_stack_def set_exec_memory_def
  set_table_def bind_eq_Some_conv Let_def sync_sp_def reload_sp_def charge_fuel_def

lemma case_Next:
  "(case r of Inl a \<Rightarrow> f a | Inr b \<Rightarrow> g b) = Some (Next u) \<longleftrightarrow>
     (\<exists>a. r = Inl a \<and> f a = Some (Next u)) \<or> (\<exists>b. r = Inr b \<and> g b = Some (Next u))"
  "(case x of None \<Rightarrow> h | Some y \<Rightarrow> k y) = Some (Next u) \<longleftrightarrow>
     x = None \<and> h = Some (Next u) \<or> (\<exists>y. x = Some y \<and> k y = Some (Next u))"
  by (auto split: sum.split option.split)

lemma stack_visits_go:
  "goes 1 s (visit_local_get n s)" "goes 1 s (visit_local_set n s)" "goes 1 s (visit_local_tee n s)"
  "goes 1 s (visit_drop s)" "goes 1 s (visit_select s)" "goes 1 s (visit_ref_func f s)"
  "goes 1 s (visit_i32_const v s)" "goes 1 s (visit_bulk_const n s)" "goes 1 s (visit_bulk_drop n s)"
  by (auto simp: goes_def parts visit_local_get_def visit_local_set_def visit_local_tee_def visit_drop_def
      visit_select_def visit_ref_func_def visit_i32_const_def visit_bulk_const_def visit_bulk_drop_def)

lemma alu_visits_go:
  "goes 1 s (visit_unary f s)" "goes 1 s (visit_binary g s)" "goes 1 s (visit_fallible_binary h s)"
  "goes 1 s (visit_i32_mul64 s)" "goes 1 s (visit_i32_add64 s)"
  by (auto simp: goes_def parts case_Next visit_unary_def visit_binary_def visit_fallible_binary_def
      visit_i32_mul64_def visit_i32_add64_def split: prod.splits if_splits)

lemma system_visits_go:
  "goes 1 s (visit_consume_fuel d s)" "goes 1 s (visit_consume_fuel_stack s)"
  "goes 1 s (visit_signature_check i s)" "goes 1 s (visit_stack_check n s)"
  "goes 1 s (visit_global_get g s)" "goes 1 s (visit_global_set g s)"
  by (auto simp: goes_def parts case_Next visit_consume_fuel_def visit_consume_fuel_stack_def visit_signature_check_def
      visit_stack_check_def visit_global_get_def visit_global_set_def split: if_splits)

lemma memory_visits_go:
  "goes 1 s (execute_load_extend ld n s)" "goes 1 s (execute_store_wrap wr n s)"
  "goes 1 s (visit_memory_size s)" "goes 1 s (visit_memory_grow s)" "goes 1 s (visit_memory_fill s)"
  "goes 1 s (visit_memory_copy s)" "goes 1 s (visit_memory_init env i s)" "goes 1 s (visit_data_drop env i s)"
  by (auto simp: goes_def parts case_Next execute_load_extend_def execute_store_wrap_def visit_memory_size_def
      visit_memory_grow_def visit_memory_fill_def visit_memory_copy_def visit_memory_init_def
      visit_data_drop_def split: prod.splits if_splits)

lemma table_result_control:
  "table_result i r s = Some (c, t) \<Longrightarrow> ip t = ip s \<and> call_stack t = call_stack s"
  by (auto simp: table_result_def set_table_def split: sum.splits)

lemma case_Trapped:
  "(case c of None \<Rightarrow> Some (Next a) | Some t \<Rightarrow> Some (Trapped t b)) = Some (Next u) \<longleftrightarrow> c = None \<and> u = a"
  "(case t of ExecutionHalted \<Rightarrow> x | _ \<Rightarrow> Some (Trapped t b)) = Some (Next u) \<longleftrightarrow>
     t = ExecutionHalted \<and> x = Some (Next u)"
  by (auto split: option.splits) (cases t; simp)+

lemma table_visits_go:
  "goes 1 s (visit_table_size i s)" "goes 1 s (visit_table_fill i s)"
  "goes 1 s (visit_table_get i s)" "goes 1 s (visit_table_set i s)" "goes 1 s (visit_table_copy i j s)"
  "goes 2 s (visit_table_init env e s)" "goes 1 s (visit_element_drop env e s)"
  by (auto simp: goes_def parts case_Next visit_table_size_def visit_table_fill_def visit_table_get_def
      visit_table_set_def visit_table_copy_def visit_table_init_def visit_element_drop_def
      dest!: table_result_control split: prod.splits if_splits)

lemma table_grow_goes: "goes 1 s (visit_table_grow i s)"
  by (auto simp: goes_def parts visit_table_grow_def split_def)

lemma syscalls_go:
  "goes 1 s (visit_call env i s)" "goes 1 s (visit_return_call env i s)"
proof -
  have "goes 0 t (invoke_syscall env i t)" for t
    by (auto simp: goes_def parts case_Next invoke_syscall_def split: trap_code.splits if_splits)
      (metis trap_code.exhaust)+
  then show "goes 1 s (visit_call env i s)" "goes 1 s (visit_return_call env i s)"
    by (auto simp: goes_def visit_call_def visit_return_call_def ip_add_def sync_sp_def)
qed

section \<open>Soundness\<close>

text \<open>The instruction pointer and the return addresses lie in the code or one behind its end; the
  function references of the tables are instructions of the code.\<close>

definition control_in :: "nat \<Rightarrow> 'h exec \<Rightarrow> bool" where
  "control_in n s \<longleftrightarrow> 0 \<le> ip s \<and> ip s \<le> int n \<and> (\<forall>p \<in> set (call_stack s). 0 \<le> p \<and> p \<le> int n)"

definition tables_in :: "nat \<Rightarrow> 'h exec \<Rightarrow> bool" where
  "tables_in n s \<longleftrightarrow> (\<forall>i t. tables (store s) i = Some t \<longrightarrow> (\<forall>r \<in> set t. unat r < n))"

lemma goes_control_in:
  assumes "goes d s r" "r = Some (Next u)" "control_in n s" "0 \<le> ip s + d" "ip s + d \<le> int n"
  shows "control_in n u"
  using assms by (simp add: goes_def control_in_def)

lemma branch_lands:
  assumes "verify_branch_target n pc off = verified" "ip s = int pc"
  shows "0 \<le> ip s + off \<and> ip s + off < int n"
  using assms by (auto simp: verify_branch_target_def Let_def verify_ok split: if_splits)

lemma target_in: "unat (w :: u32) < n \<Longrightarrow> uint w \<le> int n"
  by (simp only: uint_nat of_nat_le_iff less_imp_le)

lemma enter_call_control_in:
  assumes "enter_call target s = Some (Next u)" "control_in n s" "unat target < n"
  shows "control_in n u"
  using assms by (auto simp: enter_call_def Let_def sync_sp_def reload_sp_def control_in_def target_in split: if_splits)

lemma get_untyped_in: "get_untyped i t = Some r \<Longrightarrow> r \<in> set t"
  by (auto simp: get_untyped_def split: if_splits)

lemma resolve_indirect_in:
  assumes "resolve_indirect env sig s = Some (Inr r, u)" and "tables_in n s"
  shows "unat r < n \<and> ip u = ip s \<and> call_stack u = call_stack s"
  using assms
  by (auto simp: resolve_indirect_def parts tables_in_def get_untyped_in split: option.splits if_splits)

lemma goes_on:
  assumes "goes 1 s r" "r = Some (Next u)" "control_in n s" "ip s = int pc" "pc < n"
  shows "control_in n u"
  using goes_control_in [OF assms(1-3)] assms(4,5) by simp

lemma traps_go: "goes 1 s (visit_unreachable s)" "goes 1 s (visit_trap_code c s)"
  "goes 1 s (Some (Trapped c s))"
  by (auto simp: goes_def visit_unreachable_def visit_trap_code_def)

lemmas visits_go = stack_visits_go alu_visits_go system_visits_go memory_visits_go table_visits_go
  table_grow_goes syscalls_go traps_go

text \<open>The instructions that do not simply go on.\<close>

lemma control_step:
  assumes step: "step env op s = Some (Next u)" and ok: "verify_opcode code pc op = verified"
    and pc: "ip s = int pc" "pc < length code" and inv: "control_in (length code) s" "tables_in (length code) s"
  shows "control_in (length code) u"
proof -
  note simps = verify_opcode_def step_def parts control_in_def verify_ok verify_branch_table_def verify_code_target_def
  show ?thesis
  proof (cases op)
    case (Br off)
    then show ?thesis
      using step ok inv(1) branch_lands [of "length code" pc "sint off" s] pc
      by (auto simp: verify_opcode_def step_def visit_br_def ip_offset_def control_in_def)
  next
    case (BrIfEqz off)
    then show ?thesis
      using step ok inv(1) branch_lands [of "length code" pc "sint off" s] pc
      by (auto simp: simps visit_br_if_def ip_offset_def split: if_splits)
  next
    case (BrIfNez off)
    then show ?thesis
      using step ok inv(1) branch_lands [of "length code" pc "sint off" s] pc
      by (auto simp: simps visit_br_if_nez_def ip_offset_def split: if_splits)
  next
    case (BrTable n)
    have "2 * min i (unat n - 1) + 1 \<le> 2 * unat n" if "0 < unat n" for i using that by linarith
    then show ?thesis
      using BrTable step ok inv(1) pc by (fastforce simp: simps visit_br_table_def unat_gt_0)
  next
    case Return
    then show ?thesis
      using step inv(1) by (auto simp: simps visit_return_def split: list.splits)
  next
    case (ReturnCallInternal f)
    then show ?thesis
      using step ok inv(1) by (auto simp: simps visit_return_call_internal_def target_in)
  next
    case (CallInternal f)
    then have e: "enter_call f (ip_add 1 s) = Some (Next u)" "unat f < length code"
      using step ok by (auto simp: verify_opcode_def step_def verify_code_target_def verify_ok visit_call_internal_def)
    show ?thesis
      using inv(1) pc by (intro enter_call_control_in [OF e(1) _ e(2)]) (simp add: control_in_def ip_add_def)
  next
    case (CallIndirect sig)
    obtain r t where r: "resolve_indirect env sig s = Some (Inr r, t)" "enter_call r (ip_add 2 t) = Some (Next u)"
      using step CallIndirect by (auto simp: step_def visit_call_indirect_def bind_eq_Some_conv case_Next)
    have "pc + 1 < length code"
      using ok CallIndirect by (auto simp: verify_opcode_def verify_table_index_payload_def split: if_splits)
    then show ?thesis
      using resolve_indirect_in [OF r(1) inv(2)] inv(1) pc
      by (intro enter_call_control_in [OF r(2)]) (auto simp: control_in_def ip_add_def)
  next
    case (ReturnCallIndirect sig)
    obtain r t where r: "resolve_indirect env sig s = Some (Inr r, t)" "u = (reload_sp (sync_sp (ip_add 2 t)))\<lparr>ip := int (unat r)\<rparr>"
      using step ReturnCallIndirect
      by (auto simp: step_def visit_return_call_indirect_def bind_eq_Some_conv case_Next Let_def)
    then show ?thesis
      using resolve_indirect_in [OF r(1) inv(2)] inv(1)
      by (auto simp: control_in_def ip_add_def sync_sp_def reload_sp_def target_in)
  next
    case (TableInit seg)
    have "pc + 1 < length code"
      using ok TableInit by (auto simp: verify_opcode_def verify_table_index_payload_def verify_ok split: if_splits)
    then show ?thesis
      using goes_control_in [OF table_visits_go(6) _ inv(1), of env seg u] step TableInit pc
      by (simp add: step_def)
  qed (rule goes_on [OF _ step inv(1) pc], simp add: step_def visits_go)+
qed

text \<open>Only an instruction that falls through, or a return, leads behind the code: a branch or a call
  lands on an instruction.\<close>

definition lands_well :: "nat \<Rightarrow> 'h exec \<Rightarrow> 'h exec \<Rightarrow> bool" where
  "lands_well n s u \<longleftrightarrow> ip u < int n \<or> ip u = ip s + 1 \<or> ip u = ip s + 2 \<or> call_stack s = ip u # call_stack u"

lemma target_lands: "unat (w :: u32) < n \<Longrightarrow> uint w < int n"
  by (simp only: uint_nat of_nat_less_iff)

lemma enter_call_lands:
  "enter_call target s = Some (Next u) \<Longrightarrow> unat target < n \<Longrightarrow> ip u < int n"
  by (auto simp: enter_call_def Let_def sync_sp_def reload_sp_def target_lands split: if_splits)

lemma goes_lands: "goes d s r \<Longrightarrow> r = Some (Next u) \<Longrightarrow> d = 1 \<or> d = 2 \<Longrightarrow> lands_well n s u"
  by (auto simp: goes_def lands_well_def)

lemma goes_lands_1: "goes 1 s r \<Longrightarrow> r = Some (Next u) \<Longrightarrow> lands_well n s u"
  by (auto simp: goes_def lands_well_def)

lemma control_lands:
  assumes step: "step env op s = Some (Next u)" and ok: "verify_opcode code pc op = verified"
    and pc: "ip s = int pc" "pc < length code" and inv: "tables_in (length code) s"
  shows "lands_well (length code) s u"
proof -
  note simps = verify_opcode_def step_def parts lands_well_def verify_ok verify_branch_table_def verify_code_target_def
  show ?thesis
  proof (cases op)
    case (Br off)
    then show ?thesis
      using step ok branch_lands [of "length code" pc "sint off" s] pc
      by (auto simp: verify_opcode_def step_def visit_br_def ip_offset_def lands_well_def)
  next
    case (BrIfEqz off)
    then show ?thesis
      using step ok branch_lands [of "length code" pc "sint off" s] pc
      by (auto simp: simps visit_br_if_def ip_offset_def split: if_splits)
  next
    case (BrIfNez off)
    then show ?thesis
      using step ok branch_lands [of "length code" pc "sint off" s] pc
      by (auto simp: simps visit_br_if_nez_def ip_offset_def split: if_splits)
  next
    case (BrTable n)
    have "2 * min i (unat n - 1) + 1 \<le> 2 * unat n" if "0 < unat n" for i using that by linarith
    then show ?thesis
      using BrTable step ok pc by (fastforce simp: simps visit_br_table_def unat_gt_0)
  next
    case Return
    then show ?thesis
      using step by (auto simp: simps visit_return_def split: list.splits)
  next
    case (ReturnCallInternal f)
    then show ?thesis
      using step ok by (auto simp: simps visit_return_call_internal_def target_lands)
  next
    case (CallInternal f)
    then have "enter_call f (ip_add 1 s) = Some (Next u)" "unat f < length code"
      using step ok by (auto simp: verify_opcode_def step_def verify_code_target_def verify_ok visit_call_internal_def)
    then show ?thesis using enter_call_lands by (auto simp: lands_well_def)
  next
    case (CallIndirect sig)
    obtain r t where r: "resolve_indirect env sig s = Some (Inr r, t)" "enter_call r (ip_add 2 t) = Some (Next u)"
      using step CallIndirect by (auto simp: step_def visit_call_indirect_def bind_eq_Some_conv case_Next)
    then show ?thesis
      using resolve_indirect_in [OF r(1) inv] enter_call_lands [OF r(2)] by (auto simp: lands_well_def)
  next
    case (ReturnCallIndirect sig)
    obtain r t where r: "resolve_indirect env sig s = Some (Inr r, t)" "u = (reload_sp (sync_sp (ip_add 2 t)))\<lparr>ip := int (unat r)\<rparr>"
      using step ReturnCallIndirect
      by (auto simp: step_def visit_return_call_indirect_def bind_eq_Some_conv case_Next Let_def)
    then show ?thesis
      using resolve_indirect_in [OF r(1) inv] by (auto simp: lands_well_def target_lands)
  next
    case (TableInit seg)
    then show ?thesis
      using step by (intro goes_lands [OF table_visits_go(6)]) (simp_all add: step_def)
  qed (rule goes_lands_1 [OF _ step], simp add: step_def visits_go)+
qed

text \<open>The module as a whole: in a verified module an instruction that goes on stays in the code, and
  the table operand is there wherever it is read.\<close>

lemma verified_control_step:
  assumes "verify_module (module env) = verified"
    and inv: "control_in (length (code_section (module env))) s" "tables_in (length (code_section (module env))) s"
    and "exec_step env s = Some (Next u)"
  shows "control_in (length (code_section (module env))) u \<and> lands_well (length (code_section (module env))) s u"
proof -
  obtain op where op: "fetch (code_section (module env)) (ip s) = Some op" "step env op s = Some (Next u)"
    using assms(4) by (auto simp: exec_step_def bind_eq_Some_conv)
  then have "0 \<le> ip s" and lt: "nat (ip s) < length (code_section (module env))"
    and eq: "op = code_section (module env) ! nat (ip s)"
    by (auto simp: fetch_def split: if_splits)
  have ok: "verify_opcode (code_section (module env)) (nat (ip s)) op = verified"
    using assms(1) lt by (simp add: verify_module_ok eq)
  have pc: "ip s = int (nat (ip s))" using \<open>0 \<le> ip s\<close> by simp
  from control_step [OF op(2) ok pc lt inv] control_lands [OF op(2) ok pc lt inv(2)] show ?thesis by simp
qed

definition reads_table_index :: "opcode \<Rightarrow> bool" where
  "reads_table_index op = (case op of CallIndirect _ \<Rightarrow> True | ReturnCallIndirect _ \<Rightarrow> True | TableInit _ \<Rightarrow> True
     | _ \<Rightarrow> False)"

lemma payload_present:
  assumes "verify_opcode code pc op = verified" "reads_table_index op"
  shows "\<exists>t. pc + 1 < length code \<and> code ! (pc + 1) = TableGet t \<and> unat t < N_MAX_TABLES"
  using assms
  by (auto simp: verify_opcode_def reads_table_index_def verify_table_index_payload_def verify_table_index_def
      verify_ok not_le split: opcode.splits if_splits)

lemma verified_table_index:
  assumes "verify_module (module env) = verified"
    and "fetch (code_section (module env)) (ip s) = Some op" "reads_table_index op"
  shows "\<exists>t. fetch_table_index env 1 s = Some t \<and> unat t < N_MAX_TABLES"
proof -
  have le: "0 \<le> ip s" and lt: "nat (ip s) < length (code_section (module env))"
    and eq: "op = code_section (module env) ! nat (ip s)"
    using assms(2) by (auto simp: fetch_def split: if_splits)
  obtain t where t: "nat (ip s) + 1 < length (code_section (module env))"
      "code_section (module env) ! (nat (ip s) + 1) = TableGet t" "unat t < N_MAX_TABLES"
    using payload_present [of "code_section (module env)" "nat (ip s)" op] assms(1,3) lt
    by (auto simp: verify_module_ok eq)
  moreover have "nat (ip s + 1) = nat (ip s) + 1" using le by simp
  ultimately show ?thesis using le by (auto simp: fetch_table_index_def fetch_def)
qed

end
