(* ===== verification/Module_Codec.thy ===== *)
theory Module_Codec
  imports Verification
begin

text \<open>
  The binary form of a module: the encoding of opcodes (\<open>src/types/opcode.rs\<close>) and of the code
  section (\<open>src/isa/mod.rs\<close>), the module with its magic bytes, version and optional source pc,
  its builder, and the constructors that verify (\<open>src/module/mod.rs\<close>). The encodings of the
  primitive types are those of the crate \<open>bincode\<close>: they are the fields of a record, and
  \<open>bincode_laws\<close> states what its documentation promises of them. A panic is \<open>None\<close>.
\<close>

section \<open>Decoders\<close>

datatype decode_error = Other string | UnexpectedEnd nat | OtherVariant string

type_synonym 'a decoding = "u8 list \<Rightarrow> (decode_error + 'a \<times> u8 list) option"

record 'a prim =
  enc :: "'a \<Rightarrow> u8 list"
  dec :: "u8 list \<Rightarrow> decode_error + 'a \<times> u8 list"

record bincode =
  bin_u8 :: "u8 prim"
  bin_u16 :: "u16 prim"
  bin_u32 :: "u32 prim"
  bin_i32 :: "u32 prim"
  bin_u64 :: "u64 prim"
  bin_trap :: "trap_code prim"
  bin_bytes :: "u8 list prim"
  bin_words :: "u32 list prim"

definition decoded :: "'a \<Rightarrow> 'a decoding" where
  "decoded x bs = Some (Inr (x, bs))"

definition refused :: "decode_error \<Rightarrow> 'a decoding" where
  "refused e bs = Some (Inl e)"

definition field :: "'a prim \<Rightarrow> 'a decoding" where
  "field p bs = Some (dec p bs)"

definition and_decode :: "'a decoding \<Rightarrow> ('a \<Rightarrow> 'b decoding) \<Rightarrow> 'b decoding" where
  "and_decode d f bs = (case d bs of
     None \<Rightarrow> None
   | Some (Inl e) \<Rightarrow> Some (Inl e)
   | Some (Inr (x, rest)) \<Rightarrow> f x rest)"

definition plain :: "'b \<Rightarrow> 'b decoding" where
  "plain = decoded"

definition field_of :: "'a prim \<Rightarrow> ('a \<Rightarrow> 'b) \<Rightarrow> 'b decoding" where
  "field_of p f = and_decode (field p) (\<lambda>x. decoded (f x))"

definition field_of2 :: "'a prim \<Rightarrow> 'b prim \<Rightarrow> ('a \<Rightarrow> 'b \<Rightarrow> 'c) \<Rightarrow> 'c decoding" where
  "field_of2 p q f = and_decode (field p) (\<lambda>x. and_decode (field q) (\<lambda>y. decoded (f x y)))"

section \<open>Opcodes\<close>

text \<open>The arms of the match on the numeric code, in their order.\<close>

definition stack_arms :: "bincode \<Rightarrow> (nat \<times> opcode decoding) list" where
  "stack_arms B =
    [(0, plain Unreachable),
     (1, field_of (bin_trap B) Trap),
     (2, field_of (bin_u32 B) LocalGet),
     (3, field_of (bin_u32 B) LocalSet),
     (4, field_of (bin_u32 B) LocalTee),
     (5, field_of (bin_i32 B) Br),
     (6, field_of (bin_i32 B) BrIfEqz),
     (7, field_of (bin_i32 B) BrIfNez),
     (8, field_of (bin_u32 B) BrTable),
     (9, field_of (bin_u32 B) ConsumeFuel),
     (10, plain ConsumeFuelStack),
     (11, plain Return),
     (12, field_of (bin_u32 B) ReturnCallInternal),
     (13, field_of (bin_u32 B) ReturnCall),
     (14, field_of (bin_u32 B) ReturnCallIndirect),
     (15, field_of (bin_u32 B) CallInternal),
     (16, field_of (bin_u32 B) Call),
     (17, field_of (bin_u32 B) CallIndirect),
     (18, field_of (bin_u32 B) SignatureCheck),
     (19, field_of (bin_u32 B) StackCheck),
     (20, field_of (bin_u32 B) RefFunc),
     (21, field_of (bin_u32 B) I32Const),
     (22, plain Drop),
     (23, plain Select),
     (24, field_of (bin_u32 B) GlobalGet),
     (25, field_of (bin_u32 B) GlobalSet)]"

definition memory_arms :: "bincode \<Rightarrow> (nat \<times> opcode decoding) list" where
  "memory_arms B =
    [(26, field_of (bin_u32 B) I32Load),
     (27, field_of (bin_u32 B) I32Load8S),
     (28, field_of (bin_u32 B) I32Load8U),
     (29, field_of (bin_u32 B) I32Load16S),
     (30, field_of (bin_u32 B) I32Load16U),
     (31, field_of (bin_u32 B) I32Store),
     (32, field_of (bin_u32 B) I32Store8),
     (33, field_of (bin_u32 B) I32Store16),
     (34, plain MemorySize),
     (35, plain MemoryGrow),
     (36, plain MemoryFill),
     (37, plain MemoryCopy),
     (38, field_of (bin_u32 B) MemoryInit),
     (39, field_of (bin_u32 B) DataDrop)]"

definition table_arms :: "bincode \<Rightarrow> (nat \<times> opcode decoding) list" where
  "table_arms B =
    [(40, field_of (bin_u16 B) TableSize),
     (41, field_of (bin_u16 B) TableGrow),
     (42, field_of (bin_u16 B) TableFill),
     (43, field_of (bin_u16 B) TableGet),
     (44, field_of (bin_u16 B) TableSet),
     (45, field_of2 (bin_u16 B) (bin_u16 B) TableCopy),
     (46, field_of (bin_u32 B) TableInit),
     (47, field_of (bin_u32 B) ElemDrop)]"

definition alu_arms :: "bincode \<Rightarrow> (nat \<times> opcode decoding) list" where
  "alu_arms B =
    [(48, plain I32Eqz),
     (49, plain I32Eq),
     (50, plain I32Ne),
     (51, plain I32LtS),
     (52, plain I32LtU),
     (53, plain I32GtS),
     (54, plain I32GtU),
     (55, plain I32LeS),
     (56, plain I32LeU),
     (57, plain I32GeS),
     (58, plain I32GeU),
     (59, plain I32Clz),
     (60, plain I32Ctz),
     (61, plain I32Popcnt),
     (62, plain I32Add),
     (63, plain I32Sub),
     (64, plain I32Mul),
     (65, plain I32DivS),
     (66, plain I32DivU),
     (67, plain I32RemS),
     (68, plain I32RemU),
     (69, plain I32And),
     (70, plain I32Or),
     (71, plain I32Xor),
     (72, plain I32Shl),
     (73, plain I32ShrS),
     (74, plain I32ShrU),
     (75, plain I32Rotl),
     (76, plain I32Rotr),
     (77, plain I32WrapI64),
     (78, plain I32Extend8S),
     (79, plain I32Extend16S),
     (80, plain I32Mul64),
     (81, plain I32Add64),
     (82, field_of (bin_u32 B) BulkConst),
     (83, field_of (bin_u32 B) BulkDrop)]"

definition float_arms :: "bincode \<Rightarrow> (nat \<times> opcode decoding) list" where
  "float_arms B =
    [(unat FPU_OPCODE_OFFSET + 0, field_of (bin_u32 B) (\<lambda>x. Fpu (F32Load x))),
     (unat FPU_OPCODE_OFFSET + 1, field_of (bin_u32 B) (\<lambda>x. Fpu (F64Load x))),
     (unat FPU_OPCODE_OFFSET + 2, field_of (bin_u32 B) (\<lambda>x. Fpu (F32Store x))),
     (unat FPU_OPCODE_OFFSET + 3, field_of (bin_u32 B) (\<lambda>x. Fpu (F64Store x))),
     (unat FPU_OPCODE_OFFSET + 4, plain (Fpu F32Eq)),
     (unat FPU_OPCODE_OFFSET + 5, plain (Fpu F32Ne)),
     (unat FPU_OPCODE_OFFSET + 6, plain (Fpu F32Lt)),
     (unat FPU_OPCODE_OFFSET + 7, plain (Fpu F32Gt)),
     (unat FPU_OPCODE_OFFSET + 8, plain (Fpu F32Le)),
     (unat FPU_OPCODE_OFFSET + 9, plain (Fpu F32Ge)),
     (unat FPU_OPCODE_OFFSET + 10, plain (Fpu F64Eq)),
     (unat FPU_OPCODE_OFFSET + 11, plain (Fpu F64Ne)),
     (unat FPU_OPCODE_OFFSET + 12, plain (Fpu F64Lt)),
     (unat FPU_OPCODE_OFFSET + 13, plain (Fpu F64Gt)),
     (unat FPU_OPCODE_OFFSET + 14, plain (Fpu F64Le)),
     (unat FPU_OPCODE_OFFSET + 15, plain (Fpu F64Ge)),
     (unat FPU_OPCODE_OFFSET + 16, plain (Fpu F32Abs)),
     (unat FPU_OPCODE_OFFSET + 17, plain (Fpu F32Neg)),
     (unat FPU_OPCODE_OFFSET + 18, plain (Fpu F32Ceil)),
     (unat FPU_OPCODE_OFFSET + 19, plain (Fpu F32Floor)),
     (unat FPU_OPCODE_OFFSET + 20, plain (Fpu F32Trunc)),
     (unat FPU_OPCODE_OFFSET + 21, plain (Fpu F32Nearest)),
     (unat FPU_OPCODE_OFFSET + 22, plain (Fpu F32Sqrt)),
     (unat FPU_OPCODE_OFFSET + 23, plain (Fpu F32Add)),
     (unat FPU_OPCODE_OFFSET + 24, plain (Fpu F32Sub)),
     (unat FPU_OPCODE_OFFSET + 25, plain (Fpu F32Mul)),
     (unat FPU_OPCODE_OFFSET + 26, plain (Fpu F32Div)),
     (unat FPU_OPCODE_OFFSET + 27, plain (Fpu F32Min)),
     (unat FPU_OPCODE_OFFSET + 28, plain (Fpu F32Max)),
     (unat FPU_OPCODE_OFFSET + 29, plain (Fpu F32Copysign)),
     (unat FPU_OPCODE_OFFSET + 30, plain (Fpu F64Abs)),
     (unat FPU_OPCODE_OFFSET + 31, plain (Fpu F64Neg)),
     (unat FPU_OPCODE_OFFSET + 32, plain (Fpu F64Ceil)),
     (unat FPU_OPCODE_OFFSET + 33, plain (Fpu F64Floor)),
     (unat FPU_OPCODE_OFFSET + 34, plain (Fpu F64Trunc)),
     (unat FPU_OPCODE_OFFSET + 35, plain (Fpu F64Nearest)),
     (unat FPU_OPCODE_OFFSET + 36, plain (Fpu F64Sqrt)),
     (unat FPU_OPCODE_OFFSET + 37, plain (Fpu F64Add)),
     (unat FPU_OPCODE_OFFSET + 38, plain (Fpu F64Sub)),
     (unat FPU_OPCODE_OFFSET + 39, plain (Fpu F64Mul)),
     (unat FPU_OPCODE_OFFSET + 40, plain (Fpu F64Div)),
     (unat FPU_OPCODE_OFFSET + 41, plain (Fpu F64Min)),
     (unat FPU_OPCODE_OFFSET + 42, plain (Fpu F64Max)),
     (unat FPU_OPCODE_OFFSET + 43, plain (Fpu F64Copysign)),
     (unat FPU_OPCODE_OFFSET + 44, plain (Fpu I32TruncF32S)),
     (unat FPU_OPCODE_OFFSET + 45, plain (Fpu I32TruncF32U)),
     (unat FPU_OPCODE_OFFSET + 46, plain (Fpu I32TruncF64S)),
     (unat FPU_OPCODE_OFFSET + 47, plain (Fpu I32TruncF64U)),
     (unat FPU_OPCODE_OFFSET + 48, plain (Fpu I64TruncF32S)),
     (unat FPU_OPCODE_OFFSET + 49, plain (Fpu I64TruncF32U)),
     (unat FPU_OPCODE_OFFSET + 50, plain (Fpu I64TruncF64S)),
     (unat FPU_OPCODE_OFFSET + 51, plain (Fpu I64TruncF64U)),
     (unat FPU_OPCODE_OFFSET + 52, plain (Fpu F32ConvertI32S)),
     (unat FPU_OPCODE_OFFSET + 53, plain (Fpu F32ConvertI32U)),
     (unat FPU_OPCODE_OFFSET + 54, plain (Fpu F32ConvertI64S)),
     (unat FPU_OPCODE_OFFSET + 55, plain (Fpu F32ConvertI64U)),
     (unat FPU_OPCODE_OFFSET + 56, plain (Fpu F32DemoteF64)),
     (unat FPU_OPCODE_OFFSET + 57, plain (Fpu F64ConvertI32S)),
     (unat FPU_OPCODE_OFFSET + 58, plain (Fpu F64ConvertI32U)),
     (unat FPU_OPCODE_OFFSET + 59, plain (Fpu F64ConvertI64S)),
     (unat FPU_OPCODE_OFFSET + 60, plain (Fpu F64ConvertI64U)),
     (unat FPU_OPCODE_OFFSET + 61, plain (Fpu F64PromoteF32)),
     (unat FPU_OPCODE_OFFSET + 62, plain (Fpu I32TruncSatF32S)),
     (unat FPU_OPCODE_OFFSET + 63, plain (Fpu I32TruncSatF32U)),
     (unat FPU_OPCODE_OFFSET + 64, plain (Fpu I32TruncSatF64S)),
     (unat FPU_OPCODE_OFFSET + 65, plain (Fpu I32TruncSatF64U)),
     (unat FPU_OPCODE_OFFSET + 66, plain (Fpu I64TruncSatF32S)),
     (unat FPU_OPCODE_OFFSET + 67, plain (Fpu I64TruncSatF32U)),
     (unat FPU_OPCODE_OFFSET + 68, plain (Fpu I64TruncSatF64S)),
     (unat FPU_OPCODE_OFFSET + 69, plain (Fpu I64TruncSatF64U))]"

definition opcode_arms :: "bincode \<Rightarrow> (nat \<times> opcode decoding) list" where
  "opcode_arms B = stack_arms B @ memory_arms B @ table_arms B @ alu_arms B @ float_arms B"

definition decode_opcode :: "bincode \<Rightarrow> opcode decoding" where
  "decode_opcode B = and_decode (field (bin_u32 B)) (\<lambda>code.
     case map_of (opcode_arms B) (unat code) of
       Some arm \<Rightarrow> arm
     | None \<Rightarrow> refused (Other ''rwasm: invalid opcode''))"

definition encode_fields :: "bincode \<Rightarrow> opcode \<Rightarrow> u8 list" where
  "encode_fields B op = (case op of
     Trap x \<Rightarrow> enc (bin_trap B) x
   | LocalGet x \<Rightarrow> enc (bin_u32 B) x
   | LocalSet x \<Rightarrow> enc (bin_u32 B) x
   | LocalTee x \<Rightarrow> enc (bin_u32 B) x
   | Br x \<Rightarrow> enc (bin_i32 B) x
   | BrIfEqz x \<Rightarrow> enc (bin_i32 B) x
   | BrIfNez x \<Rightarrow> enc (bin_i32 B) x
   | BrTable x \<Rightarrow> enc (bin_u32 B) x
   | ConsumeFuel x \<Rightarrow> enc (bin_u32 B) x
   | ReturnCallInternal x \<Rightarrow> enc (bin_u32 B) x
   | ReturnCall x \<Rightarrow> enc (bin_u32 B) x
   | ReturnCallIndirect x \<Rightarrow> enc (bin_u32 B) x
   | CallInternal x \<Rightarrow> enc (bin_u32 B) x
   | Call x \<Rightarrow> enc (bin_u32 B) x
   | CallIndirect x \<Rightarrow> enc (bin_u32 B) x
   | SignatureCheck x \<Rightarrow> enc (bin_u32 B) x
   | StackCheck x \<Rightarrow> enc (bin_u32 B) x
   | RefFunc x \<Rightarrow> enc (bin_u32 B) x
   | I32Const x \<Rightarrow> enc (bin_u32 B) x
   | GlobalGet x \<Rightarrow> enc (bin_u32 B) x
   | GlobalSet x \<Rightarrow> enc (bin_u32 B) x
   | I32Load x \<Rightarrow> enc (bin_u32 B) x
   | I32Load8S x \<Rightarrow> enc (bin_u32 B) x
   | I32Load8U x \<Rightarrow> enc (bin_u32 B) x
   | I32Load16S x \<Rightarrow> enc (bin_u32 B) x
   | I32Load16U x \<Rightarrow> enc (bin_u32 B) x
   | I32Store x \<Rightarrow> enc (bin_u32 B) x
   | I32Store8 x \<Rightarrow> enc (bin_u32 B) x
   | I32Store16 x \<Rightarrow> enc (bin_u32 B) x
   | MemoryInit x \<Rightarrow> enc (bin_u32 B) x
   | DataDrop x \<Rightarrow> enc (bin_u32 B) x
   | TableSize x \<Rightarrow> enc (bin_u16 B) x
   | TableGrow x \<Rightarrow> enc (bin_u16 B) x
   | TableFill x \<Rightarrow> enc (bin_u16 B) x
   | TableGet x \<Rightarrow> enc (bin_u16 B) x
   | TableSet x \<Rightarrow> enc (bin_u16 B) x
   | TableCopy x y \<Rightarrow> enc (bin_u16 B) x @ enc (bin_u16 B) y
   | TableInit x \<Rightarrow> enc (bin_u32 B) x
   | ElemDrop x \<Rightarrow> enc (bin_u32 B) x
   | BulkConst x \<Rightarrow> enc (bin_u32 B) x
   | BulkDrop x \<Rightarrow> enc (bin_u32 B) x
   | Fpu (F32Load x) \<Rightarrow> enc (bin_u32 B) x
   | Fpu (F64Load x) \<Rightarrow> enc (bin_u32 B) x
   | Fpu (F32Store x) \<Rightarrow> enc (bin_u32 B) x
   | Fpu (F64Store x) \<Rightarrow> enc (bin_u32 B) x
   | _ \<Rightarrow> [])"

definition encode_opcode :: "bincode \<Rightarrow> opcode \<Rightarrow> u8 list" where
  "encode_opcode B op = enc (bin_u32 B) (opcode_code op) @ encode_fields B op"

section \<open>The code section\<close>

definition encode_instruction_set :: "bincode \<Rightarrow> opcode list \<Rightarrow> u8 list" where
  "encode_instruction_set B code =
     enc (bin_u64 B) (word_of_nat (length code)) @ concat (map (encode_opcode B) code)"

fun decode_opcodes :: "bincode \<Rightarrow> nat \<Rightarrow> opcode list decoding" where
  "decode_opcodes B 0 = decoded []"
| "decode_opcodes B (Suc n) =
     and_decode (decode_opcode B) (\<lambda>op. and_decode (decode_opcodes B n) (\<lambda>ops. decoded (op # ops)))"

text \<open>\<open>Vec::with_capacity\<close> panics when the capacity in bytes exceeds \<open>isize::MAX\<close>; an opcode
  takes eight bytes.\<close>

definition OPCODE_SIZE :: nat where "OPCODE_SIZE = 8"

definition decode_instruction_set :: "bincode \<Rightarrow> opcode list decoding" where
  "decode_instruction_set B = and_decode (field (bin_u64 B)) (\<lambda>n.
     if 2 ^ 63 \<le> OPCODE_SIZE * unat n then (\<lambda>_. None) else decode_opcodes B (unat n))"

section \<open>The module\<close>

definition RWASM_MAGIC_BYTE_0 :: u8 where "RWASM_MAGIC_BYTE_0 = 0xef"
definition RWASM_MAGIC_BYTE_1 :: u8 where "RWASM_MAGIC_BYTE_1 = 0x52"
definition RWASM_VERSION_V1 :: u8 where "RWASM_VERSION_V1 = 0x01"

text \<open>The sections up to the source pc, and all of the module.\<close>

definition encode_sections :: "bincode \<Rightarrow> rwasm_module \<Rightarrow> u8 list" where
  "encode_sections B m =
     enc (bin_u8 B) RWASM_MAGIC_BYTE_0 @ enc (bin_u8 B) RWASM_MAGIC_BYTE_1 @ enc (bin_u8 B) RWASM_VERSION_V1 @
     encode_instruction_set B (code_section m) @ enc (bin_bytes B) (data_section m) @
     enc (bin_words B) (elem_section m) @ enc (bin_bytes B) (hint_section m)"

definition serialize :: "bincode \<Rightarrow> rwasm_module \<Rightarrow> u8 list" where
  "serialize B m = encode_sections B m @ enc (bin_u32 B) (source_pc m)"

text \<open>A missing source pc is 0; the reader has not moved then.\<close>

definition decode_source_pc :: "bincode \<Rightarrow> u32 decoding" where
  "decode_source_pc B bs = Some (case dec (bin_u32 B) bs of
     Inr r \<Rightarrow> Inr r
   | Inl (UnexpectedEnd additional) \<Rightarrow> if additional \<noteq> 4 then Inl (UnexpectedEnd additional) else Inr (0, bs)
   | Inl e \<Rightarrow> Inl e)"

definition decode_module :: "bincode \<Rightarrow> rwasm_module decoding" where
  "decode_module B =
     and_decode (field (bin_u8 B)) (\<lambda>sig0. and_decode (field (bin_u8 B)) (\<lambda>sig1.
     if sig0 \<noteq> RWASM_MAGIC_BYTE_0 \<or> sig1 \<noteq> RWASM_MAGIC_BYTE_1 then refused (Other ''rwasm: invalid magic bytes'')
     else and_decode (field (bin_u8 B)) (\<lambda>version.
     if version \<noteq> RWASM_VERSION_V1 then refused (Other ''rwasm: not supported version'')
     else and_decode (decode_instruction_set B) (\<lambda>code. and_decode (field (bin_bytes B)) (\<lambda>data.
     and_decode (field (bin_words B)) (\<lambda>elem. and_decode (field (bin_bytes B)) (\<lambda>hint.
     and_decode (decode_source_pc B) (\<lambda>pc.
       decoded \<lparr>code_section = code, data_section = data, elem_section = elem, hint_section = hint,
         source_pc = pc\<rparr>))))))))"

definition new_checked :: "bincode \<Rightarrow> u8 list \<Rightarrow> (decode_error + rwasm_module \<times> nat) option" where
  "new_checked B sink = map_option
     (map_sum id (\<lambda>(m, rest). (m, length sink - length rest))) (decode_module B sink)"

definition new_checked_exact :: "bincode \<Rightarrow> u8 list \<Rightarrow> (decode_error + rwasm_module) option" where
  "new_checked_exact B sink = (case new_checked B sink of
     None \<Rightarrow> None
   | Some (Inl e) \<Rightarrow> Some (Inl e)
   | Some (Inr (m, bytes_read)) \<Rightarrow>
       Some (if bytes_read \<noteq> length sink then Inl (Other ''rwasm: trailing bytes after module'') else Inr m))"

text \<open>\<open>new\<close> panics on a malformed binary.\<close>

definition new_module :: "bincode \<Rightarrow> u8 list \<Rightarrow> (rwasm_module \<times> nat) option" where
  "new_module B sink = (case new_checked B sink of Some (Inr r) \<Rightarrow> Some r | _ \<Rightarrow> None)"

definition empty_module :: rwasm_module where
  "empty_module = \<lparr>code_section = [], data_section = [], elem_section = [], hint_section = [], source_pc = 0\<rparr>"

definition new_or_empty :: "bincode \<Rightarrow> u8 list \<Rightarrow> (rwasm_module \<times> nat) option" where
  "new_or_empty B sink = (if sink = [] then Some (empty_module, 0) else new_module B sink)"

datatype module_error = DecodeFailed decode_error | VerificationFailed verification_error

definition verified_or :: "'a \<Rightarrow> rwasm_module \<Rightarrow> module_error + 'a" where
  "verified_or r m = (case verify_module m of Inl e \<Rightarrow> Inl (VerificationFailed e) | Inr _ \<Rightarrow> Inr r)"

definition new_verified :: "bincode \<Rightarrow> u8 list \<Rightarrow> (module_error + rwasm_module \<times> nat) option" where
  "new_verified B sink = (case new_checked B sink of
     None \<Rightarrow> None
   | Some (Inl e) \<Rightarrow> Some (Inl (DecodeFailed e))
   | Some (Inr (m, bytes_read)) \<Rightarrow> Some (verified_or (m, bytes_read) m))"

definition new_verified_exact :: "bincode \<Rightarrow> u8 list \<Rightarrow> (module_error + rwasm_module) option" where
  "new_verified_exact B sink = (case new_checked_exact B sink of
     None \<Rightarrow> None
   | Some (Inl e) \<Rightarrow> Some (Inl (DecodeFailed e))
   | Some (Inr m) \<Rightarrow> Some (verified_or m m))"

text \<open>The builder is a module under construction.\<close>

definition builder_new :: "opcode list \<Rightarrow> rwasm_module" where
  "builder_new code = empty_module\<lparr>code_section := code\<rparr>"

definition with_data_section :: "u8 list \<Rightarrow> rwasm_module \<Rightarrow> rwasm_module" where
  "with_data_section data m = m\<lparr>data_section := data_section m @ data\<rparr>"

definition with_elem_section :: "u32 list \<Rightarrow> rwasm_module \<Rightarrow> rwasm_module" where
  "with_elem_section elem m = m\<lparr>elem_section := elem_section m @ elem\<rparr>"

definition with_hint_section :: "u8 list \<Rightarrow> rwasm_module \<Rightarrow> rwasm_module" where
  "with_hint_section hint m = m\<lparr>hint_section := hint\<rparr>"

definition with_source_pc :: "u32 \<Rightarrow> rwasm_module \<Rightarrow> rwasm_module" where
  "with_source_pc pc m = m\<lparr>source_pc := pc\<rparr>"

text \<open>What the hint section holds.\<close>

datatype hint_type = HintWasm | HintEvm

definition WASM_MAGIC_BYTES :: "u8 list" where
  "WASM_MAGIC_BYTES = [0x00, 0x61, 0x73, 0x6d]"

definition hint_type :: "rwasm_module \<Rightarrow> hint_type" where
  "hint_type m = (if take 4 (hint_section m) = WASM_MAGIC_BYTES then HintWasm else HintEvm)"

section \<open>What bincode promises\<close>

definition round_trips :: "'a prim \<Rightarrow> 'a \<Rightarrow> bool" where
  "round_trips p x \<longleftrightarrow> (\<forall>rest. dec p (enc p x @ rest) = Inr (x, rest))"

definition bincode_laws :: "bincode \<Rightarrow> bool" where
  "bincode_laws B \<longleftrightarrow>
     (\<forall>x. round_trips (bin_u8 B) x) \<and> (\<forall>x. round_trips (bin_u16 B) x) \<and> (\<forall>x. round_trips (bin_u32 B) x) \<and>
     (\<forall>x. round_trips (bin_i32 B) x) \<and> (\<forall>x. round_trips (bin_u64 B) x) \<and> (\<forall>x. round_trips (bin_trap B) x) \<and>
     (\<forall>x. length x < 2 ^ 64 \<longrightarrow> round_trips (bin_bytes B) x) \<and>
     (\<forall>x. length x < 2 ^ 64 \<longrightarrow> round_trips (bin_words B) x) \<and>
     (\<forall>bs. length bs < 4 \<longrightarrow> dec (bin_u32 B) bs = Inl (UnexpectedEnd (4 - length bs)))"

section \<open>Round trips\<close>

text \<open>\<open>reads d bs x\<close>: the decoder takes exactly \<open>bs\<close> from the front and yields \<open>x\<close>.\<close>

definition reads :: "'a decoding \<Rightarrow> u8 list \<Rightarrow> 'a \<Rightarrow> bool" where
  "reads d bs x \<longleftrightarrow> (\<forall>rest. d (bs @ rest) = Some (Inr (x, rest)))"

lemma reads_field: "round_trips p x \<Longrightarrow> reads (field p) (enc p x) x"
  by (simp add: reads_def round_trips_def field_def)

lemma reads_decoded: "reads (decoded x) [] x"
  by (simp add: reads_def decoded_def)

lemma reads_bind: "reads d as x \<Longrightarrow> reads (f x) bs y \<Longrightarrow> reads (and_decode d f) (as @ bs) y"
  by (simp add: reads_def and_decode_def)

lemma reads_map: "reads d bs x \<Longrightarrow> reads (and_decode d (\<lambda>x. decoded (f x))) bs (f x)"
  using reads_bind [OF _ reads_decoded] by fastforce

lemma reads_field_of: "round_trips p x \<Longrightarrow> reads (field_of p f) (enc p x) (f x)"
  unfolding field_of_def by (rule reads_map [OF reads_field])

lemma reads_fpu: "round_trips p x \<Longrightarrow> reads (field_of p (\<lambda>x. Fpu (f x))) (enc p x) (Fpu (f x))"
  by (rule reads_field_of)

lemma reads_field_of2:
  "round_trips p x \<Longrightarrow> round_trips q y \<Longrightarrow> reads (field_of2 p q f) (enc p x @ enc q y) (f x y)"
  unfolding field_of2_def by (intro reads_bind [OF reads_field] reads_map [OF reads_field])

lemma bincode_round_trips:
  assumes "bincode_laws B"
  shows "round_trips (bin_u8 B) a" "round_trips (bin_u16 B) b" "round_trips (bin_u32 B) c" "round_trips (bin_i32 B) c"
    "round_trips (bin_u64 B) d" "round_trips (bin_trap B) t"
    "length bs < 2 ^ 64 \<Longrightarrow> round_trips (bin_bytes B) bs" "length ws < 2 ^ 64 \<Longrightarrow> round_trips (bin_words B) ws"
  using assms by (simp_all add: bincode_laws_def)

lemma arm_keys:
  "map fst (stack_arms B) = [0..<26]" "map fst (memory_arms B) = [26..<40]"
  "map fst (table_arms B) = [40..<48]" "map fst (alu_arms B) = [48..<84]"
  by (simp_all add: stack_arms_def memory_arms_def table_arms_def alu_arms_def upt_rec)

lemma arm_in:
  assumes "map fst xs = [a..<b]"
  shows "map_of (xs @ ys) k = (if a \<le> k \<and> k < b then map_of xs k else map_of ys k)"
proof -
  have "fst ` set xs = {a..<b}" using arg_cong [OF assms, of set] by simp
  then have "map_of xs k = None \<longleftrightarrow> \<not> (a \<le> k \<and> k < b)" by (simp add: map_of_eq_None_iff)
  then show ?thesis by (auto simp: map_add_def split: option.splits)
qed

lemma arm_lookup:
  "map_of (opcode_arms B) k =
     (if k < 26 then map_of (stack_arms B) k else if k < 40 then map_of (memory_arms B) k
      else if k < 48 then map_of (table_arms B) k else if k < 84 then map_of (alu_arms B) k
      else map_of (float_arms B) k)"
  by (simp only: opcode_arms_def arm_in [OF arm_keys(1)] arm_in [OF arm_keys(2)] arm_in [OF arm_keys(3)]
      arm_in [OF arm_keys(4)]) auto

lemma opcode_arm:
  assumes "bincode_laws B"
  shows "\<exists>arm. map_of (opcode_arms B) (unat (opcode_code op)) = Some arm \<and> reads arm (encode_fields B op) op"
proof (cases op)
  case (Fpu f)
  then show ?thesis
    by (cases f) (simp_all add: arm_lookup opcode_code_def fpu_code_def encode_fields_def FPU_OPCODE_OFFSET_def
      float_arms_def plain_def reads_decoded reads_fpu bincode_round_trips [OF assms])
qed (simp_all add: arm_lookup opcode_code_def encode_fields_def
    stack_arms_def memory_arms_def table_arms_def alu_arms_def
    plain_def reads_decoded reads_field_of reads_field_of2 bincode_round_trips [OF assms])

lemma decode_encode_opcode:
  assumes "bincode_laws B"
  shows "reads (decode_opcode B) (encode_opcode B op) op"
proof -
  obtain arm where "map_of (opcode_arms B) (unat (opcode_code op)) = Some arm" "reads arm (encode_fields B op) op"
    using opcode_arm [OF assms] by blast
  then show ?thesis
    unfolding decode_opcode_def encode_opcode_def
    by (intro reads_bind [OF reads_field [OF bincode_round_trips(3) [OF assms]]]) simp
qed

lemma decode_encode_opcodes:
  assumes "bincode_laws B"
  shows "reads (decode_opcodes B (length ops)) (concat (map (encode_opcode B) ops)) ops"
proof (induction ops)
  case (Cons op ops)
  show ?case
    using reads_bind [OF decode_encode_opcode [OF assms] reads_map [OF Cons.IH]] by simp
qed (simp add: reads_decoded)

text \<open>A code section that fits into the memory.\<close>

lemma decode_encode_instruction_set:
  assumes laws: "bincode_laws B" and len: "OPCODE_SIZE * length ops < 2 ^ 63"
  shows "reads (decode_instruction_set B) (encode_instruction_set B ops) ops"
proof -
  have "unat (word_of_nat (length ops) :: u64) = length ops"
    using len by (simp add: OPCODE_SIZE_def unat_of_nat)
  then show ?thesis
    unfolding decode_instruction_set_def encode_instruction_set_def
    by (intro reads_bind [OF reads_field [OF bincode_round_trips(5) [OF laws]]])
      (use len decode_encode_opcodes [OF laws, of ops] in simp)
qed

definition encodable :: "rwasm_module \<Rightarrow> bool" where
  "encodable m \<longleftrightarrow> OPCODE_SIZE * length (code_section m) < 2 ^ 63 \<and> length (data_section m) < 2 ^ 64 \<and>
     length (elem_section m) < 2 ^ 64 \<and> length (hint_section m) < 2 ^ 64"

text \<open>Whatever is read as the source pc after the sections is that of the module.\<close>

lemma decode_sections:
  assumes laws: "bincode_laws B" and m: "encodable m"
  shows "decode_module B (encode_sections B m @ bs) =
    and_decode (decode_source_pc B) (\<lambda>pc. decoded (m\<lparr>source_pc := pc\<rparr>)) bs"
proof -
  note rt = bincode_round_trips [OF laws]
  have step: "and_decode d f (xs @ rest) = f x rest" if "reads d xs x" for d f xs x rest
    using that by (simp add: reads_def and_decode_def)
  have m_eta: "\<lparr>code_section = code_section m, data_section = data_section m, elem_section = elem_section m,
      hint_section = hint_section m, source_pc = pc\<rparr> = m\<lparr>source_pc := pc\<rparr>" for pc
    by (cases m) simp
  show ?thesis
    using m
    by (simp add: decode_module_def encode_sections_def step [OF reads_field] rt encodable_def m_eta
        step [OF decode_encode_instruction_set [OF laws]])
qed

lemma decode_serialized:
  assumes "bincode_laws B" "encodable m"
  shows "decode_module B (serialize B m @ trailing) = Some (Inr (m, trailing))"
proof -
  have "dec (bin_u32 B) (enc (bin_u32 B) (source_pc m) @ trailing) = Inr (source_pc m, trailing)"
    using bincode_round_trips(3) [OF assms(1)] by (simp add: round_trips_def)
  then show ?thesis
    by (simp add: serialize_def decode_sections [OF assms] and_decode_def decode_source_pc_def decoded_def)
qed

text \<open>Up to three bytes after the sections: none is an old binary, without a source pc; more are
  the beginning of one.\<close>

lemma decode_short:
  assumes "bincode_laws B" "encodable m" and short: "length bs < 4"
  shows "decode_module B (encode_sections B m @ bs) =
    Some (if bs = [] then Inr (m\<lparr>source_pc := 0\<rparr>, []) else Inl (UnexpectedEnd (4 - length bs)))"
proof -
  have "dec (bin_u32 B) bs = Inl (UnexpectedEnd (4 - length bs))"
    using assms(1) short by (simp add: bincode_laws_def)
  moreover have "4 - length bs = 4 \<longleftrightarrow> bs = []" by (cases bs) auto
  ultimately show ?thesis
    by (simp add: decode_sections [OF assms(1,2)] and_decode_def decode_source_pc_def decoded_def)
qed

lemma verified_constructor:
  "new_verified_exact B sink = Some (Inr m) \<longleftrightarrow>
     new_checked_exact B sink = Some (Inr m) \<and> verify_module m = verified"
  by (auto simp: new_verified_exact_def verified_or_def verified_def split: option.splits sum.splits)

text \<open>A wrong magic byte or version is refused.\<close>

lemma wrong_header:
  assumes "bincode_laws B"
  shows "a \<noteq> RWASM_MAGIC_BYTE_0 \<or> b \<noteq> RWASM_MAGIC_BYTE_1 \<Longrightarrow>
      decode_module B (enc (bin_u8 B) a @ enc (bin_u8 B) b @ bs) = Some (Inl (Other ''rwasm: invalid magic bytes''))"
    and "c \<noteq> RWASM_VERSION_V1 \<Longrightarrow>
      decode_module B (enc (bin_u8 B) RWASM_MAGIC_BYTE_0 @ enc (bin_u8 B) RWASM_MAGIC_BYTE_1 @ enc (bin_u8 B) c @ bs) =
        Some (Inl (Other ''rwasm: not supported version''))"
proof -
  have step: "and_decode (field (bin_u8 B)) f (enc (bin_u8 B) x @ rest) = f x rest" for x rest and f :: "u8 \<Rightarrow> rwasm_module decoding"
    using bincode_round_trips(1) [OF assms] by (simp add: round_trips_def and_decode_def field_def)
  show "a \<noteq> RWASM_MAGIC_BYTE_0 \<or> b \<noteq> RWASM_MAGIC_BYTE_1 \<Longrightarrow>
      decode_module B (enc (bin_u8 B) a @ enc (bin_u8 B) b @ bs) = Some (Inl (Other ''rwasm: invalid magic bytes''))"
    "c \<noteq> RWASM_VERSION_V1 \<Longrightarrow>
      decode_module B (enc (bin_u8 B) RWASM_MAGIC_BYTE_0 @ enc (bin_u8 B) RWASM_MAGIC_BYTE_1 @ enc (bin_u8 B) c @ bs) =
        Some (Inl (Other ''rwasm: not supported version''))"
    by (auto simp: decode_module_def step refused_def)
qed

text \<open>A length that no vector can have panics instead of being an error.\<close>

lemma huge_length_panics:
  assumes "bincode_laws B" and "2 ^ 63 \<le> OPCODE_SIZE * unat n"
  shows "decode_module B (enc (bin_u8 B) RWASM_MAGIC_BYTE_0 @ enc (bin_u8 B) RWASM_MAGIC_BYTE_1 @
    enc (bin_u8 B) RWASM_VERSION_V1 @ enc (bin_u64 B) n @ bs) = None"
proof -
  have step: "and_decode (field p) f (enc p x @ rest) = f x rest" if "round_trips p x" for p f x rest
    using that by (simp add: round_trips_def and_decode_def field_def)
  show ?thesis
    using assms(2) bincode_round_trips [OF assms(1)]
    by (simp add: decode_module_def step decode_instruction_set_def) (simp add: and_decode_def field_def round_trips_def)
qed

section \<open>An instance of the laws\<close>

text \<open>Fixed-width little-endian integers, vectors behind their 64-bit length.\<close>

definition le_prim :: "nat \<Rightarrow> 'a::len word prim" where
  "le_prim k = \<lparr>enc = to_le_bytes k,
     dec = (\<lambda>bs. if length bs < k then Inl (UnexpectedEnd (k - length bs))
                else Inr (from_le_bytes (take k bs), drop k bs))\<rparr>"

fun take_words :: "nat \<Rightarrow> u8 list \<Rightarrow> decode_error + u32 list \<times> u8 list" where
  "take_words 0 bs = Inr ([], bs)"
| "take_words (Suc n) bs =
     (case dec (le_prim 4) bs of
        Inl e \<Rightarrow> Inl e
      | Inr (w, bs) \<Rightarrow> map_sum id (map_prod ((#) w) id) (take_words n bs))"

definition take_bytes :: "nat \<Rightarrow> u8 list \<Rightarrow> decode_error + u8 list \<times> u8 list" where
  "take_bytes n bs = (if length bs < n then Inl (UnexpectedEnd (n - length bs)) else Inr (take n bs, drop n bs))"

definition vec_prim :: "('a list \<Rightarrow> u8 list) \<Rightarrow> (nat \<Rightarrow> u8 list \<Rightarrow> decode_error + 'a list \<times> u8 list) \<Rightarrow> 'a list prim" where
  "vec_prim f g = \<lparr>enc = (\<lambda>xs. to_le_bytes 8 (word_of_nat (length xs) :: u64) @ f xs),
     dec = (\<lambda>bs. case dec (le_prim 8 :: u64 prim) bs of Inl e \<Rightarrow> Inl e | Inr (n, bs) \<Rightarrow> g (unat n) bs)\<rparr>"

definition trap_codes :: "trap_code list" where
  "trap_codes = [UnreachableCodeReached, MemoryOutOfBounds, TableOutOfBounds, IndirectCallToNull,
     IntegerDivisionByZero, IntegerOverflow, BadConversionToInteger, StackOverflow, BadSignature, OutOfFuel,
     UnknownExternalFunction, IllegalOpcode, InterruptionCalled, ExecutionHalted]"

definition trap_prim :: "trap_code prim" where
  "trap_prim = \<lparr>enc = (\<lambda>t. [ucast (trap_discriminant t)]),
     dec = (\<lambda>bs. case bs of [] \<Rightarrow> Inl (UnexpectedEnd 1)
       | b # rest \<Rightarrow> (case find (\<lambda>t. ucast (trap_discriminant t) = b) trap_codes of
           None \<Rightarrow> Inl (OtherVariant ''unexpected variant'') | Some t \<Rightarrow> Inr (t, rest)))\<rparr>"

definition little_endian :: bincode where
  "little_endian = \<lparr>bin_u8 = le_prim 1, bin_u16 = le_prim 2, bin_u32 = le_prim 4, bin_i32 = le_prim 4,
     bin_u64 = le_prim 8, bin_trap = trap_prim, bin_bytes = vec_prim id take_bytes,
     bin_words = vec_prim (\<lambda>ws. concat (map (to_le_bytes 4) ws)) take_words\<rparr>"

lemma le_prim_round_trips: "LENGTH('a) = 8 * k \<Longrightarrow> round_trips (le_prim k) (w :: 'a::len word)"
  by (simp add: round_trips_def le_prim_def from_le_to_le_bytes)

lemma le_prim_short: "length bs < k \<Longrightarrow> dec (le_prim k) bs = Inl (UnexpectedEnd (k - length bs))"
  by (simp add: le_prim_def)

lemma take_words_round: "take_words (length ws) (concat (map (to_le_bytes 4) ws) @ rest) = Inr (ws, rest)"
proof (induction ws)
  case (Cons w ws)
  have "dec (le_prim 4) (to_le_bytes 4 w @ bs) = Inr (w, bs)" for bs
    using le_prim_round_trips [of 4 w] by (simp add: round_trips_def) (simp add: le_prim_def)
  with Cons show ?case by simp
qed simp

lemma vec_prim_round_trips:
  assumes "\<And>rest. g (length xs) (f xs @ rest) = Inr (xs, rest)" and "length xs < 2 ^ 64"
  shows "round_trips (vec_prim f g) xs"
proof -
  have "dec (le_prim 8) (to_le_bytes 8 n @ bs) = Inr (n, bs)" for n :: u64 and bs
    using le_prim_round_trips [of 8 n] by (simp add: round_trips_def) (simp add: le_prim_def)
  then show ?thesis
    using assms by (simp add: round_trips_def vec_prim_def unat_of_nat)
qed

lemma trap_prim_round_trips: "round_trips trap_prim t"
  by (cases t) (simp_all add: round_trips_def trap_prim_def trap_codes_def trap_discriminant_def)

lemma little_endian_laws: "bincode_laws little_endian"
  unfolding bincode_laws_def
  by (auto simp: little_endian_def le_prim_round_trips trap_prim_round_trips le_prim_short
      take_words_round take_bytes_def intro!: vec_prim_round_trips)

end
