(* ===== verification/Module_Parser.thy ===== *)
theory Module_Parser
  imports Func_Builder Block_Fuel Compiled_Expr Compilation_Config Module_Codec "HOL-Library.AList"
begin

text \<open>
  The front end of the compiler (\<open>src/compiler/parser.rs\<close>): it walks over the payloads of a
  WebAssembly module, fills the allocations of the translator, translates the functions and
  assembles the rWasm module: entrypoint code, state router, snippets, relocation of the
  internal calls.

  The reader and the validator belong to the crate \<open>wasmparser\<close>: a payload holds the items its
  section reader yields, and the validator is a record of functions over states of its own,
  \<open>'v\<close> for the module and \<open>'w\<close> for a function. A section that the validator accepts is read
  without errors. A panic is \<open>None\<close>.
\<close>

section \<open>Payloads\<close>

datatype import_type = ImportFunc u32 | ImportGlobal val_type bool | ImportOther

record import_item =
  item_module :: string
  item_name :: string
  item_type :: import_type

record global_item =
  item_content :: val_type
  item_mutable :: bool
  item_init :: "operator list"

record export_item =
  export_name :: string
  export_is_func :: bool
  export_index :: u32

datatype element_items = ElemExpressions "operator list list" | ElemFunctions "u32 list"
datatype element_kind = ElemActive u32 "operator list" | ElemPassive | ElemDeclared
datatype data_kind = DataActive u32 "operator list" | DataPassive

datatype payload =
    VersionPayload
  | TypeSection "func_type list"
  | ImportSection "import_item list"
  | InstanceSection
  | FunctionSection "u32 list"
  | TableSection "table_type list"
  | MemorySection "(u64 \<times> memory_type) list"
  | TagSection
  | GlobalSection "global_item list"
  | ExportSection "export_item list"
  | StartSection u32
  | ElementSection "(element_kind \<times> element_items) list"
  | DataCountSection u32
  | DataSection "(data_kind \<times> u8 list) list"
  | CustomSection string "u8 list"
  | CodeSectionStart
  | CodeSectionEntry func_body
  | UnknownSection
  | ComponentModel
  | EndPayload

record ('v, 'w) module_validator =
  validate_payload :: "payload \<Rightarrow> 'v \<Rightarrow> binary_reader_error + 'v"
  enter_code_entry :: "func_body \<Rightarrow> 'v \<Rightarrow> binary_reader_error + 'v \<times> 'w"
  function_validator :: "'w validator"

section \<open>The parser\<close>

record 'v module_parser =
  parser_validator :: 'v
  compiled_count :: u32
  allocs :: translator
  exported_funcs :: "(string \<times> u32) list"
  start_func :: "u32 option"
  constructor_params :: "u8 list option"
  config :: compilation_config

type_synonym 'v parsing = "'v module_parser \<Rightarrow> 'v module_parser result"

definition allocations_default :: translator where
  "allocations_default =
     \<lparr>reachable = True, control_frames = [], label_reg = labels_reset, instructions = [],
      br_table_branches = [], stack_types = [], segments = segment_builder_default,
      func_reg = registry_default, compiled_funcs = [], table_types = [], memory_types = [], globals = [],
      func_offsets = [], snippet_calls = [], intrinsics = [], stack_height = height_default,
      with_consume_fuel = False, consume_fuel_for_params_and_locals = False, locals_registered = 0,
      with_code_snippets = False, consume_fuel_for_bulk_ops = False, memory_page_limit = 0\<rparr>"

definition parser_new :: "'v \<Rightarrow> compilation_config \<Rightarrow> 'v module_parser" where
  "parser_new v c = \<lparr>parser_validator = v, compiled_count = 0, allocs = allocations_default,
     exported_funcs = [], start_func = None, constructor_params = None, config = c\<rparr>"

text \<open>An action on the allocations, a change of the segments, a loop over the items of a section.\<close>

definition on_allocs :: "action \<Rightarrow> 'v parsing" where
  "on_allocs a p = and_then (a (allocs p)) (\<lambda>t. ok (p\<lparr>allocs := t\<rparr>))"

definition on_segments :: "(segment_builder \<Rightarrow> segment_builder result) \<Rightarrow> action" where
  "on_segments f t = and_then (f (segments t)) (\<lambda>b. ok (t\<lparr>segments := b\<rparr>))"

fun for_each :: "('a \<Rightarrow> 's \<Rightarrow> 's result) \<Rightarrow> 'a list \<Rightarrow> 's \<Rightarrow> 's result" where
  "for_each f [] s = ok s"
| "for_each f (x # xs) s = and_then (f x s) (for_each f xs)"

fun collect :: "('a \<Rightarrow> 'b result) \<Rightarrow> 'a list \<Rightarrow> 'b list result" where
  "collect f [] = ok []"
| "collect f (x # xs) = and_then (f x) (\<lambda>y. and_then (collect f xs) (\<lambda>ys. ok (y # ys)))"

definition validating :: "('v, 'w) module_validator \<Rightarrow> payload \<Rightarrow> 'v parsing" where
  "validating V pl p =
     and_then (validated (validate_payload V pl (parser_validator p))) (\<lambda>v. ok (p\<lparr>parser_validator := v\<rparr>))"

text \<open>The translator for the next function, with the flags of the configuration.\<close>

definition new_translator :: "compilation_config \<Rightarrow> translator \<Rightarrow> translator" where
  "new_translator c t =
     translator_new t (meter_fuel c) (code_snippets c) (meter_bulk_ops c) (meter_params_and_locals c)
       (max_allowed_pages c)"

definition next_func :: "'v module_parser \<Rightarrow> u32 \<times> 'v module_parser" where
  "next_func p = (compiled_count p, p\<lparr>compiled_count := compiled_count p + 1\<rparr>)"

section \<open>Types, imports, functions\<close>

definition process_types :: "func_type list \<Rightarrow> 'v parsing" where
  "process_types fts = for_each (\<lambda>ft. on_allocs (\<lambda>t.
     and_then (alloc_func_type ft (func_reg t)) (\<lambda>(_, reg). ok (t\<lparr>func_reg := reg\<rparr>)))) fts"

definition push_global :: "global_variable \<Rightarrow> action" where
  "push_global g = steps
     [(\<lambda>t. on_segments (add_global_variable (word_of_nat (length (globals t))) g) t),
      (\<lambda>t. ok (t\<lparr>globals := globals t @ [g]\<rparr>))]"

text \<open>The function that stands for an import: it charges the fuel of the call and makes it.\<close>

definition import_trampoline ::
  "fuel_policy \<Rightarrow> compilation_config \<Rightarrow> u32 \<Rightarrow> u32 \<Rightarrow> syscall_fuel_params import_linker_entity \<Rightarrow> action" where
  "import_trampoline fp c func_idx type_idx e t = steps
     [prepare fp func_idx,
      inspecting (signature_of type_idx) (\<lambda>_. emit [StackCheck 0xFFFFFFFF]),
      whenever (builtins_consume_fuel c)
        (\<lambda>t. ok (t\<lparr>instructions := compile_block_params fp (syscall_fuel_param e) (instructions t)\<rparr>)),
      emit [Call (sys_func_idx e), Return],
      finish] (new_translator c t)"

definition is_reference :: "val_type \<Rightarrow> bool" where
  "is_reference ty \<longleftrightarrow> ty = TFuncRef \<or> ty = TExternRef"

definition process_import :: "fuel_policy \<Rightarrow> import_item \<Rightarrow> 'v parsing" where
  "process_import fp imp p = (case item_type imp of
     ImportGlobal ty mut \<Rightarrow>
       (case default_imported_global_value (config p) of
          None \<Rightarrow> err NotSupportedImportType
        | Some v \<Rightarrow> on_allocs (push_global \<lparr>content_type = ty, global_mutable = mut, default_value = v\<rparr>) p)
   | ImportOther \<Rightarrow> err NotSupportedImportType
   | ImportFunc i \<Rightarrow>
       and_then (ok_or UnresolvedImportFunction (linker (config p))) (\<lambda>l.
       and_then (ok_or UnresolvedImportFunction
           (resolve_by_import_name (ImportName (item_module imp) (item_name imp)) l)) (\<lambda>e.
       and_then (original_func_type_of i (allocs p)) (\<lambda>ft.
         if \<not> matches_func_type e (ft_params ft) (ft_results ft) then err MalformedImportFunctionType
         else if \<not> allow_func_ref_function_types (config p) \<and>
             list_ex is_reference (ft_params ft @ ft_results ft) then err MalformedImportFunctionType
         else case next_func p of (func_idx, p) \<Rightarrow>
           on_allocs (steps
             [(\<lambda>t. ok (t\<lparr>compiled_funcs := compiled_funcs t @ [i]\<rparr>)),
              (\<lambda>t. ok (t\<lparr>intrinsics := intrinsics t @
                 (case entity_intrinsic e of None \<Rightarrow> [] | Some x \<Rightarrow> [(func_idx, x)])\<rparr>)),
              import_trampoline fp (config p) func_idx i e]) p))))"

definition process_functions :: "u32 list \<Rightarrow> 'v parsing" where
  "process_functions idxs =
     for_each (\<lambda>i. on_allocs (\<lambda>t. ok (t\<lparr>compiled_funcs := compiled_funcs t @ [i]\<rparr>))) idxs"

section \<open>Tables, memories, globals, exports\<close>

definition process_tables :: "table_type list \<Rightarrow> 'v parsing" where
  "process_tables ts = for_each (\<lambda>(i, ty).
     if i < 2 ^ 16 then on_allocs (\<lambda>t. ok (t\<lparr>segments := emit_table_segment (word_of_nat i) ty (segments t),
       table_types := table_types t @ [ty]\<rparr>))
     else (\<lambda>_. panic)) (enumerate 0 ts)"

definition process_memories :: "fuel_policy \<Rightarrow> (u64 \<times> memory_type) list \<Rightarrow> 'v parsing" where
  "process_memories fp ms = for_each (\<lambda>(initial, ty) p. on_allocs (steps
     [(\<lambda>t. ok (t\<lparr>memory_types := memory_types t @ [ty]\<rparr>)),
      (\<lambda>t. if unat initial < 2 ^ 32
            then on_segments (add_memory_pages fp (ucast initial) (max_allowed_pages (config p))) t
            else panic)]) p) ms"

text \<open>A signed 64-bit value as \<open>u32\<close>, when it is one.\<close>

definition try_u32 :: "u64 \<Rightarrow> u32 option" where
  "try_u32 v = (if 0 \<le> sint v \<and> sint v < 2 ^ 32 then Some (ucast v) else None)"

definition global_value :: "global_variable \<Rightarrow> val option" where
  "global_value g = (let v = default_value g in case content_type g of
     TI32 \<Rightarrow> Some (I32 (ucast v)) | TI64 \<Rightarrow> Some (I64 v) | TF32 \<Rightarrow> Some (F32 (ucast v)) | TF64 \<Rightarrow> Some (F64 v)
   | TV128 \<Rightarrow> None
   | TFuncRef \<Rightarrow> map_option FuncRef (try_u32 v) | TExternRef \<Rightarrow> map_option ExternRef (try_u32 v))"

definition parser_eval_const :: "translator \<Rightarrow> operator list \<Rightarrow> u64 result" where
  "parser_eval_const t ops =
     and_then (unwrap_or_panic (compiled_expr ops)) (\<lambda>e.
       ok_or ConstEvaluationFailed
         (eval_with_context
           (\<lambda>i. if unat i < length (globals t) then global_value (globals t ! unat i) else None)
           (\<lambda>i. Some (i + 1)) e))"

definition process_globals :: "global_item list \<Rightarrow> 'v parsing" where
  "process_globals gs = for_each (\<lambda>g. on_allocs (\<lambda>t.
     and_then (parser_eval_const t (item_init g)) (\<lambda>v.
       push_global \<lparr>content_type = item_content g, global_mutable = item_mutable g, default_value = v\<rparr> t))) gs"

definition process_exports :: "export_item list \<Rightarrow> 'v parsing" where
  "process_exports es = for_each (\<lambda>x p. ok
     (if export_is_func x then p\<lparr>exported_funcs := AList.update (export_name x) (export_index x) (exported_funcs p)\<rparr>
      else p)) es"

definition process_start :: "u32 \<Rightarrow> 'v parsing" where
  "process_start f p = ok (p\<lparr>start_func := Some f\<rparr>)"

section \<open>Segments\<close>

definition element_item :: "operator list \<Rightarrow> u32 result" where
  "element_item ops = and_then (unwrap_or_panic (compiled_expr ops)) (\<lambda>e.
     ok_or ConstEvaluationFailed (case expr_funcref e of
       Some f \<Rightarrow> Some (f + 1)
     | None \<Rightarrow> map_option ucast (expr_eval_const e)))"

definition element_items_of :: "element_items \<Rightarrow> u32 list result" where
  "element_items_of items = (case items of
     ElemExpressions es \<Rightarrow> collect element_item es
   | ElemFunctions fs \<Rightarrow> ok (map (\<lambda>f. f + 1) fs))"

definition process_element :: "(element_kind \<times> element_items) list \<Rightarrow> 'v parsing" where
  "process_element els = for_each (\<lambda>(i, kind, items). on_allocs (\<lambda>t.
     and_then (element_items_of items) (\<lambda>refs.
       case kind of
         ElemActive table ops \<Rightarrow>
           and_then (parser_eval_const t ops) (\<lambda>v.
           and_then (ok_or TableSegmentOutOfBounds (try_u32 v)) (\<lambda>offset.
             if unat table < 2 ^ 16
             then ok (t\<lparr>segments := add_active_elements (word_of_nat i) offset (ucast table) refs (segments t)\<rparr>)
             else panic))
       | ElemPassive \<Rightarrow> ok (t\<lparr>segments := add_passive_elements (word_of_nat i) refs (segments t)\<rparr>)
       | ElemDeclared \<Rightarrow> ok (t\<lparr>segments := add_passive_elements (word_of_nat i) [] (segments t)\<rparr>)))) (enumerate 0 els)"

definition process_data :: "(data_kind \<times> u8 list) list \<Rightarrow> 'v parsing" where
  "process_data ds = for_each (\<lambda>(i, kind, bytes). on_allocs (\<lambda>t.
     case kind of
       DataActive memory ops \<Rightarrow>
         if memory \<noteq> 0 then err NonDefaultMemoryIndex
         else and_then (parser_eval_const t ops) (\<lambda>v.
           and_then (ok_or MemorySegmentOutOfBounds (try_u32 v)) (\<lambda>offset.
             ok (t\<lparr>segments := add_active_memory (word_of_nat i) offset bytes (segments t)\<rparr>)))
     | DataPassive \<Rightarrow> ok (t\<lparr>segments := add_passive_memory (word_of_nat i) bytes (segments t)\<rparr>))) (enumerate 0 ds)"

text \<open>\<open>ConstructorParams::try_parse\<close>.\<close>

definition process_custom_section :: "string \<Rightarrow> u8 list \<Rightarrow> 'v parsing" where
  "process_custom_section n bytes p =
     ok (if n = ''input'' then p\<lparr>constructor_params := Some bytes\<rparr> else p)"

section \<open>Code\<close>

definition process_code_entry :: "('v, 'w) module_validator \<Rightarrow> fuel_policy \<Rightarrow> func_body \<Rightarrow> 'v parsing" where
  "process_code_entry V fp body p = (case next_func p of (func_idx, p) \<Rightarrow>
     and_then (validated (enter_code_entry V body (parser_validator p))) (\<lambda>(v, w).
     and_then (translate (function_validator V) fp func_idx body (w, new_translator (config p) (allocs p))) (\<lambda>(w, t).
       ok (p\<lparr>parser_validator := v, allocs := t\<rparr>))))"

definition process_payload :: "('v, 'w) module_validator \<Rightarrow> fuel_policy \<Rightarrow> payload \<Rightarrow> 'v parsing" where
  "process_payload V fp pl p = (case pl of
     CustomSection n bytes \<Rightarrow> process_custom_section n bytes p
   | ComponentModel \<Rightarrow> err NotSupportedExtension
   | CodeSectionEntry body \<Rightarrow> process_code_entry V fp body p
   | _ \<Rightarrow> and_then (validating V pl p) (\<lambda>p. case pl of
       TypeSection fts \<Rightarrow> process_types fts p
     | ImportSection imps \<Rightarrow> for_each (process_import fp) imps p
     | FunctionSection idxs \<Rightarrow> process_functions idxs p
     | TableSection ts \<Rightarrow> process_tables ts p
     | MemorySection ms \<Rightarrow> process_memories fp ms p
     | GlobalSection gs \<Rightarrow> process_globals gs p
     | ExportSection es \<Rightarrow> process_exports es p
     | StartSection f \<Rightarrow> process_start f p
     | ElementSection els \<Rightarrow> process_element els p
     | DataSection ds \<Rightarrow> process_data ds p
     | _ \<Rightarrow> ok p))"

text \<open>The bodies are translated at the end of the module, when all sections are known.\<close>

fun parse_payloads ::
  "('v, 'w) module_validator \<Rightarrow> fuel_policy \<Rightarrow> func_body list \<Rightarrow> (binary_reader_error + payload) list \<Rightarrow> 'v parsing" where
  "parse_payloads V fp bodies [] p = ok p"
| "parse_payloads V fp bodies (x # xs) p =
     and_then (validated x) (\<lambda>pl. case pl of
       CodeSectionEntry body \<Rightarrow> parse_payloads V fp (bodies @ [body]) xs p
     | EndPayload \<Rightarrow>
         and_then (for_each (process_code_entry V fp) bodies p) (\<lambda>p.
         and_then (process_payload V fp EndPayload p) (parse_payloads V fp [] xs))
     | _ \<Rightarrow> and_then (process_payload V fp pl p) (parse_payloads V fp bodies xs))"

definition parse :: "('v, 'w) module_validator \<Rightarrow> fuel_policy \<Rightarrow> (binary_reader_error + payload) list \<Rightarrow> 'v parsing" where
  "parse V fp payloads = parse_payloads V fp [] payloads"

section \<open>The module\<close>

definition emit_entrypoint :: "opcode list \<Rightarrow> action" where
  "emit_entrypoint ops t = ok (t\<lparr>segments := emit_entry ops (segments t)\<rparr>)"

text \<open>The start function and the end of the initialisation code.\<close>

definition emit_start :: "'v parsing" where
  "emit_start p =
     and_then (case start_func p of
         None \<Rightarrow> ok p
       | Some f \<Rightarrow> if \<not> allow_start_section (config p) then err StartSectionsAreNotAllowed
                  else on_allocs (emit_function_call f True False) p)
       (on_allocs (emit_entrypoint [Return]))"

definition emit_main :: "'v parsing" where
  "emit_main p = (case entrypoint_name (config p) of
     Some n \<Rightarrow> and_then (ok_or MissingEntrypoint (map_of (exported_funcs p) n)) (\<lambda>f.
       on_allocs (emit_function_call f True True) p)
   | None \<Rightarrow> if router (config p) = None then err MissingEntrypoint else ok p)"

text \<open>The code of the snippets that are called, once each, and the patch of the calls.\<close>

definition patch_snippet_call :: "u32 \<Rightarrow> u32 \<Rightarrow> action" where
  "patch_snippet_call loc f t =
     (if unat loc < length (instructions t) then
        (case instructions t ! unat loc of
           CallInternal g \<Rightarrow>
             if g = SNIPPET_FUNC_IDX_UNRESOLVED
             then ok (t\<lparr>instructions := (instructions t)[unat loc := CallInternal (f + 1)]\<rparr>) else panic
         | _ \<Rightarrow> panic)
      else panic)"

definition emit_snippet_body :: "snippet \<Rightarrow> action" where
  "emit_snippet_body s t =
     ok (t\<lparr>func_offsets := func_offsets t @ [isa_loc (instructions t)],
           instructions := instructions t @ [StackCheck (snippet_msh s)] @ emitter s @ [Return]\<rparr>)"

fun emit_snippet_calls :: "snippet_call list \<Rightarrow> (snippet \<times> u32) list \<Rightarrow> 'v parsing" where
  "emit_snippet_calls [] emitted p = ok p"
| "emit_snippet_calls (c # cs) emitted p =
     (case map_of emitted (called_snippet c) of
        Some f \<Rightarrow> and_then (on_allocs (patch_snippet_call (call_loc c) f) p) (emit_snippet_calls cs emitted)
      | None \<Rightarrow> (case next_func p of (f, p) \<Rightarrow>
          and_then (on_allocs (emit_snippet_body (called_snippet c)) p) (\<lambda>p.
          and_then (on_allocs (patch_snippet_call (call_loc c) f) p)
            (emit_snippet_calls cs ((called_snippet c, f) # emitted)))))"

definition emit_snippets :: "'v parsing" where
  "emit_snippets p =
     (if code_snippets (config p) then emit_snippet_calls (snippet_calls (allocs p)) [] p else ok p)"

text \<open>The state router: one test per entry of the router that is exported.\<close>

definition empty_func_type :: "func_type \<Rightarrow> bool" where
  "empty_func_type ft \<longleftrightarrow> ft_params ft = [] \<and> ft_results ft = []"

definition emit_state :: "string \<times> u32 \<Rightarrow> 'v parsing" where
  "emit_state s p = (case map_of (exported_funcs p) (fst s) of
     None \<Rightarrow> ok p
   | Some f \<Rightarrow>
       and_then (resolve_func_type_index f (allocs p)) (\<lambda>i.
       and_then (func_type_of i (allocs p)) (\<lambda>ft.
         if \<not> empty_func_type ft \<and> \<not> allow_malformed_entrypoint_func_type (config p) then err MalformedFuncType
         else on_allocs (steps
           [emit_entrypoint [LocalGet 1, I32Const (snd s), I32Eq, BrIfEqz 3, Drop],
            emit_function_call f True True]) p)))"

definition emit_state_router :: "'v parsing" where
  "emit_state_router p = (case router (config p) of
     None \<Rightarrow> ok p
   | Some r \<Rightarrow>
       and_then (on_allocs (emit_entrypoint (case router_opcode r of None \<Rightarrow> [] | Some op \<Rightarrow> [op])) p) (\<lambda>p.
       and_then (for_each emit_state (router_states r) p)
         (on_allocs (emit_entrypoint [Drop]))))"

text \<open>Function indices, counted from one, become positions in the code.\<close>

definition relocated :: "u32 list \<Rightarrow> u32 \<Rightarrow> u32 \<Rightarrow> u32 result" where
  "relocated offsets entry_len f =
     (if f = 0 then ok 0
      else if unat f - 1 < length offsets then ok (offsets ! (unat f - 1) + entry_len) else panic)"

definition relocate_opcode :: "u32 list \<Rightarrow> u32 \<Rightarrow> opcode \<Rightarrow> opcode result" where
  "relocate_opcode offsets entry_len op = (case op of
     CallInternal f \<Rightarrow> and_then (relocated offsets entry_len f) (\<lambda>f. ok (CallInternal f))
   | ReturnCallInternal f \<Rightarrow> and_then (relocated offsets entry_len f) (\<lambda>f. ok (ReturnCallInternal f))
   | RefFunc f \<Rightarrow> and_then (relocated offsets entry_len f) (\<lambda>f. ok (RefFunc f))
   | _ \<Rightarrow> ok op)"

definition assemble :: "u32 \<Rightarrow> u8 list \<Rightarrow> translator \<Rightarrow> rwasm_module result" where
  "assemble pc wasm t =
     (let entry = isa_finalize True (entrypoint_bytecode (segments t));
          entry_len = isa_loc entry in
      and_then (collect (relocate_opcode (func_offsets t) entry_len) (entry @ instructions t)) (\<lambda>code.
      and_then (collect (relocated (func_offsets t) entry_len) (global_element_section (segments t))) (\<lambda>elem.
        ok \<lparr>code_section = code, data_section = global_memory_section (segments t), elem_section = elem,
            hint_section = wasm, source_pc = pc\<rparr>)))"

definition finalize :: "u8 list \<Rightarrow> 'v module_parser \<Rightarrow> (rwasm_module \<times> u8 list option) result" where
  "finalize wasm p =
     and_then (emit_start p) (\<lambda>p.
       let pc = isa_loc (entrypoint_bytecode (segments (allocs p))) in
       and_then (emit_main p) (\<lambda>p.
       and_then (emit_snippets p) (\<lambda>p.
       and_then (emit_state_router p) (\<lambda>p.
       and_then (assemble pc wasm (allocs p)) (\<lambda>m. ok (m, constructor_params p))))))"

text \<open>\<open>RwasmModule::compile\<close>.\<close>

definition compile ::
  "('v, 'w) module_validator \<Rightarrow> fuel_policy \<Rightarrow> 'v \<Rightarrow> compilation_config \<Rightarrow> (binary_reader_error + payload) list \<Rightarrow>
   u8 list \<Rightarrow> (rwasm_module \<times> u8 list option) result" where
  "compile V fp v c payloads wasm = and_then (parse V fp payloads (parser_new v c)) (finalize wasm)"

text \<open>The exported functions with their types, by name.\<close>

definition parse_function_exports ::
  "('v, 'w) module_validator \<Rightarrow> fuel_policy \<Rightarrow> 'v \<Rightarrow> compilation_config \<Rightarrow> (binary_reader_error + payload) list \<Rightarrow>
   (string \<times> u32 \<times> func_type) list result" where
  "parse_function_exports V fp v c payloads =
     and_then (parse V fp payloads (parser_new v c)) (\<lambda>p.
     and_then (collect (\<lambda>(n, f).
         and_then (resolve_func_type_index f (allocs p)) (\<lambda>i.
         and_then (original_func_type_of i (allocs p)) (\<lambda>ft. ok (n, f, ft)))) (exported_funcs p))
       (\<lambda>r. ok (sort_key fst r)))"

end
