(* ===== verification/Translation_Order.thy ===== *)
theory Translation_Order
  imports Straight_Line
begin

text \<open>
  What every operator does to the translator, proved once. The locale \<open>translation_order\<close> has a
  preorder on the states of the translator that contains the small steps of the translation: code is
  appended, an amount of fuel or the offset of a skip is patched, a label is made or pinned, a
  branch is emitted and registered at its own position. Then every operator but \<open>br_table\<close>, which
  builds its table aside, goes up in the order. \<open>Module_Layout\<close> (the heads of the functions stay),
  \<open>Branch_Targets\<close> (the registered branches) and the recorded height are instances.
\<close>

definition obeys :: "(translator \<Rightarrow> translator \<Rightarrow> bool) \<Rightarrow> action \<Rightarrow> bool" where
  "obeys R a \<longleftrightarrow> (\<forall>t t'. a t = ok t' \<longrightarrow> R t t')"

lemma obeysI: "(\<And>t t'. a t = ok t' \<Longrightarrow> R t t') \<Longrightarrow> obeys R a"
  by (simp add: obeys_def)

lemma obeysD: "obeys R a \<Longrightarrow> a t = ok t' \<Longrightarrow> R t t'"
  by (simp add: obeys_def)

named_theorems obeying "actions that go up in an order"

definition is_br_table :: "operator \<Rightarrow> bool" where
  "is_br_table op = (case op of W_br_table _ _ \<Rightarrow> True | _ \<Rightarrow> False)"

text \<open>The height that a drop and keep leaves.\<close>

lemma translate_drop_keep_height:
  "height (fst (snd (translate_drop_keep dk is h))) = height h"
  "unat (max_height h) \<le> unat (max_height (fst (snd (translate_drop_keep dk is h))))"
  "0 < dk_drop dk \<Longrightarrow> dk_drop dk < dk_keep dk \<Longrightarrow> unat (height h) + 1 < 2 ^ 32 \<Longrightarrow>
    unat (height h) + 1 \<le> unat (max_height (fst (snd (translate_drop_keep dk is h))))"
proof -
  show "0 < dk_drop dk \<Longrightarrow> dk_drop dk < dk_keep dk \<Longrightarrow> unat (height h) + 1 < 2 ^ 32 \<Longrightarrow>
    unat (height h) + 1 \<le> unat (max_height (fst (snd (translate_drop_keep dk is h))))"
    using unat_word_ariths(1) [of "height h" 1] max.cobounded1 [of "height h + 1" "max_height h"]
    by (auto simp: translate_drop_keep_def Let_def word_le_nat_alt not_le word_less_nat_alt max_height_push_pop height_push_pop)
qed (auto simp: translate_drop_keep_def Let_def word_le_nat_alt [symmetric] max_height_push_pop height_push_pop)

definition dk_height :: "drop_keep \<Rightarrow> value_stack_height \<Rightarrow> value_stack_height" where
  "dk_height dk h = fst (snd (translate_drop_keep dk [] h))"

lemma emit_drop_keep_eq:
  "emit_drop_keep dk f t = f (length (drop_keep_code dk))
     (t\<lparr>instructions := instructions t @ drop_keep_code dk, stack_height := dk_height dk (stack_height t)\<rparr>)"
proof -
  have "fst (snd (translate_drop_keep dk is h)) = dk_height dk h" for "is" h
    by (simp add: dk_height_def translate_drop_keep_def Let_def)
  then show ?thesis
    using translate_drop_keep_appends [of dk "instructions t" "stack_height t"]
    by (simp add: emit_drop_keep_def split_def)
qed

lemma dk_height_ok:
  "height (dk_height dk h) = height h" "unat (max_height h) \<le> unat (max_height (dk_height dk h))"
  "dk_drop dk \<noteq> 0 \<Longrightarrow> unat (dk_drop dk) < unat (dk_keep dk) \<Longrightarrow> unat (height h) + 1 < 2 ^ 32 \<Longrightarrow>
    unat (height h) + 1 \<le> unat (max_height (dk_height dk h))"
  using translate_drop_keep_height(3) [of dk h "[]"]
  by (simp_all add: dk_height_def translate_drop_keep_height word_less_nat_alt word_gt_0 unat_gt_0)

text \<open>Nothing but appended code and what the order does not see.\<close>

definition appends :: "translator \<Rightarrow> translator \<Rightarrow> bool" where
  "appends t t' \<longleftrightarrow> (\<exists>code. instructions t' = instructions t @ code) \<and> label_reg t' = label_reg t \<and>
     func_offsets t' = func_offsets t \<and> locals_registered t' = locals_registered t \<and>
     unat (max_height (stack_height t)) \<le> unat (max_height (stack_height t'))"

lemma appends_refl [simp]: "appends t t"
  by (simp add: appends_def)

locale translation_order =
  fixes R :: "translator \<Rightarrow> translator \<Rightarrow> bool"
  assumes trans: "R t1 t2 \<Longrightarrow> R t2 t3 \<Longrightarrow> R t1 t3"
    and append: "appends t t' \<Longrightarrow> R t t'"
    and fuel: "bump_fuel d t = ok t' \<Longrightarrow> R t t'"
    and skip: "patch_skip n t = ok t' \<Longrightarrow> R t t'"
    and label: "new_label (label_reg t) = ok (l, reg) \<Longrightarrow> R t (t\<lparr>label_reg := reg\<rparr>)"
    and pin: "pin_label_here l t = ok t' \<Longrightarrow> R t t'"
    and try_pin: "try_pin_label_here l t = ok t' \<Longrightarrow> R t t'"
    and branch: "branch_offset_to l (\<lambda>off. emit [f off]) t = ok t' \<Longrightarrow> R t t'"

context translation_order
begin

text \<open>A continuation run in a state further up.\<close>

lemma continues: "R t t1 \<Longrightarrow> obeys R a \<Longrightarrow> a t1 = ok t' \<Longrightarrow> R t t'"
  using obeysD trans by blast

lemma obeys_steps [obeying]: "obeys R ok" "obeys R (\<lambda>_. panic)" "obeys R (\<lambda>_. err e)" "obeys R (steps [])"
  "obeys R a \<Longrightarrow> obeys R (steps as) \<Longrightarrow> obeys R (steps (a # as))"
  by (auto simp: obeys_def and_then_ok_iff append) (blast intro: trans)

lemma obeys_control [obeying]:
  "obeys R a \<Longrightarrow> obeys R (whenever c a)" "obeys R a \<Longrightarrow> obeys R (translate_if_reachable a)"
  "(\<And>x. obeys R (g x)) \<Longrightarrow> obeys R (inspecting q g)"
  "obeys R a \<Longrightarrow> obeys R b \<Longrightarrow> obeys R (if c then a else b)"
  "obeys R a \<Longrightarrow> obeys R b \<Longrightarrow> obeys R (\<lambda>t. if P t then a t else b t)"
  by (auto simp: obeys_def whenever_def translate_if_reachable_def inspecting_def and_then_ok_iff append)

lemma obeys_cases [obeying]:
  "obeys R a \<Longrightarrow> (\<And>ty. obeys R (b ty)) \<Longrightarrow> (\<And>i. obeys R (c i)) \<Longrightarrow>
    obeys R (case bt of BlockEmpty \<Rightarrow> a | BlockType ty \<Rightarrow> b ty | BlockFuncType i \<Rightarrow> c i)"
  "obeys R d \<Longrightarrow> (\<And>x. obeys R (e x)) \<Longrightarrow> obeys R (case r of None \<Rightarrow> d | Some x \<Rightarrow> e x)"
  "(\<And>l k. obeys R (f l k)) \<Longrightarrow> (\<And>k. obeys R (g k)) \<Longrightarrow>
    obeys R (case target of BranchTarget l k \<Rightarrow> f l k | ReturnTarget k \<Rightarrow> g k)"
  "(\<And>x. obeys R (h1 x)) \<Longrightarrow> (\<And>x. obeys R (h2 x)) \<Longrightarrow> (\<And>x. obeys R (h3 x)) \<Longrightarrow> (\<And>x. obeys R (h4 x)) \<Longrightarrow>
    obeys R (case fr of FrameBlock x \<Rightarrow> h1 x | FrameLoop x \<Rightarrow> h2 x | FrameIf x \<Rightarrow> h3 x | FrameUnreachable x \<Rightarrow> h4 x)"
  by (simp_all split: block_type.split option.split acquired_target.split control_frame.split)

lemma obeys_context [obeying]:
  "obeys R (\<lambda>t. emit (f t) t)" "obeys R (emit code)" "obeys R (push_stack_type ty)"
  "obeys R (set_reachable b)" "obeys R (push_frame fr)" "obeys R (push_br_table_branches ops)"
  "obeys R (shrink_stack_to h)" "obeys R (add_branch d)"
  "obeys R (\<lambda>t. ok (t\<lparr>stack_types := tys t\<rparr>))" "obeys R (\<lambda>t. ok (t\<lparr>segments := g t\<rparr>))"
  "obeys R (change_height (push_n n))" "obeys R (change_height (pop_n n))"
  "obeys R (change_height (push_type ty))" "obeys R (change_height (pop_type ty))"
  by (auto simp: obeys_def emit_def push_stack_type_def set_reachable_def push_frame_def push_br_table_branches_def
      shrink_stack_to_def shrink_to_def add_branch_def Let_def and_then_ok_iff change_height_def push_type_def pop_type_def
      appends_def max_height_steps intro!: append split: option.splits control_frame.splits if_splits)

lemma obeys_pop [obeying]:
  "(\<And>ty. obeys R (f ty)) \<Longrightarrow> obeys R (pop_stack_type f)"
  "(\<And>fr. obeys R (g fr)) \<Longrightarrow> obeys R (pop_control_frame g)"
  "(\<And>l. obeys R (h l)) \<Longrightarrow> obeys R (new_label_ref h)"
proof -
  show "obeys R (pop_stack_type f)" if "\<And>ty. obeys R (f ty)"
  proof (rule obeysI)
    fix t t' assume "pop_stack_type f t = ok t'"
    then have "f (last (stack_types t)) (t\<lparr>stack_types := butlast (stack_types t)\<rparr>) = ok t'"
      by (auto simp: pop_stack_type_def split: if_splits)
    then show "R t t'" by (rule continues [rotated 2]) (simp_all add: append appends_def that)
  qed
  show "obeys R (pop_control_frame g)" if "\<And>fr. obeys R (g fr)"
  proof (rule obeysI)
    fix t t' assume "pop_control_frame g t = ok t'"
    then obtain fr frames where "g fr (t\<lparr>control_frames := frames\<rparr>) = ok t'"
      by (auto simp: pop_control_frame_def split: option.splits)
    then show "R t t'" by (rule continues [rotated 2]) (simp_all add: append appends_def that)
  qed
  show "obeys R (new_label_ref h)" if "\<And>l. obeys R (h l)"
  proof (rule obeysI)
    fix t t' assume "new_label_ref h t = ok t'"
    then obtain l reg where "new_label (label_reg t) = ok (l, reg)" "h l (t\<lparr>label_reg := reg\<rparr>) = ok t'"
      by (auto simp: new_label_ref_def and_then_ok_iff)
    then show "R t t'" using label that continues by blast
  qed
qed

lemma obeys_patches [obeying]:
  "obeys R (bump_fuel d)" "obeys R (patch_skip n)" "obeys R (pin_label_here l)" "obeys R (try_pin_label_here l)"
  "obeys R (branch_offset_to l (\<lambda>off. emit [b off]))"
  by (auto simp: obeys_def intro: fuel skip pin try_pin branch)

lemma obeys_fuel [obeying]:
  "(\<And>i. obeys R (f i)) \<Longrightarrow> obeys R (push_consume_fuel_empty f)"
  "(\<And>i. obeys R (g i)) \<Longrightarrow> obeys R (metered_consume_fuel g)"
proof -
  show push: "obeys R (push_consume_fuel_empty f)" if "\<And>i. obeys R (f i)" for f
  proof (rule obeysI)
    fix t t' assume "push_consume_fuel_empty f t = ok t'"
    then show "R t t'"
      unfolding push_consume_fuel_empty_def by (rule continues [rotated 2]) (simp_all add: append appends_def that)
  qed
  show "obeys R (metered_consume_fuel g)" if "\<And>i. obeys R (g i)"
    using push [of "\<lambda>i. g (Some i)"] that [of None] that by (auto simp: obeys_def metered_consume_fuel_def)
qed

lemma obeys_drop_keep [obeying]: "(\<And>n. obeys R (f n)) \<Longrightarrow> obeys R (emit_drop_keep dk f)"
proof (rule obeysI)
  fix t t' assume f: "\<And>n. obeys R (f n)" "emit_drop_keep dk f t = ok t'"
  show "R t t'"
    using f(2) unfolding emit_drop_keep_eq
    by (rule continues [rotated 2]) (simp_all add: append appends_def f(1) dk_height_ok(2))
qed

section \<open>The operators\<close>

lemma obeys_bind [obeying]: "(\<And>x. obeys R (f x)) \<Longrightarrow> obeys R (\<lambda>t. and_then (r t) (\<lambda>x. f x t))"
  by (auto simp: obeys_def and_then_ok_iff)

lemma obeys_types [obeying]: "obeys R drop_stack_type" "obeys R (pop_types tys)" "obeys R (push_types tys)"
proof -
  show "obeys R drop_stack_type" unfolding drop_stack_type_def by (intro obeying)
  show "obeys R (pop_types tys)"
    by (induction tys) (simp_all only: pop_types.simps, (intro obeying, assumption?)+)
  have "obeys R (steps (map push_stack_type tys))"
    by (induction tys) (simp_all only: list.map, (intro obeying, assumption?)+)
  then show "obeys R (push_types tys)" by (simp add: push_types_steps)
qed

lemma obeys_calls [obeying]:
  "obeys R (adjust_value_stack_for_call i)" "obeys R (emit_function_call f e r)"
  "obeys R (push_block_value ty)" "obeys R (steps (map push_block_value tys))" "obeys R (push_block_results bt)"
proof -
  show one: "obeys R (push_block_value ty)" for ty unfolding push_block_value_def by (intro obeying)
  show all: "obeys R (steps (map push_block_value tys))" for tys
    by (induction tys) (simp_all only: list.map obeys_steps one)
  show "obeys R (push_block_results bt)"
    by (cases bt) (auto simp: push_block_results_def intro!: obeying one all)
  show "obeys R (adjust_value_stack_for_call i)" unfolding adjust_value_stack_for_call_def by (intro obeying)
  show "obeys R (emit_function_call f e r)" unfolding emit_function_call_def by (intro obeying)
qed

lemma obeys_shared [obeying]:
  "obeys R (translate_load fp ty code msh)" "obeys R (translate_store fp code msh)"
  "obeys R (translate_conversion fp i out code msh)" "obeys R (visit_reinterpret fp i out)"
  "obeys R (translate_binary fp code msh)" "obeys R (translate_binary_compare fp code msh)"
  "obeys R (translate_unary fp code msh)" "obeys R (translate_unary_compare fp code msh)"
  unfolding translate_load_def translate_store_def translate_conversion_def visit_reinterpret_def
    translate_binary_def translate_binary_compare_def translate_unary_def translate_unary_compare_def
  by (intro obeying)+

lemma obeys_snippet [obeying]: "obeys R (translate_to_snippet_call fp s)"
proof -
  have "obeys R (\<lambda>t. ok (t\<lparr>instructions := instructions t @ [CallInternal SNIPPET_FUNC_IDX_UNRESOLVED],
      snippet_calls := snippet_calls t @ [\<lparr>called_snippet = s, call_loc = isa_loc (instructions t)\<rparr>]\<rparr>))"
    by (auto simp: obeys_def appends_def intro: append)
  then show ?thesis unfolding translate_to_snippet_call_def by (intro obeying)
qed

lemma obeys_visits [obeying]:
  "obeys R visit_nop" "obeys R Translator_Visits.visit_drop" "obeys R (Translator_Visits.visit_select fp)"
  "obeys R (visit_typed_select fp ty)" "obeys R (Translator_Visits.visit_local_get fp i)"
  "obeys R (Translator_Visits.visit_local_set fp i)" "obeys R (Translator_Visits.visit_local_tee fp i)"
  "obeys R (Translator_Visits.visit_global_get fp i)" "obeys R (Translator_Visits.visit_global_set fp i)"
  "obeys R (visit_i32_const fp a)" "obeys R (visit_i64_const fp b)" "obeys R (visit_f32_const fp a)"
  "obeys R (visit_f64_const fp b)" "obeys R (visit_ref_null fp ty)" "obeys R (visit_i32_eqz fp)"
  "obeys R (visit_i64_eqz fp)" "obeys R (visit_ref_is_null fp)"
  "obeys R (Translator_Visits.visit_ref_func fp f)" "obeys R (visit_i32_wrap_i64 fp)"
  unfolding visit_defs by (intro obeying)+

lemma obeys_memory_visits [obeying]:
  "obeys R (Translator_Visits.visit_memory_size fp)" "obeys R (Translator_Visits.visit_memory_grow fp i)"
  "obeys R (Translator_Visits.visit_memory_init fp i)" "obeys R (Translator_Visits.visit_data_drop fp i)"
  "obeys R (Translator_Visits.visit_memory_copy fp)" "obeys R (Translator_Visits.visit_memory_fill fp)"
  "obeys R (Translator_Visits.visit_table_init fp i j)" "obeys R (Translator_Visits.visit_elem_drop fp i)"
  "obeys R (Translator_Visits.visit_table_copy fp i j)" "obeys R (Translator_Visits.visit_table_fill fp i)"
  "obeys R (Translator_Visits.visit_table_get fp i)" "obeys R (Translator_Visits.visit_table_set fp i)"
  "obeys R (Translator_Visits.visit_table_grow fp i)" "obeys R (Translator_Visits.visit_table_size fp i)"
  "obeys R visit_unsupported"
  unfolding visit_defs by (intro obeying | simp only: split_def Let_def)+

lemma obeys_blocks [obeying]:
  "obeys R Translator_Control.visit_unreachable" "obeys R (visit_block bt)" "obeys R (visit_loop bt)"
  "obeys R (visit_if fp bt)" "obeys R Translator_Control.visit_return" "obeys R refresh_consume_fuel"
  "obeys R (unreachable_frame k bt)"
  unfolding Translator_Control.visit_unreachable_def visit_block_def visit_loop_def visit_if_def
    Translator_Control.visit_return_def refresh_consume_fuel_def unreachable_frame_def
  by (intro obeying | simp | (auto intro!: obeying split: option.splits)[])+

lemma obeys_control_visits [obeying]:
  "obeys R visit_else" "obeys R visit_end" "obeys R (visit_br fp d)" "obeys R (Translator_Control.visit_br_if fp d)"
  "obeys R (Translator_Control.visit_call fp f)" "obeys R (Translator_Control.visit_call_indirect fp i j)"
  "obeys R (Translator_Control.visit_return_call fp f)" "obeys R (Translator_Control.visit_return_call_indirect fp i j)"
  unfolding visit_else_def visit_end_def pin_frame_labels_def visit_br_def Translator_Control.visit_br_if_def
    Translator_Control.visit_call_def Translator_Control.visit_call_indirect_def
    Translator_Control.visit_return_call_def Translator_Control.visit_return_call_indirect_def
  by (intro obeying)+

text \<open>The branch table is built aside, over the targets and the default one, and appended at once.\<close>

lemma obeys_br_table:
  assumes table: "\<And>t0 tr1 t1 t2 target tr3 t3 len. br_table_branches t0 = [] \<Longrightarrow>
      br_table_targets ((length ds + 1) * 2) ds [] t0 = ok (tr1, t1) \<Longrightarrow> add_branch d t1 = ok t2 \<Longrightarrow>
      encode_br_table_target target tr1 ((length ds + 1) * 2) t2 = ok (tr3, t3) \<Longrightarrow>
      R t0 (t3\<lparr>instructions := instructions t3 @ [BrTable len] @ br_table_branches t3 @ tr3, br_table_branches := []\<rparr>)"
  shows "obeys R (visit_br_table fp ds d)"
proof (rule obeysI)
  let ?enter = "steps [bump_fuel (cost_base fp), change_height (pop_n 1), drop_stack_type]"
  fix t t' assume v: "visit_br_table fp ds d t = ok t'"
  show "R t t'"
  proof (cases "reachable t")
    case True
    let ?body = "\<lambda>t. let target_len = (length ds + 1) * 2 in
      and_then (br_table_targets target_len ds [] t) (\<lambda>(tramps, t).
      let len_branches = length (br_table_branches t) div 2 in
      and_then (add_branch d t) (\<lambda>t.
      and_then (acquire_target d t) (\<lambda>target.
      and_then (if len_branches + 1 < 2 ^ 32 then ok (word_of_nat (len_branches + 1) :: u32)
                else err compilation_error.BranchTableTargetsOutOfBounds) (\<lambda>len_targets.
      and_then (encode_br_table_target target tramps target_len t) (\<lambda>(tramps, t).
        ok (t\<lparr>instructions := instructions t @ [BrTable len_targets] @ br_table_branches t @ tramps,
              br_table_branches := []\<rparr>))))))"
    have "steps [bump_fuel (cost_base fp), change_height (pop_n 1), drop_stack_type, \<lambda>t. ok (t\<lparr>br_table_branches := []\<rparr>),
        ?body, set_reachable False] t = ok t'"
      using v True unfolding visit_br_table_def translate_if_reachable_def by (simp only: if_True)
    then obtain t0 t4 where enter: "?enter t = ok t0" and body: "?body (t0\<lparr>br_table_branches := []\<rparr>) = ok t4"
      and t': "t' = t4\<lparr>reachable := False\<rparr>"
      by (simp only: steps_ok ok_eq_iff set_reachable_def) blast
    from body obtain tr1 t1 t2 target tr3 t3 len where
      targets: "br_table_targets ((length ds + 1) * 2) ds [] (t0\<lparr>br_table_branches := []\<rparr>) = ok (tr1, t1)"
        "add_branch d t1 = ok t2" "encode_br_table_target target tr1 ((length ds + 1) * 2) t2 = ok (tr3, t3)" and
      t4: "t4 = t3\<lparr>instructions := instructions t3 @ [BrTable len] @ br_table_branches t3 @ tr3, br_table_branches := []\<rparr>"
      by (auto simp: and_then_ok_iff Let_def)
    have "obeys R ?enter" by (intro obeying)
    then have "R t t0" using enter by (rule obeysD)
    moreover have "R t0 (t0\<lparr>br_table_branches := []\<rparr>)" by (simp add: append appends_def)
    moreover have "R (t0\<lparr>br_table_branches := []\<rparr>) t4" unfolding t4 by (rule table [OF _ targets]) simp
    moreover have "R t4 t'" unfolding t' by (simp add: append appends_def)
    ultimately show ?thesis by (blast intro: trans)
  next
    case False
    then show ?thesis using v by (simp add: visit_br_table_def translate_if_reachable_def append)
  qed
qed

lemma obeys_operator: "\<not> is_br_table op \<Longrightarrow> obeys R (visit_operator fp op)"
  by (cases op) (simp_all add: visit_operator_def obeying split_def is_br_table_def)

end

end
