(* ===== verification/Module_Layout.thy ===== *)
theory Module_Layout
  imports Module_Parser Translation_Order
begin

text \<open>
  Where the functions of a compiled module are. \<open>growing\<close>: an action of the translator leaves the
  function offsets and appends to the code, or changes opcodes that are not the head of a
  function. So the recorded offset of every function stays the position of its first opcode, and
  \<open>compiled_targets\<close> follows it through the assembly of the module: every internal call,
  function reference and table element leads to the head of a function.
\<close>

section \<open>Function heads stay\<close>

definition is_head :: "opcode \<Rightarrow> bool" where
  "is_head op = (case op of SignatureCheck _ \<Rightarrow> True | StackCheck _ \<Rightarrow> True | _ \<Rightarrow> False)"

definition settled :: "opcode list \<Rightarrow> opcode list \<Rightarrow> bool" where
  "settled is is' \<longleftrightarrow> length is \<le> length is' \<and> (\<forall>i < length is. is_head (is ! i) \<longrightarrow> is_head (is' ! i))"

lemma settled_refl [simp]: "settled is is"
  by (simp add: settled_def)

lemma settled_append [simp]: "settled is (is @ ops)"
  by (simp add: settled_def nth_append)

lemma settled_trans: "settled a b \<Longrightarrow> settled b c \<Longrightarrow> settled a c"
  by (simp add: settled_def)

lemma settled_update: "(i < length is \<Longrightarrow> is_head (is ! i) \<Longrightarrow> is_head op) \<Longrightarrow> settled is (is[i := op])"
  by (simp add: settled_def) (metis nth_list_update_eq nth_list_update_neq)

definition grown :: "translator \<Rightarrow> translator \<Rightarrow> bool" where
  "grown t t' \<longleftrightarrow> func_offsets t' = func_offsets t \<and> settled (instructions t) (instructions t')"

lemma grown_refl [simp]: "grown t t"
  by (simp add: grown_def)

lemma grown_trans: "grown a b \<Longrightarrow> grown b c \<Longrightarrow> grown a c"
  by (auto simp: grown_def intro: settled_trans)

lemma pinned_ok:
  "(case r of None \<Rightarrow> panic | Some (Inl e) \<Rightarrow> panic | Some (Inr x) \<Rightarrow> ok (f x)) = ok t' \<longleftrightarrow>
     (\<exists>x. r = Some (Inr x) \<and> t' = f x)"
  by (auto split: option.split sum.split)

lemma update_branch_head: "update_branch_offset op off = Some op' \<Longrightarrow> \<not> is_head op"
  by (cases op) (simp_all add: update_branch_offset_def is_head_def)

lemma patch_settled: "patch_at i (\<lambda>op. update_branch_offset op off) is = ok is' \<Longrightarrow> settled is is'"
  by (auto simp: patch_at_ok intro!: settled_update dest: update_branch_head)

lemma fuel_edit_settled: "bump_fuel d t = ok t' \<Longrightarrow> settled (instructions t) (instructions t')"
proof -
  assume t': "bump_fuel d t = ok t'"
  have "settled (instructions t) is" if "bump_fuel_consumption i d (instructions t) = ok is" for i "is"
    using that by (rule bump_fuel_ok) (auto simp: is_head_def intro!: settled_update)
  moreover have "t' = t \<or> (\<exists>i is. bump_fuel_consumption i d (instructions t) = ok is \<and> t' = t\<lparr>instructions := is\<rparr>)"
    using t' by (cases "last_frame (control_frames t)"; cases "with_consume_fuel t")
      (auto simp: bump_fuel_def and_then_ok_iff split: option.splits)
  ultimately show ?thesis by auto
qed

interpretation heads: translation_order grown
proof
  show "grown t t'" if "appends t t'" for t t' using that by (auto simp: grown_def appends_def)
  show "grown t t'" if "bump_fuel d t = ok t'" for d t t'
    using fuel_edit_settled [OF that] bump_fuel_edits [OF that] by (auto simp: grown_def)
qed (auto simp: grown_def patch_skip_def pin_label_here_def try_pin_label_here_def branch_offset_to_def inspecting_def
    try_resolve_label_for_def emit_def and_then_ok_iff pinned_ok dest: patch_settled intro: settled_trans)

abbreviation growing :: "action \<Rightarrow> bool" where
  "growing \<equiv> obeys grown"

lemmas growing_def = obeys_def [of grown]

lemma growing_then_action [obeying]: "growing a \<Longrightarrow> growing b \<Longrightarrow> growing (\<lambda>t. and_then (a t) b)"
  by (auto simp: growing_def and_then_ok_iff) (blast intro: grown_trans)

lemma growing_locals [obeying]: "growing (\<lambda>t. ok (t\<lparr>locals_registered := n t\<rparr>))" "growing (\<lambda>t. ok (t\<lparr>br_table_branches := h t\<rparr>))"
  "growing (change_height f)"
  by (simp_all add: growing_def grown_def change_height_def)

text \<open>The branch table.\<close>

lemma resolve_br_table_target:
  "try_resolve_label_for l i (\<lambda>off. push_br_table_branches (ops off)) t = ok t' \<Longrightarrow> grown t t'"
  by (auto simp: try_resolve_label_for_def push_br_table_branches_def and_then_ok_iff grown_def)

lemma grown_context: "grown t t' \<Longrightarrow> grown t (t'\<lparr>stack_height := h\<rparr>)" "grown t t' \<Longrightarrow> grown t (t'\<lparr>label_reg := r\<rparr>)"
  "grown t t' \<Longrightarrow> grown t (t'\<lparr>stack_height := h, label_reg := r\<rparr>)"
  by (simp_all add: grown_def)

lemma encode_br_table_target_grown:
  "encode_br_table_target target tramps n t = ok (tramps', t') \<Longrightarrow> grown t t'"
  by (cases target)
    (auto simp: encode_br_table_target_def Let_def and_then_ok_iff split_def split: if_splits
      dest!: obeysD [OF heads.obeys_context(6)] resolve_br_table_target intro!: grown_context)

lemma br_table_targets_grown: "br_table_targets n ds tramps t = ok (tramps', t') \<Longrightarrow> grown t t'"
proof (induction ds arbitrary: tramps t)
  case (Cons d ds)
  then obtain tr1 t1 where 1: "br_table_target n d tramps t = ok (tr1, t1)" "br_table_targets n ds tr1 t1 = ok (tramps', t')"
    by (auto simp: and_then_ok_iff)
  then obtain t0 target where "add_branch d t = ok t0" "encode_br_table_target target tramps n t0 = ok (tr1, t1)"
    by (auto simp: br_table_target_def and_then_ok_iff)
  then have "grown t t1"
    using obeysD [OF heads.obeys_context(8)] encode_br_table_target_grown grown_trans by blast
  with Cons.IH [OF 1(2)] show ?case by (rule grown_trans [rotated])
qed simp

lemma growing_operator: "growing (visit_operator fp op)"
proof (cases "is_br_table op")
  case True
  then obtain ds d where op: "op = W_br_table ds d" by (auto simp: is_br_table_def split: operator.splits)
  have "growing (visit_br_table fp ds d)"
  proof (rule heads.obeys_br_table)
    fix t0 tr1 t1 t2 target tr3 t3 and len :: u32
    assume "br_table_targets ((length ds + 1) * 2) ds [] t0 = ok (tr1, t1)" "add_branch d t1 = ok t2"
      "encode_br_table_target target tr1 ((length ds + 1) * 2) t2 = ok (tr3, t3)"
    from br_table_targets_grown [OF this(1)] obeysD [OF heads.obeys_context(8) this(2)] encode_br_table_target_grown [OF this(3)]
    have "grown t0 t3" by (blast intro: grown_trans)
    then show "grown t0 (t3\<lparr>instructions := instructions t3 @ [BrTable len] @ br_table_branches t3 @ tr3, br_table_branches := []\<rparr>)"
      by (rule grown_trans) (simp add: grown_def)
  qed
  then show ?thesis by (simp add: op visit_operator_def)
qed (rule heads.obeys_operator)

section \<open>A function\<close>

lemma growing_local_group: "growing (translate_local_group n ty)"
  unfolding translate_local_group_def by (intro obeying)

lemma local_groups_grown: "translate_local_groups val ls (v, t) = ok (v', t') \<Longrightarrow> grown t t'"
proof (induction ls arbitrary: v t)
  case (Cons l ls)
  obtain n ty where "l = (n, ty)" by (cases l)
  with Cons.prems obtain v1 t1 where
    "translate_local_group n ty t = ok t1" "translate_local_groups val ls (v1, t1) = ok (v', t')"
    by (auto simp: and_then_ok_iff)
  then show ?case using Cons.IH obeysD [OF growing_local_group] grown_trans by blast
qed simp

lemma operators_grown: "translate_operators val fp ops (v, t) = ok (v', t') \<Longrightarrow> grown t t'"
proof (induction ops arbitrary: v t)
  case (Cons op ops)
  then obtain v1 t1 where 1: "validate_then_translate val fp op (v, t) = ok (v1, t1)"
      "translate_operators val fp ops (v1, t1) = ok (v', t')"
    by (auto simp: and_then_ok_iff)
  have "grown t t1"
    using 1(1) obeysD [OF growing_operator] by (auto simp: validate_then_translate_def and_then_ok_iff split: if_splits)
  with Cons.IH [OF 1(2)] show ?case by (rule grown_trans [rotated])
qed simp

lemma resolve_branches_settled: "resolve_branches reg us is = ok is' \<Longrightarrow> settled is is'"
proof (induction us arbitrary: "is")
  case (Cons u us)
  then obtain off is1 where "patch_at (unat (user_instr u)) (\<lambda>op. update_branch_offset op off) is = ok is1"
      "resolve_branches reg us is1 = ok is'"
    by (auto simp: and_then_ok_iff)
  then show ?case using Cons.IH patch_settled settled_trans by blast
qed simp

lemma patch_stack_check_settled: "patch_stack_check n i h is = ok is' \<Longrightarrow> settled is is'"
proof (induction n arbitrary: i)
  case (Suc n)
  show ?case
  proof (cases "i < length is")
    case True
    then show ?thesis
      using Suc by (cases "is ! i") (auto simp: is_head_def intro!: settled_update)
  next
    case False
    then show ?thesis using Suc.prems by simp
  qed
qed simp

lemma growing_finish [obeying]: "growing finish"
  by (auto simp: growing_def grown_def finish_def and_then_ok_iff
      intro: settled_trans [OF resolve_branches_settled patch_stack_check_settled] split: if_splits)

text \<open>The recorded offsets are the positions of function heads.\<close>

definition heads_ok :: "translator \<Rightarrow> bool" where
  "heads_ok t \<longleftrightarrow> (length (instructions t) < 2 ^ 32 \<longrightarrow>
     (\<forall>k \<in> set (func_offsets t). unat k < length (instructions t) \<and> is_head (instructions t ! unat k)))"

lemma grown_heads: "grown t t' \<Longrightarrow> heads_ok t \<Longrightarrow> heads_ok t'"
  by (fastforce simp: grown_def heads_ok_def settled_def)

text \<open>A function that begins here.\<close>

lemma new_head:
  assumes "heads_ok t" and "is_head op"
    and "func_offsets t' = func_offsets t @ [isa_loc (instructions t)]" "instructions t' = instructions t @ op # ops"
  shows "heads_ok t'"
proof -
  have "unat (isa_loc (instructions t)) = length (instructions t)" if "length (instructions t') < 2 ^ 32"
    using that assms(4) by (simp add: isa_loc_def unat_of_nat)
  then show ?thesis
    using assms by (auto simp: heads_ok_def nth_append dest: less_imp_le)
qed

lemma or_panic_ok: "or_panic r = ok x \<longleftrightarrow> r = ok x"
  by (auto simp: or_panic_def ok_def panic_def split: option.split sum.split)

lemma growing_charge: "growing (\<lambda>t. if c t then or_panic (bump_fuel (n t) t) else ok t)"
  using obeysD [OF heads.obeys_patches(1)] by (auto simp: growing_def or_panic_ok)

lemma prepare_heads:
  assumes "prepare fp f t = ok t'" and "heads_ok t"
  shows "heads_ok t'"
proof -
  let ?t = "(alloc_reset t)\<lparr>func_offsets := func_offsets t @ [isa_loc (instructions t)]\<rparr>"
  let ?rest = "\<lambda>i l. [metered_consume_fuel (\<lambda>fuel.
       push_frame (FrameBlock (block_frame_new (BlockFuncType i) l 0 fuel))),
     inspecting (original_func_type_of i) (\<lambda>ft t. ok (t\<lparr>stack_types := stack_types t @ ft_params ft\<rparr>)),
     inspecting (func_type_of i) (\<lambda>ft.
       inspecting (\<lambda>t. register_locals (word_of_nat (length (ft_params ft))) (locals_registered t)) (\<lambda>n t.
         ok (t\<lparr>locals_registered := n\<rparr>))),
     (\<lambda>t. if consume_fuel_for_params_and_locals t
          then or_panic (bump_fuel (fuel_for_locals fp (locals_registered t)) t) else ok t)]"
  have "init_func_body_block fp f ?t = ok t'"
    using assms(1) by (auto simp: prepare_def alloc_reset_def and_then_ok_iff)
  then obtain i l reg where
    "steps (inspecting (signature_of i) (\<lambda>s. emit [SignatureCheck s]) # ?rest i l) (?t\<lparr>label_reg := reg\<rparr>) = ok t'"
    by (auto simp: init_func_body_block_def inspecting_def [of "resolve_func_type_index f"] and_then_ok_iff
        new_label_ref_def simp del: steps.simps)
  then obtain t1 where t1: "inspecting (signature_of i) (\<lambda>s. emit [SignatureCheck s]) (?t\<lparr>label_reg := reg\<rparr>) = ok t1"
    "steps (?rest i l) t1 = ok t'"
    by (simp only: steps_ok) blast
  then obtain s where s: "instructions t1 = instructions t @ [SignatureCheck s]"
    "func_offsets t1 = func_offsets t @ [isa_loc (instructions t)]"
    by (auto simp: inspecting_def and_then_ok_iff emit_def alloc_reset_def)
  have "growing (steps (?rest i l))"
    by (intro obeying growing_charge)
  moreover have "heads_ok t1"
    by (rule new_head [OF assms(2), of "SignatureCheck s" _ "[]"]) (simp_all add: is_head_def s)
  ultimately show ?thesis using t1(2) obeysD grown_heads by blast
qed

lemma growing_locals_charge: "growing (charge_locals fp ls)"
  by (auto simp: growing_def charge_locals_def Let_def dest: obeysD [OF heads.obeys_patches(1)])

lemma translate_heads:
  assumes "translate val fp i body (v, t) = ok (v', t')" and "heads_ok t"
  shows "heads_ok t'"
proof -
  obtain t1 v2 t2 v3 t3 where 1: "steps [prepare fp i, bump_fuel (cost_base fp), translate_stack_alloc,
        charge_locals fp (body_locals body)] t = ok t1" and
    2: "translate_local_groups val (body_locals body) (v, t1) = ok (v2, t2)" and
    3: "translate_operators val fp (body_operators body) (v2, t2) = ok (v3, t3)" and 4: "finish t3 = ok t'"
    using assms(1) by (auto simp: translate_def and_then_ok_iff simp del: steps.simps)
  obtain t0 where t0: "prepare fp i t = ok t0"
    "steps [bump_fuel (cost_base fp), translate_stack_alloc, charge_locals fp (body_locals body)] t0 = ok t1"
    using 1 by (simp only: steps_ok) blast
  have "growing (steps [bump_fuel (cost_base fp), translate_stack_alloc, charge_locals fp (body_locals body)])"
    unfolding translate_stack_alloc_def by (intro obeying growing_locals_charge)
  from obeysD [OF this t0(2)] have "heads_ok t1"
    using prepare_heads [OF t0(1) assms(2)] grown_heads by blast
  with local_groups_grown [OF 2] operators_grown [OF 3] obeysD [OF growing_finish 4] show ?thesis
    using grown_heads by blast
qed

section \<open>The parser\<close>

definition steady :: "'v parsing \<Rightarrow> bool" where
  "steady f \<longleftrightarrow> (\<forall>p p'. f p = ok p' \<longrightarrow> heads_ok (allocs p) \<longrightarrow> heads_ok (allocs p'))"

lemma steadyD: "steady f \<Longrightarrow> f p = ok p' \<Longrightarrow> heads_ok (allocs p) \<Longrightarrow> heads_ok (allocs p')"
  by (simp add: steady_def)

lemma steady_on_allocs:
  "(\<And>t t'. a t = ok t' \<Longrightarrow> heads_ok t \<Longrightarrow> heads_ok t') \<Longrightarrow> steady (on_allocs a)"
  by (auto simp: steady_def on_allocs_def and_then_ok_iff)

lemma steady_growing: "growing a \<Longrightarrow> steady (on_allocs a)"
  using grown_heads obeysD by (intro steady_on_allocs) blast

lemma steady_for_each: "(\<And>x. steady (f x)) \<Longrightarrow> steady (for_each f xs)"
proof (induction xs)
  case (Cons x xs)
  then have "steady (f x)" "steady (for_each f xs)" by simp_all
  then show ?case by (auto simp: steady_def and_then_ok_iff)
qed (simp add: steady_def)

lemma growing_record:
  "growing (\<lambda>t. ok (t\<lparr>compiled_funcs := f t\<rparr>))" "growing (\<lambda>t. ok (t\<lparr>intrinsics := g t\<rparr>))"
  "growing (\<lambda>t. ok (t\<lparr>globals := h t\<rparr>))" "growing (\<lambda>t. ok (t\<lparr>memory_types := m t\<rparr>))"
  "growing (on_segments q)" "growing (\<lambda>t. on_segments (w t) t)" "growing (emit_entrypoint ops)"
  by (auto simp: growing_def grown_def on_segments_def emit_entrypoint_def and_then_ok_iff)

lemma growing_push_global: "growing (push_global v)"
  unfolding push_global_def by (intro obeying growing_record)

lemma block_params_append: "\<exists>ops. compile_block_params fp e is = is @ ops"
  by (simp add: compile_block_params_def)

lemma import_trampoline_heads:
  assumes "import_trampoline fp c f i e t = ok t'" and "heads_ok t"
  shows "heads_ok t'"
proof -
  let ?rest = "[inspecting (signature_of i) (\<lambda>_. emit [StackCheck 0xFFFFFFFF]),
      whenever (builtins_consume_fuel c)
        (\<lambda>t. ok (t\<lparr>instructions := compile_block_params fp (syscall_fuel_param e) (instructions t)\<rparr>)),
      emit [Call (sys_func_idx e), Return], finish]"
  obtain t1 where t1: "prepare fp f (new_translator c t) = ok t1" "steps ?rest t1 = ok t'"
    using assms(1) unfolding import_trampoline_def by (simp only: steps_ok) blast
  have "heads_ok (new_translator c t)"
    using assms(2) by (simp add: new_translator_def translator_new_def heads_ok_def)
  moreover have "growing (\<lambda>t. ok (t\<lparr>instructions := compile_block_params fp (syscall_fuel_param e) (instructions t)\<rparr>))"
    using block_params_append [of fp "syscall_fuel_param e"] by (auto simp: growing_def grown_def compile_block_params_def)
  then have "growing (steps ?rest)" by (intro obeying)
  ultimately show ?thesis
    using prepare_heads [OF t1(1)] grown_heads obeysD t1(2) by blast
qed

lemma steady_next_func:
  "(case next_func p of (i, q) \<Rightarrow> f i q) = ok p' \<longleftrightarrow> f (compiled_count p) (p\<lparr>compiled_count := compiled_count p + 1\<rparr>) = ok p'"
  by (simp add: next_func_def)

lemma steady_import: "steady (process_import fp imp)"
proof -
  have add: "heads_ok t'" if "steps
       [(\<lambda>t. ok (t\<lparr>compiled_funcs := compiled_funcs t @ [i]\<rparr>)),
        (\<lambda>t. ok (t\<lparr>intrinsics := intrinsics t @ (case entity_intrinsic e of None \<Rightarrow> [] | Some x \<Rightarrow> [(f, x)])\<rparr>)),
        import_trampoline fp c f i e] t = ok t'" "heads_ok t" for i f e c t t'
  proof -
    let ?t = "t\<lparr>compiled_funcs := compiled_funcs t @ [i],
        intrinsics := intrinsics t @ (case entity_intrinsic e of None \<Rightarrow> [] | Some x \<Rightarrow> [(f, x)])\<rparr>"
    have "import_trampoline fp c f i e ?t = ok t'" using that(1) by (auto simp: and_then_ok_iff)
    moreover have "heads_ok ?t" using that(2) by (simp add: heads_ok_def)
    ultimately show ?thesis by (rule import_trampoline_heads)
  qed
  then have func: "steady (on_allocs (steps
       [(\<lambda>t. ok (t\<lparr>compiled_funcs := compiled_funcs t @ [i]\<rparr>)),
        (\<lambda>t. ok (t\<lparr>intrinsics := intrinsics t @ (case entity_intrinsic e of None \<Rightarrow> [] | Some x \<Rightarrow> [(f, x)])\<rparr>)),
        import_trampoline fp c f i e]))" for i f e c
    by (rule steady_on_allocs)
  show ?thesis
    unfolding steady_def
  proof (intro allI impI)
    fix p p' :: "'v module_parser" assume p': "process_import fp imp p = ok p'" "heads_ok (allocs p)"
    show "heads_ok (allocs p')"
    proof (cases "item_type imp")
      case (ImportFunc i)
      then obtain e where "on_allocs (steps
           [(\<lambda>t. ok (t\<lparr>compiled_funcs := compiled_funcs t @ [i]\<rparr>)),
            (\<lambda>t. ok (t\<lparr>intrinsics := intrinsics t @
               (case entity_intrinsic e of None \<Rightarrow> [] | Some x \<Rightarrow> [(compiled_count p, x)])\<rparr>)),
            import_trampoline fp (config p) (compiled_count p) i e]) (p\<lparr>compiled_count := compiled_count p + 1\<rparr>) = ok p'"
        using p'(1) by (auto simp: process_import_def and_then_ok_iff next_func_def split: if_splits simp del: steps.simps)
      from steadyD [OF func this] p'(2) show ?thesis by simp
    next
      case (ImportGlobal ty m)
      then show ?thesis
        using p' steadyD [OF steady_growing [OF growing_push_global]]
        by (auto simp: process_import_def split: option.splits)
    qed (use p' in \<open>simp add: process_import_def\<close>)
  qed
qed

lemma steady_sections:
  "steady (process_types fts)" "steady (process_functions idxs)" "steady (process_tables ts)"
  "steady (process_memories fp ms)" "steady (process_globals gs)" "steady (process_exports es)"
  "steady (process_start f)" "steady (process_element els)" "steady (process_data ds)"
  "steady (process_custom_section n bytes)"
proof -
  have fields: "growing (\<lambda>t. ok (t\<lparr>func_reg := q t\<rparr>))" "growing (\<lambda>t. ok (t\<lparr>segments := a t, table_types := b t\<rparr>))"
    for q a b
    by (simp_all add: growing_def grown_def)
  have "growing (\<lambda>t. and_then (alloc_func_type ft (func_reg t)) (\<lambda>(_, reg). ok (t\<lparr>func_reg := reg\<rparr>)))" for ft
    by (auto simp: growing_def grown_def and_then_ok_iff)
  then show "steady (process_types fts)"
    unfolding process_types_def by (intro steady_for_each steady_growing)
  show "steady (process_functions idxs)"
    unfolding process_functions_def by (intro steady_for_each steady_growing growing_record)
  show "steady (process_tables ts)"
    unfolding process_tables_def
    by (intro steady_for_each) (auto split: prod.splits intro!: steady_growing fields simp: steady_def [of "\<lambda>_. panic"])
  have "steady (\<lambda>p. on_allocs (steps
     [(\<lambda>t. ok (t\<lparr>memory_types := memory_types t @ [ty]\<rparr>)),
      (\<lambda>t. if unat n < 2 ^ 32
            then on_segments (add_memory_pages fp (ucast n) (max_allowed_pages (config p))) t
            else panic)]) p)" for n :: u64 and ty
  proof -
    have "growing (steps
       [(\<lambda>t. ok (t\<lparr>memory_types := memory_types t @ [ty]\<rparr>)),
        (\<lambda>t. if unat n < 2 ^ 32 then on_segments (add_memory_pages fp (ucast n) m) t else panic)])" for m
      by (intro obeying growing_record)
    from steadyD [OF steady_growing [OF this]] show ?thesis unfolding steady_def by blast
  qed
  then show "steady (process_memories fp ms)"
    unfolding process_memories_def by (intro steady_for_each) (simp only: split_def)
  have "growing (\<lambda>t. and_then (parser_eval_const t (item_init g)) (\<lambda>v.
       push_global \<lparr>content_type = item_content g, global_mutable = item_mutable g, default_value = v\<rparr> t))" for g
    by (intro heads.obeys_bind growing_push_global)
  then show "steady (process_globals gs)"
    unfolding process_globals_def by (intro steady_for_each steady_growing)
  show "steady (process_exports es)"
    unfolding process_exports_def by (intro steady_for_each) (auto simp: steady_def)
  show "steady (process_start f)" "steady (process_custom_section n bytes)"
    by (auto simp: steady_def process_start_def process_custom_section_def)
  show "steady (process_element els)"
    unfolding process_element_def
  proof (intro steady_for_each)
    fix x :: "nat \<times> element_kind \<times> element_items"
    obtain i kind items where "x = (i, kind, items)" by (cases x)
    then show "steady (case x of (i, kind, items) \<Rightarrow> on_allocs (\<lambda>t.
       and_then (element_items_of items) (\<lambda>refs.
         case kind of
           ElemActive table ops \<Rightarrow>
             and_then (parser_eval_const t ops) (\<lambda>v.
             and_then (ok_or TableSegmentOutOfBounds (try_u32 v)) (\<lambda>offset.
               if unat table < 2 ^ 16
               then ok (t\<lparr>segments := add_active_elements (word_of_nat i) offset (ucast table) refs (segments t)\<rparr>)
               else panic))
         | ElemPassive \<Rightarrow> ok (t\<lparr>segments := add_passive_elements (word_of_nat i) refs (segments t)\<rparr>)
         | ElemDeclared \<Rightarrow> ok (t\<lparr>segments := add_passive_elements (word_of_nat i) [] (segments t)\<rparr>))))"
      by (cases kind) (auto simp: growing_def grown_def and_then_ok_iff split: if_splits intro!: steady_growing)
  qed
  show "steady (process_data ds)"
    unfolding process_data_def
  proof (intro steady_for_each)
    fix x :: "nat \<times> data_kind \<times> u8 list"
    obtain i kind bytes where "x = (i, kind, bytes)" by (cases x)
    then show "steady (case x of (i, kind, bytes) \<Rightarrow> on_allocs (\<lambda>t.
       case kind of
         DataActive memory ops \<Rightarrow>
           if memory \<noteq> 0 then err NonDefaultMemoryIndex
           else and_then (parser_eval_const t ops) (\<lambda>v.
             and_then (ok_or MemorySegmentOutOfBounds (try_u32 v)) (\<lambda>offset.
               ok (t\<lparr>segments := add_active_memory (word_of_nat i) offset bytes (segments t)\<rparr>)))
       | DataPassive \<Rightarrow> ok (t\<lparr>segments := add_passive_memory (word_of_nat i) bytes (segments t)\<rparr>)))"
      by (cases kind) (auto simp: growing_def grown_def and_then_ok_iff split: if_splits intro!: steady_growing)
  qed
qed

lemma steady_code_entry: "steady (process_code_entry V fp body)"
proof -
  have "heads_ok t'" if "translate (function_validator V) fp f body (w, new_translator c t) = ok (w', t')" "heads_ok t"
    for f w c t w' t'
    by (rule translate_heads [OF that(1)]) (use that(2) in \<open>simp add: new_translator_def translator_new_def heads_ok_def\<close>)
  then show ?thesis by (auto simp: steady_def process_code_entry_def next_func_def and_then_ok_iff)
qed

lemma steady_validated: "steady f \<Longrightarrow> steady (\<lambda>p. and_then (validating V pl p) f)"
proof -
  assume f: "steady f"
  have "allocs p' = allocs p" if "validating V pl p = ok p'" for p p'
    using that by (auto simp: validating_def and_then_ok_iff)
  then show ?thesis using f by (auto simp: steady_def and_then_ok_iff)
qed

lemma steady_trivial: "steady ok" "steady (\<lambda>_. err e)" "steady (\<lambda>_. panic)"
  by (simp_all add: steady_def)

lemma steady_payload: "steady (process_payload V fp pl)"
proof -
  have "process_payload V fp pl = (\<lambda>p. process_payload V fp pl p)" by simp
  then show ?thesis
    unfolding process_payload_def
    by (cases pl) (simp_all add: steady_validated steady_sections steady_for_each steady_import
        steady_code_entry steady_trivial)
qed


lemma steady_payloads: "steady (parse_payloads V fp bodies xs)"
proof (induction xs arbitrary: bodies)
  case Nil
  then show ?case by (simp add: steady_def)
next
  case (Cons x xs)
  have entries: "steady (for_each (process_code_entry V fp) bodies)"
    by (intro steady_for_each steady_code_entry)
  show ?case
    unfolding steady_def
  proof (intro allI impI)
    fix p p' assume p': "parse_payloads V fp bodies (x # xs) p = ok p'" "heads_ok (allocs p)"
    then obtain pl where pl: "validated x = ok pl"
      by (auto simp: and_then_ok_iff)
    consider (entry) body where "pl = CodeSectionEntry body" | (last) "pl = EndPayload"
      | (other) "parse_payloads V fp bodies (x # xs) p = and_then (process_payload V fp pl p) (parse_payloads V fp bodies xs)"
      using pl by (cases pl) simp_all
    then show "heads_ok (allocs p')"
    proof cases
      case entry
      then show ?thesis using p' pl steadyD [OF Cons.IH] by simp
    next
      case last
      then obtain q r where "for_each (process_code_entry V fp) bodies p = ok q"
        "process_payload V fp EndPayload q = ok r" "parse_payloads V fp [] xs r = ok p'"
        using p'(1) pl by (auto simp: and_then_ok_iff)
      then show ?thesis
        using p'(2) steadyD [OF entries] steadyD [OF steady_payload] steadyD [OF Cons.IH] by blast
    next
      case other
      then obtain q where "process_payload V fp pl p = ok q" "parse_payloads V fp bodies xs q = ok p'"
        using p'(1) by (auto simp: and_then_ok_iff)
      then show ?thesis
        using p'(2) steadyD [OF steady_payload] steadyD [OF Cons.IH] by blast
    qed
  qed
qed

lemma parse_heads: "parse V fp payloads (parser_new v c) = ok p \<Longrightarrow> heads_ok (allocs p)"
  using steadyD [OF steady_payloads, of V fp "[]" payloads "parser_new v c" p]
  by (simp add: parse_def parser_new_def allocations_default_def heads_ok_def)

section \<open>The end of the module\<close>

lemma steady_then: "steady f \<Longrightarrow> steady g \<Longrightarrow> steady (\<lambda>p. and_then (f p) g)"
  by (auto simp: steady_def and_then_ok_iff)

lemma steady_emit_start: "steady emit_start"
proof -
  let ?call = "\<lambda>p :: 'a module_parser. case start_func p of
         None \<Rightarrow> ok p
       | Some f \<Rightarrow> if \<not> allow_start_section (config p) then err StartSectionsAreNotAllowed
                  else on_allocs (emit_function_call f True False) p"
  have "steady ?call"
    using steadyD [OF steady_growing [OF heads.obeys_calls(2)]]
    by (auto simp: steady_def split: option.splits if_splits)
  moreover have "steady (on_allocs (emit_entrypoint [Return]))"
    by (intro steady_growing growing_record)
  ultimately have "steady (\<lambda>p. and_then (?call p) (on_allocs (emit_entrypoint [Return])))"
    by (rule steady_then)
  then show ?thesis by (simp add: steady_def emit_start_def)
qed

lemma steady_emit_main: "steady emit_main"
  using steadyD [OF steady_growing [OF heads.obeys_calls(2)]]
  by (auto simp: steady_def emit_main_def and_then_ok_iff split: option.splits if_splits)

lemma steady_snippet:
  "steady (on_allocs (emit_snippet_body s))" "steady (on_allocs (patch_snippet_call loc f))"
proof -
  show "steady (on_allocs (emit_snippet_body s))"
    by (rule steady_on_allocs)
      (auto simp: emit_snippet_body_def is_head_def elim!: new_head [where op = "StackCheck (snippet_msh s)"])
  have "growing (patch_snippet_call loc f)"
    by (auto simp: growing_def grown_def patch_snippet_call_def is_head_def intro!: settled_update
        split: if_splits opcode.splits)
  then show "steady (on_allocs (patch_snippet_call loc f))" by (rule steady_growing)
qed

lemma steady_snippet_calls: "steady (emit_snippet_calls cs emitted)"
proof (induction cs arbitrary: emitted)
  case (Cons c cs)
  show ?case
    unfolding steady_def
  proof (intro allI impI)
    fix p p' :: "'a module_parser"
    assume p': "emit_snippet_calls (c # cs) emitted p = ok p'" "heads_ok (allocs p)"
    show "heads_ok (allocs p')"
    proof (cases "map_of emitted (called_snippet c)")
      case (Some f)
      then obtain q where "on_allocs (patch_snippet_call (call_loc c) f) p = ok q"
        "emit_snippet_calls cs emitted q = ok p'"
        using p'(1) by (auto simp: and_then_ok_iff)
      then show ?thesis
        using p'(2) steadyD [OF steady_snippet(2)] steadyD [OF Cons.IH] by blast
    next
      case None
      then obtain q r where "on_allocs (emit_snippet_body (called_snippet c)) (p\<lparr>compiled_count := compiled_count p + 1\<rparr>) = ok q"
        "on_allocs (patch_snippet_call (call_loc c) (compiled_count p)) q = ok r"
        "emit_snippet_calls cs ((called_snippet c, compiled_count p) # emitted) r = ok p'"
        using p'(1) by (auto simp: and_then_ok_iff next_func_def)
      moreover have "heads_ok (allocs (p\<lparr>compiled_count := compiled_count p + 1\<rparr>))" using p'(2) by simp
      ultimately show ?thesis
        using steadyD [OF steady_snippet(1)] steadyD [OF steady_snippet(2)] steadyD [OF Cons.IH] by blast
    qed
  qed
qed (simp add: steady_def)

lemma steady_emit_snippets: "steady emit_snippets"
  using steadyD [OF steady_snippet_calls] by (auto simp: steady_def emit_snippets_def split: if_splits)

lemma steady_emit_state: "steady (emit_state s)"
proof -
  have "growing (steps [emit_entrypoint ops, emit_function_call f True True])" for ops f
    by (intro obeying growing_record)
  note one = steadyD [OF steady_growing [OF this]]
  show ?thesis
    unfolding steady_def emit_state_def
    by (auto simp: and_then_ok_iff simp del: steps.simps split: option.splits if_splits intro: one)
qed

lemma steady_emit_state_router: "steady emit_state_router"
proof -
  have "steady (on_allocs (emit_entrypoint ops))" for ops
    by (intro steady_growing growing_record)
  moreover have "steady (for_each emit_state ss)" for ss
    by (intro steady_for_each steady_emit_state)
  ultimately have "steady (\<lambda>p. and_then (on_allocs (emit_entrypoint ops) p) (\<lambda>p.
       and_then (for_each emit_state ss p) (on_allocs (emit_entrypoint [Drop]))))" for ops ss
    by (intro steady_then) 
  then show ?thesis
    unfolding steady_def emit_state_router_def by (auto split: option.splits)
qed

text \<open>What is relocated leads to the head of a function.\<close>

definition leads_to_head :: "opcode list \<Rightarrow> u32 \<Rightarrow> bool" where
  "leads_to_head code f \<longleftrightarrow> f = 0 \<or> unat f < length code \<and> is_head (code ! unat f)"

definition targets :: "opcode \<Rightarrow> u32 list" where
  "targets op = (case op of CallInternal f \<Rightarrow> [f] | ReturnCallInternal f \<Rightarrow> [f] | RefFunc f \<Rightarrow> [f] | _ \<Rightarrow> [])"

lemma collect_ok: "collect f xs = ok ys \<longleftrightarrow> list_all2 (\<lambda>x y. f x = ok y) xs ys"
  by (induction xs arbitrary: ys) (auto simp: and_then_ok_iff list_all2_Cons1)

lemma relocate_opcode_head: "relocate_opcode offs n op = ok op' \<Longrightarrow> is_head op' = is_head op"
  by (cases op) (auto simp: relocate_opcode_def is_head_def and_then_ok_iff)

lemma relocate_opcode_targets:
  "relocate_opcode offs n op = ok op' \<Longrightarrow> f \<in> set (targets op') \<Longrightarrow> \<exists>g. relocated offs n g = ok f"
  by (cases op) (auto simp: relocate_opcode_def targets_def and_then_ok_iff)

text \<open>\<open>relocated\<close> on offsets of heads.\<close>

lemma relocated_head:
  assumes "relocated (func_offsets t) n g = ok f" and "heads_ok t"
    and len: "length pre + length (instructions t) < 2 ^ 32" "n = isa_loc pre"
    and code: "length code = length pre + length (instructions t)"
      "\<And>i. i < length (instructions t) \<Longrightarrow> is_head (code ! (length pre + i)) = is_head (instructions t ! i)"
  shows "leads_to_head code f"
proof (cases "g = 0")
  case True
  then show ?thesis using assms(1) by (simp add: relocated_def leads_to_head_def)
next
  case False
  define k where "k = func_offsets t ! (unat g - 1)"
  have k: "k \<in> set (func_offsets t)" "f = k + n"
    using False assms(1) by (auto simp: relocated_def k_def split: if_splits)
  then have head: "unat k < length (instructions t)" "is_head (instructions t ! unat k)"
    using assms(2) len(1) by (auto simp: heads_ok_def)
  have "unat f = length pre + unat k"
    using len head(1) by (simp add: k(2) isa_loc_def unat_word_ariths unat_of_nat)
  then show ?thesis using head code by (simp add: leads_to_head_def)
qed

lemma assembled_targets:
  assumes "assemble pc wasm t = ok m" and "heads_ok t" and "length (code_section m) < 2 ^ 32"
  shows "\<forall>op \<in> set (code_section m). list_all (leads_to_head (code_section m)) (targets op)"
    and "list_all (leads_to_head (code_section m)) (elem_section m)"
proof -
  define pre where "pre = isa_finalize True (entrypoint_bytecode (segments t))"
  have code: "list_all2 (\<lambda>x y. relocate_opcode (func_offsets t) (isa_loc pre) x = ok y)
      (pre @ instructions t) (code_section m)"
    and elem: "list_all2 (\<lambda>x y. relocated (func_offsets t) (isa_loc pre) x = ok y)
      (global_element_section (segments t)) (elem_section m)"
    using assms(1) by (auto simp: assemble_def Let_def pre_def [symmetric] and_then_ok_iff collect_ok)
  have len: "length (code_section m) = length pre + length (instructions t)"
    using list_all2_lengthD [OF code] by simp
  have heads: "is_head (code_section m ! (length pre + i)) = is_head (instructions t ! i)"
    if "i < length (instructions t)" for i
    using list_all2_nthD [OF code, of "length pre + i"] that relocate_opcode_head by fastforce
  have lead: "leads_to_head (code_section m) f" if "relocated (func_offsets t) (isa_loc pre) g = ok f" for f g
    by (rule relocated_head [OF that assms(2) _ refl len heads]) (use assms(3) len in simp_all)
  show "\<forall>op \<in> set (code_section m). list_all (leads_to_head (code_section m)) (targets op)"
    using code lead relocate_opcode_targets
    by (auto simp: list_all_iff list_all2_conv_all_nth in_set_conv_nth [of _ "code_section m"]) (metis)
  show "list_all (leads_to_head (code_section m)) (elem_section m)"
    using elem lead by (auto simp: list_all_length list_all2_conv_all_nth)
qed

lemma finalized_heads:
  assumes "finalize wasm p = ok (m, cp)" and "heads_ok (allocs p)"
  shows "\<exists>pc t. assemble pc wasm t = ok m \<and> heads_ok t"
proof -
  obtain p1 p2 p3 p4 where "emit_start p = ok p1" "emit_main p1 = ok p2" "emit_snippets p2 = ok p3"
    "emit_state_router p3 = ok p4"
    "assemble (isa_loc (entrypoint_bytecode (segments (allocs p1)))) wasm (allocs p4) = ok m"
    using assms(1) by (auto simp: finalize_def and_then_ok_iff Let_def)
  then show ?thesis
    using assms(2) steadyD [OF steady_emit_start] steadyD [OF steady_emit_main] steadyD [OF steady_emit_snippets]
      steadyD [OF steady_emit_state_router] by meson
qed

end
