(* ===== verification/Function_Run.thy ===== *)
theory Function_Run
  imports Straight_Line Func_Builder Module_Layout
begin

text \<open>
  A whole function without control flow: what \<open>translate\<close> of \<open>Func_Builder\<close> appends for its body is a
  signature check, the charge of its fuel, the stack check, the zeros of the locals, the code of the
  operators, the code that drops the locals and keeps the results, and a return. The engine, entered
  at the signature check, pushes the arguments, runs it and pops what the reference semantics
  gives; it traps when the fuel is short or the reference traps.
\<close>

section \<open>Running a function\<close>

text \<open>The stack check makes room for the declared height.\<close>

lemma stack_check_step:
  assumes "fetch (code_section (module env)) (ip x) = Some (StackCheck h)" and "repr (stack_of x) ws r"
    and "length ws + unat h \<le> maximum_len (vstack x)"
  shows "\<exists>y r'. exec_step env x = Some (Next y) \<and> ip y = ip x + 1 \<and> store y = store x \<and> call_stack y = call_stack x \<and>
    repr (stack_of y) ws r' \<and> unat h \<le> r'"
proof -
  have sp: "sp x = length ws" "length (entries (vstack x)) = length ws + r"
    using repr_pointer [OF assms(2)] repr_capacity [OF assms(2)] by (simp_all add: stack_of_def)
  let ?more = "if length ws + unat h > length ws + r then replicate (length ws + unat h) 0 else []"
  let ?vs = "sync_stack_ptr (sp x) (vstack x)"
  have res: "stack_reserve (unat h) ?vs = Inr (?vs\<lparr>entries := entries (vstack x) @ ?more\<rparr>)"
    using assms(3) sp by (simp add: stack_reserve_def sync_stack_ptr_def stack_capacity_def)
  have "repr (entries (vstack x) @ ?more, length ws) ws (r + length ?more)"
    using assms(2) sp by (simp add: repr_def stack_of_def)
  moreover have "unat h \<le> r + length ?more" by simp
  ultimately show ?thesis
    using assms(1) res sp
    by (auto simp: exec_step_def step_def visit_stack_check_def Let_def sync_sp_def next_instr_def ip_add_def
        reload_sp_def stack_of_def sync_stack_ptr_def)
qed

lemma code_at_parts:
  "code_at code k (a @ b) \<Longrightarrow> code_at code k a" "code_at code k (a @ b) \<Longrightarrow> code_at code (k + length a) b"
  by (auto simp: code_at_def) (metis append_assoc length_append)

text \<open>How an execution that finishes the loop at \<open>ip\<close> reports it.\<close>

definition outcome_of :: "val list \<Rightarrow> (trap_code \<times> 'h store) + ('h store \<times> val list) \<Rightarrow> trap_code option \<times> val list \<times> 'h store" where
  "outcome_of result res = (case res of
     Inl (t, st) \<Rightarrow> (Some t, result, st\<lparr>last_signature := None\<rparr>)
   | Inr (st, vs) \<Rightarrow> (None, vs, st))"

lemma finish_trap:
  "run_the_loop env x = Some (Finished (Some t, z)) \<Longrightarrow> t \<noteq> InterruptionCalled \<Longrightarrow> t \<noteq> ExecutionHalted \<Longrightarrow>
   engine_outcome m (case run_the_loop env x of
          None \<Rightarrow> None | Some Undefined \<Rightarrow> Some Undefined
        | Some (Finished (status, s)) \<Rightarrow> Some (finish_run result status s)) =
     Some (Finished (outcome_of result (Inl (t, store z))))"
  by (cases t) (simp_all add: finish_run_def halted_state_def engine_outcome_def outcome_of_def)

lemma finish_return:
  assumes "exec_step env y = Some (Halt (sync_sp y))" and "repr (stack_of y) (rev (vals_words vs)) r"
    and "map val_ty result = map val_ty vs"
  shows "engine_outcome m (case run_the_loop env y of
          None \<Rightarrow> None | Some Undefined \<Rightarrow> Some Undefined
        | Some (Finished (status, s)) \<Rightarrow> Some (finish_run result status s)) =
     Some (Finished (outcome_of result (Inr (store y, vs))))"
proof -
  have loop: "run_the_loop env y = Some (Finished (None, sync_sp y))"
    using assms(1) by (simp add: run_the_loop.simps)
  have "repr (stack_of (sync_sp y)) (rev (vals_words vs) @ []) r"
    using assms(2) by (simp add: sync_sp_def sync_stack_ptr_def stack_of_def)
  then obtain m where "pop_results result (stack_of (sync_sp y)) = Some (vs, m)"
    using pop_results_ok assms(3) by blast
  then show ?thesis
    by (simp add: loop finish_run_def from_stack_def engine_outcome_def set_stack_def sync_sp_def outcome_of_def)
qed


text \<open>The function at \<open>k\<close>, entered by the engine with the arguments on the stack.\<close>

definition plain_end :: "(trap_code \<times> 'h store) + ('h store \<times> val list) \<Rightarrow> val list \<Rightarrow> bool" where
  "plain_end res result \<longleftrightarrow> (case res of
     Inl (t, _) \<Rightarrow> t \<noteq> InterruptionCalled \<and> t \<noteq> ExecutionHalted
   | Inr (_, vs) \<Rightarrow> map val_ty result = map val_ty vs)"

lemma function_runs:
  assumes code: "code_at (code_section (module env)) k (head @ StackCheck h # ops @ post)"
    and start: "unat (source_pc (module env)) = k"
    and room: "length (vals_words args) \<le> 32" "length (vals_words args) + unat h \<le> N_MAX_STACK_SIZE"
    and head: "computes env head 0 st (rev (vals_words args)) (map_sum id (\<lambda>st. (st, rev (vals_words args))) first)"
    and body: "\<And>st0. first = Inr st0 \<Longrightarrow>
      computes env ops h st0 (rev (vals_words args)) (map_sum id (\<lambda>(st, vs). (st, rev (vals_words vs))) res)"
    and trapped: "\<And>e. first = Inl e \<Longrightarrow> res = Inl e"
    and returns: "\<And>e. res = Inr e \<Longrightarrow> \<exists>rest. post = Return # rest"
    and plain: "plain_end res result"
  shows "engine_execute env args result st = Some (Finished (outcome_of result res))"
proof -
  let ?ws = "rev (vals_words args)"
  have at: "code_at (code_section (module env)) k head"
    "code_at (code_section (module env)) (k + length head) (StackCheck h # ops @ post)"
    "code_at (code_section (module env)) (k + length head + 1) (ops @ post)"
    using code code_at_parts [OF code] code_at_parts(2) [of "code_section (module env)" k "head @ [StackCheck h]" "ops @ post"]
    by (simp_all add: add.assoc)
  have split: "length (vals_words args) + (32 - length (vals_words args)) = 32" using room(1) by simp
  obtain x where x: "\<And>env result. exec_run env args result (initial_exec (int k) st) =
       (case run_the_loop env x of
          None \<Rightarrow> None | Some Undefined \<Rightarrow> Some Undefined
        | Some (Finished (status, s)) \<Rightarrow> Some (finish_run result status s))"
    and rx: "repr (stack_of x) ?ws (32 - length (vals_words args))" and ipx: "ip x = int k" and stx: "store x = st"
    and csx: "call_stack x = []" and maxx: "maximum_len (vstack x) = N_MAX_STACK_SIZE"
    by (rule exec_run_start_room [OF split, where p = "int k" and st = st]) (rule that; assumption)
  have run: "engine_execute env args result st =
      engine_outcome (module env) (case run_the_loop env x of
          None \<Rightarrow> None | Some Undefined \<Rightarrow> Some Undefined
        | Some (Finished (status, s)) \<Rightarrow> Some (finish_run result status s))"
    using x by (simp add: engine_execute_def start)
  have trap: ?thesis if "exec_reaches env x z" "exec_step env z = Some (Trapped t w)" "store w = st'" "res = Inl (t, st')"
    for z t w st'
  proof -
    have "run_the_loop env x = Some (Finished (Some t, w))"
      using exec_reaches_run [OF that(1)] that(2) by (subst (asm) (2) run_the_loop.simps) simp
    from finish_trap [OF this] show ?thesis using plain that(3,4) run by (auto simp: plain_end_def)
  qed
  show ?thesis
  proof (cases first)
    case (Inl e)
    obtain t st' where e: "e = (t, st')" by (cases e)
    have res: "res = Inl (t, st')" using trapped [OF Inl] e by simp
    have h: "computes env head 0 st ?ws (Inl (t, st'))" using head Inl e by simp
    obtain z w where "exec_reaches env x z" "exec_step env z = Some (Trapped t w)" "store w = st'"
      using computes_Inl [OF h at(1) ipx stx, of "[]" "32 - length (vals_words args)"] rx by auto
    then show ?thesis using trap res by blast
  next
    case (Inr st0)
    have h: "computes env head 0 st ?ws (Inr (st0, ?ws))" using head Inr by simp
    obtain y where y: "exec_reaches env x y"
      "moved x (int (length head)) st0 ?ws (32 - length (vals_words args) + length ?ws - length ?ws) y"
      using computes_Inr [OF h at(1) ipx stx, of "[]" "32 - length (vals_words args)"] rx by auto
    have "maximum_len (vstack y) = maximum_len (vstack x)"
      using y(2) by (auto simp: moved_def set_stack_def)
    moreover have "fetch (code_section (module env)) (ip y) = Some (StackCheck h)"
      using fetch_at [OF at(2)] moved_ip [OF y(2)] ipx by simp
    moreover have repr_y: "repr (stack_of y) ?ws (32 - length (vals_words args))"
      using moved_repr [OF y(2)] by simp
    ultimately obtain z r where z: "exec_step env y = Some (Next z)" "ip z = ip y + 1" "store z = store y"
      "call_stack z = call_stack y" "repr (stack_of z) ?ws r" "unat h \<le> r"
      using stack_check_step [of env y h ?ws] maxx room(2) by force
    have ipz: "ip z = int (k + length head + 1)" using z(2) moved_ip [OF y(2)] ipx by simp
    have stz: "store z = st0" using z(3) moved_store [OF y(2)] by simp
    have csz: "call_stack z = []" using z(4) moved_call_stack [OF y(2)] csx by simp
    have xz: "exec_reaches env x z"
      using exec_reaches_trans [OF y(1)] exec_reaches_step [OF z(1) exec_reaches_refl] by blast
    have b: "computes env ops h st0 ?ws (map_sum id (\<lambda>(st, vs). (st, rev (vals_words vs))) res)"
      using body [OF Inr] .
    have at3: "code_at (code_section (module env)) (k + length head + 1) ops"
      "code_at (code_section (module env)) (k + length head + 1 + length ops) post"
      using code_at_parts [OF at(3)] by simp_all
    show ?thesis
    proof (cases res)
      case (Inl e)
      obtain t st' where e: "e = (t, st')" by (cases e)
      then have b': "computes env ops h st0 ?ws (Inl (t, st'))" using b Inl by simp
      obtain u w where "exec_reaches env z u" "exec_step env u = Some (Trapped t w)" "store w = st'"
        using computes_Inl [OF b' at3(1) ipz stz, of "[]" r] z(5,6) by auto
      then show ?thesis using trap Inl e exec_reaches_trans [OF xz] by blast
    next
      case (Inr e)
      obtain st1 vs where e: "e = (st1, vs)" by (cases e)
      then have b': "computes env ops h st0 ?ws (Inr (st1, rev (vals_words vs)))" using b Inr by simp
      obtain u r' where u: "exec_reaches env z u" "moved z (int (length ops)) st1 (rev (vals_words vs)) r' u"
        using computes_Inr [OF b' at3(1) ipz stz, of "[]" r] z(5,6) by auto
      obtain rest where post: "post = Return # rest" using returns [OF Inr] by blast
      have "fetch (code_section (module env)) (ip u) = Some Return"
        using fetch_at [OF at3(2) [unfolded post]] moved_ip [OF u(2)] ipz by (simp add: algebra_simps)
      then have "exec_step env u = Some (Halt (sync_sp u))"
        using moved_call_stack [OF u(2)] csz by (simp add: exec_step_def step_def Interpreter.visit_return_def sync_sp_def)
      moreover have "run_the_loop env x = run_the_loop env u"
        using exec_reaches_run [OF exec_reaches_trans [OF xz u(1)]] .
      ultimately show ?thesis
        using finish_return [of env u vs r' result "module env"] moved_repr [OF u(2)] moved_store [OF u(2)] plain run Inr e
        by (simp add: plain_end_def)
    qed
  qed
qed


section \<open>The code of a function\<close>

definition charge_code :: "bool \<Rightarrow> u32 \<Rightarrow> opcode list" where
  "charge_code metered n = (if metered then [ConsumeFuel n] else [])"

definition fuel_loc :: "translator \<Rightarrow> u32 option" where
  "fuel_loc t = (if with_consume_fuel t then Some (isa_loc (instructions t) + 1) else None)"

text \<open>The translator \<open>t'\<close> in the outermost frame of the function that \<open>t\<close> has begun: after the signature
  check and the charge it has emitted \<open>rest\<close>.\<close>

definition opened :: "translator \<Rightarrow> u32 \<Rightarrow> u32 \<Rightarrow> opcode list \<Rightarrow> translator \<Rightarrow> bool" where
  "opened t i s rest t' \<longleftrightarrow>
     (\<exists>c. instructions t' = instructions t @ SignatureCheck s # charge_code (with_consume_fuel t) c @ rest) \<and>
     control_frames t' = [FrameBlock (block_frame_new (BlockFuncType i) 0 0 (fuel_loc t))] \<and>
     users (label_reg t') = [] \<and> func_offsets t' = func_offsets t @ [isa_loc (instructions t)] \<and>
     func_reg t' = func_reg t \<and> compiled_funcs t' = compiled_funcs t \<and>
     with_consume_fuel t' = with_consume_fuel t \<and> reachable t'"

lemma opened_fuel: "opened t i s rest t' \<Longrightarrow> fuel_instr t' = fuel_loc t"
  by (simp add: opened_def fuel_instr_def last_frame_def consume_fuel_instr_def block_frame_new_def)

lemma opened_edit:
  assumes "opened t i s rest t'" and "fuel_edit t' is" and "length (instructions t) + 1 < 2 ^ 32"
  shows "\<exists>c. is = instructions t @ SignatureCheck s # charge_code (with_consume_fuel t) c @ rest"
proof -
  obtain c where c: "instructions t' = instructions t @ SignatureCheck s # charge_code (with_consume_fuel t) c @ rest"
    using assms(1) by (auto simp: opened_def)
  have loc: "unat (isa_loc (instructions t) + 1) = length (instructions t) + 1"
    using assms(3) by (simp add: isa_loc_def unat_word_ariths unat_of_nat)
  show ?thesis
  proof (cases "is = instructions t'")
    case True
    then show ?thesis using c by blast
  next
    case False
    then obtain j f where j: "fuel_loc t = Some j" "is = (instructions t')[unat j := ConsumeFuel f]"
      using assms(2) opened_fuel [OF assms(1)] by (auto simp: fuel_edit_def)
    then have "with_consume_fuel t" "unat j = length (instructions t) + 1"
      using loc by (auto simp: fuel_loc_def split: if_splits)
    then show ?thesis using c j(2) by (auto simp: charge_code_def list_update_append)
  qed
qed

lemma opened_behind: "opened t i s rest t' \<Longrightarrow> length (instructions t) + 1 < 2 ^ 32 \<Longrightarrow> fuel_behind t'"
  using opened_fuel [of t i s rest t']
  by (auto simp: fuel_behind_def fuel_loc_def opened_def charge_code_def isa_loc_def unat_word_ariths unat_of_nat
      split: if_splits)

lemma opened_extends:
  assumes "opened t i s rest t1" and "fixed t2 = fixed t1" "control_frames t2 = control_frames t1"
    and "fuel_edit t1 is" "instructions t2 = is @ code" and "length (instructions t) + 1 < 2 ^ 32"
  shows "opened t i s (rest @ code) t2"
  using opened_edit [OF assms(1,4,6)] assms(1-3,5) by (auto simp: opened_def)

lemma opened_bump:
  assumes "opened t i s rest t1" and "bump_fuel d t1 = ok t2" and "length (instructions t) + 1 < 2 ^ 32"
  shows "opened t i s rest t2" "stack_types t2 = stack_types t1" "stack_height t2 = stack_height t1"
    "locals_registered t2 = locals_registered t1" "with_code_snippets t2 = with_code_snippets t1"
    "consume_fuel_for_params_and_locals t2 = consume_fuel_for_params_and_locals t1"
proof -
  obtain "is" where "is": "fuel_edit t1 is" "t2 = t1\<lparr>instructions := is\<rparr>"
    using bump_fuel_edits [OF assms(2)] by blast
  then show "opened t i s rest t2"
    using opened_extends [OF assms(1) _ _ "is"(1) _ assms(3), of t2 "[]"] by simp
  show "stack_types t2 = stack_types t1" "stack_height t2 = stack_height t1"
    "locals_registered t2 = locals_registered t1" "with_code_snippets t2 = with_code_snippets t1"
    "consume_fuel_for_params_and_locals t2 = consume_fuel_for_params_and_locals t1"
    by (simp_all add: "is"(2))
qed

text \<open>The beginning of a function.\<close>

definition charge_params :: "fuel_policy \<Rightarrow> action" where
  "charge_params fp t = (if consume_fuel_for_params_and_locals t
     then or_panic (bump_fuel (fuel_for_locals fp (locals_registered t)) t) else ok t)"

lemma result_cases:
  obtains "r = panic" | e where "r = err e" | x where "r = ok x"
proof (cases r)
  case (Some v)
  then show ?thesis using that by (cases v) (simp_all add: ok_def err_def)
qed (use that in \<open>simp add: panic_def\<close>)

lemma zero_registered: "register_locals n 0 = ok n"
  using unat_less [of n] by (simp add: register_locals_ok)

lemma init_func_body_block_charges:
  "init_func_body_block fp f =
     inspecting (resolve_func_type_index f) (\<lambda>i. new_label_ref (\<lambda>l. steps
          [inspecting (signature_of i) (\<lambda>s. emit [SignatureCheck s]),
           metered_consume_fuel (\<lambda>fuel. push_frame (FrameBlock (block_frame_new (BlockFuncType i) l 0 fuel))),
           inspecting (original_func_type_of i) (\<lambda>ft t. ok (t\<lparr>stack_types := stack_types t @ ft_params ft\<rparr>)),
           inspecting (func_type_of i) (\<lambda>ft.
             inspecting (\<lambda>t. register_locals (word_of_nat (length (ft_params ft))) (locals_registered t)) (\<lambda>n t.
               ok (t\<lparr>locals_registered := n\<rparr>))),
           charge_params fp]))"
  by (simp add: init_func_body_block_def charge_params_def [abs_def])

lemma prepare_opens:
  assumes prep: "prepare fp f t = ok t1" and "reachable t" and len: "length (instructions t) + 1 < 2 ^ 32"
    and ty: "resolve_func_type_index f t = ok i" "original_func_type_of i t = ok ft" "func_type_of i t = ok adj"
    and locals: "locals_registered t = 0"
  shows "\<exists>s. opened t i s [] t1 \<and> stack_types t1 = ft_params ft \<and> stack_height t1 = stack_height t \<and>
    locals_registered t1 = word_of_nat (length (ft_params adj)) \<and> with_code_snippets t1 = with_code_snippets t \<and>
    consume_fuel_for_params_and_locals t1 = consume_fuel_for_params_and_locals t"
proof -
  let ?t = "(alloc_reset t)\<lparr>func_offsets := func_offsets t @ [isa_loc (instructions t)]\<rparr>"
  have look: "resolve_func_type_index f t2 = ok i" if "compiled_funcs t2 = compiled_funcs t" for t2
    using ty(1) that by (simp add: resolve_func_type_index_def split: if_splits)
  have look2: "original_func_type_of i t2 = ok ft" "func_type_of i t2 = ok adj"
    if "func_reg t2 = func_reg t" for t2
    using ty(2,3) that by (simp_all add: original_func_type_of_def func_type_of_def)
  have init: "init_func_body_block fp f ?t = ok t1"
    using prep by (auto simp: prepare_def alloc_reset_def and_then_ok_iff)
  define c where "c = charge_params fp"
  define begun where "begun s = t\<lparr>br_table_branches := [], func_offsets := func_offsets t @ [isa_loc (instructions t)],
      label_reg := \<lparr>labels = [Unpinned], users = []\<rparr>,
      instructions := instructions t @ SignatureCheck s # charge_code (with_consume_fuel t) 0,
      control_frames := [FrameBlock (block_frame_new (BlockFuncType i) 0 0 (fuel_loc t))],
      stack_types := ft_params ft, locals_registered := word_of_nat (length (ft_params adj))\<rparr>" for s
  have "\<exists>s. c (begun s) = ok t1"
    using init unfolding init_func_body_block_charges c_def [symmetric]
    by (cases "with_consume_fuel t")
       (clarsimp simp: and_then_ok_iff inspecting_def new_label_ref_def new_label_def labels_reset_def
          emit_def metered_consume_fuel_def push_consume_fuel_empty_def push_frame_def alloc_reset_def look look2
          zero_registered charge_code_def fuel_loc_def isa_loc_def locals begun_def add.commute, rule exI, assumption)+
  then obtain s where charge: "c (begun s) = ok t1" by blast
  let ?b = "begun s"
  have b: "stack_types ?b = ft_params ft" "stack_height ?b = stack_height t"
    "locals_registered ?b = word_of_nat (length (ft_params adj))" "with_code_snippets ?b = with_code_snippets t"
    "consume_fuel_for_params_and_locals ?b = consume_fuel_for_params_and_locals t"
    by (simp_all add: begun_def)
  have open_b: "opened t i s [] ?b"
    using assms(2) by (auto simp: opened_def begun_def)
  show ?thesis
  proof (cases "consume_fuel_for_params_and_locals ?b")
    case True
    then have "bump_fuel (fuel_for_locals fp (locals_registered ?b)) ?b = ok t1"
      using charge by (simp add: or_panic_ok charge_params_def c_def)
    from opened_bump [OF open_b this len] b show ?thesis by (intro exI [of _ s]) simp
  next
    case False
    then have "t1 = ?b" using charge by (simp add: charge_params_def c_def)
    then show ?thesis using b open_b by (intro exI [of _ s]) simp
  qed
qed

section \<open>The locals\<close>

text \<open>The types of the declared locals, the code that pushes their zeros and the number of words.\<close>

definition local_types :: "(u32 \<times> val_type) list \<Rightarrow> val_type list" where
  "local_types ls = concat (map (\<lambda>(n, ty). replicate (unat n) ty) ls)"

definition locals_code :: "(u32 \<times> val_type) list \<Rightarrow> opcode list" where
  "locals_code ls = map (\<lambda>(n, ty). BulkConst (n * (if is_wide ty then 2 else 1))) ls"

definition zeros :: "(u32 \<times> val_type) list \<Rightarrow> val list" where
  "zeros ls = map (the \<circ> val_default) (local_types ls)"

lemma local_types_simps [simp]:
  "local_types [] = []" "local_types ((n, ty) # ls) = replicate (unat n) ty @ local_types ls"
  by (simp_all add: local_types_def)

lemma locals_code_simps [simp]:
  "locals_code [] = []" "locals_code ((n, ty) # ls) = BulkConst (n * (if is_wide ty then 2 else 1)) # locals_code ls"
  by (simp_all add: locals_code_def)

lemma zeros_simps [simp]:
  "zeros [] = []" "zeros ((n, ty) # ls) = replicate (unat n) (the (val_default ty)) @ zeros ls"
  by (simp_all add: zeros_def)

definition local_words :: "(u32 \<times> val_type) list \<Rightarrow> nat" where
  "local_words ls = sum_list (map width (local_types ls))"

lemma local_words_simps [simp]:
  "local_words [] = 0" "local_words ((n, ty) # ls) = unat n * width ty + local_words ls"
  by (simp_all add: local_words_def sum_list_replicate)

lemma group_words:
  "unat (n :: u32) * width ty < 2 ^ 32 \<Longrightarrow> unat (n * (if is_wide ty then 2 else 1)) = unat n * width ty"
  by (cases ty) (simp_all add: is_wide_def width_def unat_word_ariths)

lemma default_words: "ty \<noteq> TV128 \<Longrightarrow> val_words (the (val_default ty)) = replicate (width ty) 0"
  "ty \<noteq> TV128 \<Longrightarrow> val_ty (the (val_default ty)) = ty"
  by (cases ty; simp add: val_default_def val_words_def width_def is_wide_def val_ty_def numeral_2_eq_2)+

text \<open>One group after the other.\<close>

definition declares :: "(u32 \<times> val_type) list \<Rightarrow> translator \<Rightarrow> translator \<Rightarrow> bool" where
  "declares ls t t' \<longleftrightarrow>
     instructions t' = instructions t @ locals_code ls \<and> stack_types t' = stack_types t @ local_types ls \<and>
     control_frames t' = control_frames t \<and> fixed t' = fixed t \<and> locals_registered t' = locals_registered t \<and>
     with_code_snippets t' = with_code_snippets t \<and> TV128 \<notin> snd ` set ls \<and>
     (unat (height (stack_height t)) + local_words ls < 2 ^ 32 \<longrightarrow>
        unat (height (stack_height t')) = unat (height (stack_height t)) + local_words ls \<and>
        (unat (height (stack_height t)) \<le> unat (max_height (stack_height t)) \<longrightarrow>
           unat (height (stack_height t')) \<le> unat (max_height (stack_height t'))))"

lemma group_declares:
  assumes "translate_local_group n ty t = ok t'"
  shows "declares [(n, ty)] t t'"
proof -
  have ty: "ty \<noteq> TV128" using assms by (auto simp: translate_local_group_def split: if_splits)
  define h where "h = (if is_wide ty then push_n n (push_n n (stack_height t)) else push_n n (stack_height t))"
  have t': "t' = t\<lparr>stack_types := stack_types t @ replicate (unat n) ty,
      instructions := instructions t @ [BulkConst (n * (if is_wide ty then 2 else 1))], stack_height := h\<rparr>"
    using assms ty by (auto simp: translate_local_group_def emit_def change_height_def whenever_def h_def)
  have "unat (height h) = unat (height (stack_height t)) + unat n * width ty"
    if "unat (height (stack_height t)) + unat n * width ty < 2 ^ 32"
    using that by (auto simp: h_def width_def unat_word_ariths)
  moreover have "height h \<le> max_height h" by (simp add: h_def)
  ultimately show ?thesis
    unfolding t' declares_def using ty by (auto simp: word_le_nat_alt)
qed

lemma declares_trans:
  assumes "declares [(n, ty)] t t1" "declares ls t1 t2"
  shows "declares ((n, ty) # ls) t t2"
  using assms by (auto simp: declares_def)

lemma groups_declare:
  "translate_local_groups val ls (v, t) = ok (v', t') \<Longrightarrow> declares ls t t'"
proof (induction ls arbitrary: v t)
  case Nil
  then show ?case by (simp add: declares_def)
next
  case (Cons g ls)
  obtain n ty where g: "g = (n, ty)" by (cases g)
  obtain v1 t1 where t1: "translate_local_group n ty t = ok t1" "translate_local_groups val ls (v1, t1) = ok (v', t')"
    using Cons.prems unfolding g by (auto simp: and_then_ok_iff)
  from declares_trans [OF group_declares [OF t1(1)] Cons.IH [OF t1(2)]] show ?case by (simp add: g)
qed

text \<open>What the engine makes of the code: the zeros above the arguments.\<close>

lemma locals_code_computes:
  "local_words ls \<le> r \<Longrightarrow> local_words ls < 2 ^ 32 \<Longrightarrow>
   fwd (locals_code ls) st ws r = Goto 0 st (replicate (local_words ls) 0 @ ws) (r - local_words ls)"
proof (induction ls arbitrary: ws r)
  case (Cons g ls)
  obtain n ty where g: "g = (n, ty)" by (cases g)
  have words: "unat (n * (if is_wide ty then 2 else 1)) = unat n * width ty"
    using Cons.prems g by (intro group_words) simp
  have "replicate (local_words ls) 0 @ replicate (unat n * width ty) 0 @ ws =
      replicate (unat n * width ty + local_words ls) 0 @ ws"
    by (simp add: replicate_add [symmetric] add.commute)
  then show ?case
    using Cons.prems Cons.IH [of "r - unat n * width ty" "replicate (unat n * width ty) 0 @ ws"] words
    by (simp add: g fwd_bulk)
qed (simp add: fwd.simps)

lemma wstack_rev: "wstack (rev vs) = rev (vals_words vs)"
  by (induction vs) simp_all

lemma zeros_words:
  assumes "TV128 \<notin> snd ` set ls"
  shows "vals_words (zeros ls) = replicate (local_words ls) 0" "map val_ty (zeros ls) = local_types ls"
proof -
  have group: "vals_words (replicate n (the (val_default ty))) = replicate (n * width ty) 0" if "ty \<noteq> TV128" for n ty
    using that by (induction n) (simp_all add: default_words replicate_add)
  have app: "vals_words (as @ bs) = vals_words as @ vals_words bs" for as bs by (simp add: vals_words_def)
  show "vals_words (zeros ls) = replicate (local_words ls) 0"
    using assms by (induction ls) (auto simp: app group replicate_add)
  show "map val_ty (zeros ls) = local_types ls"
    using assms by (induction ls) (auto simp: default_words)
qed

section \<open>The end of the function\<close>

text \<open>What the end of the outermost block leaves as it is, and that it never lowers the height.\<close>

definition kept :: "translator \<Rightarrow> label_registry \<times> u32 list \<times> bool \<times> control_frame list \<times> func_type_registry \<times> u32 \<times> bool" where
  [simp]: "kept t = (label_reg t, func_offsets t, with_consume_fuel t, control_frames t, func_reg t, locals_registered t,
     with_code_snippets t)"

definition closes :: "action \<Rightarrow> bool" where
  "closes a \<longleftrightarrow> (\<forall>t t'. a t = ok t' \<longrightarrow> instructions t' = instructions t \<and> kept t' = kept t \<and>
     unat (max_height (stack_height t)) \<le> unat (max_height (stack_height t')))"

lemma closesD: "closes a \<Longrightarrow> a t = ok t' \<Longrightarrow> instructions t' = instructions t \<and> kept t' = kept t \<and>
     unat (max_height (stack_height t)) \<le> unat (max_height (stack_height t'))"
  by (simp add: closes_def)

named_theorems closes "actions that emit nothing"

lemma closes_ok [closes]: "closes ok" "closes (\<lambda>_. panic)" "closes (\<lambda>_. err e)"
  by (simp_all add: closes_def)

lemma closes_steps [closes]: "closes (steps [])" "closes a \<Longrightarrow> closes (steps as) \<Longrightarrow> closes (steps (a # as))"
proof -
  show "closes (steps (a # as))" if "closes a" "closes (steps as)"
    unfolding closes_def
  proof (intro allI impI)
    fix t t' assume "steps (a # as) t = ok t'"
    then obtain t1 where "a t = ok t1" "steps as t1 = ok t'" by (auto simp: steps_ok simp del: steps.simps)
    from closesD [OF that(1) this(1)] closesD [OF that(2) this(2)]
    show "instructions t' = instructions t \<and> kept t' = kept t \<and>
        unat (max_height (stack_height t)) \<le> unat (max_height (stack_height t'))" by simp
  qed
qed (simp add: closes_def steps_ok del: steps.simps)

lemma closes_inspecting [closes]: "(\<And>x. closes (g x)) \<Longrightarrow> closes (inspecting q g)"
  by (auto simp: closes_def inspecting_def and_then_ok_iff)

lemma pin_changes:
  assumes "pin_label_here l t = ok t'"
  shows "\<exists>reg. t' = t\<lparr>label_reg := reg\<rparr> \<and> users reg = users (label_reg t)"
proof -
  obtain pc where "(case pin_label l pc (label_reg t) of
       Some (Inr reg) \<Rightarrow> ok (t\<lparr>label_reg := reg\<rparr>) | _ \<Rightarrow> panic) = ok t'"
    using assms by (auto simp: pin_label_here_def inspecting_def and_then_ok_iff)
  then obtain reg where reg: "pin_label l pc (label_reg t) = Some (Inr reg)" "t' = t\<lparr>label_reg := reg\<rparr>"
    by (auto split: option.splits sum.splits)
  then have "users reg = users (label_reg t)"
    by (auto simp: pin_label_def set_label_def split: option.splits label.splits)
  with reg show ?thesis by blast
qed

lemma closes_block_value [closes]: "closes (push_block_value ty)"
  by (auto simp: closes_def push_block_value_def change_height_def push_stack_type_def word_le_nat_alt [symmetric])

lemma closes_block_values: "closes (steps (map push_block_value tys))"
  by (induction tys) (simp_all only: list.map, (intro closes, assumption?)+)

lemma closes_results [closes]: "closes (push_block_results bt)"
  by (cases bt) (simp_all add: push_block_results_def closes closes_block_values)

lemma closes_shrink [closes]: "closes (shrink_stack_to h)"
  by (auto simp: closes_def shrink_stack_to_def Let_def and_then_ok_iff shrink_to_def split: if_splits)

text \<open>The outermost block ends with the code that keeps the results, and a return.\<close>

lemma return_emits:
  assumes "Translator_Control.visit_return t = ok t'" and "reachable t"
  shows "\<exists>dk. drop_keep_return t = ok dk \<and> instructions t' = instructions t @ drop_keep_code dk @ [Return] \<and>
    kept t' = kept t \<and> stack_height t' = dk_height dk (stack_height t)"
  using assms by (auto simp: Translator_Control.visit_return_def translate_if_reachable_def inspecting_def and_then_ok_iff
      emit_drop_keep_eq emit_def set_reachable_def)

text \<open>The end of the outermost block: its label is pinned, and nothing is emitted but the return.\<close>

lemma end_parts:
  assumes e: "visit_end t = ok t'" and frame: "control_frames t = [FrameBlock b]"
  obtains reg t2 where "pin_label_here (block_end_label b) t = ok (t\<lparr>label_reg := reg\<rparr>)" "users reg = users (label_reg t)"
    "Translator_Control.visit_return (t\<lparr>label_reg := reg\<rparr>) = ok t2" "instructions t' = instructions t2"
    "kept (t'\<lparr>control_frames := control_frames t2\<rparr>) = kept t2"
    "unat (max_height (stack_height t2)) \<le> unat (max_height (stack_height t'))"
proof -
  let ?frame = "FrameBlock b" and ?l = "block_end_label b" and ?h = "block_stack_height b"
  have parts: "frame_is_reachable ?frame" "frame_kind ?frame \<noteq> KindLoop" "frame_end_label ?frame = Some ?l"
    "frame_stack_height ?frame = Some ?h" "pin_frame_labels ?frame = steps [ok, pin_label_here ?l]"
    by (simp_all add: frame_is_reachable_def frame_kind_def frame_end_label_def frame_stack_height_def
        pin_frame_labels_def inspecting_def fun_eq_iff)
  have "last_control_frame t = ok ?frame" using frame by (simp add: last_control_frame_def last_frame_def)
  then obtain t1 t2 t3 t4 where run: "pin_label_here ?l t = ok t1" "(if length (control_frames t1) = 1 then
      Translator_Control.visit_return t1 else set_reachable (frame_is_reachable ?frame) t1) = ok t2" "shrink_stack_to ?h t2 = ok t3"
      "pop_control_frame (\<lambda>frame. push_block_results (frame_block_type frame)) t3 = ok t4"
      "(if with_consume_fuel t4 \<and> control_frames t4 \<noteq> [] then refresh_consume_fuel t4 else ok t4) = ok t'"
    using e by (auto simp: visit_end_def inspecting_def steps_ok parts simp del: steps.simps)
  obtain reg where t1: "t1 = t\<lparr>label_reg := reg\<rparr>" "users reg = users (label_reg t)"
    using pin_changes [OF run(1)] by blast
  have ret: "Translator_Control.visit_return t1 = ok t2" using run(2) frame t1 by simp
  then have "control_frames t2 = [?frame]" using return_emits [OF ret] frame t1
    by (cases "reachable t1") (auto simp: Translator_Control.visit_return_def translate_if_reachable_def)
  note t3 = closesD [OF closes_shrink run(3)]
  have "control_frames t3 = [?frame]" using t3 \<open>control_frames t2 = [?frame]\<close> by simp
  then have "push_block_results (frame_block_type ?frame) (t3\<lparr>control_frames := []\<rparr>) = ok t4"
    using run(4) by (simp add: pop_control_frame_def pop_frame_def)
  note t4 = closesD [OF closes_results this]
  then have "t' = t4" using run(5) by simp
  then show thesis using t4 t3 ret by (intro that [of reg t2] run(1) [unfolded t1(1)]) (auto simp: t1)
qed

text \<open>The outermost block ends with the code that keeps the results, and a return.\<close>

lemma end_emits:
  assumes e: "visit_end t = ok t'" and "reachable t" and frame: "control_frames t = [FrameBlock b]"
  shows "\<exists>dk. drop_keep_return t = ok dk \<and> instructions t' = instructions t @ drop_keep_code dk @ [Return] \<and>
    users (label_reg t') = users (label_reg t) \<and> func_offsets t' = func_offsets t \<and> with_consume_fuel t' = with_consume_fuel t \<and>
    unat (max_height (dk_height dk (stack_height t))) \<le> unat (max_height (stack_height t'))"
proof -
  obtain reg t2 where r: "users reg = users (label_reg t)" "Translator_Control.visit_return (t\<lparr>label_reg := reg\<rparr>) = ok t2"
    "instructions t' = instructions t2" "kept (t'\<lparr>control_frames := control_frames t2\<rparr>) = kept t2"
    "unat (max_height (stack_height t2)) \<le> unat (max_height (stack_height t'))"
    using end_parts [OF e frame] by blast
  have same: "drop_keep_return (t\<lparr>label_reg := reg\<rparr>) = drop_keep_return t"
    by (simp add: drop_keep_return_def compute_drop_keep_def height_diff_def cong: control_frame_kind.case_cong if_cong)
  show ?thesis using return_emits [OF r(2)] assms(2) r(1,3,4,5) unfolding same by auto
qed

text \<open>Where the code does not get, the end emits nothing.\<close>

lemma dead_end_emits:
  assumes e: "visit_end t = ok t'" and "\<not> reachable t" and frame: "control_frames t = [FrameBlock b]"
  shows "instructions t' = instructions t" "users (label_reg t') = users (label_reg t)"
proof -
  obtain reg t2 where r: "users reg = users (label_reg t)" "Translator_Control.visit_return (t\<lparr>label_reg := reg\<rparr>) = ok t2"
    "instructions t' = instructions t2" "kept (t'\<lparr>control_frames := control_frames t2\<rparr>) = kept t2"
    using end_parts [OF e frame] by blast
  then show "instructions t' = instructions t" "users (label_reg t') = users (label_reg t)"
    using assms(2) by (auto simp: Translator_Control.visit_return_def translate_if_reachable_def)
qed

section \<open>The reference of a function\<close>

text \<open>A function without control flow: the locals start as the arguments and zeros, and the values left
  must be the results; \<open>None\<close> outside the reference.\<close>

type_synonym 'h outcome = "(trap_code \<times> 'h store) + ('h store \<times> val list)"

definition wasm_function :: "func_type \<Rightarrow> func_body \<Rightarrow> 'h store \<Rightarrow> val list \<Rightarrow> 'h outcome option" where
  "wasm_function ft body st args =
     (if map val_ty args \<noteq> ft_params ft then None
      else case wasm_ops (butlast (body_operators body)) st (args @ zeros (body_locals body)) [] of
        None \<Rightarrow> None
      | Some (Inl e) \<Rightarrow> Some (Inl e)
      | Some (Inr (st, ls, vs)) \<Rightarrow>
          if map val_ty (rev vs) = ft_results ft then Some (Inr (st, rev vs)) else None)"

text \<open>The same function with the fuel \<open>n\<close> charged_entry on entry, when it is metered.\<close>

definition charged_entry :: "u32 option \<Rightarrow> 'h store \<Rightarrow> (trap_code \<times> 'h store) + 'h store" where
  "charged_entry n st = (case n of
     None \<Rightarrow> Inr st
   | Some n \<Rightarrow> (case try_consume_fuel (ucast n) st of Inl t \<Rightarrow> Inl (t, st) | Inr st \<Rightarrow> Inr st))"

definition metered_function :: "u32 option \<Rightarrow> func_type \<Rightarrow> func_body \<Rightarrow> 'h store \<Rightarrow> val list \<Rightarrow> 'h outcome option" where
  "metered_function n ft body st args = (case charged_entry n st of
     Inl e \<Rightarrow> Some (Inl e) | Inr st \<Rightarrow> wasm_function ft body st args)"

definition plain_trap :: "trap_code \<Rightarrow> bool" where
  "plain_trap t \<longleftrightarrow> t \<noteq> InterruptionCalled \<and> t \<noteq> ExecutionHalted"

definition plain_result :: "'h wasm_result \<Rightarrow> bool" where
  "plain_result res \<longleftrightarrow> (case res of Inl (t, _) \<Rightarrow> plain_trap t | Inr _ \<Rightarrow> True)"

lemma push_or_trap_plain: "(\<And>t. r = Inl t \<Longrightarrow> plain_trap t) \<Longrightarrow> plain_result (push_or_trap st ls vs r)"
  by (simp add: push_or_trap_def plain_result_def split: sum.split)

lemma division_plain:
  "int_div_s a b = Inl t \<Longrightarrow> plain_trap t" "int_div_u a b = Inl t \<Longrightarrow> plain_trap t"
  "int_rem_s a b = Inl t \<Longrightarrow> plain_trap t" "int_rem_u a b = Inl t \<Longrightarrow> plain_trap t"
  by (auto simp: int_div_s_def int_div_u_def int_rem_s_def int_rem_u_def plain_trap_def split: if_splits)

lemma binop_plain: "i32_binop_sem op a b = Inl t \<Longrightarrow> plain_trap t"
  "i64_binop_sem s c d = Some (Inl t) \<Longrightarrow> plain_trap t"
  by (cases op; simp add: i32_binop_sem_def division_plain)
    (cases s; simp add: i64_binop_sem_def division_plain)

lemma load_plain: "load_sem op mem a off = Some (Inl t) \<Longrightarrow> plain_trap t"
  by (cases op) (auto simp: load_sem_def i32_load_sem_def i64_load_sem_def wasm_load_def plain_trap_def split: if_splits)

lemma map_sum_Inl [simp]: "map_sum id f r = Inl t \<longleftrightarrow> r = Inl t"
  by (cases r) simp_all

lemma wasm_plain:
  "pushing st ls vs v = Some res \<Longrightarrow> plain_result res"
  "wasm_unary f st ls vs = Some res \<Longrightarrow> plain_result res"
  "(\<And>a b t. g a b = Some (Inl t) \<Longrightarrow> plain_trap t) \<Longrightarrow> wasm_binary g st ls vs = Some res \<Longrightarrow> plain_result res"
  "wasm_load_op lop off st ls vs = Some res \<Longrightarrow> plain_result res"
  "wasm_store_op sop off st ls vs = Some res \<Longrightarrow> plain_result res"
proof -
  show "pushing st ls vs v = Some res \<Longrightarrow> plain_result res"
    by (auto simp: pushing_def plain_result_def)
  show "wasm_unary f st ls vs = Some res \<Longrightarrow> plain_result res"
    by (auto simp: wasm_unary_def pushing_def plain_result_def split: list.splits option.splits)
  show "wasm_binary g st ls vs = Some res \<Longrightarrow> plain_result res" if "\<And>a b t. g a b = Some (Inl t) \<Longrightarrow> plain_trap t"
    using that by (auto simp: wasm_binary_def split: list.splits intro!: push_or_trap_plain)
  show "wasm_load_op lop off st ls vs = Some res \<Longrightarrow> plain_result res"
    by (auto simp: wasm_load_op_def load_plain split: list.splits val.splits intro!: push_or_trap_plain)
  show "wasm_store_op sop off st ls vs = Some res \<Longrightarrow> plain_result res"
    by (auto simp: wasm_store_op_def plain_result_def plain_trap_def wasm_store_def split: list.splits val.splits if_splits)
qed

lemma wasm_op_plain:
  assumes sem: "wasm_op op st ls vs = Some res"
  shows "plain_result res"
proof (cases op)
  case (W_i32_binop b)
  have "plain_trap t" if "on_i32s (\<lambda>x y. map_sum id I32 (i32_binop_sem b x y)) v w = Some (Inl t)" for v w t
    using that binop_plain(1) [of b] by (auto simp: on_i32s_def split: val.splits)
  from wasm_plain(3) [OF this] show ?thesis using sem W_i32_binop by (simp add: wasm_op_def)
next
  case (W_snippet s)
  have "plain_trap t" if "on_i64s (\<lambda>x y. map_option (map_sum id I64) (i64_binop_sem s x y)) v w = Some (Inl t)" for v w t
    using that binop_plain(2) [of s] by (auto simp: on_i64s_def split: val.splits)
  from wasm_plain(3) [OF this] show ?thesis using sem W_snippet by (simp add: wasm_op_def)
next
  case (W_i32_relop r)
  have "plain_trap t" if "on_i32s (\<lambda>x y. Inr (I32 (of_bool (i32_relop_sem r x y)))) v w = Some (Inl t)" for v w t
    using that by (auto simp: on_i32s_def split: val.splits)
  from wasm_plain(3) [OF this] show ?thesis using sem W_i32_relop by (simp add: wasm_op_def)
next
  case (W_i64_bitop r)
  have "plain_trap t" if "on_i64s (\<lambda>x y. Some (Inr (I64 (i64_bitop_sem r x y)))) v w = Some (Inl t)" for v w t
    using that by (auto simp: on_i64s_def split: val.splits)
  from wasm_plain(3) [OF this] show ?thesis using sem W_i64_bitop by (simp add: wasm_op_def)
qed (use sem in \<open>auto simp: wasm_op_def plain_result_def split: option.splits list.splits val.splits if_splits
   dest: wasm_plain(1,2,4,5)\<close>)

lemma wasm_ops_plain: "wasm_ops ops st ls vs = Some res \<Longrightarrow> plain_result res"
proof (induction ops arbitrary: st ls vs)
  case (Cons op ops)
  then obtain r where r: "wasm_op op st ls vs = Some r" by (auto split: option.splits)
  show ?case
    using wasm_op_plain [OF r] Cons r by (auto simp: plain_result_def split: sum.splits prod.splits)
qed (auto simp: plain_result_def)

text \<open>The signature check passes when the function is entered from outside.\<close>

lemma head_computes:
  assumes "last_signature st = None"
  shows "computes env (SignatureCheck s # charge_code (n \<noteq> None) (the n)) 0 st ws
    (map_sum id (\<lambda>st. (st, ws)) (charged_entry n st))"
proof -
  have same: "st\<lparr>last_signature := None\<rparr> = st" using assms by (cases st) simp
  have check: "fwd (SignatureCheck s # c) st ws r = fwd c st ws r" for c r
    by (simp add: fwd_unfold signature_checking_def assms Let_def) (simp only: same)
  show ?thesis
  proof (cases n)
    case None
    then show ?thesis by (auto simp: charge_code_def charged_entry_def check fwd.simps(1) intro!: computes_fwd)
  next
    case (Some c)
    then show ?thesis
      by (cases "try_consume_fuel (ucast c) st")
         (auto simp: charge_code_def charged_entry_def check fwd_fuel fwd.simps(1) intro!: computes_fwd computes_fwd_trap)
  qed
qed

text \<open>What the translation of the whole function leaves.\<close>

lemma translate_operators_append:
  "translate_operators val fp (ops @ ops') b = and_then (translate_operators val fp ops b) (translate_operators val fp ops')"
proof (induction ops arbitrary: b)
  case (Cons op ops)
  then show ?case
    by (cases "validate_then_translate val fp op b" rule: result_cases) simp_all
qed simp

lemma translate_operators_visits:
  "W_unsupported \<notin> set ops \<Longrightarrow> translate_operators val fp ops (w, t) = ok (w', t') \<Longrightarrow> visit_operators fp ops t = ok t'"
proof (induction ops arbitrary: w t)
  case (Cons op ops)
  then obtain w1 t1 where "visit_operator fp op t = ok t1" "translate_operators val fp ops (w1, t1) = ok (w', t')"
    by (auto simp: validate_then_translate_def and_then_ok_iff)
  then show ?case using Cons by simp
qed simp

lemma translate_parts:
  assumes "translate val fp f body (w, t) = ok (w', t')" and "body_operators body = ops @ [W_end]"
    and "W_unsupported \<notin> set ops"
  obtains t1 t2 t3 t4 w1 w2 t5 t6 where "prepare fp f t = ok t1" "bump_fuel (cost_base fp) t1 = ok t2"
    "translate_stack_alloc t2 = ok t3" "charge_locals fp (body_locals body) t3 = ok t4"
    "translate_local_groups val (body_locals body) (w1, t4) = ok (w2, t5)"
    "visit_operators fp ops t5 = ok t6" "and_then (visit_end t6) finish = ok t'"
proof -
  obtain t4 b where 1: "steps [prepare fp f, bump_fuel (cost_base fp), translate_stack_alloc,
      charge_locals fp (body_locals body)] t = ok t4"
    "translate_local_groups val (body_locals body) (w, t4) = ok b"
    "and_then (translate_operators val fp (ops @ [W_end]) b) (\<lambda>(v, t).
        and_then (validated (finish_validation val v)) (\<lambda>v. and_then (finish t) (\<lambda>t. ok (v, t)))) = ok (w', t')"
    using assms(1,2) by (auto simp: translate_def and_then_ok_iff simp del: steps.simps)
  obtain w2 t5 where b: "b = (w2, t5)" by (cases b)
  obtain w3 t6 t7 w4 where 2: "translate_operators val fp ops (w2, t5) = ok (w3, t6)"
    "translate_operators val fp [W_end] (w3, t6) = ok (w4, t7)" "finish t7 = ok t'"
    using 1(3) unfolding b translate_operators_append by (auto simp: and_then_ok_iff simp del: translate_operators.simps)
  have "visit_end t6 = ok t7"
    using translate_operators_visits [OF _ 2(2)] by (simp add: visit_operator_def and_then_ok_iff)
  with that 1(1,2) 2 translate_operators_visits [OF assms(3) 2(1)] show thesis
    unfolding b steps_ok by auto
qed


lemma finish_patches:
  assumes code: "instructions t = pre @ SignatureCheck s # charge_code (with_consume_fuel t) c @ StackCheck x # code"
    and offs: "func_offsets t = fs @ [isa_loc pre]" and len: "length pre < 2 ^ 32" and users: "users (label_reg t) = []"
    and fin: "finish t = ok t'"
  shows "instructions t' = pre @ SignatureCheck s # charge_code (with_consume_fuel t) c @
      StackCheck (max_height (stack_height t)) # code" "stack_height t' = stack_height t"
proof -
  have pos: "unat (isa_loc pre) = length pre" using len by (simp add: isa_loc_def unat_of_nat)
  let ?n = "if with_consume_fuel t then 3 else 2 :: nat"
  have patched: "patch_stack_check ?n (length pre) h (instructions t) =
      ok (pre @ SignatureCheck s # charge_code (with_consume_fuel t) c @ StackCheck h # code)" for h
    unfolding code by (simp add: numeral_3_eq_3 numeral_2_eq_2 charge_code_def nth_append list_update_append)
  show "instructions t' = pre @ SignatureCheck s # charge_code (with_consume_fuel t) c @
      StackCheck (max_height (stack_height t)) # code" "stack_height t' = stack_height t"
    using fin by (auto simp: finish_def users offs pos patched)
qed

lemma drop_keep_return_words:
  assumes t: "tracks t ls vs" and frame: "control_frames t = [FrameBlock (block_frame_new (BlockFuncType i) l 0 f)]"
    and results: "resolve_func_type i (func_reg t) = Some ft" "length (ft_results ft) = length (wstack vs)"
    and dk: "drop_keep_return t = ok dk"
  shows "unat (dk_keep dk) = length (wstack vs)" "unat (dk_drop dk) = length (wstack (rev ls))"
proof -
  let ?h = "height (stack_height t)" and ?k = "word_of_nat (length (wstack vs)) :: u32"
  have h: "length (wstack vs) \<le> unat ?h" "unat ?h + unat (locals_registered t) = length (wstack vs) + length (wstack (rev ls))"
    using t by (simp_all add: tracks_def cells_def)
  then have k: "unat ?k = length (wstack vs)"
    using unat_less [of ?h] by (simp add: unat_of_nat)
  obtain dk0 where 0: "drop_keep_new (unat (?h - ?k)) (unat ?k) = ok dk0"
    "drop_keep_new (unat (dk_drop dk0) + unat (locals_registered t)) (unat (dk_keep dk0)) = ok dk"
    using dk frame results
    by (auto simp: drop_keep_return_def compute_drop_keep_def and_then_ok_iff max_depth_def frame_nth_back_def
        height_diff_def frame_kind_def frame_stack_height_def frame_block_type_def block_frame_new_def Let_def
        resolve_func_results_len_type_by_block_def split: if_splits)
  have new: "unat (dk_drop dk) = d \<and> unat (dk_keep dk) = k" if "drop_keep_new d k = ok dk" for d k dk
    using that by (auto simp: drop_keep_new_def unat_of_nat split: if_splits)
  have "?k \<le> ?h" using h(1) k by (simp add: word_le_nat_alt)
  then have "unat (?h - ?k) = unat ?h - length (wstack vs)" using k by (simp add: unat_sub)
  then show "unat (dk_keep dk) = length (wstack vs)" "unat (dk_drop dk) = length (wstack (rev ls))"
    using new [OF 0(1)] new [OF 0(2)] k h by simp_all
qed

text \<open>The code of the operators, the same for every store.\<close>

lemma operators_code:
  assumes t: "tracks t ls vs" "fuel_behind t" and straight: "list_all straight ops"
    and room: "length (cells ls vs) + 2 * length ops + 64 < 2 ^ 32" and t': "visit_operators fp ops t = ok t'"
  shows "\<exists>is code. fuel_edit t is \<and> instructions t' = is @ code \<and>
    (\<forall>env st res. length (memory_of st) \<le> 2 ^ 31 \<longrightarrow> wasm_ops ops st ls vs = Some res \<longrightarrow> implements env t code st ls vs res t')"
proof -
  have "extends t t'" using extendingD [OF extending_operators [OF straight] t(2) t'] .
  then obtain "is" code where c: "fuel_edit t is" "instructions t' = is @ code" by (auto simp: extends_def)
  have "implements env t code st ls vs res t'"
    if st: "length (memory_of st) \<le> 2 ^ 31" "wasm_ops ops st ls vs = Some res" for env :: "'h env" and st res
  proof -
    obtain code' where i: "implements env t code' st ls vs res t'"
      using implements_operators [OF t straight room st t'] by blast
    then obtain is' where "fuel_edit t is'" "instructions t' = is' @ code'" by (auto simp: implements_def)
    then have "code' = code" using c fuel_edit_length by (metis append_eq_append_conv)
    then show ?thesis using i by simp
  qed
  with c show ?thesis by blast
qed

text \<open>The code that keeps the results of a function whose values are exactly these.\<close>

lemma drop_keep_computes:
  assumes "tracks t ls vs" and "control_frames t = [FrameBlock (block_frame_new (BlockFuncType i) l 0 f)]"
    and "resolve_func_type i (func_reg t) = Some ft" "length (ft_results ft) = length (wstack vs)"
    and "drop_keep_return t = ok dk"
    and spare: "0 < dk_drop dk \<Longrightarrow> dk_drop dk < dk_keep dk \<Longrightarrow> 0 < unat need"
  shows "computes env (drop_keep_code dk) need st (cells ls vs) (Inr (st, wstack vs))"
proof (cases "dk_drop dk = 0")
  case True
  then have "drop_keep_code dk = []" by (simp add: drop_keep_code_def translate_drop_keep_def)
  moreover have "wstack (rev ls) = []" using drop_keep_return_words(2) [OF assms(1-5)] True by simp
  ultimately show ?thesis by (auto simp: cells_def fwd.simps(1) intro!: computes_fwd)
next
  case False
  then have room: "unat (dk_drop dk) < unat (dk_keep dk) \<longrightarrow> 0 < unat need"
    using spare unfolding word_less_nat_alt by (simp add: unat_gt_0)
  note words = drop_keep_return_words [OF assms(1-5)]
  have "fwd (drop_keep_code dk @ []) st (wstack vs @ wstack (rev ls) @ []) (unat need) =
      fwd [] st (wstack vs @ []) (unat need + length (wstack (rev ls)))"
    by (rule translate_drop_keep_correct [OF words(1) [symmetric] words(2) [symmetric] room])
  then show ?thesis by (intro computes_fwd) (simp add: cells_def fwd.simps(1))
qed

text \<open>The body: the zeros of the locals, the operators, the results.\<close>

lemma body_computes:
  assumes start: "tracks t5 (args @ zeros ls) []" "unat (height (stack_height t5)) = local_words ls" "TV128 \<notin> snd ` set ls"
      "local_words ls < 2 ^ 32"
    and impl: "implements env t5 code st (args @ zeros ls) [] r t6"
    and frame: "control_frames t5 = [FrameBlock (block_frame_new (BlockFuncType i) l 0 f)]" 
    and results: "resolve_func_type i (func_reg t6) = Some adj" "drop_keep_return t6 = ok dk"
      "unat (max_height (stack_height t6)) \<le> unat h"
      "0 < dk_drop dk \<and> dk_drop dk < dk_keep dk \<and> unat (height (stack_height t6)) + 1 < 2 ^ 32 \<longrightarrow>
        unat (height (stack_height t6)) + 1 \<le> unat h"
    and small: "\<And>st' ls' vs'. r = Inr (st', ls', vs') \<Longrightarrow>
      length (ft_results adj) = length (wstack vs') \<and> length (cells ls' vs') + 1 < 2 ^ 32"
  shows "computes env (locals_code ls @ code @ drop_keep_code dk) h st (rev (vals_words args))
    (case r of Inl e \<Rightarrow> Inl e | Inr (st', ls', vs') \<Rightarrow> Inr (st', wstack vs'))"
proof -
  let ?cells = "cells (args @ zeros ls) []"
  have cells: "?cells = replicate (local_words ls) 0 @ rev (vals_words args)"
    using zeros_words(1) [OF start(3)] by (simp add: cells_def wstack_rev)
  have max5: "local_words ls \<le> unat (max_height (stack_height t6))"
    using impl start(2) by (simp add: implements_def)
  then have "local_words ls \<le> unat h" using results(3) by simp
  then have zero: "computes env (locals_code ls) h st (rev (vals_words args)) (Inr (st, ?cells))"
    unfolding cells using start(4) by (intro computes_fwd [OF locals_code_computes])
  let ?need = "h - height (stack_height t5)"
  have need: "unat ?need = unat h - local_words ls"
    using \<open>local_words ls \<le> unat h\<close> start(2) by (simp add: unat_sub word_le_nat_alt)
  have body: "computes env code ?need st ?cells (result_words r)"
  proof (rule computes_mono)
    show "computes env code (max_height (stack_height t6) - height (stack_height t5)) st ?cells (result_words r)"
      using impl by (simp add: implements_def)
    show "unat (max_height (stack_height t6) - height (stack_height t5)) \<le> unat ?need"
      using max5 results(3) start(2) need by (simp add: unat_sub word_le_nat_alt)
  qed
  have whole: "computes env (code @ drop_keep_code dk) ?need st ?cells
    (case r of Inl e \<Rightarrow> Inl e | Inr (st', ls', vs') \<Rightarrow> Inr (st', wstack vs'))"
  proof (cases r)
    case (Inl e)
    then show ?thesis using body by (cases e) (simp add: result_words_def computes_append_trap)
  next
    case (Inr r1)
    obtain st' ls' vs' where r1: "r1 = (st', ls', vs')" by (cases r1)
    have r: "r = Inr (st', ls', vs')" using Inr r1 by simp
    have tr: "tracks t6 ls' vs'" "control_frames t6 = control_frames t5" "locals_registered t6 = locals_registered t5"
      using impl by (simp_all add: implements_def r)
    have h6: "unat (height (stack_height t6)) + unat (locals_registered t5) = length (cells ls' vs')"
      "unat (height (stack_height t6)) \<le> unat (max_height (stack_height t6))"
      "local_words ls + unat (locals_registered t5) = length ?cells"
      using tr start(1,2) by (simp_all add: tracks_def)
    let ?left = "h - height (stack_height t6)"
    have left: "unat ?left = unat h - unat (height (stack_height t6))"
      using h6(2) results(3) by (simp add: unat_sub word_le_nat_alt)
    have "computes env (drop_keep_code dk) ?left st' (cells ls' vs') (Inr (st', wstack vs'))"
      by (rule drop_keep_computes [OF tr(1) _ results(1) _ results(2)])
        (use frame tr(2) small [OF r] results(4) left h6 in auto)
    moreover have "unat ?left + length (cells ls' vs') \<le> unat ?need + length ?cells"
      using need left h6 results(3) \<open>local_words ls \<le> unat h\<close> by arith
    ultimately show ?thesis
      using computes_append body unfolding r result_words_def sum.case prod.case by blast
  qed
  then show ?thesis
    by (rule computes_append [OF zero]) (use need cells \<open>local_words ls \<le> unat h\<close> in simp)
qed

section \<open>A translated function\<close>

definition plain_body :: "func_body \<Rightarrow> bool" where
  "plain_body body \<longleftrightarrow> body_operators body \<noteq> [] \<and> last (body_operators body) = W_end \<and>
     list_all (\<lambda>op. straight op \<and> op \<noteq> W_unsupported) (butlast (body_operators body))"

definition entry_fuel :: "opcode list \<Rightarrow> nat \<Rightarrow> u32 option" where
  "entry_fuel code k = (case code ! (k + 1) of ConsumeFuel n \<Rightarrow> Some n | _ \<Rightarrow> None)"

lemma words_of_types: "length (vals_words vs) = words_of_all (map val_ty vs)"
  by (induction vs) (simp_all add: width_def is_wide_def words_of_def)

lemma registry_types:
  assumes "registry_wf reg" and "resolve_original_func_type i reg = Some ft"
  shows "\<exists>adj. resolve_func_type i reg = Some adj \<and> length (ft_params adj) = words_of_all (ft_params ft) \<and>
    length (ft_results adj) = words_of_all (ft_results ft)"
  using assms adjusted_types_ok
  by (auto simp: registry_wf_def resolve_original_func_type_def resolve_func_type_def split: if_splits)

text \<open>From the beginning of the function to its first operator.\<close>

lemma opening_translated:
  assumes prep: "prepare fp f t = ok t1" and t1: "bump_fuel (cost_base fp) t1 = ok t2" "translate_stack_alloc t2 = ok t3"
      "charge_locals fp (body_locals body) t3 = ok t4"
      "translate_local_groups val (body_locals body) (w1, t4) = ok (w2, t5)"
    and t: "reachable t" "stack_height t = height_default" "locals_registered t = 0" "\<not> with_code_snippets t"
      "length (instructions t) + 1 < 2 ^ 32"
    and ty: "registry_wf (func_reg t)" "resolve_func_type_index f t = ok i"
      "resolve_original_func_type i (func_reg t) = Some ft"
    and words: "words_of_all (ft_params ft) < 2 ^ 32" "local_words (body_locals body) < 2 ^ 32"
  shows "\<exists>s. opened t i s (StackCheck 0xFFFFFFFF # locals_code (body_locals body)) t5 \<and>
    stack_types t5 = ft_params ft @ local_types (body_locals body) \<and> TV128 \<notin> snd ` set (body_locals body) \<and>
    unat (height (stack_height t5)) = local_words (body_locals body) \<and>
    unat (height (stack_height t5)) \<le> unat (max_height (stack_height t5)) \<and>
    unat (locals_registered t5) = words_of_all (ft_params ft) \<and> \<not> with_code_snippets t5"
proof -
  obtain adj where adj: "resolve_func_type i (func_reg t) = Some adj" "length (ft_params adj) = words_of_all (ft_params ft)"
    using registry_types [OF ty(1,3)] by blast
  have types: "original_func_type_of i t = ok ft" "func_type_of i t = ok adj"
    using ty(3) adj(1) by (simp_all add: original_func_type_of_def func_type_of_def unwrap_or_panic_def)
  obtain s where o1: "opened t i s [] t1" "stack_types t1 = ft_params ft" "stack_height t1 = height_default"
    "locals_registered t1 = word_of_nat (words_of_all (ft_params ft))" "\<not> with_code_snippets t1"
    using prepare_opens [OF prep t(1,5) ty(2) types t(3)] t(2,4) adj(2) by auto
  note o2 = opened_bump [OF o1(1) t1(1) t(5)]
  have t3: "t3 = t2\<lparr>instructions := instructions t2 @ [StackCheck 0xFFFFFFFF]\<rparr>"
    using t1(2) by (simp add: translate_stack_alloc_def emit_def)
  have o3: "opened t i s [StackCheck 0xFFFFFFFF] t3"
    using opened_extends [OF o2(1) _ _ fuel_edit_refl _ t(5), of t3 "[StackCheck 0xFFFFFFFF]"] by (simp add: t3)
  have o4: "opened t i s [StackCheck 0xFFFFFFFF] t4" "stack_types t4 = ft_params ft" "stack_height t4 = height_default"
    "locals_registered t4 = word_of_nat (words_of_all (ft_params ft))" "\<not> with_code_snippets t4"
    using t1(3) o3 o2 o1 opened_bump [OF o3 _ t(5)]
    by (auto simp: charge_locals_def Let_def t3 split: if_splits)
  note d = groups_declare [OF t1(4), unfolded declares_def]
  have "opened t i s ([StackCheck 0xFFFFFFFF] @ locals_code (body_locals body)) t5"
    using opened_extends [OF o4(1) _ _ fuel_edit_refl _ t(5), of t5] d by simp
  then show ?thesis
    using d o4 words by (intro exI [of _ s]) (simp add: height_default_def unat_of_nat)
qed


text \<open>The code of the whole function and what its body does, for any arguments of the types.\<close>

lemma function_translated:
  assumes tr: "translate val fp f body (w, t) = ok (w', t')" and body: "plain_body body"
    and t: "reachable t" "stack_height t = height_default" "locals_registered t = 0" "\<not> with_code_snippets t"
      "length (instructions t) + 1 < 2 ^ 32"
    and ty: "registry_wf (func_reg t)" "resolve_func_type_index f t = ok i"
      "resolve_original_func_type i (func_reg t) = Some ft"
    and args: "map val_ty args = ft_params ft"
    and words: "length (vals_words args) + local_words (body_locals body) + 2 * length (body_operators body) + 64 < 2 ^ 32"
    and small: "unat (max_height (stack_height t')) + length (vals_words args) + 1 < 2 ^ 32"
  shows "\<exists>s c code. instructions t' = instructions t @ (SignatureCheck s # charge_code (with_consume_fuel t) c) @
      StackCheck (max_height (stack_height t')) # code @ [Return] \<and>
    (\<forall>(env :: 'h env) st res. length (memory_of st) \<le> 2 ^ 31 \<longrightarrow> wasm_function ft body st args = Some res \<longrightarrow>
      computes env code (max_height (stack_height t')) st (rev (vals_words args))
        (map_sum id (\<lambda>(st, vs). (st, rev (vals_words vs))) res))"
proof -
  let ?ops = "butlast (body_operators body)" and ?ls = "body_locals body"
  have ops: "body_operators body = ?ops @ [W_end]" "W_unsupported \<notin> set ?ops" "list_all straight ?ops"
    using body append_butlast_last_id [of "body_operators body"] by (auto simp: plain_body_def list_all_iff)
  have n: "length (vals_words args) = words_of_all (ft_params ft)" using args by (simp add: words_of_types)
  obtain t1 t2 t3 t4 w1 w2 t5 t6 where parts: "prepare fp f t = ok t1" "bump_fuel (cost_base fp) t1 = ok t2"
    "translate_stack_alloc t2 = ok t3" "charge_locals fp ?ls t3 = ok t4"
    "translate_local_groups val ?ls (w1, t4) = ok (w2, t5)"
    "visit_operators fp ?ops t5 = ok t6" "and_then (visit_end t6) finish = ok t'"
    using translate_parts [OF tr ops(1,2)] by metis
  obtain s where o5: "opened t i s (StackCheck 0xFFFFFFFF # locals_code ?ls) t5"
    "stack_types t5 = ft_params ft @ local_types ?ls" "TV128 \<notin> snd ` set ?ls"
    "unat (height (stack_height t5)) = local_words ?ls"
    "unat (height (stack_height t5)) \<le> unat (max_height (stack_height t5))"
    "unat (locals_registered t5) = words_of_all (ft_params ft)" "\<not> with_code_snippets t5"
    using opening_translated [OF parts(1-5) t ty] words n by auto
  have zero: "map val_ty (zeros ?ls) = local_types ?ls" "length (vals_words (zeros ?ls)) = local_words ?ls"
    using zeros_words [OF o5(3)] by simp_all
  have frame: "control_frames t5 = [FrameBlock (block_frame_new (BlockFuncType i) 0 0 (fuel_loc t))]"
    and reach: "reachable t5" and reg: "func_reg t5 = func_reg t"
    using o5(1) by (simp_all add: opened_def)
  have cells: "length (cells (args @ zeros ?ls) []) = local_words ?ls + length (vals_words args)"
    using zero(2) by (simp add: cells_def wstack_rev)
  have tracks: "tracks t5 (args @ zeros ?ls) []"
    using o5 reach cells zero(1) args n by (simp add: tracks_def)
  note behind = opened_behind [OF o5(1) t(5)]
  obtain "is" code where c: "fuel_edit t5 is" "instructions t6 = is @ code"
    "\<And>(env :: 'h env) st r. length (memory_of st) \<le> 2 ^ 31 \<Longrightarrow> wasm_ops ?ops st (args @ zeros ?ls) [] = Some r \<Longrightarrow>
      implements env t5 code st (args @ zeros ?ls) [] r t6"
    using operators_code [OF tracks behind ops(3) _ parts(6)] cells words by fastforce
  have ex6: "extends t5 t6" using extendingD [OF extending_operators [OF ops(3)] behind parts(6)] .
  have o6: "opened t i s ((StackCheck 0xFFFFFFFF # locals_code ?ls) @ code) t6"
    using opened_extends [OF o5(1) _ _ c(1,2) t(5)] ex6 by (simp add: extends_def)
  obtain t7 where t7: "visit_end t6 = ok t7" "finish t7 = ok t'" using parts(7) by (auto simp: and_then_ok_iff)
  have frame6: "control_frames t6 = [FrameBlock (block_frame_new (BlockFuncType i) 0 0 (fuel_loc t))]" "reachable t6"
    and reg6: "func_reg t6 = func_reg t"
    using o6 by (simp_all add: opened_def)
  obtain dk where dk: "drop_keep_return t6 = ok dk" "instructions t7 = instructions t6 @ drop_keep_code dk @ [Return]"
    "users (label_reg t7) = users (label_reg t6)" "func_offsets t7 = func_offsets t6"
    "with_consume_fuel t7 = with_consume_fuel t6"
    "unat (max_height (dk_height dk (stack_height t6))) \<le> unat (max_height (stack_height t7))"
    using end_emits [OF t7(1) frame6(2,1)] by blast
  have max7: "unat (max_height (stack_height t6)) \<le> unat (max_height (stack_height t7))"
    using dk(6) dk_height_ok(2) [of "stack_height t6" dk] by simp
  have spare7: "unat (height (stack_height t6)) + 1 \<le> unat (max_height (stack_height t7))"
    if d: "0 < dk_drop dk \<and> dk_drop dk < dk_keep dk \<and> unat (height (stack_height t6)) + 1 < 2 ^ 32"
  proof -
    have "dk_drop dk \<noteq> 0" "unat (dk_drop dk) < unat (dk_keep dk)" using d by (auto simp: word_less_nat_alt)
    from dk_height_ok(3) [OF this] d dk(6) show ?thesis by (meson order_trans)
  qed
  obtain x where x: "instructions t6 = instructions t @ SignatureCheck s # charge_code (with_consume_fuel t) x @
      (StackCheck 0xFFFFFFFF # locals_code ?ls) @ code"
    using o6 by (auto simp: opened_def)
  let ?code = "locals_code ?ls @ code @ drop_keep_code dk"
  have fin: "instructions t' = instructions t @ SignatureCheck s # charge_code (with_consume_fuel t) x @
      StackCheck (max_height (stack_height t7)) # ?code @ [Return]" "stack_height t' = stack_height t7"
    using finish_patches [of t7 "instructions t" s x "0xFFFFFFFF" "?code @ [Return]" "func_offsets t" t'] t7(2) dk(2-5) x o6 t(5)
    by (simp_all add: opened_def)
  have does: "computes env ?code (max_height (stack_height t')) st (rev (vals_words args))
        (map_sum id (\<lambda>(st, vs). (st, rev (vals_words vs))) res)"
    if st: "length (memory_of st) \<le> 2 ^ 31" "wasm_function ft body st args = Some res" for env :: "'h env" and st res
  proof -
    obtain r where r: "wasm_ops ?ops st (args @ zeros ?ls) [] = Some r" "res = (case r of Inl e \<Rightarrow> Inl e
        | Inr (st', ls', vs') \<Rightarrow> Inr (st', rev vs'))"
      "\<And>st' ls' vs'. r = Inr (st', ls', vs') \<Longrightarrow> map val_ty (rev vs') = ft_results ft"
      using st(2) by (auto simp: wasm_function_def split: option.splits sum.splits if_splits)
    note impl = c(3) [OF st(1) r(1)]
    obtain adj where adj: "resolve_func_type i (func_reg t) = Some adj" "length (ft_results adj) = words_of_all (ft_results ft)"
      using registry_types [OF ty(1,3)] by blast
    have "length (ft_results adj) = length (wstack vs') \<and> length (cells ls' vs') + 1 < 2 ^ 32"
      if "r = Inr (st', ls', vs')" for st' ls' vs'
    proof -
      have "tracks t6 ls' vs'" "locals_registered t6 = locals_registered t5" using impl that by (simp_all add: implements_def)
      then have "length (cells ls' vs') + 1 < 2 ^ 32"
        using small max7 fin(2) n o5(6) by (simp add: tracks_def)
      moreover have "length (wstack vs') = words_of_all (ft_results ft)"
        using r(3) [OF that] words_of_types [of "rev vs'"] wstack_rev [of "rev vs'"] by simp
      ultimately show ?thesis using adj(2) by simp
    qed
    from body_computes [OF tracks o5(4,3) _ impl frame _ dk(1) max7 _ this]
    have "computes env ?code (max_height (stack_height t7)) st (rev (vals_words args))
      (case r of Inl e \<Rightarrow> Inl e | Inr (st', ls', vs') \<Rightarrow> Inr (st', wstack vs'))"
      using adj(1) reg6 words spare7 by simp
    moreover have "map_sum id (\<lambda>(st, vs). (st, rev (vals_words vs))) res =
        (case r of Inl e \<Rightarrow> Inl e | Inr (st', ls', vs') \<Rightarrow> Inr (st', wstack vs'))"
      using wstack_rev [of "rev vs" for vs] by (auto simp: r(2) split: sum.splits)
    ultimately show ?thesis using fin(2) by simp
  qed
  show ?thesis
    using fin does by (intro exI [of _ s] exI [of _ x] exI [of _ ?code]) simp
qed


lemma entry_fuel_code:
  "entry_fuel (pre @ SignatureCheck s # charge_code m c @ StackCheck h # code) (length pre) = (if m then Some c else None)"
  by (simp add: entry_fuel_def charge_code_def nth_append)

lemma charged_memory: "charged_entry n st = Inr st' \<Longrightarrow> memory_of st' = memory_of st"
  by (auto simp: charged_entry_def try_consume_fuel_def memory_of_def Let_def split: option.splits if_splits sum.splits)

lemma metered_result:
  assumes "metered_function n ft body st args = Some res" and "map val_ty result = ft_results ft"
  shows "plain_end res result"
proof (cases "charged_entry n st")
  case (Inl e)
  then show ?thesis using assms(1)
    by (auto simp: metered_function_def charged_entry_def plain_end_def try_consume_fuel_def Let_def split: option.splits sum.splits if_splits)
next
  case (Inr st')
  then have f: "wasm_function ft body st' args = Some res" using assms(1) by (simp add: metered_function_def)
  obtain r where r: "wasm_ops (butlast (body_operators body)) st' (args @ zeros (body_locals body)) [] = Some r"
    using f by (auto simp: wasm_function_def split: option.splits if_splits)
  then show ?thesis
    using f wasm_ops_plain [OF r] assms(2)
    by (auto simp: wasm_function_def plain_end_def plain_result_def plain_trap_def split: sum.splits if_splits)
qed

end
