(* ===== verification/Branch_Targets.thy ===== *)
theory Branch_Targets
  imports Module_Layout
begin

text \<open>
  Where the branches of a function lead. \<open>tidy\<close>: the branches that wait for a label are at
  different positions of the function under translation, and every pinned label is in it or at
  its end. Every action of the translator keeps this (the order \<open>tidier\<close> of \<open>Translation_Order\<close>),
  so that the patching at the end of the function meets each branch once and
  \<open>translated_branches\<close> can follow it through the translation of a whole body.
\<close>

section \<open>Waiting branches and pinned labels\<close>

definition positions :: "label_registry \<Rightarrow> nat list" where
  "positions reg = map (unat \<circ> user_instr) (users reg)"

definition pinned :: "label_registry \<Rightarrow> nat set" where
  "pinned reg = {unat p |p. Pinned p \<in> set (labels reg)}"

definition tidy :: "nat \<Rightarrow> translator \<Rightarrow> bool" where
  "tidy k t \<longleftrightarrow> (length (instructions t) < 2 ^ 32 \<longrightarrow>
     k \<le> length (instructions t) \<and> distinct (positions (label_reg t)) \<and>
     set (positions (label_reg t)) \<subseteq> {k ..< length (instructions t)} \<and>
     pinned (label_reg t) \<subseteq> {k .. length (instructions t)})"

definition tidier :: "translator \<Rightarrow> translator \<Rightarrow> bool" where
  "tidier t t' \<longleftrightarrow> (\<forall>k. tidy k t \<longrightarrow> tidy k t')"

lemma tidier_trans: "tidier a b \<Longrightarrow> tidier b c \<Longrightarrow> tidier a c"
  by (simp add: tidier_def)

lemma tidier_append: "label_reg t' = label_reg t \<Longrightarrow> length (instructions t) \<le> length (instructions t') \<Longrightarrow> tidier t t'"
  by (fastforce simp: tidier_def tidy_def)

lemma pinned_new: "new_label reg = ok (l, reg') \<Longrightarrow> positions reg' = positions reg \<and> pinned reg' = pinned reg"
  by (auto simp: new_label_def positions_def pinned_def split: if_splits)

lemma set_label_pinned: "pinned (set_label l i reg) \<subseteq> insert (unat i) (pinned reg)"
  by (auto simp: pinned_def set_label_def dest!: set_update_subset_insert [THEN subsetD])

lemma pin_tidier:
  assumes "pin_label l pc (label_reg t) = Some (Inr reg) \<or> try_pin_label l pc (label_reg t) = Some reg"
    and "pc = word_of_nat (length (instructions t))"
  shows "tidier t (t\<lparr>label_reg := reg\<rparr>)"
proof -
  have "reg = label_reg t \<or> reg = set_label l pc (label_reg t)"
    using assms(1) by (auto simp: pin_label_def try_pin_label_def split: option.splits label.splits)
  then have "positions reg = positions (label_reg t)" "pinned reg \<subseteq> insert (unat pc) (pinned (label_reg t))"
    using set_label_pinned by (auto simp: positions_def set_label_def)
  then show ?thesis
    using assms(2) by (fastforce simp: tidier_def tidy_def unat_of_nat)
qed

text \<open>A branch that is registered gets the position it is emitted at.\<close>

lemma resolve_positions:
  assumes "try_resolve_label l p reg = ok (off, reg')"
  shows "pinned reg' = pinned reg \<and> (positions reg' = positions reg \<or> positions reg' = positions reg @ [unat p])"
  using try_resolve_label_ok [OF assms] by (auto simp: positions_def pinned_def)

lemma branch_tidier:
  assumes "branch_offset_to l (\<lambda>off. emit [f off]) t = ok t'"
  shows "tidier t t'"
proof -
  obtain off reg where r: "try_resolve_label l (word_of_nat (length (instructions t))) (label_reg t) = ok (off, reg)"
    "length (instructions t) < 2 ^ 32" "t' = t\<lparr>label_reg := reg, instructions := instructions t @ [f off]\<rparr>"
    using assms by (auto simp: branch_offset_to_def inspecting_def current_pc_def try_resolve_label_for_def emit_def
        and_then_ok_iff split: if_splits)
  from resolve_positions [OF r(1)] show ?thesis
    using r(2,3) by (fastforce simp: tidier_def tidy_def unat_of_nat)
qed

interpretation tidying: translation_order tidier
proof
  show "tidier t t'" if "appends t t'" for t t'
    using that by (auto simp: appends_def intro: tidier_append)
  show "tidier t t'" if "bump_fuel d t = ok t'" for d t t'
    using bump_fuel_edits [OF that] fuel_edit_length by (auto intro: tidier_append)
  show "tidier t t'" if "patch_skip n t = ok t'" for n t t'
    using that by (auto simp: patch_skip_def and_then_ok_iff patch_at_ok intro!: tidier_append)
  show "tidier t (t\<lparr>label_reg := reg\<rparr>)" if "new_label (label_reg t) = ok (l, reg)" for t l reg
    using pinned_new [OF that] by (simp add: tidier_def tidy_def)
  show "tidier t t'" if "pin_label_here l t = ok t'" for l t t'
    using that pin_tidier by (auto simp: pin_label_here_def inspecting_def current_pc_def and_then_ok_iff pinned_ok split: if_splits)
  show "tidier t t'" if "try_pin_label_here l t = ok t'" for l t t'
    using that pin_tidier by (auto simp: try_pin_label_here_def inspecting_def current_pc_def and_then_ok_iff split: if_splits)
qed (fact tidier_trans branch_tidier)+

section \<open>The branch table\<close>

text \<open>While a table is built: its entries come behind the opcode itself, the trampolines behind
  all \<open>n\<close> entries.\<close>

definition slots :: "nat \<Rightarrow> nat \<Rightarrow> nat \<Rightarrow> nat \<Rightarrow> nat \<Rightarrow> nat set" where
  "slots k len n b c = {k ..< len} \<union> {len + 1 ..< len + 1 + b} \<union> {len + 1 + n ..< len + 1 + n + c}"

definition aside :: "nat \<Rightarrow> nat \<Rightarrow> opcode list \<Rightarrow> translator \<Rightarrow> bool" where
  "aside k n tramps t \<longleftrightarrow> (length (instructions t) + 1 + n + length tramps < 2 ^ 32 \<longrightarrow>
     k \<le> length (instructions t) \<and> distinct (positions (label_reg t)) \<and>
     set (positions (label_reg t)) \<subseteq> slots k (length (instructions t)) n (length (br_table_branches t)) (length tramps) \<and>
     pinned (label_reg t) \<subseteq> {k .. length (instructions t)})"

lemma encode_br_table_target_ok:
  assumes "encode_br_table_target target tramps n t = ok (tramps', t')" and "length (br_table_branches t) \<le> n"
  shows "instructions t' = instructions t \<and> length (br_table_branches t') = length (br_table_branches t) + 2 \<and>
    length tramps \<le> length tramps' \<and>
    (label_reg t' = label_reg t \<or> (\<exists>l p off. try_resolve_label l p (label_reg t) = ok (off, label_reg t') \<and>
      (length (instructions t) + 1 + n + length tramps' < 2 ^ 32 \<longrightarrow>
        unat p = length (instructions t) + 1 + length (br_table_branches t) \<or>
        (length tramps < length tramps' \<and> unat p + 1 = length (instructions t) + 1 + n + length tramps'))))"
proof (cases target)
  case (ReturnTarget dk)
  have "fst (translate_drop_keep dk tramps (stack_height t)) = tramps @ drop_keep_code dk"
    by (rule translate_drop_keep_appends)
  then show ?thesis
    using assms(1) by (auto simp: ReturnTarget encode_br_table_target_def Let_def and_then_ok_iff push_br_table_branches_def
        split_def split: if_splits)
next
  case (BranchTarget l dk)
  let ?len = "length (instructions t)"
  have code: "fst (translate_drop_keep dk tramps (stack_height t)) = tramps @ drop_keep_code dk"
    by (rule translate_drop_keep_appends)
  show ?thesis
  proof (cases "is_noop dk")
    case True
    then obtain off reg where r: "try_resolve_label l (word_of_nat ?len + word_of_nat (length (br_table_branches t) + 1)) (label_reg t) = ok (off, reg)"
        "t' = t\<lparr>label_reg := reg, br_table_branches := br_table_branches t @ [Br off, Return]\<rparr>" "tramps' = tramps"
      using assms(1) by (auto simp: BranchTarget encode_br_table_target_def Let_def and_then_ok_iff current_pc_def
          try_resolve_label_for_def push_br_table_branches_def simp del: of_nat_add of_nat_Suc split: if_splits)
    have "unat (word_of_nat ?len + word_of_nat (length (br_table_branches t) + 1) :: u32) = ?len + 1 + length (br_table_branches t)"
      if "?len + 1 + n + length tramps < 2 ^ 32"
      using that assms(2) by (simp only: of_nat_add [symmetric] unat_of_nat) simp
    with r show ?thesis by auto
  next
    case False
    let ?is = "tramps @ drop_keep_code dk"
    from False obtain off reg where r: "try_resolve_label l (word_of_nat ?len + word_of_nat (n + length ?is + 1)) (label_reg t) = ok (off, reg)"
        "instructions t' = instructions t \<and> label_reg t' = reg \<and> length (br_table_branches t') = length (br_table_branches t) + 2"
        "tramps' = ?is @ [Br off]"
      using assms(1) code by (auto simp: BranchTarget encode_br_table_target_def Let_def and_then_ok_iff current_pc_def
          try_resolve_label_for_def push_br_table_branches_def split_def simp del: of_nat_add of_nat_Suc split: if_splits)
    have "unat (word_of_nat ?len + word_of_nat (n + length ?is + 1) :: u32) + 1 = ?len + 1 + n + length tramps'"
      if "?len + 1 + n + length tramps' < 2 ^ 32"
      using that by (simp only: of_nat_add [symmetric] unat_of_nat r(3)) simp
    with r show ?thesis by auto
  qed
qed

lemma encode_aside:
  assumes "encode_br_table_target target tramps n t = ok (tramps', t')" and "length (br_table_branches t) + 2 \<le> n"
    and "aside k n tramps t"
  shows "aside k n tramps' t'"
proof -
  let ?len = "length (instructions t)" and ?b = "length (br_table_branches t)"
  let ?old = "slots k ?len n ?b (length tramps)" and ?new = "slots k ?len n (?b + 2) (length tramps')"
  have "length (br_table_branches t) \<le> n" using assms(2) by simp
  note e = encode_br_table_target_ok [OF assms(1) this]
  have wider: "?old \<subseteq> ?new" using e by (auto simp: slots_def)
  show ?thesis
    unfolding aside_def
  proof (rule impI)
    assume "length (instructions t') + 1 + n + length tramps' < 2 ^ 32"
    then have room: "?len + 1 + n + length tramps' < 2 ^ 32" "?len + 1 + n + length tramps < 2 ^ 32" using e by simp_all
    have old: "k \<le> ?len" "distinct (positions (label_reg t))" "set (positions (label_reg t)) \<subseteq> ?old"
      "pinned (label_reg t) \<subseteq> {k .. ?len}"
      using assms(3) room(2) unfolding aside_def by blast+
    have "pinned (label_reg t') = pinned (label_reg t) \<and> (positions (label_reg t') = positions (label_reg t) \<or>
        (\<exists>p. positions (label_reg t') = positions (label_reg t) @ [p] \<and> p \<in> ?new \<and> p \<notin> ?old))"
    proof (cases "label_reg t' = label_reg t")
      case False
      then obtain l p off where p: "try_resolve_label l p (label_reg t) = ok (off, label_reg t')"
        "unat p = ?len + 1 + ?b \<or> (length tramps < length tramps' \<and> unat p + 1 = ?len + 1 + n + length tramps')"
        using e room(1) by blast
      from p(2) have "unat p \<in> ?new \<and> unat p \<notin> ?old" using assms(2) old(1) by (auto simp: slots_def)
      then show ?thesis using resolve_positions [OF p(1)] by blast
    qed simp
    then show "k \<le> length (instructions t') \<and> distinct (positions (label_reg t')) \<and>
      set (positions (label_reg t')) \<subseteq> slots k (length (instructions t')) n (length (br_table_branches t')) (length tramps') \<and>
      pinned (label_reg t') \<subseteq> {k .. length (instructions t')}"
      using e old wider by auto
  qed
qed

lemma add_branch_aside: "add_branch d t = ok t' \<Longrightarrow> aside k n tramps t \<Longrightarrow> aside k n tramps t'"
  "add_branch d t = ok t' \<Longrightarrow> br_table_branches t' = br_table_branches t \<and> instructions t' = instructions t"
  by (auto simp: add_branch_def aside_def split: option.splits control_frame.splits)

lemma br_table_targets_aside:
  "br_table_targets n ds tramps t = ok (tramps', t') \<Longrightarrow> length (br_table_branches t) + 2 * length ds + 2 \<le> n \<Longrightarrow>
   aside k n tramps t \<Longrightarrow>
   aside k n tramps' t' \<and> instructions t' = instructions t \<and>
   length (br_table_branches t') = length (br_table_branches t) + 2 * length ds"
proof (induction ds arbitrary: tramps t)
  case (Cons d ds)
  then obtain tr1 t1 where 1: "br_table_target n d tramps t = ok (tr1, t1)" "br_table_targets n ds tr1 t1 = ok (tramps', t')"
    by (auto simp: and_then_ok_iff)
  then obtain t0 target where t0: "add_branch d t = ok t0" "encode_br_table_target target tramps n t0 = ok (tr1, t1)"
    by (auto simp: br_table_target_def and_then_ok_iff)
  note same = add_branch_aside(2) [OF t0(1)]
  have "aside k n tr1 t1"
    using encode_aside [OF t0(2) _ add_branch_aside(1) [OF t0(1) Cons.prems(3)]] same Cons.prems(2) by simp
  moreover have "instructions t1 = instructions t" "length (br_table_branches t1) = length (br_table_branches t) + 2"
    using encode_br_table_target_ok [OF t0(2)] same Cons.prems(2) by simp_all
  ultimately show ?case using Cons.IH [OF 1(2)] Cons.prems(2) by simp
qed simp

lemma br_table_tidier: "obeys tidier (visit_br_table fp ds d)"
proof (rule tidying.obeys_br_table)
  let ?n = "(length ds + 1) * 2"
  fix t0 tr1 t1 t2 target tr3 t3 and len :: u32
  assume start: "br_table_branches t0 = []" and run: "br_table_targets ?n ds [] t0 = ok (tr1, t1)" "add_branch d t1 = ok t2"
    "encode_br_table_target target tr1 ?n t2 = ok (tr3, t3)"
  let ?t = "t3\<lparr>instructions := instructions t3 @ [BrTable len] @ br_table_branches t3 @ tr3, br_table_branches := []\<rparr>"
  have "tidy k ?t" if "tidy k t0" for k
  proof -
    have "aside k ?n [] t0" using that by (auto simp: aside_def tidy_def start slots_def)
    from br_table_targets_aside [OF run(1) _ this] start
    have 1: "aside k ?n tr1 t1" "length (br_table_branches t1) = 2 * length ds" by simp_all
    note same = add_branch_aside(2) [OF run(2)]
    have 3: "aside k ?n tr3 t3"
      using encode_aside [OF run(3) _ add_branch_aside(1) [OF run(2) 1(1)]] 1(2) same by simp
    have "length (br_table_branches t3) = ?n"
      using encode_br_table_target_ok [OF run(3)] 1(2) same by simp
    then show "tidy k ?t" using 3 by (fastforce simp: tidy_def aside_def slots_def)
  qed
  then show "tidier t0 ?t" by (simp add: tidier_def)
qed

lemma operator_tidier: "obeys tidier (visit_operator fp op)"
proof (cases "is_br_table op")
  case True
  then show ?thesis by (auto simp: is_br_table_def visit_operator_def br_table_tidier split: operator.splits)
qed (rule tidying.obeys_operator)

section \<open>A function\<close>

lemma local_groups_tidier: "translate_local_groups val ls (v, t) = ok (v', t') \<Longrightarrow> tidier t t'"
proof (induction ls arbitrary: v t)
  case (Cons l ls)
  obtain n ty where "l = (n, ty)" by (cases l)
  with Cons.prems obtain v1 t1 where
    "translate_local_group n ty t = ok t1" "translate_local_groups val ls (v1, t1) = ok (v', t')"
    by (auto simp: and_then_ok_iff)
  moreover have "obeys tidier (translate_local_group n ty)"
    unfolding translate_local_group_def by (intro obeying)
  ultimately show ?case using Cons.IH obeysD tidier_trans by blast
qed (simp add: tidier_def)

lemma operators_tidier: "translate_operators val fp ops (v, t) = ok (v', t') \<Longrightarrow> tidier t t'"
proof (induction ops arbitrary: v t)
  case (Cons op ops)
  then obtain v1 t1 where 1: "validate_then_translate val fp op (v, t) = ok (v1, t1)"
      "translate_operators val fp ops (v1, t1) = ok (v', t')"
    by (auto simp: and_then_ok_iff)
  have "tidier t t1"
    using 1(1) obeysD [OF operator_tidier]
    by (auto simp: validate_then_translate_def and_then_ok_iff tidier_def split: if_splits)
  with Cons.IH [OF 1(2)] show ?case by (rule tidier_trans [rotated])
qed (simp add: tidier_def)

lemma prepare_tidy:
  assumes "prepare fp f t = ok t'"
  shows "tidy (length (instructions t)) t'"
proof -
  let ?t = "(alloc_reset t)\<lparr>func_offsets := func_offsets t @ [isa_loc (instructions t)]\<rparr>"
  have locals: "obeys tidier (\<lambda>t. ok (t\<lparr>locals_registered := n t\<rparr>))" for n :: "translator \<Rightarrow> u32"
    by (auto simp: obeys_def intro: tidier_append)
  have charge: "obeys tidier (\<lambda>t. or_panic (bump_fuel (d t) t))" for d
    using obeysD [OF tidying.obeys_patches(1)] by (auto simp: obeys_def or_panic_ok)
  have "obeys tidier (init_func_body_block fp f)"
    unfolding init_func_body_block_def by (intro obeying locals charge)
  moreover have "init_func_body_block fp f ?t = ok t'"
    using assms by (auto simp: prepare_def alloc_reset_def and_then_ok_iff)
  moreover have "tidy (length (instructions t)) ?t"
    by (simp add: tidy_def alloc_reset_def labels_reset_def positions_def pinned_def)
  ultimately show ?thesis using obeysD [of tidier "init_func_body_block fp f" ?t t'] unfolding tidier_def by blast
qed

lemma finish_ok:
  assumes "finish t = ok t'"
  obtains "is" n i h where "resolve_branches (label_reg t) (users (label_reg t)) (instructions t) = ok is"
    "patch_stack_check n i h is = ok (instructions t')" "label_reg t' = label_reg t"
  using assms by (auto simp: finish_def and_then_ok_iff split: if_splits)

lemma resolve_branches_length: "resolve_branches reg us is = ok is' \<Longrightarrow> length is' = length is"
  by (induction us arbitrary: "is") (auto simp: and_then_ok_iff patch_at_ok)

lemma translate_tidy:
  assumes "translate val fp f body (v, t) = ok (v', t')"
  obtains t1 where "tidy (length (instructions t)) t1" "finish t1 = ok t'"
proof -
  obtain t1 v2 t2 v3 t3 where 1: "steps [prepare fp f, bump_fuel (cost_base fp), translate_stack_alloc,
        charge_locals fp (body_locals body)] t = ok t1" and
    2: "translate_local_groups val (body_locals body) (v, t1) = ok (v2, t2)" and
    3: "translate_operators val fp (body_operators body) (v2, t2) = ok (v3, t3)" and 4: "finish t3 = ok t'"
    using assms by (auto simp: translate_def and_then_ok_iff simp del: steps.simps)
  obtain t0 where t0: "prepare fp f t = ok t0"
    "steps [bump_fuel (cost_base fp), translate_stack_alloc, charge_locals fp (body_locals body)] t0 = ok t1"
    using 1 by (simp only: steps_ok) blast
  have "obeys tidier (charge_locals fp (body_locals body))"
    using obeysD [OF tidying.obeys_patches(1)] by (auto simp: obeys_def charge_locals_def Let_def tidier_def)
  then have "obeys tidier (steps [bump_fuel (cost_base fp), translate_stack_alloc, charge_locals fp (body_locals body)])"
    unfolding translate_stack_alloc_def by (intro obeying)
  from obeysD [OF this t0(2)] have "tidy (length (instructions t)) t3"
    using prepare_tidy [OF t0(1)] local_groups_tidier [OF 2] operators_tidier [OF 3] by (simp add: tidier_def)
  then show ?thesis using 4 that by blast
qed

lemma patch_stack_check_only:
  "patch_stack_check n i h is = ok is' \<Longrightarrow> length is' = length is \<and>
    (\<forall>j < length is. is' ! j = is ! j \<or> (\<exists>x. is ! j = StackCheck x))"
proof (induction n arbitrary: i)
  case (Suc n)
  show ?case
  proof (cases "i < length is")
    case True
    then show ?thesis using Suc by (cases "is ! i") (auto simp: nth_list_update)
  next
    case False
    then show ?thesis using Suc.prems by simp
  qed
qed simp

lemma finish_keeps:
  assumes "finish t = ok t'"
  shows "length (instructions t') = length (instructions t)" "label_reg t' = label_reg t"
proof -
  obtain "is" n i h where "resolve_branches (label_reg t) (users (label_reg t)) (instructions t) = ok is"
    "patch_stack_check n i h is = ok (instructions t')" "label_reg t' = label_reg t"
    using finish_ok [OF assms] .
  then show "length (instructions t') = length (instructions t)" "label_reg t' = label_reg t"
    using resolve_branches_length patch_stack_check_only by fastforce+
qed

lemma positions_distinct: "distinct (positions reg) \<longleftrightarrow> distinct (map user_instr (users reg))"
  by (simp add: positions_def distinct_map inj_on_def word_unat_eq_iff)

text \<open>What the patching at the end of a function does, when the waiting branches are at different positions.\<close>

lemma finish_lands:
  assumes "finish t = ok t'" and "distinct (positions (label_reg t))"
  shows "length (instructions t') = length (instructions t) \<and> label_reg t' = label_reg t \<and>
    (\<forall>u \<in> set (users (label_reg t)). \<exists>p. get_label (user_label u) (label_reg t) = Some (Pinned p) \<and>
       lands (instructions t') (user_instr u) p) \<and>
    (\<forall>i < length (instructions t). i \<notin> set (positions (label_reg t)) \<longrightarrow>
       instructions t' ! i = instructions t ! i \<or> (\<exists>h. instructions t ! i = StackCheck h))"
proof -
  obtain "is" n i h where f: "resolve_branches (label_reg t) (users (label_reg t)) (instructions t) = ok is"
    "patch_stack_check n i h is = ok (instructions t')" "label_reg t' = label_reg t"
    using finish_ok [OF assms(1)] .
  have r: "length is = length (instructions t)"
      "\<forall>i < length (instructions t). i \<notin> set (positions (label_reg t)) \<longrightarrow> is ! i = instructions t ! i"
      "\<forall>u \<in> set (users (label_reg t)). \<exists>p. get_label (user_label u) (label_reg t) = Some (Pinned p) \<and> lands is (user_instr u) p"
    using resolve_branches_ok [OF f(1)] assms(2)
    unfolding positions_distinct unfolding positions_def by (simp_all add: image_comp)
  note s = patch_stack_check_only [OF f(2)]
  have "lands (instructions t') u p" if l: "lands is u p" for u p
  proof -
    obtain off where off: "unat u < length is" "branch_target_offset (is ! unat u) = Some off"
        "int (unat u) + sint off = int (unat p)"
      using l unfolding lands_def by blast
    then have "instructions t' ! unat u = is ! unat u" using s by (auto simp: branch_target_offset_def)
    then show ?thesis unfolding lands_def using off s by metis
  qed
  then show ?thesis using r s f(3) by (metis (no_types, lifting))
qed

text \<open>The function that begins at \<open>k\<close> when it ends: the labels are in it.\<close>

lemma tidy_label: "pinned reg \<subseteq> {k .. n} \<Longrightarrow> get_label l reg = Some (Pinned p) \<Longrightarrow> k \<le> unat p \<and> unat p \<le> n"
  using nth_mem by (fastforce simp: pinned_def get_label_def split: if_splits)

end
