(* ===== verification/Metered_Runs.thy ===== *)
theory Metered_Runs
  imports Verification Vm_Invariants Word64
begin

text \<open>
  When a metered execution ends. A \<open>ranking\<close> gives every position of the code a number that
  bounds the way to the next charge: it decreases along every instruction that charges nothing,
  a call has to pay for the way of the callee and its own way back. Code has one when no loop and
  no recursion is without a charge; indirect calls, whose targets are not in the code, are
  excluded. With a fuel limit below \<open>u64::MAX\<close> the pair of the fuel left and the sum of the ranks
  of the instruction pointer and the return addresses decreases with every step.
\<close>

definition rank_at :: "nat list \<Rightarrow> int \<Rightarrow> nat" where
  "rank_at rs p = (if 0 \<le> p \<and> p < int (length rs) then rs ! nat p else 0)"

definition descends :: "nat list \<Rightarrow> int \<Rightarrow> opcode \<Rightarrow> bool" where
  "descends rs p op = (case op of
     Unreachable \<Rightarrow> True
   | Trap _ \<Rightarrow> True
   | Fpu _ \<Rightarrow> True
   | ConsumeFuel d \<Rightarrow> d \<noteq> 0 \<or> rank_at rs (p + 1) < rank_at rs p
   | Br off \<Rightarrow> rank_at rs (p + sint off) < rank_at rs p
   | BrIfEqz off \<Rightarrow> rank_at rs (p + sint off) < rank_at rs p \<and> rank_at rs (p + 1) < rank_at rs p
   | BrIfNez off \<Rightarrow> rank_at rs (p + sint off) < rank_at rs p \<and> rank_at rs (p + 1) < rank_at rs p
   | BrTable n \<Rightarrow> 0 < n \<and> list_all (\<lambda>k. rank_at rs (p + (2 * int k + 1)) < rank_at rs p) [0..<unat n]
   | Return \<Rightarrow> 0 < rank_at rs p
   | CallInternal f \<Rightarrow> rank_at rs (uint f) + rank_at rs (p + 1) < rank_at rs p
   | ReturnCallInternal f \<Rightarrow> rank_at rs (uint f) < rank_at rs p
   | CallIndirect _ \<Rightarrow> False
   | ReturnCallIndirect _ \<Rightarrow> False
   | TableInit _ \<Rightarrow> rank_at rs (p + 2) < rank_at rs p
   | _ \<Rightarrow> rank_at rs (p + 1) < rank_at rs p)"

definition ranking :: "nat list \<Rightarrow> opcode list \<Rightarrow> bool" where
  "ranking rs code \<longleftrightarrow> list_all (\<lambda>p. descends rs (int p) (code ! p)) [0..<length code]"

definition way :: "nat list \<Rightarrow> 'h exec \<Rightarrow> nat" where
  "way rs s = rank_at rs (ip s) + sum_list (map (rank_at rs) (call_stack s))"

lemma goes_way:
  "goes d s r \<Longrightarrow> r = Some (Next u) \<Longrightarrow> rank_at rs (ip s + d) < rank_at rs (ip s) \<Longrightarrow> way rs u < way rs s"
  by (simp add: goes_def way_def)

lemma enter_call_way:
  "enter_call f s = Some (Next u) \<Longrightarrow>
   way rs u = rank_at rs (uint f) + rank_at rs (ip s) + sum_list (map (rank_at rs) (call_stack s))"
  by (auto simp: enter_call_def Let_def sync_sp_def reload_sp_def way_def split: if_splits)

text \<open>An instruction that charges nothing.\<close>

lemma uncharged_way:
  assumes step: "step env op s = Some (Next u)" and rank: "descends rs (ip s) op" and free: "\<And>d. op \<noteq> ConsumeFuel d"
  shows "way rs u < way rs s"
proof (cases op)
  case (Br off)
  then show ?thesis using step rank by (auto simp: step_def descends_def visit_br_def ip_offset_def way_def)
next
  case (BrIfEqz off)
  then show ?thesis
    using step rank by (auto simp: step_def parts descends_def visit_br_if_def ip_offset_def way_def split: if_splits)
next
  case (BrIfNez off)
  then show ?thesis
    using step rank by (auto simp: step_def parts descends_def visit_br_if_nez_def ip_offset_def way_def split: if_splits)
next
  case (BrTable n)
  then obtain i t where u: "from_stack sp_pop s = Some (i, t)"
    "u = ip_add (2 * min (unat i) (unat n - 1) + 1) t" and n: "0 < n"
    and ranks: "\<And>k. k < unat n \<Longrightarrow> rank_at rs (ip s + (2 * int k + 1)) < rank_at rs (ip s)"
    using step rank
    by (auto simp: step_def descends_def visit_br_table_def bind_eq_Some_conv list_all_iff Let_def split: if_splits)
  have "min (unat i) (unat n - 1) < unat n" using n by (simp add: word_less_nat_alt min_less_iff_disj)
  from ranks [OF this] u show ?thesis by (auto simp: parts way_def algebra_simps)
next
  case Return
  then show ?thesis
    using step rank by (auto simp: step_def parts descends_def visit_return_def way_def split: list.splits)
next
  case (ReturnCallInternal f)
  then show ?thesis
    using step rank by (auto simp: step_def parts descends_def visit_return_call_internal_def way_def)
next
  case (CallInternal f)
  then have "enter_call f (ip_add 1 s) = Some (Next u)"
    using step by (simp add: step_def visit_call_internal_def)
  from enter_call_way [OF this, of rs] show ?thesis
    using CallInternal rank by (simp add: descends_def ip_add_def way_def)
next
  case (TableInit seg)
  then show ?thesis
    using goes_way [OF table_visits_go(6) step [unfolded TableInit step_def, simplified]] rank
    by (simp add: descends_def)
next
  case (ConsumeFuel d)
  then show ?thesis using free by simp
qed (use step rank in \<open>simp_all add: descends_def step_def visit_unreachable_def visit_trap_code_def\<close>,
    (rule goes_way, rule visits_go, assumption, assumption)+)


text \<open>A charge.\<close>

lemma charged_left:
  assumes step: "visit_consume_fuel d s = Some (Next u)" and fuel: "fuel_metered (store s)" and d: "d \<noteq> 0"
  shows "fuel_left (store u) < fuel_left (store s)"
proof -
  have pos: "0 < unat (ucast d :: u64)" using d by (simp add: unat_gt_0)
  obtain st where st: "try_consume_fuel (ucast d) (store s) = Inr st" "u = ip_add 1 (s\<lparr>store := st\<rparr>)"
    using step by (auto simp: visit_consume_fuel_def charge_fuel_def next_instr_def split: sum.splits)
  have le: "unat (ucast d :: u64) \<le> fuel_left (store s)"
    using st(1) store_fuel.charge_refused [OF fuel, of "ucast d"] by (cases "fuel_left (store s) < unat (ucast d :: u64)") auto
  from store_fuel.charge_ok [OF fuel le] st(1) have "fuel_left st = fuel_left (store s) - unat (ucast d :: u64)" by simp
  then show ?thesis using st(2) pos le by (simp add: ip_add_def)
qed

lemma evolves_fuel_left: "evolves s u \<Longrightarrow> fuel_left (store u) \<le> fuel_left (store s)"
  by (cases "fuel_limit (store s)")
    (auto simp: evolves_def store_evolves_def fuel_left_def remaining_fuel_def unat_saturating_sub word_le_nat_alt)

definition metered_state :: "'h exec \<Rightarrow> bool" where
  "metered_state s \<longleftrightarrow> store_wf (store s) \<and> (\<exists>l. fuel_limit (store s) = Some l \<and> l < - 1)"

lemma metered_state_fuel: "metered_state s \<Longrightarrow> fuel_metered (store s)"
  by (auto simp: metered_state_def fuel_metered_def store_wf_def)

lemma metered_evolves: "metered_state s \<Longrightarrow> evolves s u \<Longrightarrow> metered_state u"
  by (auto simp: metered_state_def evolves_def store_evolves_def)

definition nearer :: "nat list \<Rightarrow> ('h exec \<times> 'h exec) set" where
  "nearer rs = inv_image (less_than <*lex*> less_than) (\<lambda>s. (fuel_left (store s), way rs s))"

lemma wf_nearer: "wf (nearer rs)"
  by (simp add: nearer_def wf_inv_image wf_lex_prod)

lemma step_nearer:
  assumes host: "well_behaved_host (syscall_handler env)" and code: "ranking rs (code_section (module env))"
    and state: "metered_state s" and step: "exec_step env s = Some (Next u)"
  shows "(u, s) \<in> nearer rs" "metered_state u"
proof -
  have ev: "evolves s u"
    using well_behaved_host.exec_step_evolves [OF host refl step] by simp
  then show "metered_state u" using state metered_evolves by blast
  obtain op where op: "fetch (code_section (module env)) (ip s) = Some op" "step env op s = Some (Next u)"
    using step by (auto simp: exec_step_def bind_eq_Some_conv)
  have rank: "descends rs (ip s) op"
    using op(1) code by (auto simp: fetch_def ranking_def list_all_iff split: if_splits) (metis atLeastLessThan_iff int_nat_eq nat_less_iff zero_le)
  show "(u, s) \<in> nearer rs"
  proof (cases "\<exists>d. op = ConsumeFuel d \<and> d \<noteq> 0")
    case True
    then show ?thesis
      using charged_left [OF _ metered_state_fuel [OF state]] op(2) by (auto simp: nearer_def step_def)
  next
    case False
    have "way rs u < way rs s"
    proof (cases "\<exists>d. op = ConsumeFuel d")
      case True
      then obtain d where d: "op = ConsumeFuel d" "rank_at rs (ip s + 1) < rank_at rs (ip s)"
        using False rank by (auto simp: descends_def)
      then show ?thesis using goes_way [OF system_visits_go(1) op(2) [unfolded d(1) step_def, simplified]] by simp
    next
      case False
      then show ?thesis using uncharged_way [OF op(2) rank] by blast
    qed
    then show ?thesis using evolves_fuel_left [OF ev] by (auto simp: nearer_def)
  qed
qed

lemma ranked_loop_ends:
  assumes host: "well_behaved_host (syscall_handler env)" and code: "ranking rs (code_section (module env))"
    and state: "metered_state s"
  shows "\<exists>r. run_the_loop env s = Some r"
  using wf_nearer [of rs] state
proof (induction s rule: wf_induct_rule)
  case (less s)
  show ?case
  proof (cases "exec_step env s")
    case None
    then show ?thesis by (simp add: run_the_loop.simps)
  next
    case (Some fl)
    then show ?thesis
      using less.IH step_nearer [OF host code less.prems] by (cases fl) (auto simp: run_the_loop.simps [of env s])
  qed
qed

lemma ranked_run_ends:
  assumes "well_behaved_host (syscall_handler env)" "ranking rs (code_section (module env))" "metered_state s"
  shows "\<exists>r. exec_run env params result s = Some r"
proof -
  have "metered_state t" if "on_stack f s' = Some t" "store s' = store s" for f t s'
    using that assms(3) by (auto simp: parts metered_state_def)
  then have "\<exists>r. run_the_loop env t = Some r" if "on_stack f s' = Some t" "store s' = store s" for f t s'
    using that ranked_loop_ends [OF assms(1,2)] by blast
  then show ?thesis
    by (fastforce simp: exec_run_def Let_def sync_sp_def reload_sp_def
        split: sum.splits option.splits run_result.splits)
qed

text \<open>A bound on the number of steps: a unit of fuel pays for the longest way.\<close>

definition longest_way :: "nat list \<Rightarrow> nat" where
  "longest_way rs = (N_MAX_RECURSION_DEPTH + 1) * fold max rs 0"

lemma rank_at_le: "rank_at rs p \<le> fold max rs 0"
proof -
  have "m \<le> fold max rs m \<and> (\<forall>r \<in> set rs. r \<le> fold max rs m)" for m
  proof (induction rs arbitrary: m)
    case (Cons r rs)
    have "r \<le> fold max rs (max r m)" "m \<le> fold max rs (max r m)"
      using Cons.IH [of "max r m"] by simp_all
    then show ?case using Cons.IH [of "max r m"] by simp
  qed simp
  then show ?thesis by (auto simp: rank_at_def)
qed

lemma way_le:
  assumes "length (call_stack s) \<le> N_MAX_RECURSION_DEPTH"
  shows "way rs s \<le> longest_way rs"
proof -
  have "sum_list (map (rank_at rs) cs) \<le> length cs * fold max rs 0" for cs
    by (induction cs) (simp_all add: rank_at_le add_mono)
  from this [of "call_stack s"] have "way rs s \<le> fold max rs 0 + length (call_stack s) * fold max rs 0"
    using rank_at_le [of rs "ip s"] by (simp add: way_def add_mono)
  also have "\<dots> \<le> longest_way rs" using assms by (simp add: longest_way_def)
  finally show ?thesis .
qed

definition budget :: "nat list \<Rightarrow> 'h exec \<Rightarrow> nat" where
  "budget rs s = fuel_left (store s) * (longest_way rs + 1) + way rs s"

lemma step_budget:
  assumes "well_behaved_host (syscall_handler env)" "ranking rs (code_section (module env))" "metered_state s"
    and depth: "length (call_stack s) \<le> N_MAX_RECURSION_DEPTH" and step: "exec_step env s = Some (Next u)"
  shows "budget rs u < budget rs s" "metered_state u" "length (call_stack u) \<le> N_MAX_RECURSION_DEPTH"
proof -
  show "metered_state u" by (rule step_nearer(2) [OF assms(1-3) step])
  show d: "length (call_stack u) \<le> N_MAX_RECURSION_DEPTH"
    using well_behaved_host.exec_step_evolves [OF assms(1) refl step] depth by (simp add: evolves_def)
  consider "fuel_left (store u) < fuel_left (store s)" | "fuel_left (store u) = fuel_left (store s)" "way rs u < way rs s"
    using step_nearer(1) [OF assms(1-3) step] by (auto simp: nearer_def)
  then show "budget rs u < budget rs s"
  proof cases
    case 1
    then have "(fuel_left (store u) + 1) * (longest_way rs + 1) \<le> fuel_left (store s) * (longest_way rs + 1)"
      by (intro mult_right_mono) simp_all
    then show ?thesis using way_le [OF d, of rs] by (simp add: budget_def)
  qed (simp add: budget_def)
qed

lemma steps_bounded:
  assumes env: "well_behaved_host (syscall_handler env)" "ranking rs (code_section (module env))"
  shows "(s, u) \<in> {(x, y). exec_step env x = Some (Next y)} ^^ n \<Longrightarrow> metered_state s \<Longrightarrow>
    length (call_stack s) \<le> N_MAX_RECURSION_DEPTH \<Longrightarrow> n + budget rs u \<le> budget rs s"
proof (induction n arbitrary: s)
  case (Suc n)
  then obtain t where t: "exec_step env s = Some (Next t)" "(t, u) \<in> {(x, y). exec_step env x = Some (Next y)} ^^ n"
    using relpow_Suc_D2 by fastforce
  note b = step_budget [OF env Suc.prems(2,3) t(1)]
  show ?case using Suc.IH [OF t(2) b(2,3)] b(1) by simp
qed simp

end
