(* ===== verification/Spec2Isabelle.thy ===== *)
theory Spec2Isabelle
  imports Host Import_Linker Routine_Run Isa_Arith Isa_Shift Isa_Div_U Checked_Spec
    Drop_Keep Labels Control_Flow Segment_Builder Func_Builder Function_Run Verification Block_Fuel Module_Layout Branch_Targets Metered_Runs
begin

text \<open>
  rWasm compiles WebAssembly to a 32-bit instruction set and interprets it. This development models
  the compiler and the interpreter of the crate (\<open>src/src/\<close> of the repository, written \<open>src/\<close> in the
  theories) and proves what ties them together: the emitted code, run by the modelled interpreter,
  does what WebAssembly specifies.

  \<^bold>\<open>Conventions.\<close> Machine integers are words (\<open>u8\<close>, \<open>u16\<close>, \<open>u32\<close>, \<open>u64\<close>), signed ones the same words read
  with \<open>sint\<close>; arithmetic wraps as in a release build, and checked and saturating operations are
  written out. A \<open>usize\<close> is a natural number. A Rust function that may panic gives an option with
  \<open>None\<close> for the panic; \<open>None\<close> also stands for undefined behaviour (an access outside the value stack or
  the code). Errors are the left side of a sum: trap codes at run time, \<open>compilation_error\<close>,
  \<open>verification_error\<close>, \<open>decode_error\<close> elsewhere. Mutable state is a record that the operations return
  updated. Debug assertions and the features \<open>fpu\<close>, \<open>tracing\<close>, \<open>debug-print\<close> and \<open>wasmtime\<close> are off.

  \<^bold>\<open>Run time.\<close> \<open>Prelude\<close> and \<open>Word64\<close> hold the shared vocabulary and the arithmetic of halves.
  \<open>Opcode\<close> (\<open>types/opcode.rs\<close>), \<open>Untyped_Value\<close> (\<open>types/untyped_value.rs\<close>, \<open>types/value.rs\<close>),
  \<open>Value_Stack\<close>, \<open>Linear_Memory\<close>, \<open>Table_Entity\<close> and \<open>Store\<close> (files of the same names under \<open>vm/\<close>, with
  \<open>types/units.rs\<close>) are the data; \<open>Executor\<close> has one definition for each \<open>visit_\<close> method of
  \<open>vm/executor/\<close>, \<open>Interpreter\<close> the control flow, the dispatch \<open>step\<close>, the loop \<open>run_the_loop\<close> (a partial
  function: not ending is \<open>None\<close>), \<open>run\<close> and the engine with interruption and resumption
  (\<open>vm/executor.rs\<close>, \<open>vm/engine.rs\<close>, \<open>vm/instance.rs\<close>). \<open>Host\<close> and \<open>Import_Linker\<close> are the side of the
  system calls; any other host is a parameter of the environment \<open>env\<close>.
  \<open>Vm_Invariants\<close> proves that every instruction keeps the state well formed and the fuel account
  monotone, for every host of the locale \<open>well_behaved_host\<close>. \<open>Metered_Runs\<close> proves that metered code ends, and how many instructions
  its fuel allows.
  \<open>Module_Codec\<close> (\<open>module/mod.rs\<close>, the binary format) and \<open>Verification\<close> (\<open>module/verification.rs\<close>)
  are the loading of modules: round trips, malformed input, and that verified code stays in the code.

  \<^bold>\<open>Lowered routines.\<close> \<open>Instruction_Set\<close> is the builder of code (\<open>isa/mod.rs\<close>). 64-bit operations and
  checked bulk operations are emitted as sequences of 32-bit opcodes: \<open>Isa_Arith\<close>, \<open>Isa_Shift\<close>,
  \<open>Isa_Div_U\<close>, \<open>Isa_Div_S\<close>, \<open>Isa_Rem_U\<close>, \<open>Isa_Rem_S\<close>, \<open>Isa_Memory\<close>, \<open>Isa_Checked\<close> are these sequences, from the
  files of the same names under \<open>isa/\<close>. \<open>Local_Step\<close> gives an abstract view of an instruction without
  calls, over the interface \<open>word_stack\<close> that the value stack implements; \<open>Local_Code\<close> evaluates code on
  it symbolically and defines \<open>computes\<close>: in any program, at any place, above any words, the code
  turns its operands into its results, or traps, within a stated number of free cells.
  \<open>Isa_Loops\<close> and \<open>Long_Division\<close> carry the loops of the division, \<open>Isa_Init\<close> the initialisation from
  segments, and \<open>Routine_Run\<close>, \<open>Memory_Run\<close>, \<open>Checked_Run\<close> turn \<open>computes\<close> into facts about
  \<open>engine_execute\<close>. \<open>Checked_Spec\<close> says what the checked bulk operations do in terms of lists of bytes and
  elements and of a natural number of fuel units, apart from the operations of the store. The routines of the signed division and of both remainders are modelled, but only
  the unsigned division is proved correct.

  \<^bold>\<open>Compiler.\<close> \<open>Drop_Keep\<close>, \<open>Labels\<close>, \<open>Func_Types\<close>, \<open>Control_Flow\<close>, \<open>Segment_Builder\<close>, \<open>Snippets\<close>,
  \<open>Block_Fuel\<close>, \<open>Compiled_Expr\<close>, \<open>Compilation_Config\<close> are the parts of \<open>compiler/\<close> with these names.
  \<open>Translator\<close>, \<open>Translator_Control\<close>, \<open>Translator_Visits\<close> are \<open>compiler/translator.rs\<close>: its state, the
  control operators with the beginning and end of a function, and all other operators.
  \<open>Func_Builder\<close> translates a function body, \<open>Module_Parser\<close> (\<open>compiler/parser.rs\<close>) a module.
  The costs of the crate \<open>rwasm_fuel_policy\<close> are the record \<open>fuel_policy\<close> (\<open>Fuel_Policy\<close>).
  \<open>Wasm_Semantics\<close> is the reference: typed locals and operands. \<open>Operator_Code\<close>, \<open>Stack_Tracking\<close>,
  \<open>Operator_Refinement\<close> and \<open>Straight_Line\<close> prove that the translated operators without control flow
  implement it; \<open>Labels\<close> and \<open>Drop_Keep\<close> prove the two mechanisms of a branch, its offset and the code that
  drops and keeps values. \<open>Function_Run\<close> puts them together for a whole function without control flow, from
  the signature check to the return. \<open>Translation_Order\<close> proves once, for every order on the states of the translator
  that contains its small steps (a locale), that all operators go up in it; of its instances, \<open>Branch_Targets\<close>
  follows the waiting branches of a function to their labels, and \<open>Module_Layout\<close> follows the heads of the functions from the translator to the
  assembled module.

  \<^bold>\<open>This theory\<close> states the properties, each with a text that begins with its number, in the order of the
  list above: the routines, the invariants of the machine, interruption, memory and tables, the step
  relation, values and system calls, fuel, the linker, the compiler's parts, segments, the
  translation of straight code, the verifier, the binary format, constants, whole modules, and
  termination. A lemma whose name ends in \<open>_witness\<close> applies a property to concrete data. The
  other lemmas with a remark \<open>A finding\<close> run the model on inputs on which the code does not do what it
  means to.

  \<^bold>\<open>Bounds.\<close> The recursion limit, the page and table limits and the declared stack heights are those of
  the source. There is no fuel in the model's own recursions: loops are structural, or the partial
  function \<open>run_the_loop\<close>, and theorems about it say that it returns.

  \<^bold>\<open>Not modelled.\<close> The floating point opcodes (\<open>vm/executor/fpu.rs\<close>), which are illegal opcodes without the
  feature \<open>fpu\<close>; the 64-bit and float operations of \<open>types/untyped_value.rs\<close> and \<open>types/value.rs\<close>, which the interpreter
  does not reach; the tracer, the wasmtime backend and the strategy that selects a backend, which are
  glue around third-party code; \<open>Display\<close> and \<open>Debug\<close>; the reader and the validator of \<open>wasmparser\<close>, which are
  parameters of \<open>Func_Builder\<close> and \<open>Module_Parser\<close>; the primitive encodings of \<open>bincode\<close>, a parameter of
  \<open>Module_Codec\<close>; the constants of the fuel policy; the iteration order of hash maps.
\<close>

lemma shift_specs:
  "push_bit (unat b mod 64) a = i64_shl a b" "drop_bit (unat b mod 64) a = i64_shr_u a b"
  "signed_drop_bit (unat b mod 64) a = i64_shr_s a b"
  "word_rotl (unat b mod 64) a = i64_rotl a b" "word_rotr (unat b mod 64) a = i64_rotr a b"
  by (simp_all add: i64_shl_def i64_shr_u_def i64_shr_s_def i64_rotl_def i64_rotr_def amount_mod)

section \<open>Lowered 64-bit arithmetic\<close>

lemmas msh_simps =
  MSH_I64_ADD_def MSH_I64_SUB_def MSH_I64_MUL_def MSH_I64_DIV_U_def
  MSH_I64_EQZ_def MSH_I64_EQ_def MSH_I64_NE_def MSH_I64_LT_S_def MSH_I64_LT_U_def
  MSH_I64_GT_S_def MSH_I64_GT_U_def MSH_I64_LE_S_def MSH_I64_LE_U_def MSH_I64_GE_S_def
  MSH_I64_GE_U_def MSH_I64_CLZ_def MSH_I64_CTZ_def MSH_I64_POPCNT_def MSH_I64_AND_def
  MSH_I64_OR_def MSH_I64_XOR_def MSH_I64_SHL_def MSH_I64_SHR_S_def MSH_I64_SHR_U_def
  MSH_I64_ROTL_def MSH_I64_ROTR_def MSH_I32_WRAP_I64_def MSH_I64_EXTEND_I32_S_def
  MSH_I64_EXTEND_I32_U_def MSH_I64_EXTEND8_S_def MSH_I64_EXTEND16_S_def MSH_I64_EXTEND32_S_def

text \<open>C7 (functional): executing the lowering of \<open>i64.div_u\<close> on the engine returns the
  quotient of the two 64-bit operands, and traps with \<open>IntegerDivisionByZero\<close> exactly when
  the divisor is zero, with the result buffer untouched. Execution terminates in both cases.\<close>
theorem i64_div_u_executes:
  "engine_execute (program op_i64_div_u env) [I64 n, I64 d] [I64 x] st =
     Some (if d = 0
           then Finished (Some IntegerDivisionByZero, [I64 x], st\<lparr>last_signature := None\<rparr>)
           else Finished (None, [I64 (n div d)], st))"
  using program_i64_binary_trap [OF op_i64_div_u_zero, of env n "[I64 x]" st]
    program_i64_binary [OF op_i64_div_u_correct, of d env n x st]
  by (auto simp: msh_simps)

text \<open>C8 (functional): the lowerings of \<open>i64.add\<close>, \<open>i64.sub\<close> and \<open>i64.mul\<close> return the
  wrapped 64-bit sum, difference and product.\<close>
theorem i64_ring_executes:
  "engine_execute (program op_i64_add env) [I64 a, I64 b] [I64 x] st = Some (Finished (None, [I64 (a + b)], st))
   \<and> engine_execute (program op_i64_sub env) [I64 a, I64 b] [I64 x] st = Some (Finished (None, [I64 (a - b)], st))
   \<and> engine_execute (program op_i64_mul env) [I64 a, I64 b] [I64 x] st = Some (Finished (None, [I64 (a * b)], st))"
  by (intro conjI program_i64_binary [OF op_i64_add_correct] program_i64_binary [OF op_i64_sub_correct]
      program_i64_binary [OF op_i64_mul_correct]) (simp_all add: msh_simps)

text \<open>C9 (functional): the lowered shifts and rotations take the amount modulo 64 from the
  second operand and return the shifted (zero or sign filled) or rotated first operand.\<close>
theorem i64_shifts_execute:
  "engine_execute (program op_i64_shl env) [I64 a, I64 b] [I64 x] st =
     Some (Finished (None, [I64 (push_bit (unat b mod 64) a)], st))
   \<and> engine_execute (program op_i64_shr_u env) [I64 a, I64 b] [I64 x] st =
     Some (Finished (None, [I64 (drop_bit (unat b mod 64) a)], st))
   \<and> engine_execute (program op_i64_shr_s env) [I64 a, I64 b] [I64 x] st =
     Some (Finished (None, [I64 (signed_drop_bit (unat b mod 64) a)], st))
   \<and> engine_execute (program op_i64_rotl env) [I64 a, I64 b] [I64 x] st =
     Some (Finished (None, [I64 (word_rotl (unat b mod 64) a)], st))
   \<and> engine_execute (program op_i64_rotr env) [I64 a, I64 b] [I64 x] st =
     Some (Finished (None, [I64 (word_rotr (unat b mod 64) a)], st))"
  unfolding shift_specs
  by (intro conjI program_i64_binary [OF op_i64_shl_correct] program_i64_binary [OF op_i64_shr_u_correct]
      program_i64_binary [OF op_i64_shr_s_correct] program_i64_binary [OF op_i64_rotl_correct]
      program_i64_binary [OF op_i64_rotr_correct]) (simp_all add: msh_simps)

text \<open>C10 (functional): the ten lowered comparisons return 1 when the 64-bit relation holds,
  signed or unsigned as the instruction says, and 0 otherwise.\<close>
theorem i64_comparisons_execute:
  "engine_execute (program op_i64_eq env) [I64 a, I64 b] [I32 x] st = Some (Finished (None, [I32 (of_bool (a = b))], st))
   \<and> engine_execute (program op_i64_ne env) [I64 a, I64 b] [I32 x] st = Some (Finished (None, [I32 (of_bool (a \<noteq> b))], st))
   \<and> engine_execute (program op_i64_lt_s env) [I64 a, I64 b] [I32 x] st = Some (Finished (None, [I32 (of_bool (sint a < sint b))], st))
   \<and> engine_execute (program op_i64_lt_u env) [I64 a, I64 b] [I32 x] st = Some (Finished (None, [I32 (of_bool (a < b))], st))
   \<and> engine_execute (program op_i64_gt_s env) [I64 a, I64 b] [I32 x] st = Some (Finished (None, [I32 (of_bool (sint b < sint a))], st))
   \<and> engine_execute (program op_i64_gt_u env) [I64 a, I64 b] [I32 x] st = Some (Finished (None, [I32 (of_bool (b < a))], st))
   \<and> engine_execute (program op_i64_le_s env) [I64 a, I64 b] [I32 x] st = Some (Finished (None, [I32 (of_bool (sint a \<le> sint b))], st))
   \<and> engine_execute (program op_i64_le_u env) [I64 a, I64 b] [I32 x] st = Some (Finished (None, [I32 (of_bool (a \<le> b))], st))
   \<and> engine_execute (program op_i64_ge_s env) [I64 a, I64 b] [I32 x] st = Some (Finished (None, [I32 (of_bool (sint b \<le> sint a))], st))
   \<and> engine_execute (program op_i64_ge_u env) [I64 a, I64 b] [I32 x] st = Some (Finished (None, [I32 (of_bool (b \<le> a))], st))"
  by (intro conjI
      program_i64_compare [OF op_i64_eq_correct]
      program_i64_compare [OF op_i64_ne_correct]
      program_i64_compare [OF op_i64_lt_s_correct]
      program_i64_compare [OF op_i64_lt_u_correct]
      program_i64_compare [OF op_i64_gt_s_correct]
      program_i64_compare [OF op_i64_gt_u_correct]
      program_i64_compare [OF op_i64_le_s_correct]
      program_i64_compare [OF op_i64_le_u_correct]
      program_i64_compare [OF op_i64_ge_s_correct]
      program_i64_compare [OF op_i64_ge_u_correct])
    (simp_all add: msh_simps)

text \<open>C11 (functional): the lowered bitwise operations act on all 64 bits, and the counting
  routines return the number of leading zeros, trailing zeros and ones of the 64-bit operand.\<close>
theorem i64_bits_execute:
  "engine_execute (program op_i64_and env) [I64 a, I64 b] [I64 x] st = Some (Finished (None, [I64 (a AND b)], st))
   \<and> engine_execute (program op_i64_or env) [I64 a, I64 b] [I64 x] st = Some (Finished (None, [I64 (a OR b)], st))
   \<and> engine_execute (program op_i64_xor env) [I64 a, I64 b] [I64 x] st = Some (Finished (None, [I64 (a XOR b)], st))
   \<and> engine_execute (program op_i64_clz env) [I64 a] [I64 x] st = Some (Finished (None, [I64 (word_of_nat (leading_zeros a))], st))
   \<and> engine_execute (program op_i64_ctz env) [I64 a] [I64 x] st = Some (Finished (None, [I64 (word_of_nat (trailing_zeros a))], st))
   \<and> engine_execute (program op_i64_popcnt env) [I64 a] [I64 x] st = Some (Finished (None, [I64 (word_of_nat (count_ones a))], st))"
  by (intro conjI
      program_i64_binary [OF op_i64_and_correct]
      program_i64_binary [OF op_i64_or_correct]
      program_i64_binary [OF op_i64_xor_correct]
      program_i64_unary [OF op_i64_clz_correct]
      program_i64_unary [OF op_i64_ctz_correct]
      program_i64_unary [OF op_i64_popcnt_correct])
    (simp_all add: msh_simps)

text \<open>C12 (functional): the lowered conversions between 32 and 64 bits: truncation, sign and
  zero extension, and sign extension of the low 8, 16 and 32 bits in place.\<close>
theorem i64_conversions_execute:
  "engine_execute (program op_i32_wrap_i64 env) [I64 a] [I32 x] st = Some (Finished (None, [I32 (ucast a)], st))
   \<and> engine_execute (program op_i64_extend_i32_s env) [I32 v] [I64 y] st = Some (Finished (None, [I64 (scast v)], st))
   \<and> engine_execute (program op_i64_extend_i32_u env) [I32 v] [I64 y] st = Some (Finished (None, [I64 (ucast v)], st))
   \<and> engine_execute (program op_i64_extend8_s env) [I64 a] [I64 y] st = Some (Finished (None, [I64 (scast (ucast a :: u8))], st))
   \<and> engine_execute (program op_i64_extend16_s env) [I64 a] [I64 y] st = Some (Finished (None, [I64 (scast (ucast a :: u16))], st))
   \<and> engine_execute (program op_i64_extend32_s env) [I64 a] [I64 y] st = Some (Finished (None, [I64 (scast (ucast a :: u32))], st))"
  by (intro conjI
      program_i64_narrow [OF op_i32_wrap_i64_correct]
      program_i64_widen [OF op_i64_extend_i32_s_correct]
      program_i64_widen [OF op_i64_extend_i32_u_correct]
      program_i64_unary [OF op_i64_extend8_s_correct]
      program_i64_unary [OF op_i64_extend16_s_correct]
      program_i64_unary [OF op_i64_extend32_s_correct])
    (simp_all add: msh_simps)

lemmas msh_memory =
  MSH_I64_LOAD_def MSH_I64_LOAD8_S_def MSH_I64_LOAD8_U_def MSH_I64_LOAD16_S_def MSH_I64_LOAD16_U_def
  MSH_I64_LOAD32_S_def MSH_I64_LOAD32_U_def MSH_I64_STORE_def MSH_I64_STORE8_def
  MSH_I64_STORE16_def MSH_I64_STORE32_def

section \<open>Executions of the interpreter\<close>

text \<open>A store, a module and an environment to try the properties on.\<close>

definition sample_store :: "u64 \<Rightarrow> unit store" where
  "sample_store limit =
     \<lparr>consumed_fuel = 0, global_memory = \<lparr>shared_memory = [], current_pages = 0,
      max_allowed_memory_pages = 1\<rparr>, host_data = (), last_signature = None, tables = Map.empty,
      global_variables = Map.empty, empty_data_segments = [], empty_elem_segments = [],
      resumable_context = None, fuel_limit = Some limit\<rparr>"

definition sample_env :: "opcode list \<Rightarrow> unit env" where
  "sample_env code =
     \<lparr>module = \<lparr>code_section = code, data_section = [], elem_section = [], hint_section = [],
      source_pc = 0\<rparr>, linker_types = \<lambda>_. None, syscall_handler = always_failing_syscall_handler,
      bitvec_resize = vec_resize\<rparr>"

lemma sample_store_wf: "store_wf (sample_store l)"
  by (simp add: store_wf_def memory_wf_def fuel_wf_def sample_store_def N_MAX_ALLOWED_MEMORY_PAGES_def)

lemma sample_host: "well_behaved_host (syscall_handler (sample_env code))"
  by (simp add: sample_env_def failing_host.well_behaved_host_axioms)

text \<open>The engine on a module that traps at once.\<close>

lemma sample_trap:
  "engine_execute (sample_env [Trap c]) [] [] (sample_store l) =
     engine_outcome (module (sample_env [Trap c]))
       (Some (finish_run [] (Some c) (initial_exec 0 (sample_store l))))"
proof -
  have "run_the_loop (sample_env [Trap c]) (initial_exec 0 (sample_store l)) =
      Some (Finished (Some c, initial_exec 0 (sample_store l)))"
    by (subst run_the_loop.simps)
      (simp add: exec_step_def fetch_def step_def visit_trap_code_def initial_exec_def sample_env_def)
  then show ?thesis
    by (simp add: engine_execute_def exec_run_def sample_env_def Let_def sync_sp_def reload_sp_def
        sync_stack_ptr_def on_stack_def stack_of_def set_stack_def initial_exec_def value_stack_default_def
        stack_reserve_def stack_capacity_def)
qed

text \<open>C13 (invariant): one instruction of any kind keeps the executor state well formed: the
  memory and the tables within their limits, the fuel account within its limit, the stack
  pointer within the allocated cells, and at most 1024 return addresses. It holds for every
  host whose handler keeps the store and the account.\<close>
theorem step_preserves_vm_wf:
  assumes "well_behaved_host (syscall_handler env)" and "vm_wf s" and "exec_step env s = Some fl"
  shows "vm_wf (flow_state fl)"
  using assms by (auto intro: evolves_vm_wf well_behaved_host.exec_step_evolves)

lemma step_preserves_vm_wf_witness:
  "vm_wf (flow_state (Trapped UnreachableCodeReached (initial_exec 0 (sample_store 9))))"
  by (rule step_preserves_vm_wf [of "sample_env [Unreachable]" "initial_exec 0 (sample_store 9)",
        OF sample_host initial_exec_wf [OF sample_store_wf]])
    (simp add: exec_step_def fetch_def step_def Interpreter.visit_unreachable_def sample_env_def initial_exec_def)

text \<open>C14 (safety): whatever a module does, an execution that finishes (returned or trapped)
  leaves a well-formed store, with the same fuel limit and an account that has not
  decreased.\<close>
theorem execute_keeps_store:
  assumes "well_behaved_host (syscall_handler env)" and "store_wf st"
    and "engine_execute env params result st = Some (Finished (c, vs, st'))"
  shows "store_wf st' \<and> fuel_limit st' = fuel_limit st \<and> consumed_fuel st \<le> consumed_fuel st'"
  using well_behaved_host.engine_execute_evolves [OF assms(1) refl assms(3)] assms(2)
  by (simp add: store_evolves_def)

lemma execute_keeps_store_witness:
  "store_wf ((sample_store 9)\<lparr>last_signature := None\<rparr>)"
  by (rule execute_keeps_store [of "sample_env [Trap UnreachableCodeReached]" "sample_store 9" "[]" "[]",
        THEN conjunct1, OF sample_host sample_store_wf])
    (simp add: sample_trap engine_outcome_def finish_run_def halted_state_def initial_exec_def)

text \<open>C15 (roundtrip): an interrupted execution is resumed where it stopped: the engine stores
  the module, the return addresses, the instruction pointer and the value stack, and resuming
  runs the executor in exactly the state it was interrupted in, with the context taken out of
  the store.\<close>
theorem interrupt_resume:
  assumes "exec_run env params result (initial_exec (int (unat (source_pc (module env)))) st) =
      Some (Finished (Some InterruptionCalled, vs, s))"
  shows "\<exists>st'. engine_execute env params result st =
           Some (Finished (Some InterruptionCalled, vs, st')) \<and>
         (\<forall>params' result'. engine_resume env params' result' st' =
            engine_outcome (module env)
              (exec_run env params' result' (s\<lparr>store := (store s)\<lparr>resumable_context := None\<rparr>\<rparr>)))"
proof (intro exI conjI allI)
  show "engine_execute env params result st =
      Some (Finished (Some InterruptionCalled, vs, remember_context (module env) s))"
    using assms by (simp add: engine_execute_def engine_outcome_def)
  have "stack_ptr (vstack s) = sp s"
    by (rule interrupted_stack_synced [OF assms])
  then have "\<lparr>vstack = sync_stack_ptr (sp s) (vstack s), sp = sp s, call_stack = call_stack s, ip = ip s,
      store = (remember_context (module env) s)\<lparr>resumable_context := None\<rparr>\<rparr> =
      s\<lparr>store := (store s)\<lparr>resumable_context := None\<rparr>\<rparr>"
    by (simp add: sync_stack_ptr_def remember_context_def)
  then show "engine_resume env params' result' (remember_context (module env) s) =
      engine_outcome (module env)
        (exec_run env params' result' (s\<lparr>store := (store s)\<lparr>resumable_context := None\<rparr>\<rparr>))"
    for params' result'
    by (simp add: engine_resume_def remember_context_def sync_stack_ptr_def)
qed

lemma interrupt_resume_witness:
  "\<exists>st'. engine_execute (sample_env [Trap InterruptionCalled]) [] [] (sample_store 9) =
     Some (Finished (Some InterruptionCalled, [], st'))"
proof -
  let ?env = "sample_env [Trap InterruptionCalled]"
  have "run_the_loop ?env (initial_exec 0 (sample_store 9)) =
      Some (Finished (Some InterruptionCalled, initial_exec 0 (sample_store 9)))"
    by (subst run_the_loop.simps)
      (simp add: exec_step_def fetch_def step_def visit_trap_code_def initial_exec_def sample_env_def)
  then have "exec_run ?env [] [] (initial_exec (int (unat (source_pc (module ?env)))) (sample_store 9)) =
      Some (Finished (Some InterruptionCalled, [], initial_exec 0 (sample_store 9)))"
    by (simp add: exec_run_def sample_env_def Let_def sync_sp_def reload_sp_def
        sync_stack_ptr_def on_stack_def stack_of_def set_stack_def initial_exec_def value_stack_default_def
        stack_reserve_def stack_capacity_def finish_run_def)
  from interrupt_resume [OF this] show ?thesis by blast
qed

text \<open>C16 (bounds): the context an interrupted execution leaves in the store is bounded: at most
  1024 return addresses, a stack pointer within the allocation, and at most 16384 cells.\<close>
theorem interrupted_context_bounds:
  assumes "well_behaved_host (syscall_handler env)"
    and "engine_execute env params result st = Some (Finished (Some InterruptionCalled, vs, st'))"
  shows "\<exists>ctx. resumable_context st' = Some ctx \<and> ctx_module ctx = module env \<and>
    length (ctx_call_stack ctx) \<le> 1024 \<and>
    stack_ptr (ctx_value_stack ctx) \<le> length (entries (ctx_value_stack ctx)) \<and>
    length (entries (ctx_value_stack ctx)) \<le> 16384"
  using well_behaved_host.interrupted_context [OF assms(1) refl assms(2)]
  by (simp add: N_MAX_RECURSION_DEPTH_def N_MAX_STACK_SIZE_def stack_capacity_def)

lemma interrupted_context_bounds_witness:
  "\<exists>ctx. resumable_context (remember_context (module (sample_env [Trap InterruptionCalled]))
      (sync_sp (initial_exec 0 (sample_store 9)))) = Some ctx \<and> length (ctx_call_stack ctx) \<le> 1024"
proof -
  have "engine_execute (sample_env [Trap InterruptionCalled]) [] [] (sample_store 9) =
     Some (Finished (Some InterruptionCalled, [], remember_context (module (sample_env [Trap InterruptionCalled]))
      (sync_sp (initial_exec 0 (sample_store 9)))))"
    by (simp add: sample_trap engine_outcome_def finish_run_def)
  from interrupted_context_bounds [OF sample_host this] show ?thesis by blast
qed

section \<open>Memory and tables through the lowered routines\<close>

text \<open>C17 (functional): the lowerings of the seven 64-bit loads read the WebAssembly value (eight
  bytes, or one, two or four bytes extended with or without sign) at the 33-bit sum of address
  and offset, or trap with \<open>MemoryOutOfBounds\<close> and read nothing.\<close>
theorem i64_loads_execute:
  assumes "store_wf st"
  shows "engine_execute (program (op_i64_load off) env) [I32 a] [I64 x] st =
      Some (Finished (load_result st [I64 x] (wasm_load 8 from_le_bytes (memory_of st) a off)))
    \<and> engine_execute (program (op_i64_load8_s off) env) [I32 a] [I64 x] st =
      Some (Finished (load_result st [I64 x] (wasm_load 1 (\<lambda>bs. scast (from_le_bytes bs :: u8)) (memory_of st) a off)))
    \<and> engine_execute (program (op_i64_load8_u off) env) [I32 a] [I64 x] st =
      Some (Finished (load_result st [I64 x] (wasm_load 1 (\<lambda>bs. ucast (from_le_bytes bs :: u8)) (memory_of st) a off)))
    \<and> engine_execute (program (op_i64_load16_s off) env) [I32 a] [I64 x] st =
      Some (Finished (load_result st [I64 x] (wasm_load 2 (\<lambda>bs. scast (from_le_bytes bs :: u16)) (memory_of st) a off)))
    \<and> engine_execute (program (op_i64_load16_u off) env) [I32 a] [I64 x] st =
      Some (Finished (load_result st [I64 x] (wasm_load 2 (\<lambda>bs. ucast (from_le_bytes bs :: u16)) (memory_of st) a off)))
    \<and> engine_execute (program (op_i64_load32_s off) env) [I32 a] [I64 x] st =
      Some (Finished (load_result st [I64 x] (wasm_load 4 (\<lambda>bs. scast (from_le_bytes bs :: u32)) (memory_of st) a off)))
    \<and> engine_execute (program (op_i64_load32_u off) env) [I32 a] [I64 x] st =
      Some (Finished (load_result st [I64 x] (wasm_load 4 (\<lambda>bs. ucast (from_le_bytes bs :: u32)) (memory_of st) a off)))"
  by (intro conjI program_i64_load [OF assms]
      program_loaded [OF op_i64_load8_s_correct [OF store_wf_memory [OF assms]]]
      program_loaded [OF op_i64_load8_u_correct [OF store_wf_memory [OF assms]]]
      program_loaded [OF op_i64_load16_s_correct [OF store_wf_memory [OF assms]]]
      program_loaded [OF op_i64_load16_u_correct [OF store_wf_memory [OF assms]]]
      program_loaded [OF op_i64_load32_s_correct [OF store_wf_memory [OF assms]]]
      program_loaded [OF op_i64_load32_u_correct [OF store_wf_memory [OF assms]]])
    (simp_all add: msh_memory)

lemma i64_loads_execute_witness:
  "engine_execute (program (op_i64_load 4) (sample_env [])) [I32 7] [I64 0] (sample_store 9) =
     Some (Finished (Some MemoryOutOfBounds, [I64 0], sample_store 9))"
  using i64_loads_execute [OF sample_store_wf, of 4 "sample_env []" 7 0 9]
  by (simp add: load_result_def wasm_load_def in_memory_def memory_of_def sample_store_def)

text \<open>C18 (functional): the lowerings of the four 64-bit stores write the little-endian bytes of
  the operand (or its low one, two or four bytes), or trap with \<open>MemoryOutOfBounds\<close> and leave
  the memory unchanged: a store that is out of bounds only with its upper half writes nothing.\<close>
theorem i64_stores_execute:
  assumes "store_wf st"
  shows "engine_execute (program (op_i64_store off) env) [I32 a, I64 v] [] st =
      Some (Finished (store_result st (wasm_store (to_le_bytes 8 v) (memory_of st) a off)))
    \<and> engine_execute (program (op_i64_store8 off) env) [I32 a, I64 v] [] st =
      Some (Finished (store_result st (wasm_store (to_le_bytes 1 (ucast v :: u8)) (memory_of st) a off)))
    \<and> engine_execute (program (op_i64_store16 off) env) [I32 a, I64 v] [] st =
      Some (Finished (store_result st (wasm_store (to_le_bytes 2 (ucast v :: u16)) (memory_of st) a off)))
    \<and> engine_execute (program (op_i64_store32 off) env) [I32 a, I64 v] [] st =
      Some (Finished (store_result st (wasm_store (to_le_bytes 4 (lo32 v)) (memory_of st) a off)))"
  by (intro conjI program_i64_store [OF assms]
      program_stored [OF op_i64_store_small_correct(1) [OF store_wf_memory [OF assms]]]
      program_stored [OF op_i64_store_small_correct(2) [OF store_wf_memory [OF assms]]]
      program_stored [OF op_i64_store_small_correct(3) [OF store_wf_memory [OF assms]]])
    (simp_all add: msh_memory)

lemma i64_stores_execute_witness:
  "engine_execute (program (op_i64_store 0) (sample_env [])) [I32 7, I64 3] [] (sample_store 9) =
     Some (Finished (Some MemoryOutOfBounds, [], sample_store 9))"
  using i64_stores_execute [OF sample_store_wf, of 0 "sample_env []" 7 3 9]
  by (simp add: store_result_def wasm_store_def in_memory_def memory_of_def sample_store_def)

text \<open>C19 (roundtrip): after a completed 64-bit store, the 64-bit load at the same address and
  offset returns the stored value, and a load of any width that does not overlap the eight
  bytes returns what it returned before.\<close>
theorem i64_store_load:
  assumes wf: "store_wf st" and wf': "store_wf st'"
    and store: "engine_execute (program (op_i64_store off) env) [I32 a, I64 v] [] st =
      Some (Finished (None, [], st'))"
  shows "engine_execute (program (op_i64_load off) env) [I32 a] [I64 x] st' =
      Some (Finished (None, [I64 v], st')) \<and>
    (unat off' + unat a' + n \<le> unat off + unat a \<or> unat off + unat a + 8 \<le> unat off' + unat a' \<longrightarrow>
      wasm_load n f (memory_of st') a' off' = wasm_load n f (memory_of st) a' off')"
proof -
  obtain mem' where mem': "wasm_store (to_le_bytes 8 v) (memory_of st) a off = Inr mem'"
    "st' = with_memory mem' st"
    using store program_i64_store [OF wf, of off env a v]
    by (auto simp: store_result_def split: sum.splits)
  then have "memory_of st' = mem'" by (simp add: memory_of_def with_memory_def)
  then show ?thesis
    using wasm_load_after_store [OF mem'(1)] wasm_load_disjoint [OF mem'(1)]
      program_i64_load [OF wf', of off env a x]
    by (simp add: load_result_def)
qed

definition sample_page :: "unit store" where
  "sample_page = (sample_store 9)\<lparr>global_memory := \<lparr>shared_memory = replicate 65536 0,
     current_pages = 1, max_allowed_memory_pages = 1\<rparr>\<rparr>"

lemma sample_page_wf: "store_wf sample_page"
  by (simp add: store_wf_def memory_wf_def fuel_wf_def sample_page_def sample_store_def
      bytes_per_page_def N_MAX_ALLOWED_MEMORY_PAGES_def)

lemma i64_store_load_witness:
  "engine_execute (program (op_i64_load 0) (sample_env [])) [I32 16] [I64 0]
     (with_memory (overwrite (replicate 65536 0) 16 (to_le_bytes 8 (258 :: u64))) sample_page) =
   Some (Finished (None, [I64 258],
     with_memory (overwrite (replicate 65536 0) 16 (to_le_bytes 8 (258 :: u64))) sample_page))"
proof (rule i64_store_load [OF sample_page_wf, THEN conjunct1])
  show "store_wf (with_memory (overwrite (replicate 65536 0) 16 (to_le_bytes 8 (258 :: u64))) sample_page)"
    using sample_page_wf by (simp add: store_wf_def memory_wf_def with_memory_def sample_page_def fuel_wf_def
        sample_store_def)
  show "engine_execute (program (op_i64_store 0) (sample_env [])) [I32 16, I64 258] [] sample_page =
      Some (Finished (None, [], with_memory (overwrite (replicate 65536 0) 16 (to_le_bytes 8 (258 :: u64))) sample_page))"
    by (subst program_i64_store [OF sample_page_wf])
      (simp add: store_result_def wasm_store_def in_memory_def memory_of_def sample_page_def)
qed

text \<open>C20 (functional): the checked \<open>memory.grow\<close> with a maximum of at most 65536 pages and a delta
  below \<open>2 ^ 30\<close>: when the sum of the pages is above the maximum it returns \<open>-1\<close> without a charge.
  Otherwise it charges the bytes of the new pages, a product modulo \<open>2 ^ 32\<close> (so the only delta it
  falsifies is 65536 pages, which is free), shifted by the rate, and traps with \<open>OutOfFuel\<close> when
  they are not covered. Then it returns the old number of pages, with zeros behind the old bytes,
  or \<open>-1\<close> with the charge kept when the memory's own limit is exceeded.\<close>
theorem memory_grow_checked_executes:
  assumes "store_wf st" and "unat d < 2 ^ 30" and "unat mx \<le> 65536"
  shows "engine_execute (program (op_memory_grow_checked fp (Some mx) True) env) [I32 d] [I32 x] st =
    Some (Finished (words_outcome [x] (let g = global_memory st in
      if unat (current_pages g) + unat d > unat mx then Inr (st, [- 1])
      else paying True (65536 * unat d mod 2 ^ 32 div 2 ^ (unat (memory_bytes_per_fuel_log2 fp) mod 32)) st (\<lambda>st'.
        if unat (current_pages g) + unat d \<le> unat (max_allowed_memory_pages g)
        then Inr (st'\<lparr>global_memory := g\<lparr>shared_memory := shared_memory g @ replicate (65536 * unat d) 0,
               current_pages := current_pages g + d\<rparr>\<rparr>, [current_pages g])
        else Inr (st', [- 1])))))"
proof -
  have wf: "memory_wf (global_memory st)" using assms(1) by (simp add: store_wf_def)
  note run = op_memory_grow_checked_correct [OF wf assms(2,3)]
  have "engine_execute (program (op_memory_grow_checked fp (Some mx) True) env) [I32 d] [I32 x] st =
    Some (Finished (words_outcome [x] (grow_checked (memory_bytes_per_fuel_log2 fp) mx d st)))"
    by (rule program_words [of "op_memory_grow_checked fp (Some mx) True" env MSH_MEMORY_GROW_CHECKED st "[d]" _ "[x]",
          simplified list.map, OF _ _ grow_checked_shape])
      (simp_all add: run, simp add: checked_msh)
  then show ?thesis unfolding grow_checked_spec [OF wf assms(3)] Let_def .
qed

definition sample_policy :: fuel_policy where
  "sample_policy = \<lparr>memory_bytes_per_fuel = 64, memory_bytes_per_fuel_log2 = 6, table_elems_per_fuel = 16,
     table_elems_per_fuel_log2 = 4, fuel_max_linear_x = 0, fuel_max_quadratic_x = 0, cost_base = 1,
     cost_entity = 1, cost_load = 1, cost_store = 1, cost_call = 1, fuel_for_locals = \<lambda>n. n,
     fuel_for_drop_keep = \<lambda>d k. 1\<rparr>"

lemma sample_rates: "power_of_two_rate (memory_bytes_per_fuel sample_policy) (memory_bytes_per_fuel_log2 sample_policy)"
  "power_of_two_rate (table_elems_per_fuel sample_policy) (table_elems_per_fuel_log2 sample_policy)"
  by (simp_all add: power_of_two_rate_def sample_policy_def push_bit_eq_mult)

lemma memory_grow_checked_executes_witness:
  "engine_execute (program (op_memory_grow_checked sample_policy (Some 1) True) (sample_env [])) [I32 1] [I32 0]
     ((sample_store 9000)\<lparr>global_memory := \<lparr>shared_memory = [], current_pages = 0, max_allowed_memory_pages = 1\<rparr>\<rparr>) =
   Some (Finished (None, [I32 0], (sample_store 9000)\<lparr>consumed_fuel := 1024,
     global_memory := \<lparr>shared_memory = replicate 65536 0, current_pages = 1, max_allowed_memory_pages = 1\<rparr>\<rparr>))"
proof -
  let ?st = "(sample_store 9000)\<lparr>global_memory := \<lparr>shared_memory = [], current_pages = 0, max_allowed_memory_pages = 1\<rparr>\<rparr>"
  have "store_wf ?st"
    using sample_store_wf [of 9000] by (simp add: store_wf_def memory_wf_def fuel_wf_def sample_store_def N_MAX_ALLOWED_MEMORY_PAGES_def)
  from memory_grow_checked_executes [OF this, of 1 1 sample_policy "sample_env []" 0] show ?thesis
    by (simp add: words_outcome_def paying_def pays_def sample_store_def sample_policy_def Let_def)
qed

text \<open>The comment in the source of the checked growth says the sum of the check and the product of the
  charge cannot overflow. A delta of \<open>2 ^ 31\<close> pages makes the sum negative, so the check lets
  it through, and the charge wraps to zero: it costs nothing and returns \<open>-1\<close> only because
  the instruction itself checks again.\<close>
lemma memory_grow_checked_overflow:
  assumes "store_wf st" and "unat mx \<le> 65536"
  shows "engine_execute (program (op_memory_grow_checked fp (Some mx) True) env) [I32 0x80000000] [I32 x] st =
      Some (Finished (None, [I32 (- 1)], st))
    \<and> i32_gt_s (0x80000000 + current_pages (global_memory st)) mx = 0
    \<and> (0x80000000 :: u32) * N_BYTES_PER_MEMORY_PAGE = 0"
proof (intro conjI)
  have "memory_wf (global_memory st)" "fuel_wf st" using assms by (simp_all add: store_wf_def)
  then show "engine_execute (program (op_memory_grow_checked fp (Some mx) True) env) [I32 0x80000000] [I32 x] st =
      Some (Finished (None, [I32 (- 1)], st))"
    using program_words [of "op_memory_grow_checked fp (Some mx) True" env MSH_MEMORY_GROW_CHECKED st
        "[0x80000000]" "Inr (st, [- 1])" "[x]"] op_memory_grow_checked_wraps [of st mx] assms
    by (simp add: words_outcome_def checked_msh)
  show "i32_gt_s (0x80000000 + current_pages (global_memory st)) mx = 0"
    by (rule grow_check_wraps [OF _ assms(2)]) (use assms in \<open>simp add: store_wf_def\<close>)
  show "(0x80000000 :: u32) * N_BYTES_PER_MEMORY_PAGE = 0"
    by (rule grow_charge_wraps)
qed

lemma memory_grow_checked_overflow_witness:
  "engine_execute (program (op_memory_grow_checked sample_policy (Some 1) True) (sample_env [])) [I32 0x80000000]
     [I32 0] (sample_store 9) = Some (Finished (None, [I32 (- 1)], sample_store 9))"
  by (rule memory_grow_checked_overflow [OF sample_store_wf, THEN conjunct1]) simp

text \<open>C21 (functional): the checked \<open>table.grow\<close> with a limit and a delta below \<open>2 ^ 30\<close> and a rate that is a
  power of two: when the sum of the sizes is above the limit it returns \<open>-1\<close> without a charge.
  Otherwise it charges the number of new elements, divided by the rate and rounded up, traps with
  \<open>OutOfFuel\<close> when that is not covered, and returns the old size with that many copies of the initial
  element behind the old ones; a table of more than 1024 elements is refused with \<open>-1\<close> after the
  charge, which is kept.\<close>
theorem table_grow_checked_executes:
  assumes "tables st i = Some t" and "table_wf t" and "unat d < 2 ^ 30" and "unat limit < 2 ^ 30"
    and "power_of_two_rate (table_elems_per_fuel fp) (table_elems_per_fuel_log2 fp)"
  shows "engine_execute (program (op_table_grow_checked fp i (Some limit) True) env) [I32 init, I32 d] [I32 x] st =
    Some (Finished (words_outcome [x]
     (if length t + unat d > unat limit then Inr (st, [- 1])
      else paying True ((unat d + unat (table_elems_per_fuel fp) - 1) div unat (table_elems_per_fuel fp)) st (\<lambda>st.
        if length t + unat d \<le> 1024 then Inr (with_table i (t @ replicate (unat d) init) st, [word_of_nat (length t)])
        else Inr (with_table i t st, [- 1])))))"
proof -
  have "unat (table_elems_per_fuel fp) \<le> 2 ^ 31" "0 < unat (table_elems_per_fuel fp)"
    using unat_rate [OF assms(5)] assms(5) power_increasing [of "unat (table_elems_per_fuel_log2 fp)" 31 "2 :: nat"]
    by (simp_all add: power_of_two_rate_def)
  then have u: "unat (units (table_elems_per_fuel fp) (table_elems_per_fuel_log2 fp) d) =
      (unat d + unat (table_elems_per_fuel fp) - 1) div unat (table_elems_per_fuel fp)"
    using units_are_rounded [OF assms(5), of d] rounded_exact [of d "table_elems_per_fuel fp"] assms(3) by simp
  have "engine_execute (program (op_table_grow_checked fp i (Some limit) True) env) [I32 init, I32 d] [I32 x] st =
    Some (Finished (words_outcome [x] (table_grow_checked
      (units (table_elems_per_fuel fp) (table_elems_per_fuel_log2 fp) d) i limit d init st t)))"
    by (rule program_words [of "op_table_grow_checked fp i (Some limit) True" env MSH_TABLE_GROW_CHECKED st
          "[init, d]" _ "[x]", simplified list.map, OF _ _ table_grow_checked_shape])
      (simp_all add: op_table_grow_checked_correct [OF assms(1-4)], simp add: checked_msh)
  then show ?thesis unfolding table_grow_checked_spec [OF assms(2)] u .
qed

lemma table_grow_checked_executes_witness:
  "engine_execute (program (op_table_grow_checked sample_policy 0 (Some 8) True) (sample_env [])) [I32 7, I32 1]
     [I32 0] ((sample_store 9)\<lparr>tables := [0 \<mapsto> [5]]\<rparr>) =
   Some (Finished (None, [I32 1], (sample_store 9)\<lparr>consumed_fuel := 1, tables := [0 \<mapsto> [5, 7]]\<rparr>))"
  by (subst table_grow_checked_executes [OF _ _ _ _ sample_rates(2), where t = "[5]"])
    (simp_all add: words_outcome_def table_wf_def N_MAX_TABLE_SIZE_def paying_def pays_def with_table_def sample_policy_def
      sample_store_def Let_def)

text \<open>C22 (error): the checked \<open>memory.fill\<close> and \<open>memory.copy\<close> charge first, and trap with \<open>OutOfFuel\<close> before they
  touch the memory: \<open>(n + rate - 1) div rate\<close> units, where the sum is one of 32 bits, so that the
  lengths in the last \<open>rate - 1\<close> places below \<open>2 ^ 32\<close> are free and every other length is rounded up.
  Then they trap with \<open>MemoryOutOfBounds\<close> without a write when a range leaves the memory, with the
  charge kept, and otherwise write exactly the range: the byte, or the bytes of the source range
  as they were before. An operand of \<open>2 ^ 31\<close> or more is extended as a negative number and
  leaves every memory.\<close>
theorem memory_bulk_checked_execute:
  assumes "store_wf st" and "power_of_two_rate (memory_bytes_per_fuel fp) (memory_bytes_per_fuel_log2 fp)"
  shows "let charge = (unat n + unat (memory_bytes_per_fuel fp) - 1) mod 2 ^ 32 div unat (memory_bytes_per_fuel fp) in
    engine_execute (program (op_memory_fill_checked fp inject) env) [I32 d, I32 v, I32 n] [] st =
      Some (Finished (words_outcome [] (paying inject charge st (\<lambda>st.
        if unat d < 2 ^ 31 \<and> unat n < 2 ^ 31 \<and> unat d + unat n \<le> length (memory_of st)
        then Inr (with_memory (overwrite (memory_of st) (unat d) (replicate (unat n) (ucast v))) st, [])
        else Inl (MemoryOutOfBounds, st)))))
    \<and> engine_execute (program (op_memory_copy_checked fp inject) env) [I32 d, I32 v, I32 n] [] st =
      Some (Finished (words_outcome [] (paying inject charge st (\<lambda>st.
        if unat v < 2 ^ 31 \<and> unat d < 2 ^ 31 \<and> unat n < 2 ^ 31 \<and> unat v + unat n \<le> length (memory_of st) \<and>
          unat d + unat n \<le> length (memory_of st)
        then Inr (with_memory (overwrite (memory_of st) (unat d) (take (unat n) (drop (unat v) (memory_of st)))) st, [])
        else Inl (MemoryOutOfBounds, st)))))"
proof -
  have "(in_range v n m \<and> in_range d n m) = (unat v < 2 ^ 31 \<and> unat d < 2 ^ 31 \<and> unat n < 2 ^ 31 \<and> unat v + unat n \<le> length m \<and>
      unat d + unat n \<le> length m)" for m :: "u8 list" by (auto simp: in_range_def)
  then show ?thesis
    using program_memory_fill_spec [OF assms(2) store_wf_memory [OF assms(1)], of inject env d v n]
      program_memory_copy_spec [OF assms(2) store_wf_memory [OF assms(1)], of inject env d v n]
    by (simp only: in_range_def [of d n] rounded_def Let_def simp_thms)
qed

lemma memory_bulk_checked_execute_witness:
  "engine_execute (program (op_memory_fill_checked sample_policy True) (sample_env [])) [I32 16, I32 7, I32 1] []
     sample_page = Some (Finished (None, [], (with_memory (overwrite (replicate 65536 0) 16 [7]) sample_page)\<lparr>consumed_fuel := 1\<rparr>))"
  by (subst memory_bulk_checked_execute [OF sample_page_wf sample_rates(1), unfolded Let_def, THEN conjunct1])
    (simp add: words_outcome_def paying_def pays_def sample_policy_def memory_of_def sample_page_def
        sample_store_def Let_def with_memory_def)

text \<open>C23 (functional): the checked \<open>table.init\<close> of a segment at an offset of the merged element section, on
  operands whose sum stays below \<open>2 ^ 31\<close> and a rate that is a power of two: when the range leaves
  the segment it traps with \<open>TableOutOfBounds\<close> before any charge. Otherwise it charges the length,
  divided by the rate and rounded up, and replaces the range of the table by the elements of the section
  from the segment's offset plus the source offset on, or traps with \<open>TableOutOfBounds\<close> with the
  charge kept and nothing written when the range leaves the table or the section; a dropped segment
  counts as an empty section.\<close>
theorem table_init_checked_executes:
  assumes "E = program (op_table_init_checked fp i j len offset inject) env"
    and "unat n + unat src < 2 ^ 31" and "unat len < 2 ^ 31" and "unat src + unat offset < 2 ^ 32"
    and "power_of_two_rate (table_elems_per_fuel fp) (table_elems_per_fuel_log2 fp)" and "tables st j = Some t"
  shows "engine_execute E [I32 d, I32 src, I32 n] [] st = Some (Finished (words_outcome []
    (let es = if flag_at (empty_elem_segments st) i then [] else elem_section (module env) in
     if unat len < unat n + unat src then Inl (TableOutOfBounds, st)
     else paying inject ((unat n + unat (table_elems_per_fuel fp) - 1) div unat (table_elems_per_fuel fp)) st (\<lambda>st'.
       if unat d + unat n \<le> length t \<and> unat src + unat offset + unat n \<le> length es
       then Inr (with_table j (take (unat d) t @ take (unat n) (drop (unat src + unat offset) es) @ drop (unat d + unat n) t) st', [])
       else Inl (TableOutOfBounds, st')))))"
proof -
  have "unat (table_elems_per_fuel fp) \<le> 2 ^ 31" "0 < unat (table_elems_per_fuel fp)"
    using unat_rate [OF assms(5)] assms(5) power_increasing [of "unat (table_elems_per_fuel_log2 fp)" 31 "2 :: nat"]
    by (simp_all add: power_of_two_rate_def)
  then have u: "rounded (table_elems_per_fuel fp) n = (unat n + unat (table_elems_per_fuel fp) - 1) div unat (table_elems_per_fuel fp)"
    using assms(2) by (intro rounded_exact) simp_all
  have at: "unat (src + offset) = unat src + unat offset" using assms(4) by (simp add: unat_word_ariths)
  define es where "es = live_elements env i st"
  have copied: "(case copied_into t (unat d) es (unat src + unat offset) (unat n) of
         None \<Rightarrow> Inl (TableOutOfBounds, st') | Some t' \<Rightarrow> Inr (with_table j t' st', [])) =
      (if unat d + unat n \<le> length t \<and> unat src + unat offset + unat n \<le> length es
       then Inr (with_table j (take (unat d) t @ take (unat n) (drop (unat src + unat offset) es) @ drop (unat d + unat n) t) st', [])
       else Inl (TableOutOfBounds, st'))" for st' by (simp add: copied_into_def)
  show ?thesis
    using program_table_init_spec [OF assms(1,5,6), of d src n]
    unfolding length_check_small [OF assms(2,3)] u at Let_def live_elements_def [symmetric] es_def [symmetric] copied .
qed

text \<open>A module with two segments of each kind merged into one section: \<open>[10, 11]\<close> and \<open>[20]\<close>.\<close>

definition two_segments :: "unit env" where
  "two_segments = (sample_env [])\<lparr>module := (module (sample_env []))\<lparr>elem_section := [10, 11, 20], data_section := [10, 11, 20]\<rparr>\<rparr>"

definition sample_table :: "unit store" where
  "sample_table = (sample_store 9)\<lparr>tables := [0 \<mapsto> [0]]\<rparr>"

lemma table_init_checked_executes_witness:
  "engine_execute (program (op_table_init_checked sample_policy 1 0 1 2 True) two_segments)
     [I32 0, I32 0, I32 1] [] sample_table = Some (Finished (None, [], (with_table 0 [20] sample_table)\<lparr>consumed_fuel := 1\<rparr>))"
  using table_init_checked_executes [OF refl _ _ _ sample_rates(2), of 1 0 1 2 sample_table 0 "[0]" 1 True two_segments 0]
  by (simp add: words_outcome_def paying_def pays_def sample_table_def sample_policy_def
      sample_store_def flag_at_def two_segments_def sample_env_def with_table_def Let_def)

text \<open>C24 (safety): a finding. The length check of the two checked \<open>init\<close> routines adds the operands with
  wrap-around and compares the sum as a signed number. A source offset of \<open>2 ^ 32 - k\<close> with a length of at
  most \<open>k\<close> passes it for every segment length below \<open>2 ^ 31\<close>, although the range is outside of the segment,
  and the rewritten offset is \<open>k\<close> places before the segment: for every segment at an offset of at least
  \<open>k\<close> the instruction copies elements (bytes) of the segments before it where WebAssembly requires a
  trap.\<close>
theorem init_checked_reads_previous_segment:
  fixes env :: "'h env" and st :: "'h store"
  assumes "0 < unat n" "unat n \<le> unat k" "unat k \<le> unat offset" "unat offset < 2 ^ 31" "0 < len" "unat len < 2 ^ 31"
  shows "unat len < unat (- k) + unat n \<and>
   (power_of_two_rate (table_elems_per_fuel fp) (table_elems_per_fuel_log2 fp) \<longrightarrow> tables st j = Some t \<longrightarrow>
     unat d + unat n \<le> length t \<longrightarrow> \<not> flag_at (empty_elem_segments st) i \<longrightarrow> unat offset \<le> length (elem_section (module env)) \<longrightarrow>
     engine_execute (program (op_table_init_checked fp i j len offset inject) env) [I32 d, I32 (- k), I32 n] [] st =
     Some (Finished (words_outcome [] (paying inject (rounded (table_elems_per_fuel fp) n) st (\<lambda>st'.
       Inr (with_table j (take (unat d) t @ take (unat n) (drop (unat offset - unat k) (elem_section (module env))) @
          drop (unat d + unat n) t) st', []))))))
   \<and> (power_of_two_rate (memory_bytes_per_fuel fp) (memory_bytes_per_fuel_log2 fp) \<longrightarrow> store_wf st \<longrightarrow>
     unat d < 2 ^ 31 \<longrightarrow> unat d + unat n \<le> length (memory_of st) \<longrightarrow> \<not> flag_at (empty_data_segments st) i \<longrightarrow>
     unat offset \<le> length (data_section (module env)) \<longrightarrow> length (data_section (module env)) \<le> 2 ^ 32 \<longrightarrow>
     engine_execute (program (op_memory_init_checked fp (Some offset) (Some len) i inject) env) [I32 d, I32 (- k), I32 n] [] st =
     Some (Finished (words_outcome [] (paying inject (rounded (memory_bytes_per_fuel fp) n) st (\<lambda>st'.
       Inr (with_memory (overwrite (memory_of st) (unat d)
         (take (unat n) (drop (unat offset - unat k) (data_section (module env))))) st', []))))))"
proof -
  have k: "unat k < 2 ^ 31" "unat (- k) = 2 ^ 32 - unat k" "unat (- k + offset) = unat offset - unat k"
  proof -
    show "unat k < 2 ^ 31" using assms(3,4) by simp
    show "unat (- k) = 2 ^ 32 - unat k" using assms(1,2) unat_sub_if' [of 0 k] by (auto simp: word_le_nat_alt)
    have "- k + offset = offset - k" by simp
    then show "unat (- k + offset) = unat offset - unat k" using assms(3) by (simp add: unat_sub word_le_nat_alt)
  qed
  have check: "i32_gt_s (n + - k) len = 0" by (rule length_check_negative [OF assms(2) k(1) assms(6)])
  have out: "unat len < unat (- k) + unat n" using k(1,2) assms(6) by simp
  show ?thesis
  proof (intro conjI impI)
    assume a: "power_of_two_rate (table_elems_per_fuel fp) (table_elems_per_fuel_log2 fp)" "tables st j = Some t"
      "unat d + unat n \<le> length t" "\<not> flag_at (empty_elem_segments st) i" "unat offset \<le> length (elem_section (module env))"
    have "copied_into t (unat d) (live_elements env i st) (unat (- k + offset)) (unat n) =
        Some (take (unat d) t @ take (unat n) (drop (unat offset - unat k) (elem_section (module env))) @ drop (unat d + unat n) t)"
      using a(3-5) assms(2,3) k(3) by (simp add: copied_into_def live_elements_def)
    with program_table_init_spec [OF refl a(1,2), of i len offset inject env d "- k" n]
    show "engine_execute (program (op_table_init_checked fp i j len offset inject) env) [I32 d, I32 (- k), I32 n] [] st =
     Some (Finished (words_outcome [] (paying inject (rounded (table_elems_per_fuel fp) n) st (\<lambda>st'.
       Inr (with_table j (take (unat d) t @ take (unat n) (drop (unat offset - unat k) (elem_section (module env))) @
          drop (unat d + unat n) t) st', [])))))"
      by (simp add: check [simplified])
  next
    assume a: "power_of_two_rate (memory_bytes_per_fuel fp) (memory_bytes_per_fuel_log2 fp)" "store_wf st"
      "unat d < 2 ^ 31" "unat d + unat n \<le> length (memory_of st)" "\<not> flag_at (empty_data_segments st) i"
      "unat offset \<le> length (data_section (module env))" "length (data_section (module env)) \<le> 2 ^ 32"
    have "in_range d n (memory_of st)" "in_range (- k + offset) n (live_bytes env i st)"
      using a(3-7) assms(2-4) k(1,3) by (auto simp: in_range_def live_bytes_def)
    with program_memory_init_spec [OF refl a(1) assms(5) store_wf_memory [OF a(2)] a(7), of offset i inject d "- k" n]
    show "engine_execute (program (op_memory_init_checked fp (Some offset) (Some len) i inject) env) [I32 d, I32 (- k), I32 n] [] st =
     Some (Finished (words_outcome [] (paying inject (rounded (memory_bytes_per_fuel fp) n) st (\<lambda>st'.
       Inr (with_memory (overwrite (memory_of st) (unat d)
         (take (unat n) (drop (unat offset - unat k) (data_section (module env))))) st', [])))))"
      using a(5) k(3) by (simp add: check [simplified] live_bytes_def)
  qed (rule out)
qed

lemma init_checked_reads_previous_segment_witness:
  "engine_execute (program (op_table_init_checked sample_policy 1 0 1 2 True) two_segments)
     [I32 0, I32 (- 1), I32 1] [] sample_table =
     Some (Finished (None, [], (with_table 0 [11] sample_table)\<lparr>consumed_fuel := 1\<rparr>)) \<and>
   engine_execute (program (op_memory_init_checked sample_policy (Some 2) (Some 1) 1 True) two_segments)
     [I32 0, I32 (- 1), I32 1] [] sample_page =
     Some (Finished (None, [], (with_memory (overwrite (replicate 65536 0) 0 [11]) sample_page)\<lparr>consumed_fuel := 1\<rparr>))"
proof (rule conjI)
  note finding = init_checked_reads_previous_segment [of 1 1 2 1, THEN conjunct2]
  note eval = words_outcome_def paying_def pays_def rounded_def sample_policy_def sample_store_def flag_at_def
    two_segments_def sample_env_def Let_def
  show "engine_execute (program (op_table_init_checked sample_policy 1 0 1 2 True) two_segments)
     [I32 0, I32 (- 1), I32 1] [] sample_table =
     Some (Finished (None, [], (with_table 0 [11] sample_table)\<lparr>consumed_fuel := 1\<rparr>))"
    by (subst finding [THEN conjunct1, rule_format, OF _ _ _ _ _ _ sample_rates(2), where t = "[0]"])
      (simp_all add: sample_table_def with_table_def eval)
  show "engine_execute (program (op_memory_init_checked sample_policy (Some 2) (Some 1) 1 True) two_segments)
     [I32 0, I32 (- 1), I32 1] [] sample_page =
     Some (Finished (None, [], (with_memory (overwrite (replicate 65536 0) 0 [11]) sample_page)\<lparr>consumed_fuel := 1\<rparr>))"
    by (subst finding [THEN conjunct2, rule_format, OF _ _ _ _ _ _ sample_rates(1) sample_page_wf])
      (simp_all add: sample_page_def memory_of_def with_memory_def eval)
qed

section \<open>Steps, host calls, fuel and the linker\<close>

text \<open>C25 (refinement): the interpreter implements the abstract machine on live words: whenever the
  cells below the stack pointer hold the words \<open>s\<close> (top first) with \<open>r\<close> free cells above, the
  next instruction does what \<open>local_step\<close> says (new words, new store, branch distance, or
  the trap), and changes neither the return addresses nor anything else.\<close>
theorem step_refines_local_step:
  assumes "repr (stack_of x) s r" and "fetch (code_section (module env)) (ip x) = Some op"
  shows "case local_step op (store x) s r of
      Goto d st s' r' \<Rightarrow>
        \<exists>m. repr m s' r' \<and> exec_step env x = Some (Next ((set_stack m x)\<lparr>ip := ip x + d, store := st\<rparr>))
    | Trapping t st \<Rightarrow>
        \<exists>x'. exec_step env x = Some (Trapped t x') \<and> store x' = st \<and> call_stack x' = call_stack x
    | Outside \<Rightarrow> True"
  using exec_step_follows [OF assms]
  by (auto simp: follows_def moved_def split: local_result.splits)

lemma step_refines_local_step_witness:
  "\<exists>m. repr m [7] 31 \<and> exec_step (sample_env [I32Const 7]) (initial_exec 0 (sample_store 9)) =
     Some (Next ((set_stack m (initial_exec 0 (sample_store 9)))\<lparr>ip := 1, store := sample_store 9\<rparr>))"
  using step_refines_local_step [of "initial_exec 0 (sample_store 9)" "[]" 32 "sample_env [I32Const 7]" "I32Const 7"]
    repr_default
  by (simp add: local_step_def pushed_def initial_exec_def stack_of_def sample_env_def fetch_def
      value_stack_default_def)

text \<open>C26 (roundtrip): typed values pushed for a call are popped unchanged, whatever their types
  and widths, and the stack below is as before: \<open>push_value\<close> writes the low word of a 64-bit
  value first and \<open>pop_value\<close> reads the high word first.\<close>
theorem push_then_pop_values:
  assumes "repr m s (length (vals_words vs) + r)" and "map val_ty ws = map val_ty vs"
  shows "\<exists>m1 m2. push_values vs m = Some m1 \<and> pop_results ws m1 = Some (vs, m2) \<and>
    repr m2 s (length (vals_words vs) + r)"
  using push_values_ok [OF assms(1)] pop_results_ok [OF _ assms(2)] by (fastforce simp: add.commute)

lemma push_then_pop_values_witness:
  "\<exists>m1 m2. push_values [I32 1, I64 2] (entries value_stack_default, 0) = Some m1 \<and>
     pop_results [I32 0, I64 0] m1 = Some ([I32 1, I64 2], m2) \<and> repr m2 [] 32"
  using push_then_pop_values [of "(entries value_stack_default, 0)" "[]" "[I32 1, I64 2]" 29 "[I32 0, I64 0]"]
    repr_default
  by (simp add: val_words_def val_ty_def)

text \<open>C27 (functional): the parameters of a host call. The loop pops the declared types from the
  first to the last, starting at the top of the stack, so it hands the host the values the
  guest pushed when the declared list equals its reverse; for \<open>(i64, i32)\<close> it does not: the host
  gets an \<open>i32\<close> and an \<open>i64\<close> assembled from the words of both values.\<close>
theorem syscall_parameters:
  "(repr m (rev (vals_words vs) @ s) r \<and> map val_ty (rev vs) = params \<longrightarrow>
     (\<exists>m'. pop_params params [] m = Some (vs, m') \<and> repr m' s (r + length (vals_words vs)))) \<and>
   (repr m (rev (vals_words [I64 a, I32 b]) @ s) r \<longrightarrow>
     (\<exists>m'. pop_params [TI64, TI32] [] m = Some ([I32 (lo32 a), I64 (join64 b (hi32 a))], m')))"
  using pop_params_ok [of m vs s r "[]"] pop_params_mixed [of m a b s r] by auto

lemma syscall_parameters_witness:
  "\<exists>m'. pop_params [TI32, TI32] [] ([1, 2], 2) = Some ([I32 1, I32 2], m') \<and> repr m' [] 2"
  using syscall_parameters [of "([1, 2], 2)" "[I32 1, I32 2]" "[]" 0 "[TI32, TI32]" 0 0]
  by (simp add: val_words_def val_ty_def repr_def numeral_2_eq_2)

text \<open>C28 (functional): what \<open>data.drop\<close> does to the flags of dropped segments, given that \<open>resize\<close>
  truncates or extends the vector: it sets its own flag and keeps the lower ones, but every
  higher flag is lost, so dropping a lower segment revives the higher ones dropped before.\<close>
theorem data_drop_flags:
  assumes "bitvec_resize env = vec_resize"
  shows "\<exists>s'. Executor.visit_data_drop env i s = Some (Next s') \<and>
    (\<forall>k. flag_at (empty_data_segments (store s')) k \<longleftrightarrow>
       k = i \<or> k < i \<and> flag_at (empty_data_segments (store s)) k)"
proof -
  let ?flags = "(vec_resize (unat i + 1) False (empty_data_segments (store s)))[unat i := True]"
  have "flag_at ?flags k \<longleftrightarrow> k = i \<or> k < i \<and> flag_at (empty_data_segments (store s)) k" for k
    by (auto simp: flag_at_def nth_list_update nth_vec_resize word_less_nat_alt less_Suc_eq word_unat_eq_iff)
  then show ?thesis
    by (intro exI [of _ "(s\<lparr>store := (store s)\<lparr>empty_data_segments := ?flags\<rparr>\<rparr>)\<lparr>ip := ip s + 1\<rparr>"])
      (simp add: Executor.visit_data_drop_def mark_dropped_def assms next_instr_def ip_add_def Let_def)
qed

lemma data_drop_flags_witness:
  "\<exists>s'. Executor.visit_data_drop (sample_env []) 0
     (initial_exec 0 ((sample_store 9)\<lparr>empty_data_segments := [False, True]\<rparr>)) = Some (Next s') \<and>
     \<not> flag_at (empty_data_segments (store s')) 1"
  using data_drop_flags [of "sample_env []" 0
      "initial_exec 0 ((sample_store 9)\<lparr>empty_data_segments := [False, True]\<rparr>)"]
  by (auto simp: sample_env_def)

text \<open>C29 (bounds): a list of charges on a store with a limit below \<open>u64::MAX\<close>: it succeeds exactly
  when the sum (as a number, without wrap-around) is at most the fuel left, then the fuel left
  is the difference; otherwise it ends with \<open>OutOfFuel\<close>.\<close>
theorem fuel_charges:
  assumes "fuel_metered st"
  shows "if sum_list (map unat ds) \<le> fuel_left st
    then \<exists>st'. store_fuel.charge_all ds st = Inr st' \<and> fuel_metered st' \<and>
           fuel_left st' = fuel_left st - sum_list (map unat ds)
    else store_fuel.charge_all ds st = Inl OutOfFuel"
  using store_fuel.charge_all_ok [OF assms] store_fuel.charge_all_refused [OF assms] by auto

lemma sample_metered: "fuel_metered (sample_store 9)" "fuel_left (sample_store 9) = 9"
  by (simp_all add: fuel_metered_def fuel_wf_def fuel_left_def remaining_fuel_def sample_store_def
      saturating_sub_def)

lemma fuel_charges_witness:
  "store_fuel.charge_all [4, 7] (sample_store 9) = Inl OutOfFuel"
  using fuel_charges [OF sample_metered(1), of "[4, 7]"] sample_metered(2)
  by (simp del: store_fuel.charge_all.simps)

text \<open>C30 (invariant): lookups in the import linker. Every linker built by insertions keeps its name
  and index tables consistent with the entities; after an insertion the new name and the new
  index resolve to the new entity and every other lookup is unchanged; and an index resolves
  to an entity exactly when that entity, with that index, is registered.\<close>
theorem linker_lookup:
  assumes "linker_from arr = Some l"
  shows "linker_wf l \<and>
    (\<forall>n e l'. insert_entity n e l = Some l' \<longrightarrow>
       (\<forall>n'. resolve_by_import_name n' l' = (if n' = n then Some e else resolve_by_import_name n' l)) \<and>
       (\<forall>k. resolve_by_func_idx k l' = (if k = sys_func_idx e then Some e else resolve_by_func_idx k l))) \<and>
    (\<forall>k e. resolve_by_func_idx k l = Some e \<longleftrightarrow> e \<in> set (entities_of l) \<and> sys_func_idx e = k)"
proof -
  have "linker_wf (linker_default :: 'a import_linker)"
    by (simp add: linker_wf_def linker_default_def)
  then have wf: "linker_wf l"
    using assms by (auto simp: linker_from_def intro: insert_all_wf)
  then show ?thesis
    using resolve_after_insert [OF wf] resolve_by_func_idx_key [OF wf] resolve_by_func_idx_member [OF wf]
    by blast
qed

lemma linker_lookup_witness:
  "linker_wf (\<lparr>entities_of = [], name_to_entity = [], idx_to_entity = []\<rparr> :: unit import_linker)"
  by (rule linker_lookup [of "[]", THEN conjunct1]) (simp add: linker_from_def linker_default_def)

text \<open>C31 (functional): the code of a branch that drops and keeps values, run by the engine: of the
  words \<open>ds @ ks\<close> it leaves exactly the kept words \<open>ks\<close>, in their order, and the store is not
  touched.\<close>
theorem drop_keep_executes:
  assumes "length ks = unat (dk_keep dk)" and "length ds = unat (dk_drop dk)"
    and "length ds + length ks < 32"
  shows "engine_execute (program (drop_keep_code dk) env) (map I32 (ds @ ks)) (map I32 ks) st =
    Some (Finished (None, map I32 ks, st))"
proof -
  have "computes (program (drop_keep_code dk) env) (drop_keep_code dk) 1 st (rev (ds @ ks)) (Inr (st, rev ks))"
    using translate_drop_keep_correct [of "rev ks" dk "rev ds" 1 "[]" st "[]"] assms
    by (intro computes_fwd [where r' = "1 + length ds"]) simp
  from program_words [OF this, of ks] assms(3) show ?thesis
    by (simp add: words_outcome_def)
qed

lemma drop_keep_executes_witness:
  "engine_execute (program (drop_keep_code \<lparr>dk_drop = 2, dk_keep = 1\<rparr>) (sample_env []))
     [I32 100, I32 20, I32 120] [I32 120] (sample_store 9) = Some (Finished (None, [I32 120], sample_store 9))"
  using drop_keep_executes [of "[120]" "\<lparr>dk_drop = 2, dk_keep = 1\<rparr>" "[100, 20]" "sample_env []" "sample_store 9"]
  by simp

text \<open>C33 (equivalence): two function types of a module get the same signature index exactly when they
  are the same type, and the split types that the code uses have one \<open>i32\<close> per word of the
  original types.\<close>
theorem signature_is_type:
  assumes "registry_new fts = ok reg" and "length fts \<le> 2 ^ 32"
    and "unat i < length fts" and "unat j < length fts"
  shows "(resolve_func_type_signature i reg = resolve_func_type_signature j reg \<longleftrightarrow> fts ! unat i = fts ! unat j)
    \<and> (\<exists>ft. resolve_func_type i reg = Some ft
      \<and> length (ft_params ft) = words_of_all (ft_params (fts ! unat i))
      \<and> length (ft_results ft) = words_of_all (ft_results (fts ! unat i)))"
proof -
  have wf: "registry_wf reg" and types: "original_func_types reg = fts"
    using alloc_func_types_wf [OF registry_default_wf, of fts reg] assms(1)
    by (simp_all add: registry_new_def registry_default_def)
  have lens: "length (func_types reg) = length fts" "length (original_signatures reg) = length fts"
    using wf types by (simp_all add: registry_wf_def)
  have "resolve_func_type_signature i reg = resolve_func_type_signature j reg \<longleftrightarrow> fts ! unat i = fts ! unat j"
    using signatures_canonical [OF wf, of i _ j] assms lens
    by (simp add: types resolve_func_type_signature_def resolve_original_func_type_def)
  moreover have "adjusted_types (ft_params (fts ! unat i)) = ok (ft_params (func_types reg ! unat i))"
    "adjusted_types (ft_results (fts ! unat i)) = ok (ft_results (func_types reg ! unat i))"
    using wf assms(3) by (simp_all add: registry_wf_def types)
  ultimately show ?thesis
    using assms(3) lens by (simp add: resolve_func_type_def adjusted_types_ok)
qed

lemma signature_is_type_witness:
  "resolve_func_type_signature 1 \<lparr>original_func_types = [FuncType [TI32] [], FuncType [TI64] []],
     func_types = [FuncType [TI32] [], FuncType [TI32, TI32] []], original_signatures = [0, 1]\<rparr> \<noteq>
   resolve_func_type_signature 0 \<lparr>original_func_types = [FuncType [TI32] [], FuncType [TI64] []],
     func_types = [FuncType [TI32] [], FuncType [TI32, TI32] []], original_signatures = [0, 1]\<rparr>"
  using signature_is_type [of "[FuncType [TI32] [], FuncType [TI64] []]"
      "\<lparr>original_func_types = [FuncType [TI32] [], FuncType [TI64] []],
     func_types = [FuncType [TI32] [], FuncType [TI32, TI32] []], original_signatures = [0, 1]\<rparr>" 1 0]
  by (simp add: registry_new_def registry_default_def alloc_func_type_def Let_def)

text \<open>C34 (functional): the entrypoint code added for an active data segment, run by the engine on a
  store whose memory has the pages allocated so far: it writes the segment at its offset and
  marks it as dropped, or traps with \<open>MemoryOutOfBounds\<close> and writes nothing when the segment
  leaves the memory.\<close>
theorem active_data_segment_executes:
  assumes "b' = add_active_memory i offset bytes b"
    and "data_section (module env) = global_memory_section b' @ trailing"
    and "length (global_memory_section b') < 2 ^ 31" and "unat offset < 2 ^ 31"
    and "length (memory_of st) = 65536 * unat (total_allocated_pages b)"
    and "\<not> flag_at (empty_data_segments st) 0" and "bitvec_resize env = vec_resize"
  shows "\<exists>code. entrypoint_bytecode b' = entrypoint_bytecode b @ code \<and>
    engine_execute (program code env) [] [] st = Some (Finished (words_outcome []
      (if unat offset + length bytes \<le> length (memory_of st) then
         Inr ((with_memory (overwrite (memory_of st) (unat offset) bytes) st)
               \<lparr>empty_data_segments := dropped (i + 1) (empty_data_segments st)\<rparr>, [])
       else Inl (MemoryOutOfBounds, st))))"
proof -
  obtain code where code: "entrypoint_bytecode b' = entrypoint_bytecode b @ code"
    using active_segments_append(1) assms(1) by blast
  have "computes (program code env) code 3 st []
      (if unat offset + length bytes \<le> length (memory_of st) then
         Inr ((with_memory (overwrite (memory_of st) (unat offset) bytes) st)
               \<lparr>empty_data_segments := dropped (i + 1) (empty_data_segments st)\<rparr>, [])
       else Inl (MemoryOutOfBounds, st))"
    using assms by (intro active_memory_initialises [OF _ _ _ _ _ _ _ code]) (simp_all add: program_def)
  from program_words [of code env 3 st "[]", simplified list.map rev.simps, OF this, of "[]"] code
  show ?thesis by auto
qed

lemma active_data_segment_executes_witness:
  "\<exists>code. engine_execute (program code ((sample_env [])\<lparr>module := (module (sample_env []))\<lparr>data_section := [7]\<rparr>\<rparr>))
     [] [] (sample_store 9) = Some (Finished (Some MemoryOutOfBounds, [], sample_store 9))"
  using active_data_segment_executes [of "add_active_memory 0 0 [7] segment_builder_default" 0 0 "[7]"
      segment_builder_default "(sample_env [])\<lparr>module := (module (sample_env []))\<lparr>data_section := [7]\<rparr>\<rparr>" "[]" "sample_store 9"]
  by (auto simp: add_active_memory_def segment_builder_default_def emit_entry_def Let_def flag_at_def
      memory_of_def sample_store_def sample_env_def words_outcome_def)

text \<open>C35 (functional): the entrypoint code added for an active element segment, run by the engine on a store
  that has the table: when the elements fit into the table behind the offset it replaces that range
  by the elements, in order, and marks the segment as dropped; otherwise it traps with
  \<open>TableOutOfBounds\<close> and changes nothing.\<close>
theorem active_element_segment_executes:
  assumes "b' = add_active_elements i offset table_idx elements b"
    and "elem_section (module env) = global_element_section b' @ trailing"
    and "length (global_element_section b') < 2 ^ 32" and "tables st table_idx = Some t"
    and "\<not> flag_at (empty_elem_segments st) (i + 1)" and "bitvec_resize env = vec_resize"
  shows "\<exists>code. entrypoint_bytecode b' = entrypoint_bytecode b @ code \<and>
    engine_execute (program code env) [] [] st = Some (Finished (words_outcome []
      (if unat offset + length elements \<le> length t then
         Inr ((with_table table_idx (take (unat offset) t @ elements @ drop (unat offset + length elements) t) st)
                 \<lparr>empty_elem_segments := dropped (i + 1) (empty_elem_segments st)\<rparr>, [])
       else Inl (TableOutOfBounds, st))))"
proof -
  obtain code where code: "entrypoint_bytecode b' = entrypoint_bytecode b @ code"
    using active_segments_append(2) assms(1) by blast
  have "length elements < 2 ^ 32" using assms(1,3) by (simp add: add_active_elements_def Let_def emit_entry_def)
  then have "init_untyped offset elements 0 (word_of_nat (length elements)) t =
      (if unat offset + length elements \<le> length t
       then Inr (take (unat offset) t @ elements @ drop (unat offset + length elements) t) else Inl TableOutOfBounds)"
    by (simp add: init_untyped_spec copied_into_def unat_of_nat)
  moreover have "computes (program code env) code 3 st []
      (case init_untyped offset elements 0 (word_of_nat (length elements)) t of
         Inl c \<Rightarrow> Inl (c, st)
       | Inr t' \<Rightarrow>
           Inr ((with_table table_idx t' st)
                 \<lparr>empty_elem_segments := dropped (i + 1) (empty_elem_segments st)\<rparr>, []))"
    using assms by (intro active_elements_initialise [OF _ _ _ _ _ _ code]) (simp_all add: program_def)
  ultimately have "computes (program code env) code 3 st []
      (if unat offset + length elements \<le> length t then
         Inr ((with_table table_idx (take (unat offset) t @ elements @ drop (unat offset + length elements) t) st)
                 \<lparr>empty_elem_segments := dropped (i + 1) (empty_elem_segments st)\<rparr>, [])
       else Inl (TableOutOfBounds, st))"
    by (simp split: if_splits)
  from program_words [of code env 3 st "[]", simplified list.map rev.simps, OF this, of "[]"] code
  show ?thesis by auto
qed

lemma active_element_segment_executes_witness:
  "\<exists>code. engine_execute (program code two_segments) [] [] sample_table = Some (Finished (None, [],
     (with_table 0 [10] sample_table)\<lparr>empty_elem_segments := [False, True]\<rparr>))"
  using active_element_segment_executes [of "add_active_elements 0 0 0 [10] segment_builder_default" 0 0 0 "[10]"
      segment_builder_default two_segments "[11, 20]" sample_table "[0]"]
  by (auto simp: add_active_elements_def segment_builder_default_def emit_entry_def Let_def flag_at_def
      sample_table_def two_segments_def sample_store_def sample_env_def words_outcome_def
      dropped_def vec_resize_def with_table_def)

section \<open>The translator\<close>

text \<open>A translator in the body of a function whose fuel opcode is the first of its code.\<close>

definition sample_translator :: translator where
  "sample_translator = \<lparr>reachable = True,
     control_frames = [FrameBlock (block_frame_new BlockEmpty 0 0 (Some 0))],
     label_reg = labels_reset, instructions = [ConsumeFuel 0], br_table_branches = [], stack_types = [],
     segments = segment_builder_default, func_reg = registry_default, compiled_funcs = [], table_types = [],
     memory_types = [], globals = [], func_offsets = [0], snippet_calls = [], intrinsics = [],
     stack_height = height_default, with_consume_fuel = True, consume_fuel_for_params_and_locals = True,
     locals_registered = 0, with_code_snippets = False, consume_fuel_for_bulk_ops = True,
     memory_page_limit = 16\<rparr>"

text \<open>C2 (refinement): the translator on a sequence of operators without control flow: when the
  validated values of a frame are tracked, the emitted code turns their words into the words
  that the reference semantics gives, or traps as it does, within the stack height that the
  translator has recorded; of the code before it only the amount of a fuel opcode changes. It holds
  with snippet calls off (\<open>tracks\<close> includes this; they are on by default) and for the operators
  and inputs that the reference covers, those on which \<open>wasm_ops\<close> has a result.\<close>
theorem straight_line_implements:
  assumes "tracks t ls vs" and "fuel_behind t" and "list_all straight ops"
    and "length (cells ls vs) + 2 * length ops + 64 < 2 ^ 32" and "length (memory_of st) \<le> 2 ^ 31"
    and "wasm_ops ops st ls vs = Some res" and "visit_operators fp ops t = ok t'"
  shows "\<exists>code is. fuel_edit t is \<and> instructions t' = is @ code \<and>
    computes env code (max_height (stack_height t') - height (stack_height t)) st (cells ls vs) (result_words res) \<and>
    (case res of Inl _ \<Rightarrow> True | Inr (_, ls', vs') \<Rightarrow> tracks t' ls' vs')"
proof -
  obtain code where "implements env t code st ls vs res t'"
    using implements_operators [OF assms] by blast
  then show ?thesis unfolding implements_def by blast
qed

lemma sample_translation:
  "\<exists>t'. visit_operators sample_policy [W_i64_const 7, W_i64_const 5, W_snippet I64Sub] sample_translator = ok t'"
  by (simp add: sample_translator_def visit_operator_def visit_i64_const_def translate_to_snippet_call_def
      translate_binary_def translate_if_reachable_def action_simps bump_fuel_def bump_fuel_consumption_def
      last_frame_def block_frame_new_def op_i64_const_def
      sample_policy_def checked_add_def ok_or_def consume_fuel_instr_def)

lemma straight_line_implements_witness:
  "\<exists>t'. visit_operators sample_policy [W_i64_const 7, W_i64_const 5, W_snippet I64Sub] sample_translator = ok t' \<and>
    tracks t' [] [I64 2]"
proof -
  obtain t' where t': "visit_operators sample_policy [W_i64_const 7, W_i64_const 5, W_snippet I64Sub]
      sample_translator = ok t'"
    using sample_translation by blast
  have "wasm_ops [W_i64_const 7, W_i64_const 5, W_snippet I64Sub] (sample_store 9) [] [] =
      Some (Inr (sample_store 9, [], [I64 2]))"
    by (simp add: wasm_op_def pushing_def wasm_binary_def on_i64s_def i64_binop_sem_def push_or_trap_def)
  moreover have "tracks sample_translator [] []" "fuel_behind sample_translator"
    by (simp_all add: tracks_def sample_translator_def height_default_def cells_def fuel_behind_def
        fuel_instr_def last_frame_def block_frame_new_def consume_fuel_instr_def)
  ultimately show ?thesis
    using straight_line_implements [of sample_translator "[]" "[]" "[W_i64_const 7, W_i64_const 5, W_snippet I64Sub]"
        "sample_store 9" _ sample_policy t' "sample_env []"] t'
    by (auto simp: straight_def memory_of_def sample_store_def cells_def)
qed

text \<open>C36 (safety): without the snippet calls a 64-bit comparison is tracked with a result of two words,
  although its code leaves one: \<open>i64.eq\<close> followed by \<open>drop\<close> is translated into two drops, and
  the word below the operands is lost.\<close>
theorem inlined_comparison_loses_a_word:
  assumes "reachable t" and "\<not> with_code_snippets t" and "stack_types t = tys @ [TI64, TI64]"
    and "visit_operators fp [W_snippet I64Eq, W_drop] t = ok t'"
  shows "stack_types t' = tys \<and>
    (\<exists>is. fuel_edit t is \<and> instructions t' = is @ op_i64_eq @ [Drop, Drop]) \<and>
    yields env (op_i64_eq @ [Drop, Drop]) MSH_I64_EQ [hi32 b, lo32 b, hi32 a, lo32 a, w] []"
proof -
  obtain t1 where t1: "translate_binary fp op_i64_eq MSH_I64_EQ t = ok t1" "Translator_Visits.visit_drop t1 = ok t'"
    using assms(2,4) by (auto simp: visit_operator_def translate_to_snippet_call_def and_then_ok_iff
        emitter_def snippet_msh_def definition_of_def define_snippet_def)
  obtain "is" where "is": "fuel_edit t is" "instructions t1 = is @ op_i64_eq" "stack_types t1 = tys @ [TI64]"
    "reachable t1"
    using bumped [OF t1(1) [unfolded translate_binary_def] assms(1)] assms(1,3)
    by (auto simp: action_simps butlast_append MSH_I64_EQ_def)
  have "stack_types t' = tys \<and> instructions t' = is @ op_i64_eq @ [Drop, Drop]"
    using t1(2) "is"(2,3,4) by (auto simp: visit_drop_def translate_if_reachable_def action_simps is_wide_def)
  moreover have "computes env (op_i64_eq @ [Drop, Drop]) MSH_I64_EQ st [hi32 b, lo32 b, hi32 a, lo32 a, w] (Inr (st, []))"
    for st
  proof (rule computes_append [where msh' = 0])
    show "computes env op_i64_eq MSH_I64_EQ st [hi32 b, lo32 b, hi32 a, lo32 a, w] (Inr (st, [of_bool (a = b), w]))"
      using computes_frame_result [OF op_i64_eq_correct [of env b a, rule_format, of st], of "[w]"] by simp
    show "computes env [Drop, Drop] 0 st [of_bool (a = b), w] (Inr (st, []))"
      by (auto simp: exec_simps intro!: computes_fwd)
  qed simp
  ultimately show ?thesis using "is"(1) by auto
qed

lemma comparison_translation:
  "\<exists>t'. visit_operators sample_policy [W_snippet I64Eq, W_drop]
     (sample_translator\<lparr>stack_types := [TI32, TI64, TI64], stack_height := \<lparr>height = 5, max_height = 5\<rparr>\<rparr>) = ok t'"
  by (simp add: sample_translator_def visit_operator_def visit_drop_def translate_to_snippet_call_def
      translate_binary_def translate_if_reachable_def action_simps bump_fuel_def bump_fuel_consumption_def
      last_frame_def block_frame_new_def sample_policy_def checked_add_def ok_or_def consume_fuel_instr_def)

lemma inlined_comparison_loses_a_word_witness:
  "\<exists>t'. visit_operators sample_policy [W_snippet I64Eq, W_drop]
     (sample_translator\<lparr>stack_types := [TI32, TI64, TI64], stack_height := \<lparr>height = 5, max_height = 5\<rparr>\<rparr>) = ok t' \<and>
     stack_types t' = [TI32] \<and>
     yields (sample_env []) (op_i64_eq @ [Drop, Drop]) MSH_I64_EQ [0, 3, 0, 3, 42] []"
proof -
  obtain t' where t': "visit_operators sample_policy [W_snippet I64Eq, W_drop]
     (sample_translator\<lparr>stack_types := [TI32, TI64, TI64], stack_height := \<lparr>height = 5, max_height = 5\<rparr>\<rparr>) = ok t'"
    using comparison_translation by blast
  have "hi32 3 = 0" "lo32 3 = 3" by (simp_all add: hi32_def lo32_def)
  then show ?thesis
    using inlined_comparison_loses_a_word [OF _ _ _ t', of "[TI32]" "sample_env []" 3 3 42] t'
    by (auto simp: sample_translator_def)
qed

section \<open>Verified modules\<close>

text \<open>C3 (safety): in a module that the verifier accepts, an instruction that goes on leaves the
  instruction pointer and every return address in the code section or one behind its end, as
  long as the tables refer to instructions of the code, and a branch or call lands on an
  instruction; and wherever the table operand of an
  indirect call or of \<open>table.init\<close> is read, it is there and in range.\<close>
theorem verified_code_stays:
  assumes "verify_module (module env) = verified"
    and "control_in (length (code_section (module env))) s" and "tables_in (length (code_section (module env))) s"
  shows "(\<forall>u. exec_step env s = Some (Next u) \<longrightarrow>
       control_in (length (code_section (module env))) u \<and> lands_well (length (code_section (module env))) s u) \<and>
    (\<forall>op. fetch (code_section (module env)) (ip s) = Some op \<and> reads_table_index op \<longrightarrow>
       (\<exists>t. fetch_table_index env 1 s = Some t \<and> unat t < N_MAX_TABLES))"
  using verified_control_step [OF assms] verified_table_index [OF assms(1)] by blast

definition looping_code :: "opcode list" where
  "looping_code = [Br 1, Br (- 1)]"

lemma verified_code_stays_witness:
  "lands_well 2 (initial_exec 1 (sample_store 9)) (ip_offset (- 1) (initial_exec 1 (sample_store 9)))"
proof -
  have ok: "verify_module (module (sample_env looping_code)) = verified"
    by (simp add: verify_module_def sample_env_def looping_code_def verify_opcode_def verify_branch_target_def
        also_verify_def refuse_if_def verified_def)
  have inv: "control_in (length (code_section (module (sample_env looping_code)))) (initial_exec 1 (sample_store 9))"
    "tables_in (length (code_section (module (sample_env looping_code)))) (initial_exec 1 (sample_store 9))"
    by (simp_all add: control_in_def tables_in_def sample_env_def looping_code_def initial_exec_def sample_store_def)
  have "exec_step (sample_env looping_code) (initial_exec 1 (sample_store 9)) =
      Some (Next (ip_offset (- 1) (initial_exec 1 (sample_store 9))))"
    by (simp add: exec_step_def fetch_def step_def Interpreter.visit_br_def sample_env_def looping_code_def initial_exec_def)
  moreover have "length (code_section (module (sample_env looping_code))) = 2"
    by (simp add: sample_env_def looping_code_def)
  ultimately show ?thesis
    using verified_code_stays [OF ok inv] by auto
qed

section \<open>The fuel of host calls\<close>

text \<open>C37 (functional): the code in front of a host call that charges for its parameters traps with
  \<open>IntegerOverflow\<close> exactly when the length parameter exceeds the maximum of the policy, and
  otherwise charges \<open>block_charge\<close>, traps with the trap of the account when that fails, and
  leaves the parameters on the stack. While its 32-bit arithmetic does not wrap, the linear
  charge is the base plus the cost of every started word of 32 bytes.\<close>
theorem block_fuel_executes:
  assumes "block_charge fp p params = Some c" and "length params < 2 ^ 31"
  shows "computes env (compile_block_params fp p []) 4 st params (charged_block c st params) \<and>
    (\<forall>param base w x. p = LinearFuel param base w \<and> param_at param params = Some x \<longrightarrow>
      (c = Inl IntegerOverflow \<longleftrightarrow> x > fuel_max_linear_x fp) \<and>
      (\<forall>n. c = Inr (Some n) \<and> unat x + 31 < 2 ^ 32 \<and> word_total (unat x) * unat w + unat base < 2 ^ 32 \<longrightarrow>
         unat n = (unat x + 31) div 32 * unat w + unat base))"
  using compile_block_params_charges [OF assms] assms(1)
  by (auto simp: block_charge_def linear_charge_exact word_total_def split: if_splits)

definition sample_charge_policy :: fuel_policy where
  "sample_charge_policy = \<lparr>memory_bytes_per_fuel = 64, memory_bytes_per_fuel_log2 = 6, table_elems_per_fuel = 16,
     table_elems_per_fuel_log2 = 4, fuel_max_linear_x = 1000, fuel_max_quadratic_x = 1000, cost_base = 1,
     cost_entity = 1, cost_load = 1, cost_store = 1, cost_call = 1, fuel_for_locals = (\<lambda>n. n),
     fuel_for_drop_keep = (\<lambda>_ _. 0)\<rparr>"

lemma block_fuel_executes_witness:
  "computes (sample_env []) (compile_block_params sample_charge_policy (LinearFuel 1 5 3) []) 4 (sample_store 9) [33]
     (charged_block (Inr (Some 11)) (sample_store 9) [33])"
  using block_fuel_executes [of sample_charge_policy "LinearFuel 1 5 3" "[33]" "Inr (Some 11)" "sample_env []" "sample_store 9"]
  by (simp add: block_charge_def param_at_def sample_charge_policy_def linear_charge_def words_in_def)

section \<open>Binary modules\<close>

text \<open>C6 (roundtrip): a module that is serialised is read back, whatever follows it; the exact
  constructor refuses anything behind it, and the verifying one also answers what the verifier
  says. The primitive encodings are those of \<open>bincode\<close>, with its laws.\<close>
theorem module_round_trips:
  assumes "bincode_laws B" and "encodable m"
  shows "new_checked B (serialize B m @ trailing) = Some (Inr (m, length (serialize B m))) \<and>
    new_checked_exact B (serialize B m @ trailing) =
      Some (if trailing = [] then Inr m else Inl (Other ''rwasm: trailing bytes after module'')) \<and>
    new_verified_exact B (serialize B m) =
      Some (case verify_module m of Inl e \<Rightarrow> Inl (VerificationFailed e) | Inr _ \<Rightarrow> Inr m)"
proof -
  have read: "new_checked B (serialize B m @ bs) = Some (Inr (m, length (serialize B m)))" for bs
    by (simp add: new_checked_def decode_serialized [OF assms])
  from read [of "[]"] read [of trailing] show ?thesis
    by (simp add: new_checked_exact_def new_verified_exact_def verified_or_def)
qed

lemma module_round_trips_witness:
  "new_checked_exact little_endian (serialize little_endian (builder_new looping_code) @ [7]) =
     Some (Inl (Other ''rwasm: trailing bytes after module''))"
  using module_round_trips [OF little_endian_laws, of "builder_new looping_code" "[7]"]
  by (simp add: encodable_def builder_new_def empty_module_def looping_code_def OPCODE_SIZE_def)

text \<open>C38 (error): what the decoder makes of a binary that is not a serialised module. Without the
  source pc it is read with source pc 0; with a part of the source pc it is an error; wrong
  magic bytes and versions are errors; but a code section whose announced length exceeds what a
  vector can hold is a panic and no error.\<close>
theorem malformed_modules:
  assumes "bincode_laws B" and "encodable m"
  shows "new_checked_exact B (encode_sections B m) = Some (Inr (m\<lparr>source_pc := 0\<rparr>)) \<and>
    (\<forall>bs. 0 < length bs \<and> length bs < 4 \<longrightarrow>
       new_checked B (encode_sections B m @ bs) = Some (Inl (UnexpectedEnd (4 - length bs)))) \<and>
    (\<forall>a b bs. a \<noteq> RWASM_MAGIC_BYTE_0 \<or> b \<noteq> RWASM_MAGIC_BYTE_1 \<longrightarrow>
       new_checked B (enc (bin_u8 B) a @ enc (bin_u8 B) b @ bs) = Some (Inl (Other ''rwasm: invalid magic bytes''))) \<and>
    (\<forall>v bs. v \<noteq> RWASM_VERSION_V1 \<longrightarrow>
       new_checked B (enc (bin_u8 B) RWASM_MAGIC_BYTE_0 @ enc (bin_u8 B) RWASM_MAGIC_BYTE_1 @ enc (bin_u8 B) v @ bs) =
         Some (Inl (Other ''rwasm: not supported version''))) \<and>
    (\<forall>n bs. 2 ^ 63 \<le> OPCODE_SIZE * unat n \<longrightarrow>
       new_checked B (enc (bin_u8 B) RWASM_MAGIC_BYTE_0 @ enc (bin_u8 B) RWASM_MAGIC_BYTE_1 @
         enc (bin_u8 B) RWASM_VERSION_V1 @ enc (bin_u64 B) n @ bs) = None)"
  (is "?legacy \<and> ?partial \<and> ?magic \<and> ?version \<and> ?huge")
proof (intro conjI)
  show ?legacy
    using decode_short [OF assms, of "[]"] by (simp add: new_checked_exact_def new_checked_def)
  show ?partial
    using decode_short [OF assms] by (auto simp: new_checked_def)
  show ?magic ?version ?huge
    using wrong_header [OF assms(1)] huge_length_panics [OF assms(1)] by (auto simp: new_checked_def)
qed

lemma malformed_modules_witness:
  "new_checked little_endian (encode_sections little_endian (builder_new looping_code) @ [7]) =
     Some (Inl (UnexpectedEnd 3))"
  using malformed_modules [OF little_endian_laws, of "builder_new looping_code"]
  by (simp add: encodable_def builder_new_def empty_module_def looping_code_def OPCODE_SIZE_def)

section \<open>Constants and modules\<close>

text \<open>C39 (equivalence): a constant expression that the typed stack machine evaluates to \<open>v\<close>, in a
  context of globals and functions, is compiled without a panic, and the compiled tree evaluates in
  that context to the 64-bit word that stands for \<open>v\<close>: the number itself, an \<open>i32\<close> sign-extended, the
  bits of an \<open>f32\<close> and a reference in the low word.\<close>
theorem constant_expressions:
  assumes "ref_eval ctx ops [] = Some v"
  shows "\<exists>e x. compiled_expr ops = Some e \<and> eval_with_context (get_global ctx) (get_func ctx) e = Some x \<and>
     stands_for x v"
  using compiled_expr_evaluates [OF assms] by (cases ctx) (simp add: eval_with_context_def)

lemma constant_expressions_witness:
  "\<exists>e x. compiled_expr [W_i32_const 7, W_global_get 0, W_i32_binop W_i32_sub, W_end] = Some e \<and>
     eval_with_context (\<lambda>_. Some (I32 9)) (\<lambda>_. None) e = Some x \<and> stands_for x (I32 (- 2))"
  using constant_expressions [of "\<lparr>get_global = (\<lambda>_. Some (I32 9)), get_func = (\<lambda>_. None)\<rparr>"
      "[W_i32_const 7, W_global_get 0, W_i32_binop W_i32_sub, W_end]" "I32 (- 2)"]
  by (simp add: ref_step_def push_const_def ref_i32_def)

text \<open>C5 (safety): in a compiled module of fewer than \<open>2 ^ 32\<close> opcodes, every internal call, every
  internal tail call, every function reference and every table element is either zero, the null
  reference, or the position of an opcode that functions begin with: a signature check, or the stack
  check, with which a called snippet begins (any stack check is accepted, also one behind a signature check). So relocation, with the entrypoint code in front, the trampolines of the
  imports, the translated bodies and the emitted snippets, keeps calls out of the middle of functions,
  whatever the validator does.\<close>
theorem compiled_targets:
  assumes "compile V fp v c payloads wasm = ok (m, params)" and "length (code_section m) < 2 ^ 32"
  shows "(\<forall>op \<in> set (code_section m). list_all (leads_to_head (code_section m)) (targets op)) \<and>
     list_all (leads_to_head (code_section m)) (elem_section m)"
proof -
  obtain p where p: "parse V fp payloads (parser_new v c) = ok p" "finalize wasm p = ok (m, params)"
    using assms(1) by (auto simp: compile_def and_then_ok_iff)
  from finalized_heads [OF p(2) parse_heads [OF p(1)]] show ?thesis
    using assembled_targets assms(2) by blast
qed

text \<open>A module of one function that calls itself, compiled without metering and snippets.\<close>

definition trusting_validator :: "unit validator" where
  "trusting_validator = \<lparr>define_locals = (\<lambda>_ _. Inr), validate_operator = (\<lambda>_. Inr), finish_validation = Inr\<rparr>"

definition trusting_module_validator :: "(unit, unit) module_validator" where
  "trusting_module_validator = \<lparr>validate_payload = (\<lambda>_. Inr), enter_code_entry = (\<lambda>_ _. Inr ((), ())),
     function_validator = trusting_validator\<rparr>"

definition recursion_config :: compilation_config where
  "recursion_config = config_with_code_snippets False (config_with_consume_fuel False
     (with_entrypoint_name ''main'' config_default))"

definition recursion_payloads :: "(binary_reader_error + payload) list" where
  "recursion_payloads = map Inr
     [TypeSection [FuncType [] []], FunctionSection [0],
      ExportSection [\<lparr>export_name = ''main'', export_is_func = True, export_index = 0\<rparr>],
      CodeSectionEntry \<lparr>body_locals = [], body_operators = [W_call 0, W_end]\<rparr>, EndPayload]"

lemmas translation_run =
  consume_fuel_instr_def new_translator_def translator_new_def config_default_def
  config_with_code_snippets_def config_with_consume_fuel_def with_entrypoint_name_def Let_def
  translate_def prepare_def alloc_reset_def init_func_body_block_def inspecting_def
  resolve_func_type_index_def func_type_of_def original_func_type_of_def signature_of_def
  unwrap_or_panic_def resolve_func_type_signature_def resolve_func_type_def
  resolve_original_func_type_def new_label_ref_def labels_reset_def new_label_def isa_loc_def
  emit_def metered_consume_fuel_def push_frame_def register_locals_def bump_fuel_def
  translate_stack_alloc_def charge_locals_def validate_then_translate_def visit_operator_def
  visit_call_def visit_end_def translate_if_reachable_def adjust_value_stack_for_call_def
  change_height_def pop_n_def push_n_def update_max_height_def height_default_def
  emit_function_call_def function_call_code_def last_control_frame_def last_frame_def
  pin_frame_labels_def frame_is_reachable_def frame_kind_def frame_end_label_def pin_label_here_def
  visit_return_def drop_keep_return_def block_frame_new_def max_depth_def compute_drop_keep_def
  height_diff_def drop_keep_new_def emit_drop_keep_def translate_drop_keep_def set_reachable_def
  frame_stack_height_def shrink_stack_to_def shrink_to_def pop_control_frame_def pop_frame_def
  push_block_results_def frame_block_type_def finish_def current_pc_def frame_nth_back_def
  resolve_func_results_len_type_by_block_def saturating_sub_def pin_label_def get_label_def
  set_label_def

lemmas parsing_run =
  parse_def process_payload_def validating_def validated_def process_types_def on_allocs_def parser_new_def
  process_functions_def process_exports_def allocations_default_def process_code_entry_def next_func_def
  alloc_func_type_def registry_default_def enumerate_eq_zip

lemma or_panic_of: "or_panic (ok x) = ok x"
  by (simp add: or_panic_def ok_def)

lemma patch_two: "patch_stack_check 2 i h is = patch_stack_check (Suc (Suc 0)) i h is"
  by (simp add: numeral_2_eq_2)

lemmas assembly_run =
  finalize_def emit_start_def emit_entrypoint_def emit_main_def emit_snippets_def emit_state_router_def
  assemble_def emit_entry_def segment_builder_default_def isa_finalize_def is_return_last_def relocate_opcode_def relocated_def

lemma recursion_compiles:
  "\<exists>m. compile trusting_module_validator sample_policy () recursion_config recursion_payloads [] = ok (m, None) \<and>
     code_section m = [StackCheck 5, Return, ReturnCallInternal 3, SignatureCheck 0, StackCheck 0, CallInternal 3, Return]"
  by (simp add: compile_def recursion_payloads_def recursion_config_def trusting_module_validator_def trusting_validator_def
     parsing_run translation_run patch_two
     assembly_run)

lemma compiled_targets_witness:
  "\<exists>m. compile trusting_module_validator sample_policy () recursion_config recursion_payloads [] = ok (m, None) \<and>
     leads_to_head (code_section m) 3 \<and> code_section m ! 5 = CallInternal 3"
proof -
  obtain m where m: "compile trusting_module_validator sample_policy () recursion_config recursion_payloads [] = ok (m, None)"
    "code_section m = [StackCheck 5, Return, ReturnCallInternal 3, SignatureCheck 0, StackCheck 0, CallInternal 3, Return]"
    using recursion_compiles by blast
  from compiled_targets [OF m(1)] m show ?thesis by (simp add: targets_def)
qed

text \<open>C4 (termination): metered code ends, after a number of instructions that its fuel bounds. A ranking numbers
  the positions of the code so that the number decreases along every instruction but a charge of
  at least one, and covers the way of a callee and the way back at every call; code with an indirect
  call has none. With a fuel limit below \<open>u64::MAX\<close>, a host that keeps the fuel account and code
  with a ranking, every execution of the module and every run of its entrypoint ends: it has an
  outcome, which is a return, a trap (when the fuel runs out, \<open>OutOfFuel\<close>), or undefined behaviour
  when the code leaves the value stack or itself; it never runs forever. And from every state with
  this store at most \<open>(fuel + 1) * (W + 1)\<close> instructions are executed before it ends, where \<open>W\<close>
  is the largest number of the ranking, once for each possible return address and once more.\<close>
theorem metered_execution_ends:
  assumes "well_behaved_host (syscall_handler env)" and "store_wf st" and "fuel_limit st = Some l" and "l < - 1"
    and "ranking rs (code_section (module env))"
  shows "(\<exists>r. engine_execute env params result st = Some r) \<and> (\<exists>r. engine_entrypoint env st = Some r) \<and>
    (\<forall>n s u. store s = st \<and> length (call_stack s) \<le> N_MAX_RECURSION_DEPTH \<and>
       (s, u) \<in> {(x, y). exec_step env x = Some (Next y)} ^^ n \<longrightarrow>
       n < (unat l - unat (consumed_fuel st) + 1) * ((N_MAX_RECURSION_DEPTH + 1) * fold max rs 0 + 1))"
proof (intro conjI allI impI)
  have "metered_state (initial_exec p st)" for p
    using assms(2-4) by (simp add: metered_state_def initial_exec_def)
  from ranked_run_ends [OF assms(1,5) this] have run: "\<exists>r. exec_run env ps rs (initial_exec p st) = Some r" for ps rs p .
  have "\<exists>o'. engine_outcome m (Some r) = Some o'" for m r
    by (auto simp: engine_outcome_def split: run_result.split)
  with run show "\<exists>r. engine_execute env params result st = Some r" "\<exists>r. engine_entrypoint env st = Some r"
    unfolding engine_execute_def engine_entrypoint_def by metis+
  fix n s u
  assume s: "store s = st \<and> length (call_stack s) \<le> N_MAX_RECURSION_DEPTH \<and> (s, u) \<in> {(x, y). exec_step env x = Some (Next y)} ^^ n"
  then have "metered_state s" using assms(2-4) by (simp add: metered_state_def)
  then have "n \<le> budget rs s" using steps_bounded [OF assms(1,5)] s by fastforce
  moreover have "fuel_left (store s) = unat l - unat (consumed_fuel st)"
    using s assms(3) by (simp add: fuel_left_def remaining_fuel_def unat_saturating_sub)
  ultimately show "n < (unat l - unat (consumed_fuel st) + 1) * ((N_MAX_RECURSION_DEPTH + 1) * fold max rs 0 + 1)"
    using way_le [of s rs] s by (simp add: budget_def longest_way_def add_mult_distrib)
qed

text \<open>A function that calls itself, and a loop, each behind a charge.\<close>

lemma metered_execution_ends_witness:
  "\<exists>r. engine_execute (sample_env [ConsumeFuel 1, I32Const 1, BrIfNez (- 2), CallInternal 0, Return]) [] []
     (sample_store 9) = Some r"
proof -
  let ?code = "[ConsumeFuel 1, I32Const 1, BrIfNez (- 2), CallInternal 0, Return]"
  have code: "code_section (module (sample_env ?code)) = ?code" and limit: "fuel_limit (sample_store 9) = Some 9"
    by (simp_all add: sample_env_def sample_store_def)
  have "ranking [0, 6, 5, 4, 1] ?code"
    by (simp add: ranking_def descends_def rank_at_def upt_rec)
  then show ?thesis
    using metered_execution_ends [OF sample_host sample_store_wf limit, of "[0, 6, 5, 4, 1]" ?code "[]" "[]"] code
    by simp
qed

text \<open>C32 (invariant): every branch of a translated function that waited for its label lands on it. For
  each function body that \<open>translate\<close> accepts, whatever its operators (branch tables too), with or
  without metering and snippets, when the code is shorter than 2^32 opcodes: the waiting branches
  are at different positions of this function, each carries the offset from its own position to the
  opcode its label was pinned to, and that opcode is in this function or right behind its end. Of the
  code before the patching only these branches and a stack check have changed.\<close>
theorem branches_land_on_labels:
  assumes "translate val fp f body (v, t) = ok (v', t')" and "length (instructions t') < 2 ^ 32"
  shows "distinct (map user_instr (users (label_reg t'))) \<and>
    (\<forall>u \<in> set (users (label_reg t')).
      length (instructions t) \<le> unat (user_instr u) \<and> unat (user_instr u) < length (instructions t') \<and>
      (\<exists>p. get_label (user_label u) (label_reg t') = Some (Pinned p) \<and> lands (instructions t') (user_instr u) p \<and>
        length (instructions t) \<le> unat p \<and> unat p \<le> length (instructions t'))) \<and>
    (\<forall>t1 i. finish t1 = ok t' \<longrightarrow> i < length (instructions t1) \<longrightarrow> i \<notin> (unat \<circ> user_instr) ` set (users (label_reg t')) \<longrightarrow>
      instructions t' ! i = instructions t1 ! i \<or> (\<exists>h. instructions t1 ! i = StackCheck h))"
proof -
  obtain t1 where t1: "tidy (length (instructions t)) t1" "finish t1 = ok t'" using translate_tidy [OF assms(1)] .
  note len = finish_keeps [OF t1(2)]
  have tidy: "distinct (positions (label_reg t'))" "set (positions (label_reg t')) \<subseteq> {length (instructions t) ..< length (instructions t')}"
    "pinned (label_reg t') \<subseteq> {length (instructions t) .. length (instructions t')}"
    using t1(1) assms(2) len by (simp_all add: tidy_def)
  have inside: "length (instructions t) \<le> unat (user_instr u) \<and> unat (user_instr u) < length (instructions t')"
    if "u \<in> set (users (label_reg t'))" for u
    using that tidy(2) by (auto simp: positions_def)
  have lands: "\<exists>p. get_label (user_label u) (label_reg t') = Some (Pinned p) \<and> lands (instructions t') (user_instr u) p \<and>
        length (instructions t) \<le> unat p \<and> unat p \<le> length (instructions t')" if "u \<in> set (users (label_reg t'))" for u
    using finish_lands [OF t1(2)] tidy(1) tidy_label [OF tidy(3)] len(2) that by metis
  have same: "instructions t' ! i = instructions t2 ! i \<or> (\<exists>h. instructions t2 ! i = StackCheck h)"
    if "finish t2 = ok t'" "i < length (instructions t2)" "i \<notin> (unat \<circ> user_instr) ` set (users (label_reg t'))" for t2 i
    using finish_lands [OF that(1)] finish_keeps(2) [OF that(1)] tidy(1) that(2,3) by (simp add: positions_def)
  show ?thesis using tidy(1) inside lands same unfolding positions_distinct by blast
qed

text \<open>A conditional branch out of a block, over the two opcodes behind it.\<close>

definition branch_body :: func_body where
  "branch_body = \<lparr>body_locals = [],
     body_operators = [W_block BlockEmpty, W_local_get 0, W_br_if 0, W_i32_const 7, W_drop, W_end, W_end]\<rparr>"

definition branch_allocations :: translator where
  "branch_allocations = sample_translator\<lparr>instructions := [Trap UnreachableCodeReached], func_offsets := [], compiled_funcs := [0],
     func_reg := \<lparr>original_func_types = [FuncType [TI32] []], func_types = [FuncType [TI32] []], original_signatures = [0]\<rparr>\<rparr>"

lemma branch_translates:
  "\<exists>t'. translate trusting_validator sample_policy 0 branch_body
       ((), translator_new branch_allocations False False False False 0) = ok ((), t') \<and>
     instructions t' = [Trap UnreachableCodeReached, SignatureCheck 0, StackCheck 1, LocalGet 1, BrIfNez 3, I32Const 7, Drop, BulkDrop 1, Return] \<and>
     label_reg t' = \<lparr>labels = [Pinned 7, Pinned 7], users = [\<lparr>user_label = 1, user_instr = 4\<rparr>]\<rparr>"
  by (simp add: branch_body_def branch_allocations_def sample_translator_def trusting_validator_def translation_run patch_two
     validated_def visit_block_def frame_stack_height_for_def resolve_func_params_len_type_by_block_def or_panic_of
     Translator_Visits.visit_local_get_def relative_local_depth_def get_expressed_depth_def push_stack_type_def push_type_def
     pop_type_def type_width_def is_wide_def whenever_def Translator_Control.visit_br_if_def drop_stack_type_def pop_stack_type_def
     add_branch_def set_frame_nth_back_def bump_branches_def acquire_target_def is_root_def branch_destination_def is_noop_def
     branch_offset_to_def try_resolve_label_for_def try_resolve_label_def visit_i32_const_def Translator_Visits.visit_drop_def
     resolved_user_def resolve_label_def from_src_to_dst_def patch_at_def update_branch_offset_def ok_or_def checked_add_def
     sample_policy_def total_body_locals_def saturating_add_def)

lemma branches_land_on_labels_witness:
  "\<exists>t'. translate trusting_validator sample_policy 0 branch_body
       ((), translator_new branch_allocations False False False False 0) = ok ((), t') \<and> lands (instructions t') 4 7"
proof -
  obtain t' where t': "translate trusting_validator sample_policy 0 branch_body
       ((), translator_new branch_allocations False False False False 0) = ok ((), t')"
     "length (instructions t') = 9" "label_reg t' = \<lparr>labels = [Pinned 7, Pinned 7], users = [\<lparr>user_label = 1, user_instr = 4\<rparr>]\<rparr>"
    using branch_translates by auto
  then have "lands (instructions t') 4 7"
    using branches_land_on_labels [OF t'(1)] by (simp add: get_label_def)
  with t'(1) show ?thesis by blast
qed

text \<open>A finding: without metering the compiler gives the shortest endless loop, a branch to itself, the
  offset zero, which the verifier refuses.\<close>

definition loop_payloads :: "(binary_reader_error + payload) list" where
  "loop_payloads = map Inr
     [TypeSection [FuncType [] []], FunctionSection [0],
      ExportSection [\<lparr>export_name = ''main'', export_is_func = True, export_index = 0\<rparr>],
      CodeSectionEntry \<lparr>body_locals = [], body_operators = [W_loop BlockEmpty, W_br 0, W_end, W_end]\<rparr>, EndPayload]"

lemma unmetered_loop_refused:
  "\<exists>m. compile trusting_module_validator sample_policy () recursion_config loop_payloads [] = ok (m, None) \<and>
     verify_module m = Inl (ZeroBranchOffset 5)"
  by (simp add: compile_def loop_payloads_def recursion_config_def trusting_module_validator_def
    trusting_validator_def parsing_run translation_run patch_two visit_loop_def Translator_Control.visit_br_def
    add_branch_def set_frame_nth_back_def bump_branches_def acquire_target_def is_root_def frame_stack_height_for_def
    resolve_func_params_len_type_by_block_def loop_frame_new_def branch_offset_to_def try_resolve_label_for_def
    try_resolve_label_def branch_destination_def from_src_to_dst_def ok_or_def assembly_run
    verify_module_def verify_opcode_def verify_branch_target_def verify_code_target_def refuse_if_def verified_def
    also_verify_def)

text \<open>A finding: the trampoline of an import gets the stack check of a function whose body pushes
  nothing, although the code that charges for the call pushes up to four cells. Entered with a
  full value stack it writes behind the last cell.\<close>

definition charged_linker :: "syscall_fuel_params import_linker" where
  "charged_linker = \<lparr>entities_of = [\<lparr>sys_func_idx = 7, syscall_fuel_param = LinearFuel 1 5 3, entity_params = [TI32],
       entity_result = [], entity_intrinsic = None\<rparr>],
     name_to_entity = [(ImportName ''env'' ''f'', 0)], idx_to_entity = [(7, 0)]\<rparr>"

definition trampoline_config :: compilation_config where
  "trampoline_config = with_builtins_consume_fuel True (with_import_linker charged_linker recursion_config)"

definition trampoline_payloads :: "(binary_reader_error + payload) list" where
  "trampoline_payloads = map Inr
     [TypeSection [FuncType [TI32] []],
      ImportSection [\<lparr>item_module = ''env'', item_name = ''f'', item_type = ImportFunc 0\<rparr>],
      ExportSection [\<lparr>export_name = ''main'', export_is_func = True, export_index = 0\<rparr>], EndPayload]"

lemma trampoline_compiles:
  "\<exists>m. compile trusting_module_validator sample_charge_policy () trampoline_config trampoline_payloads [] = ok (m, None) \<and>
     code_section m = [StackCheck 5, Return, ReturnCallInternal 3, SignatureCheck 0, StackCheck 0] @
       compile_block_params sample_charge_policy (LinearFuel 1 5 3) [] @ [Call 7, Return]"
  by (simp add: compile_def trampoline_payloads_def trampoline_config_def recursion_config_def charged_linker_def
     trusting_module_validator_def trusting_validator_def parsing_run translation_run patch_two assembly_run
     process_import_def resolve_by_import_name_def entity_at_def ok_or_def matches_func_type_def
     is_reference_def import_trampoline_def compile_block_params_def length_guard_def word_count_of_def
     with_builtins_consume_fuel_def with_import_linker_def whenever_def sample_charge_policy_def checked_add_def)

lemma trampoline_overruns:
  assumes "code_section (module env) = [StackCheck 5, Return, ReturnCallInternal 3, SignatureCheck 0, StackCheck 0] @
       compile_block_params sample_charge_policy (LinearFuel 1 5 3) [] @ [Call 7, Return]"
    and "sp s = length (entries (vstack s))" "sp s \<le> maximum_len (vstack s)" "0 < sp s" "ip s = 3"
    and "last_signature (store s) = None"
  shows "run_the_loop env s = Some Undefined"
proof -
  note code = compile_block_params_def length_guard_def exec_step_def fetch_def step_def next_instr_def ip_add_def
  obtain s1 where 1: "exec_step env s = Some (Next s1)" "ip s1 = 4" "sp s1 = sp s" "vstack s1 = vstack s"
    using assms(1,5,6) by (simp add: code visit_signature_check_def)
  obtain s2 where 2: "exec_step env s1 = Some (Next s2)" "ip s2 = 5" "sp s2 = sp s" "entries (vstack s2) = entries (vstack s)"
    using assms(1,2,3) 1(2-4)
    by (simp add: code visit_stack_check_def stack_reserve_def Let_def sync_sp_def sync_stack_ptr_def reload_sp_def
        stack_capacity_def)
  have "exec_step env s2 = None"
    using assms(1,2,4) 2(2-4)
    by (simp add: code Executor.visit_local_get_def nth_back_def dec_by_def ptr_get_def on_stack_def sp_push_def ptr_set_def
        stack_of_def Let_def)
  with 1(1) 2(1) show ?thesis by (simp add: run_the_loop.simps)
qed

text \<open>A module of a function that ends with a tail call of an import with an intrinsic.\<close>

definition intrinsic_linker :: "syscall_fuel_params import_linker" where
  "intrinsic_linker = \<lparr>entities_of = [\<lparr>sys_func_idx = 7, syscall_fuel_param = FuelNone, entity_params = [],
       entity_result = [], entity_intrinsic = Some Remove\<rparr>],
     name_to_entity = [(ImportName ''env'' ''f'', 0)], idx_to_entity = [(7, 0)]\<rparr>"

definition tail_call_payloads :: "(binary_reader_error + payload) list" where
  "tail_call_payloads = map Inr
     [TypeSection [FuncType [] []],
      ImportSection [\<lparr>item_module = ''env'', item_name = ''f'', item_type = ImportFunc 0\<rparr>], FunctionSection [0],
      ExportSection [\<lparr>export_name = ''main'', export_is_func = True, export_index = 1\<rparr>],
      CodeSectionEntry \<lparr>body_locals = [], body_operators = [W_return_call 0, W_end]\<rparr>, EndPayload]"

lemma tail_call_compiles:
  "\<exists>m. compile trusting_module_validator sample_policy () (with_import_linker intrinsic_linker recursion_config)
       tail_call_payloads [] = ok (m, None) \<and> source_pc m = 2 \<and>
     code_section m = [StackCheck 5, Return, ReturnCallInternal 7, SignatureCheck 0, StackCheck 0, Call 7, Return,
       SignatureCheck 0, StackCheck 0]"
  by (simp add: compile_def tail_call_payloads_def recursion_config_def intrinsic_linker_def
     trusting_module_validator_def trusting_validator_def parsing_run translation_run patch_two assembly_run
     process_import_def resolve_by_import_name_def entity_at_def ok_or_def matches_func_type_def checked_add_def
     is_reference_def import_trampoline_def with_import_linker_def whenever_def
     Translator_Control.visit_return_call_def drop_keep_return_call_def)

lemma tail_call_runs_out:
  assumes "code_section (module env) = [StackCheck 5, Return, ReturnCallInternal 7, SignatureCheck 0, StackCheck 0, Call 7,
       Return, SignatureCheck 0, StackCheck 0]" and "source_pc (module env) = 2" and "last_signature st = None"
  shows "engine_execute env [] [] st = Some Undefined"
  using assms
  by (simp add: engine_execute_def exec_run_def Let_def sync_sp_def reload_sp_def sync_stack_ptr_def on_stack_def
    stack_of_def set_stack_def initial_exec_def value_stack_default_def stack_reserve_def stack_capacity_def
    run_the_loop.simps exec_step_def fetch_def step_def visit_return_call_internal_def visit_signature_check_def
    visit_stack_check_def ip_add_def next_instr_def engine_outcome_def)

text \<open>A finding: the module compiles, and its execution gets behind the end of its code section.\<close>

lemma tail_call_module_overruns:
  "\<exists>m s. compile trusting_module_validator sample_policy () (with_import_linker intrinsic_linker recursion_config)
       tail_call_payloads [] = ok (m, None) \<and>
     (initial_exec (int (unat (source_pc m))) (sample_store 9), s) \<in>
       {(x, y). exec_step ((sample_env [])\<lparr>module := m\<rparr>) x = Some (Next y)} ^^ 3 \<and> ip s = int (length (code_section m)) \<and>
     engine_execute ((sample_env [])\<lparr>module := m\<rparr>) [] [] (sample_store 9) = Some Undefined"
proof -
  obtain m where m: "compile trusting_module_validator sample_policy () (with_import_linker intrinsic_linker recursion_config)
       tail_call_payloads [] = ok (m, None)" "source_pc m = 2"
    "code_section m = [StackCheck 5, Return, ReturnCallInternal 7, SignatureCheck 0, StackCheck 0, Call 7, Return,
       SignatureCheck 0, StackCheck 0]"
    using tail_call_compiles by blast
  let ?env = "(sample_env [])\<lparr>module := m\<rparr>"
  have run: "engine_execute ?env [] [] (sample_store 9) = Some Undefined"
    using tail_call_runs_out [of ?env "sample_store 9"] m by (simp add: sample_store_def)
  obtain s1 s2 s3 where "exec_step ?env (initial_exec (int (unat (source_pc m))) (sample_store 9)) = Some (Next s1)"
    "exec_step ?env s1 = Some (Next s2)" "exec_step ?env s2 = Some (Next s3)" "ip s3 = 9"
    by (simp add: m(2,3) exec_step_def fetch_def step_def visit_return_call_internal_def visit_signature_check_def initial_exec_def
        visit_stack_check_def ip_add_def next_instr_def sample_store_def value_stack_default_def stack_reserve_def stack_capacity_def
        Let_def sync_sp_def reload_sp_def sync_stack_ptr_def)
  then have "(initial_exec (int (unat (source_pc m))) (sample_store 9), s3) \<in>
      {(x, y). exec_step ?env x = Some (Next y)} ^^ Suc (Suc (Suc 0))" "ip s3 = 9" by auto
  then show ?thesis using m(1,3) run by (intro exI [of _ m] exI [of _ s3]) (simp add: numeral_3_eq_3)
qed




text \<open>C1 (refinement): a whole function without control flow, as \<open>translate\<close> compiles it, refines the
  reference semantics: entered by the engine it charges the fuel of its entry, runs the operators
  on the arguments and the zeros of the locals, and returns the results, or traps as the
  reference does. The stack check it carries is enough for all of its code. It holds with snippet calls off
  (the argument \<open>False\<close>; they are on by default), with or without metering, and for the functions and
  inputs on which the reference has a result.\<close>
theorem function_refines:
  fixes env :: "'h env" and st :: "'h store"
  assumes "translate val fp f body (v, translator_new alloc metered False bulk locals_fuel limit) = ok (v', t')"
    and "plain_body body"
    and "registry_wf (func_reg alloc)" "resolve_func_type_index f alloc = ok i"
      "resolve_original_func_type i (func_reg alloc) = Some ft"
    and "length (instructions alloc) + 1 < 2 ^ 32" "length (vals_words args) \<le> 32"
      "local_words (body_locals body) + 2 * length (body_operators body) + 96 < 2 ^ 32"
      "length (vals_words args) + unat (max_height (stack_height t')) \<le> N_MAX_STACK_SIZE"
    and "code_section (module env) = instructions t' @ rest" "unat (source_pc (module env)) = length (instructions alloc)"
    and "last_signature st = None" "length (memory_of st) \<le> 2 ^ 31" "map val_ty result = ft_results ft" "map val_ty args = ft_params ft"
    and ref: "metered_function (entry_fuel (instructions t') (length (instructions alloc))) ft body st args = Some res"
  shows "engine_execute env args result st = Some (Finished (outcome_of result res))"
proof -
  let ?t = "translator_new alloc metered False bulk locals_fuel limit" and ?k = "length (instructions alloc)"
  have t: "reachable ?t" "stack_height ?t = height_default" "locals_registered ?t = 0" "\<not> with_code_snippets ?t"
    "instructions ?t = instructions alloc" "func_reg ?t = func_reg alloc" "with_consume_fuel ?t = metered"
    "resolve_func_type_index f ?t = resolve_func_type_index f alloc"
    by (simp_all add: translator_new_def resolve_func_type_index_def)
  have words: "length (vals_words args) + local_words (body_locals body) + 2 * length (body_operators body) + 64 < 2 ^ 32"
    and small: "unat (max_height (stack_height t')) + length (vals_words args) + 1 < 2 ^ 32"
    using assms(7-9) unfolding N_MAX_STACK_SIZE_def by simp_all
  obtain s c code where code: "instructions t' = instructions alloc @ (SignatureCheck s # charge_code metered c) @
        StackCheck (max_height (stack_height t')) # code @ [Return]"
      and does: "\<forall>(env :: 'h env) st res. length (memory_of st) \<le> 2 ^ 31 \<longrightarrow> wasm_function ft body st args = Some res \<longrightarrow>
        computes env code (max_height (stack_height t')) st (rev (vals_words args))
          (map_sum id (\<lambda>(st, vs). (st, rev (vals_words vs))) res)"
    using function_translated [OF assms(1,2) t(1-4) _ _ _ _ assms(15) words small, unfolded t(5-8), OF assms(6,3,4,5)] by blast
  let ?n = "entry_fuel (instructions t') ?k"
  have n: "?n = (if metered then Some c else None)" using entry_fuel_code code by simp
  have head: "computes env (SignatureCheck s # charge_code metered c) 0 st (rev (vals_words args))
        (map_sum id (\<lambda>st. (st, rev (vals_words args))) (charged_entry ?n st))"
      using head_computes [OF assms(12), of env s ?n] unfolding n by (cases metered) (simp_all add: charge_code_def)
  have at: "code_at (code_section (module env)) ?k ((SignatureCheck s # charge_code metered c) @
        StackCheck (max_height (stack_height t')) # code @ [Return])"
      unfolding assms(10) code code_at_def by (intro exI [of _ "instructions alloc"] exI [of _ rest]) simp
  show ?thesis
  proof (rule function_runs [OF at assms(11,7,9) head])
    show "computes env code (max_height (stack_height t')) st0 (rev (vals_words args))
        (map_sum id (\<lambda>(st, vs). (st, rev (vals_words vs))) res)" if "charged_entry ?n st = Inr st0" for st0
      using does [rule_format, of st0 res env] charged_memory [OF that] assms(13) ref that by (simp add: metered_function_def)
    show "res = Inl e" if "charged_entry ?n st = Inl e" for e
      using ref that by (simp add: metered_function_def)
    show "plain_end res result" using metered_result [OF ref assms(14)] .
  qed simp
qed

definition sum_body :: func_body where
  "sum_body = \<lparr>body_locals = [(1, TI32)],
     body_operators = [W_local_get 0, W_local_get 1, W_i32_binop W_i32_add, W_end]\<rparr>"

definition sum_allocations :: translator where
  "sum_allocations = sample_translator\<lparr>instructions := [], func_offsets := [], compiled_funcs := [0],
     func_reg := \<lparr>original_func_types = [FuncType [TI32] [TI32]], func_types = [FuncType [TI32] [TI32]],
       original_signatures = [0]\<rparr>\<rparr>"

definition sum_code :: "opcode list" where
  "sum_code = [SignatureCheck 0, ConsumeFuel 6, StackCheck 3, BulkConst 1, LocalGet 2, LocalGet 2, I32Add,
     LocalSet 2, BulkDrop 1, Return]"

lemma patch_three: "patch_stack_check 3 i h is = patch_stack_check (Suc (Suc (Suc 0))) i h is"
  by (simp add: numeral_3_eq_3)

lemma sum_translates:
  "\<exists>t'. translate trusting_validator sample_policy 0 sum_body
       ((), translator_new sum_allocations True False False True 0) = ok ((), t') \<and>
     instructions t' = sum_code \<and> max_height (stack_height t') = 3"
  by (simp add: sum_code_def sum_body_def sum_allocations_def sample_translator_def trusting_validator_def translation_run patch_three
     push_consume_fuel_empty_def total_body_locals_def translate_local_group_def sample_policy_def
     or_panic_of push_block_value_def push_type_def pop_type_def type_width_def saturating_add_def validated_def bump_fuel_consumption_def ok_or_def checked_add_def Translator_Visits.visit_local_get_def relative_local_depth_def get_expressed_depth_def is_wide_def
     whenever_def push_stack_type_def translate_binary_def pop_stack_type_def drop_stack_type_def i32_binop_row_def)

lemma function_refines_witness:
  "engine_execute (sample_env sum_code) [I32 7] [I32 0] (sample_store 9) =
     Some (Finished (None, [I32 7], (sample_store 9)\<lparr>consumed_fuel := 6\<rparr>))"
proof -
  obtain t' where t': "translate trusting_validator sample_policy 0 sum_body
       ((), translator_new sum_allocations True False False True 0) = ok ((), t')"
    "instructions t' = sum_code" "max_height (stack_height t') = 3"
    using sum_translates by blast
  have "metered_function (entry_fuel (instructions t') (length (instructions sum_allocations)))
      (FuncType [TI32] [TI32]) sum_body (sample_store 9) [I32 7] = Some (Inr ((sample_store 9)\<lparr>consumed_fuel := 6\<rparr>, [I32 7]))"
    by (simp add: t'(2) sum_code_def entry_fuel_def sum_allocations_def metered_function_def charged_entry_def try_consume_fuel_def
       sample_store_def saturating_add_def wasm_function_def sum_body_def val_ty_def zeros_def local_types_def val_default_def
       wasm_op_def wasm_binary_def on_i32s_def i32_binop_sem_def push_or_trap_def)
  from function_refines [OF t'(1) _ _ _ _ _ _ _ _ _ _ _ _ _ _ this, where i = 0 and rest = "[]" and result = "[I32 0]"
      and env = "sample_env sum_code"] show ?thesis
    by (simp add: outcome_of_def plain_body_def sum_body_def straight_def registry_wf_def sum_allocations_def
        resolve_func_type_index_def resolve_original_func_type_def width_def is_wide_def t'(2,3) N_MAX_STACK_SIZE_def
        sample_env_def sample_store_def memory_of_def val_ty_def)
qed

end
